(* ===== verification/Go_Prelude.thy ===== *)
theory Go_Prelude
  imports Main "HOL-Library.Word" "HOL-Library.Sublist" "HOL-Library.Code_Target_Numeral" "HOL-Library.AList"
begin

text \<open>
  What the gateway uses of the Go language and its standard library, shared by every
  component theory:
  \<^item> Go strings are byte sequences (\<open>string\<close>, one \<open>char\<close> per byte); ranging over a string
    decodes UTF-8 (\<open>runes\<close>), with the replacement character for every invalid byte, and
    \<open>string_of_runes\<close> is the conversion \<^verbatim>\<open>string([]rune)\<close>;
  \<^item> the functions of package \<^verbatim>\<open>strings\<close> and \<^verbatim>\<open>unicode\<close> the sources call
    (\<open>TrimSpace\<close>, \<open>HasPrefix\<close>, \<open>ToUpper\<close>, \<open>ContainsAny\<close> and others);
  \<^item> \<^verbatim>\<open>strconv\<close> (\<open>itoa\<close>, \<open>Atoi\<close>) and \<^verbatim>\<open>encoding/hex\<close>;
  \<^item> slices and indexing, whose out-of-range use panics (\<open>at_idx\<close>, \<open>slice\<close>);
  \<^item> instants and durations as integers counting nanoseconds, the zero
    \<^verbatim>\<open>time.Time\<close> being 0, and 64-bit signed wrap-around (\<open>wrap64\<close>).
\<close>

unbundle bit_operations_syntax

named_theorems go_simps "simplification rules for the Go library functions"

section \<open>Types\<close>

type_synonym byte = "8 word"
type_synonym rune = nat
type_synonym gostring = string
type_synonym instant = int
type_synonym duration = int

section \<open>Results: error or value\<close>

fun bind_res :: "'e + 'a \<Rightarrow> ('a \<Rightarrow> 'e + 'b) \<Rightarrow> 'e + 'b" where
  "bind_res (Inl e) f = Inl e"
| "bind_res (Inr x) f = f x"

lemma bind_res_eq_Inr: "bind_res r f = Inr y \<longleftrightarrow> (\<exists>x. r = Inr x \<and> f x = Inr y)"
  by (cases r) auto

lemma bind_res_eq_Inl: "bind_res r f = Inl e \<longleftrightarrow> r = Inl e \<or> (\<exists>x. r = Inr x \<and> f x = Inl e)"
  by (cases r) auto

lemma bind_res_cong [fundef_cong]:
  "r = r' \<Longrightarrow> (\<And>x. r' = Inr x \<Longrightarrow> f x = g x) \<Longrightarrow> bind_res r f = bind_res r' g"
  by (cases r') auto

definition at_idx :: "'e \<Rightarrow> 'a list \<Rightarrow> nat \<Rightarrow> 'e + 'a" where
  "at_idx panic xs i = (if i < length xs then Inr (xs ! i) else Inl panic)"

definition slice :: "'e \<Rightarrow> 'a list \<Rightarrow> nat \<Rightarrow> nat \<Rightarrow> 'e + 'a list" where
  "slice panic xs i j =
     (if i \<le> j \<and> j \<le> length xs then Inr (take (j - i) (drop i xs)) else Inl panic)"

lemma at_idx_in [simp]: "i < length xs \<Longrightarrow> at_idx p xs i = Inr (xs ! i)"
  by (simp add: at_idx_def)

lemma slice_in [simp]:
  "i \<le> j \<Longrightarrow> j \<le> length xs \<Longrightarrow> slice p xs i j = Inr (take (j - i) (drop i xs))"
  by (simp add: slice_def)

section \<open>UTF-8\<close>

definition RuneError :: rune where
  "RuneError = 0xFFFD"

definition valid_rune :: "rune \<Rightarrow> bool" where
  "valid_rune r \<longleftrightarrow> r < 0xD800 \<or> (0xE000 \<le> r \<and> r \<le> 0x10FFFF)"

definition cont :: "nat \<Rightarrow> bool" where
  "cont b \<longleftrightarrow> 0x80 \<le> b \<and> b \<le> 0xBF"

text \<open>
  \<^verbatim>\<open>utf8.DecodeRune\<close>: the first rune of a byte sequence and its width; an invalid or
  truncated sequence is one byte of \<^const>\<open>RuneError\<close>.
\<close>

definition decode_rune :: "nat list \<Rightarrow> rune \<times> nat" where
  "decode_rune bs = (case bs of
     [] \<Rightarrow> (RuneError, 0)
   | b0 # r0 \<Rightarrow>
       if b0 < 0x80 then (b0, 1)
       else if 0xC2 \<le> b0 \<and> b0 \<le> 0xDF then
         (case r0 of
            b1 # _ \<Rightarrow> if cont b1 then ((b0 - 0xC0) * 64 + (b1 - 0x80), 2) else (RuneError, 1)
          | _ \<Rightarrow> (RuneError, 1))
       else if 0xE0 \<le> b0 \<and> b0 \<le> 0xEF then
         (case r0 of
            b1 # b2 # _ \<Rightarrow>
              if (if b0 = 0xE0 then 0xA0 else 0x80) \<le> b1 \<and> b1 \<le> (if b0 = 0xED then 0x9F else 0xBF)
                 \<and> cont b2
              then ((b0 - 0xE0) * 4096 + (b1 - 0x80) * 64 + (b2 - 0x80), 3)
              else (RuneError, 1)
          | _ \<Rightarrow> (RuneError, 1))
       else if 0xF0 \<le> b0 \<and> b0 \<le> 0xF4 then
         (case r0 of
            b1 # b2 # b3 # _ \<Rightarrow>
              if (if b0 = 0xF0 then 0x90 else 0x80) \<le> b1 \<and> b1 \<le> (if b0 = 0xF4 then 0x8F else 0xBF)
                 \<and> cont b2 \<and> cont b3
              then ((b0 - 0xF0) * 262144 + (b1 - 0x80) * 4096 + (b2 - 0x80) * 64 + (b3 - 0x80), 4)
              else (RuneError, 1)
          | _ \<Rightarrow> (RuneError, 1))
       else (RuneError, 1))"

definition encode_rune :: "rune \<Rightarrow> nat list" where
  "encode_rune r =
     (if r < 0x80 then [r]
      else if r < 0x800 then [0xC0 + r div 64, 0x80 + r mod 64]
      else if \<not> valid_rune r then [0xEF, 0xBF, 0xBD]
      else if r < 0x10000 then [0xE0 + r div 4096, 0x80 + r div 64 mod 64, 0x80 + r mod 64]
      else [0xF0 + r div 262144, 0x80 + r div 4096 mod 64, 0x80 + r div 64 mod 64, 0x80 + r mod 64])"

lemma decode_rune_width: "bs \<noteq> [] \<Longrightarrow> 0 < snd (decode_rune bs) \<and> snd (decode_rune bs) \<le> length bs"
  by (auto simp: decode_rune_def split: list.splits)

function segs :: "nat list \<Rightarrow> (rune \<times> nat list) list" where
  "segs bs =
     (if bs = [] then []
      else (fst (decode_rune bs), take (snd (decode_rune bs)) bs)
             # segs (drop (snd (decode_rune bs)) bs))"
  by pat_completeness auto
termination
  by (relation "measure length") (auto dest: decode_rune_width)

declare segs.simps [simp del]

lemma segs_Nil [simp]: "segs [] = []"
  by (simp add: segs.simps)

lemma segs_step:
  "bs \<noteq> [] \<Longrightarrow> segs bs = (fst (decode_rune bs), take (snd (decode_rune bs)) bs)
                   # segs (drop (snd (decode_rune bs)) bs)"
  by (subst segs.simps) simp

lemma segs_concat: "concat (map snd (segs bs)) = bs"
proof (induction bs rule: segs.induct)
  case (1 bs)
  then show ?case by (cases "bs = []") (simp_all add: segs_step)
qed

definition bytes_of :: "gostring \<Rightarrow> nat list" where
  "bytes_of s = map of_char s"

definition string_of_bytes :: "nat list \<Rightarrow> gostring" where
  "string_of_bytes bs = map char_of bs"

definition runes :: "gostring \<Rightarrow> rune list" where
  "runes s = map fst (segs (bytes_of s))"

definition string_of_runes :: "rune list \<Rightarrow> gostring" where
  "string_of_runes rs = string_of_bytes (concat (map encode_rune rs))"

text \<open>Base-64 digits of a code point: what the continuation bytes carry.\<close>

lemma digits2: "(c::nat) < 64 \<Longrightarrow> (a * 64 + c) div 64 = a \<and> (a * 64 + c) mod 64 = c"
  by simp

lemma digits3:
  assumes "(b::nat) < 64" "c < 64"
  shows "(a * 4096 + b * 64 + c) div 4096 = a" "(a * 4096 + b * 64 + c) div 64 = a * 64 + b"
    "(a * 4096 + b * 64 + c) mod 64 = c"
proof -
  have e: "a * 4096 + b * 64 + c = (a * 64 + b) * 64 + c" by simp
  show d: "(a * 4096 + b * 64 + c) div 64 = a * 64 + b"
    unfolding e using digits2[OF assms(2)] by blast
  show "(a * 4096 + b * 64 + c) mod 64 = c"
    unfolding e using digits2[OF assms(2)] by blast
  have "(a * 4096 + b * 64 + c) div 4096 = (a * 4096 + b * 64 + c) div 64 div 64"
    by (simp flip: div_mult2_eq)
  then show "(a * 4096 + b * 64 + c) div 4096 = a" using d digits2[OF assms(1)] by simp
qed

lemma digits4:
  assumes "(b::nat) < 64" "c < 64" "d < 64"
  shows "(a * 262144 + b * 4096 + c * 64 + d) div 262144 = a"
    "(a * 262144 + b * 4096 + c * 64 + d) div 4096 = a * 64 + b"
    "(a * 262144 + b * 4096 + c * 64 + d) div 64 = a * 4096 + b * 64 + c"
    "(a * 262144 + b * 4096 + c * 64 + d) mod 64 = d"
proof -
  let ?r = "a * 262144 + b * 4096 + c * 64 + d"
  have e: "?r = (a * 64 + b) * 4096 + c * 64 + d" by simp
  show "?r div 64 = a * 4096 + b * 64 + c"
    unfolding e using digits3(2)[OF assms(2,3), of "a*64+b"] by simp
  show "?r mod 64 = d" unfolding e using digits3(3)[OF assms(2,3), of "a*64+b"] by simp
  show u: "?r div 4096 = a * 64 + b"
    unfolding e using digits3(1)[OF assms(2,3), of "a*64+b"] by simp
  have "?r div 262144 = ?r div 4096 div 64" by (simp flip: div_mult2_eq)
  then show "?r div 262144 = a" using u digits2[OF assms(1)] by simp
qed

lemma ex_digits3: "\<exists>a b c. (r::nat) = a * 4096 + b * 64 + c \<and> b < 64 \<and> c < 64"
proof -
  have "r = r div 64 * 64 + r mod 64" "r div 64 = r div 64 div 64 * 64 + r div 64 mod 64"
    by simp_all
  then have "r = r div 64 div 64 * 4096 + r div 64 mod 64 * 64 + r mod 64" by linarith
  then show ?thesis by (meson mod_less_divisor zero_less_numeral)
qed

lemma ex_digits4:
  "\<exists>a b c d. (r::nat) = a * 262144 + b * 4096 + c * 64 + d \<and> b < 64 \<and> c < 64 \<and> d < 64"
proof -
  obtain a b c where 1: "r div 64 = a * 4096 + b * 64 + c" "b < 64" "c < 64"
    using ex_digits3 by blast
  have "r = r div 64 * 64 + r mod 64" by simp
  then have "r = a * 262144 + b * 4096 + c * 64 + r mod 64" using 1 by linarith
  then show ?thesis using 1 by (meson mod_less_divisor zero_less_numeral)
qed

lemma encode_rune1: "r < 0x80 \<Longrightarrow> encode_rune r = [r]"
  by (simp add: encode_rune_def)

lemma encode_rune2: "0x80 \<le> r \<Longrightarrow> r < 0x800 \<Longrightarrow> encode_rune r = [0xC0 + r div 64, 0x80 + r mod 64]"
  by (simp add: encode_rune_def)

lemma encode_rune3:
  assumes "b < 64" "c < 64" "0x800 \<le> a * 4096 + b * 64 + c" "a < 16"
    "valid_rune (a * 4096 + b * 64 + c)"
  shows "encode_rune (a * 4096 + b * 64 + c) = [0xE0 + a, 0x80 + b, 0x80 + c]"
proof -
  have "\<not> a * 4096 + b * 64 + c < 0x800" "\<not> a * 4096 + b * 64 + c < 0x80"
    "a * 4096 + b * 64 + c < 0x10000"
    using assms by linarith+
  then show ?thesis
    using assms(5) by (simp only: encode_rune_def if_True if_False not_True_eq_False
      digits3[OF assms(1,2)] digits2[OF assms(1)])
qed

lemma encode_rune4:
  assumes "b < 64" "c < 64" "d < 64" "0x10000 \<le> a * 262144 + b * 4096 + c * 64 + d"
    "valid_rune (a * 262144 + b * 4096 + c * 64 + d)"
  shows "encode_rune (a * 262144 + b * 4096 + c * 64 + d) = [0xF0 + a, 0x80 + b, 0x80 + c, 0x80 + d]"
proof -
  have n: "\<not> a * 262144 + b * 4096 + c * 64 + d < 0x10000"
    "\<not> a * 262144 + b * 4096 + c * 64 + d < 0x800" "\<not> a * 262144 + b * 4096 + c * 64 + d < 0x80"
    using assms(4) by linarith+
  have m: "(a * 4096 + b * 64 + c) mod 64 = c" by (rule digits3(3)[OF assms(1,2)])
  show ?thesis
    using n assms(5) by (simp only: encode_rune_def if_True if_False not_True_eq_False
      digits4[OF assms(1-3)] digits2[OF assms(1)] m)
qed

lemma decode_encode_rune:
  assumes "valid_rune r"
  shows "decode_rune (encode_rune r @ rest) = (r, length (encode_rune r))"
proof -
  consider "r < 0x80" | "0x80 \<le> r" "r < 0x800" | "0x800 \<le> r" "r < 0x10000" | "0x10000 \<le> r"
    by linarith
  then show ?thesis
  proof cases
    case 1
    then show ?thesis by (simp add: encode_rune_def decode_rune_def)
  next
    case 2
    then show ?thesis by (simp add: encode_rune_def decode_rune_def cont_def) linarith
  next
    case 3
    obtain a b c where r: "r = a * 4096 + b * 64 + c" "b < 64" "c < 64" using ex_digits3 by blast
    have a: "a < 16" using 3 r by linarith
    have e: "encode_rune r = [0xE0 + a, 0x80 + b, 0x80 + c]"
      unfolding r(1) by (rule encode_rune3) (use 3 r a assms in simp_all)
    have "a = 0 \<Longrightarrow> 0x20 \<le> b" "a = 13 \<Longrightarrow> b \<le> 0x1F"
      using 3 r assms unfolding valid_rune_def by linarith+
    then show ?thesis unfolding e using r a by (auto simp: decode_rune_def cont_def)
  next
    case 4
    obtain a b c d where r: "r = a * 262144 + b * 4096 + c * 64 + d" "b < 64" "c < 64" "d < 64"
      using ex_digits4 by blast
    have a: "a \<le> 4" using r assms unfolding valid_rune_def by linarith
    have e: "encode_rune r = [0xF0 + a, 0x80 + b, 0x80 + c, 0x80 + d]"
      unfolding r(1) by (rule encode_rune4) (use 4 r assms in simp_all)
    have "a = 0 \<Longrightarrow> 0x10 \<le> b" "a = 4 \<Longrightarrow> b \<le> 0xF"
      using 4 r assms unfolding valid_rune_def by linarith+
    then show ?thesis unfolding e using r a by (auto simp: decode_rune_def cont_def)
  qed
qed

lemma encode_rune_not_Nil [simp]: "encode_rune r \<noteq> []"
  by (simp add: encode_rune_def)

lemma segs_encode_rune:
  "valid_rune r \<Longrightarrow> segs (encode_rune r @ rest) = (r, encode_rune r) # segs rest"
  by (simp add: segs_step decode_encode_rune)

lemma segs_encode_runes:
  "list_all valid_rune rs \<Longrightarrow>
   segs (concat (map encode_rune rs)) = map (\<lambda>r. (r, encode_rune r)) rs"
  by (induction rs) (simp_all add: segs_encode_rune)

lemma encode_rune_byte:
  assumes "b \<in> set (encode_rune r)"
  shows "b < 256"
proof -
  have "valid_rune r \<Longrightarrow> r div 262144 \<le> 4"
    unfolding valid_rune_def by linarith
  then show ?thesis
    using assms by (auto simp: encode_rune_def split: if_splits)
qed

lemma bytes_of_string_of_bytes: "list_all (\<lambda>b. b < 256) bs \<Longrightarrow> bytes_of (string_of_bytes bs) = bs"
  by (induction bs) (simp_all add: bytes_of_def string_of_bytes_def)

lemma string_of_bytes_bytes_of [simp]: "string_of_bytes (bytes_of s) = s"
  by (simp add: string_of_bytes_def bytes_of_def o_def)

lemma encode_runes_bytes: "list_all (\<lambda>b. b < 256) (concat (map encode_rune rs))"
  by (auto simp: list_all_iff dest: encode_rune_byte)

lemma runes_string_of_runes: "list_all valid_rune rs \<Longrightarrow> runes (string_of_runes rs) = rs"
  by (simp add: runes_def string_of_runes_def bytes_of_string_of_bytes encode_runes_bytes
      segs_encode_runes o_def)

text \<open>Decoding never yields a surrogate or an out-of-range code point, and re-encoding a
  proper rune gives its bytes back.\<close>

lemma decode_rune_cases:
  obtains (err) "fst (decode_rune bs) = RuneError"
  | (one) b t where "bs = b # t" "b < 0x80" "decode_rune bs = (b, 1)"
  | (two) a c t where "bs = (0xC0 + a) # (0x80 + c) # t" "2 \<le> a" "a < 32" "c < 64"
      "decode_rune bs = (a * 64 + c, 2)"
  | (three) a b c t where "bs = (0xE0 + a) # (0x80 + b) # (0x80 + c) # t" "a < 16" "b < 64" "c < 64"
      "0x800 \<le> a * 4096 + b * 64 + c" "valid_rune (a * 4096 + b * 64 + c)"
      "decode_rune bs = (a * 4096 + b * 64 + c, 3)"
  | (four) a b c d t where "bs = (0xF0 + a) # (0x80 + b) # (0x80 + c) # (0x80 + d) # t"
      "a \<le> 4" "b < 64" "c < 64" "d < 64" "0x10000 \<le> a * 262144 + b * 4096 + c * 64 + d"
      "valid_rune (a * 262144 + b * 4096 + c * 64 + d)"
      "decode_rune bs = (a * 262144 + b * 4096 + c * 64 + d, 4)"
proof -
  show ?thesis
  proof (cases "fst (decode_rune bs) = RuneError")
    case True
    then show ?thesis by (rule err)
  next
    case ne: False
    then obtain b0 r0 where bs: "bs = b0 # r0" by (cases bs) (auto simp: decode_rune_def)
    consider "b0 < 0x80" | "0xC2 \<le> b0" "b0 \<le> 0xDF" | "0xE0 \<le> b0" "b0 \<le> 0xEF"
      | "0xF0 \<le> b0" "b0 \<le> 0xF4"
      using ne bs by (auto simp: decode_rune_def split: if_splits)
    then show ?thesis
    proof cases
      case 1
      then show ?thesis using bs by (auto intro!: one simp: decode_rune_def)
    next
      case 2
      then obtain b1 t where t: "r0 = b1 # t" "cont b1" "decode_rune bs = ((b0 - 0xC0) * 64 + (b1 - 0x80), 2)"
        using ne bs by (auto simp: decode_rune_def split: list.splits if_splits)
      then show ?thesis
        using 2 bs by (intro two [of "b0 - 0xC0" "b1 - 0x80" t]) (auto simp: cont_def)
    next
      case 3
      then obtain b1 b2 t where t: "r0 = b1 # b2 # t" "cont b2" "0x80 \<le> b1" "b1 \<le> 0xBF"
        "b0 = 0xE0 \<Longrightarrow> 0xA0 \<le> b1" "b0 = 0xED \<Longrightarrow> b1 \<le> 0x9F"
        "decode_rune bs = ((b0 - 0xE0) * 4096 + (b1 - 0x80) * 64 + (b2 - 0x80), 3)"
        using ne bs by (auto simp: decode_rune_def split: list.splits if_splits)
      define a b c where "a = b0 - 0xE0" "b = b1 - 0x80" "c = b2 - 0x80"
      then have e: "b0 = 0xE0 + a" "b1 = 0x80 + b" "b2 = 0x80 + c" "a < 16" "b < 64" "c < 64"
        using 3 t by (auto simp: cont_def)
      have lo: "0x800 \<le> a * 4096 + b * 64 + c" using e t(5) by (cases "a = 0") auto
      have "valid_rune (a * 4096 + b * 64 + c)"
        using e t(6) unfolding valid_rune_def by (cases "a = 13") auto
      then show ?thesis using t e lo bs by (intro three [of a b c t]) auto
    next
      case 4
      then obtain b1 b2 b3 t where t: "r0 = b1 # b2 # b3 # t" "cont b2" "cont b3" "0x80 \<le> b1" "b1 \<le> 0xBF"
        "b0 = 0xF0 \<Longrightarrow> 0x90 \<le> b1" "b0 = 0xF4 \<Longrightarrow> b1 \<le> 0x8F"
        "decode_rune bs = ((b0 - 0xF0) * 262144 + (b1 - 0x80) * 4096 + (b2 - 0x80) * 64 + (b3 - 0x80), 4)"
        using ne bs by (auto simp: decode_rune_def split: list.splits if_splits)
      define a b c d where "a = b0 - 0xF0" "b = b1 - 0x80" "c = b2 - 0x80" "d = b3 - 0x80"
      then have e: "b0 = 0xF0 + a" "b1 = 0x80 + b" "b2 = 0x80 + c" "b3 = 0x80 + d" "a \<le> 4"
        "b < 64" "c < 64" "d < 64"
        using 4 t by (auto simp: cont_def)
      have lo: "0x10000 \<le> a * 262144 + b * 4096 + c * 64 + d" using e t(6) by (cases "a = 0") auto
      have "valid_rune (a * 262144 + b * 4096 + c * 64 + d)"
        using e lo t(7) unfolding valid_rune_def by (cases "a = 4") auto
      then show ?thesis using t e lo bs by (intro four [of a b c d t]) auto
    qed
  qed
qed

lemma encode_decode_rune:
  assumes "fst (decode_rune bs) \<noteq> RuneError"
  shows "encode_rune (fst (decode_rune bs)) = take (snd (decode_rune bs)) bs"
  using assms by (cases bs rule: decode_rune_cases)
    (auto simp: encode_rune1 encode_rune2 encode_rune3 encode_rune4)

lemma decode_rune_valid: "valid_rune (fst (decode_rune bs))"
  by (cases bs rule: decode_rune_cases) (auto simp: valid_rune_def RuneError_def)

lemma runes_valid: "list_all valid_rune (runes s)"
proof -
  have "list_all valid_rune (map fst (segs bs))" for bs
    by (induction bs rule: segs.induct) (subst segs.simps, simp add: decode_rune_valid)
  then show ?thesis by (simp add: runes_def)
qed

lemma string_of_runes_runes:
  assumes "RuneError \<notin> set (runes s)"
  shows "string_of_runes (runes s) = s"
proof -
  have "RuneError \<notin> set (map fst (segs bs)) \<Longrightarrow> concat (map encode_rune (map fst (segs bs))) = bs" for bs
  proof (induction bs rule: segs.induct)
    case (1 bs)
    then show ?case
      by (cases "bs = []") (auto simp: segs_step encode_decode_rune)
  qed
  then show ?thesis using assms by (simp add: runes_def string_of_runes_def)
qed

text \<open>Plain ASCII: one byte per rune.\<close>

definition is_ascii :: "gostring \<Rightarrow> bool" where
  "is_ascii s \<longleftrightarrow> list_all (\<lambda>c. of_char c < (0x80::nat)) s"

lemma is_ascii_simps [simp]:
  "is_ascii []"
  "is_ascii (c # s) \<longleftrightarrow> of_char c < (0x80::nat) \<and> is_ascii s"
  "is_ascii (s @ t) \<longleftrightarrow> is_ascii s \<and> is_ascii t"
  by (simp_all add: is_ascii_def)

lemma segs_small: "b < 0x80 \<Longrightarrow> segs (b # bs) = (b, [b]) # segs bs"
  by (subst segs.simps) (simp add: decode_rune_def)

lemma segs_ascii: "is_ascii s \<Longrightarrow> segs (bytes_of s) = map (\<lambda>c. (of_char c, [of_char c])) s"
  by (induction s) (simp_all add: bytes_of_def segs_small)

lemma runes_Nil [simp]: "runes [] = []"
  by (simp add: runes_def bytes_of_def)

lemma runes_ascii: "is_ascii s \<Longrightarrow> runes s = map of_char s"
  by (simp add: runes_def segs_ascii o_def)

lemma runes_eq_Nil [simp]: "runes s = [] \<longleftrightarrow> s = []"
  by (cases s) (simp_all add: runes_def bytes_of_def segs_step)

lemma string_of_runes_Nil [simp]: "string_of_runes [] = []"
  by (simp add: string_of_runes_def string_of_bytes_def)

lemma string_of_runes_append [simp]:
  "string_of_runes (xs @ ys) = string_of_runes xs @ string_of_runes ys"
  by (simp add: string_of_runes_def string_of_bytes_def)

lemma string_of_runes_small [simp]:
  "r < 0x80 \<Longrightarrow> string_of_runes (r # rs) = char_of r # string_of_runes rs"
  by (simp add: string_of_runes_def string_of_bytes_def encode_rune1)

lemma string_of_runes_ascii:
  "list_all (\<lambda>r. r < 0x80) rs \<Longrightarrow> string_of_runes rs = map char_of rs"
  by (induction rs) simp_all

lemma is_ascii_map_char_of: "list_all (\<lambda>r. r < (0x80::nat)) rs \<Longrightarrow> is_ascii (map char_of rs)"
  by (induction rs) simp_all

section \<open>Package unicode and strings\<close>

text \<open>
  \<^verbatim>\<open>unicode.IsSpace\<close>, exactly. Letters and upper case are given by Unicode tables: the
  ASCII part is written out as in Go's own fast path, and the part beyond ASCII is a
  parameter (\<open>lt\<close>, \<open>up\<close>) of every definition that depends on it.
\<close>

definition IsSpace :: "rune \<Rightarrow> bool" where
  "IsSpace r \<longleftrightarrow> r \<in> set [0x09, 0x0A, 0x0B, 0x0C, 0x0D, 0x20, 0x85, 0xA0, 0x1680, 0x2028, 0x2029,
                       0x202F, 0x205F, 0x3000] \<or> (0x2000 \<le> r \<and> r \<le> 0x200A)"

definition IsLetter :: "(rune \<Rightarrow> bool) \<Rightarrow> rune \<Rightarrow> bool" where
  "IsLetter lt r \<longleftrightarrow>
     (if r < 0x80 then (65 \<le> r \<and> r \<le> 90) \<or> (97 \<le> r \<and> r \<le> 122) else lt r)"

definition ToUpper_rune :: "(rune \<Rightarrow> rune) \<Rightarrow> rune \<Rightarrow> rune" where
  "ToUpper_rune up r =
     (if r < 0x80 then (if 97 \<le> r \<and> r \<le> 122 then r - 32 else r) else up r)"

definition strings_ToUpper :: "(rune \<Rightarrow> rune) \<Rightarrow> gostring \<Rightarrow> gostring" where
  "strings_ToUpper up s = string_of_runes (map (ToUpper_rune up) (runes s))"

definition ToLower_rune :: "(rune \<Rightarrow> rune) \<Rightarrow> rune \<Rightarrow> rune" where
  "ToLower_rune lo r =
     (if r < 0x80 then (if 65 \<le> r \<and> r \<le> 90 then r + 32 else r) else lo r)"

definition strings_ToLower :: "(rune \<Rightarrow> rune) \<Rightarrow> gostring \<Rightarrow> gostring" where
  "strings_ToLower lo s = string_of_runes (map (ToLower_rune lo) (runes s))"

definition trim_by :: "('a \<Rightarrow> bool) \<Rightarrow> 'a list \<Rightarrow> 'a list" where
  "trim_by P xs = rev (dropWhile P (rev (dropWhile P xs)))"

definition TrimSpace :: "gostring \<Rightarrow> gostring" where
  "TrimSpace s = string_of_bytes (concat (map snd (trim_by (\<lambda>(r, _). IsSpace r) (segs (bytes_of s)))))"

definition Trim_ascii :: "gostring \<Rightarrow> gostring \<Rightarrow> gostring" where
  "Trim_ascii s cutset = trim_by (\<lambda>c. c \<in> set cutset) s"

definition HasPrefix :: "gostring \<Rightarrow> gostring \<Rightarrow> bool" where
  "HasPrefix s p \<longleftrightarrow> take (length p) s = p"

definition HasSuffix :: "gostring \<Rightarrow> gostring \<Rightarrow> bool" where
  "HasSuffix s p \<longleftrightarrow> length p \<le> length s \<and> drop (length s - length p) s = p"

definition TrimPrefix :: "gostring \<Rightarrow> gostring \<Rightarrow> gostring" where
  "TrimPrefix s p = (if HasPrefix s p then drop (length p) s else s)"

definition ContainsAny_ascii :: "gostring \<Rightarrow> gostring \<Rightarrow> bool" where
  "ContainsAny_ascii s chars \<longleftrightarrow> list_ex (\<lambda>c. c \<in> set chars) s"

fun IndexByte :: "gostring \<Rightarrow> char \<Rightarrow> nat option" where
  "IndexByte [] c = None"
| "IndexByte (x # xs) c = (if x = c then Some 0 else map_option Suc (IndexByte xs c))"

fun LastIndexByte :: "gostring \<Rightarrow> char \<Rightarrow> nat option" where
  "LastIndexByte [] c = None"
| "LastIndexByte (x # xs) c = (case LastIndexByte xs c of
      Some i \<Rightarrow> Some (Suc i) | None \<Rightarrow> if x = c then Some 0 else None)"

fun Index :: "gostring \<Rightarrow> gostring \<Rightarrow> nat option" where
  "Index [] sub = (if sub = [] then Some 0 else None)"
| "Index (x # xs) sub = (if HasPrefix (x # xs) sub then Some 0 else map_option Suc (Index xs sub))"

definition Contains :: "gostring \<Rightarrow> gostring \<Rightarrow> bool" where
  "Contains s sub \<longleftrightarrow> Index s sub \<noteq> None"

fun Split :: "gostring \<Rightarrow> char \<Rightarrow> gostring list" where
  "Split [] sep = [[]]"
| "Split (x # xs) sep = (case Split xs sep of
     p # ps \<Rightarrow> if x = sep then [] # p # ps else (x # p) # ps
   | [] \<Rightarrow> [[x]])"

fun Join :: "gostring list \<Rightarrow> gostring \<Rightarrow> gostring" where
  "Join [] sep = []"
| "Join [p] sep = p"
| "Join (p # q # ps) sep = p @ sep @ Join (q # ps) sep"

fun fields_of :: "(rune \<times> nat list) list \<Rightarrow> nat list \<Rightarrow> nat list list" where
  "fields_of [] acc = (if acc = [] then [] else [acc])"
| "fields_of ((r, b) # xs) acc =
     (if IsSpace r then (if acc = [] then fields_of xs [] else acc # fields_of xs [])
      else fields_of xs (acc @ b))"

definition Fields :: "gostring \<Rightarrow> gostring list" where
  "Fields s = map string_of_bytes (fields_of (segs (bytes_of s)) [])"

section \<open>strconv, hex and fixed-width integers\<close>

definition digit_char :: "nat \<Rightarrow> char" where
  "digit_char d = char_of (48 + d)"

fun nat_dec :: "nat \<Rightarrow> gostring" where
  "nat_dec n = (if n < 10 then [digit_char n] else nat_dec (n div 10) @ [digit_char (n mod 10)])"

declare nat_dec.simps [simp del]

definition itoa :: "int \<Rightarrow> gostring" where
  "itoa i = (if i < 0 then CHR ''-'' # nat_dec (nat (- i)) else nat_dec (nat i))"

definition is_digit :: "rune \<Rightarrow> bool" where
  "is_digit r \<longleftrightarrow> 48 \<le> r \<and> r \<le> 57"

definition is_digit_char :: "char \<Rightarrow> bool" where
  "is_digit_char c \<longleftrightarrow> is_digit (of_char c)"

definition dec_val :: "gostring \<Rightarrow> nat" where
  "dec_val s = foldl (\<lambda>v c. v * 10 + (of_char c - 48)) 0 s"

definition Atoi :: "gostring \<Rightarrow> int option" where
  "Atoi s =
     (let neg = HasPrefix s ''-'';
          ds = (if neg \<or> HasPrefix s ''+'' then drop 1 s else s)
      in if ds = [] \<or> \<not> list_all is_digit_char ds then None
         else let v = (if neg then - int (dec_val ds) else int (dec_val ds))
              in if - (2 ^ 63) \<le> v \<and> v < 2 ^ 63 then Some v else None)"

definition wrap64 :: "int \<Rightarrow> int" where
  "wrap64 x = (x + 2 ^ 63) mod 2 ^ 64 - 2 ^ 63"

definition hex_char :: "nat \<Rightarrow> char" where
  "hex_char n = (if n < 10 then char_of (48 + n) else char_of (55 + n))"

definition hex_byte :: "byte \<Rightarrow> gostring" where
  "hex_byte b = [hex_char (unat b div 16), hex_char (unat b mod 16)]"

definition hexString :: "byte list \<Rightarrow> gostring" where
  "hexString bs = concat (map hex_byte bs)"

definition from_hex_char :: "char \<Rightarrow> nat option" where
  "from_hex_char c = (let n = of_char c in
     if 48 \<le> n \<and> n \<le> 57 then Some (n - 48)
     else if 97 \<le> n \<and> n \<le> 102 then Some (n - 87)
     else if 65 \<le> n \<and> n \<le> 70 then Some (n - 55)
     else None)"

fun hex_DecodeString :: "gostring \<Rightarrow> byte list option" where
  "hex_DecodeString [] = Some []"
| "hex_DecodeString [c] = None"
| "hex_DecodeString (a # b # s) = (case (from_hex_char a, from_hex_char b) of
     (Some x, Some y) \<Rightarrow> map_option (\<lambda>bs. word_of_nat (16 * x + y) # bs) (hex_DecodeString s)
   | _ \<Rightarrow> None)"

section \<open>Library lemmas\<close>

lemma unat_byte: "unat (b::byte) < 256"
  using unsigned_less [where w = b and 'a = nat] by simp

lemma from_hex_hex_char [simp]: "n < 16 \<Longrightarrow> from_hex_char (hex_char n) = Some n"
  by (auto simp: from_hex_char_def hex_char_def Let_def)

lemma hex_DecodeString_byte [simp]:
  "hex_DecodeString (hex_byte b @ s) = map_option (\<lambda>bs. b # bs) (hex_DecodeString s)"
proof -
  have "unat b div 16 < 16" using unat_byte [of b] by (simp add: div_less_iff_less_mult)
  then show ?thesis by (simp add: hex_byte_def)
qed

lemma hexString_simps [simp]:
  "hexString [] = []" "hexString (b # bs) = hex_byte b @ hexString bs"
  "hexString (bs @ cs) = hexString bs @ hexString cs"
  by (simp_all add: hexString_def)

lemma hex_DecodeString_hexString [simp]: "hex_DecodeString (hexString bs) = Some bs"
  by (induction bs) simp_all

lemma length_hex_byte [simp]: "length (hex_byte b) = 2"
  by (simp add: hex_byte_def)

lemma length_hexString [simp]: "length (hexString bs) = 2 * length bs"
  by (induction bs) simp_all

text \<open>The characters of a hexadecimal string are digits and upper-case letters A to F.\<close>

lemma hexString_char:
  assumes "c \<in> set (hexString bs)"
  shows "is_digit (of_char c) \<or> (65 \<le> (of_char c :: nat) \<and> of_char c \<le> (70 :: nat))"
  using assms
proof (induction bs)
  case (Cons b bs)
  have h: "is_digit (of_char (hex_char n)) \<or> (65 \<le> (of_char (hex_char n) :: nat) \<and> of_char (hex_char n) \<le> (70 :: nat))" if "n < 16" for n
    using that by (auto simp: hex_char_def is_digit_def)
  have d: "unat b div 16 < 16" "unat b mod 16 < 16" using unat_byte [of b] by (simp_all add: div_less_iff_less_mult)
  show ?case using Cons h [OF d(1)] h [OF d(2)] by (auto simp: hex_byte_def)
qed simp

lemma hexString_ascii: "is_ascii (hexString bs)"
  using hexString_char [of _ bs] by (fastforce simp: is_ascii_def list_all_iff is_digit_def)

lemma HasPrefix_append [simp]: "HasPrefix (p @ s) p"
  by (simp add: HasPrefix_def)

lemma HasPrefix_conv_prefix: "HasPrefix s p \<longleftrightarrow> prefix p s"
  unfolding HasPrefix_def by (metis append_eq_conv_conj prefix_def take_is_prefix)

lemma HasPrefixE: "HasPrefix s p \<Longrightarrow> (\<And>t. s = p @ t \<Longrightarrow> P) \<Longrightarrow> P"
  by (auto simp: HasPrefix_conv_prefix prefix_def)

lemma HasPrefix_Cons_Cons: "HasPrefix (x # s) (y # p) \<longleftrightarrow> x = y \<and> HasPrefix s p"
  by (auto simp: HasPrefix_def)

lemma HasPrefix_Nil2 [simp]: "HasPrefix s []"
  by (simp add: HasPrefix_def)

lemma HasPrefix_single: "HasPrefix s [c] \<longleftrightarrow> (\<exists>t. s = c # t)"
  by (cases s) (simp_all add: HasPrefix_def)

lemma trim_by_id: "xs = [] \<or> \<not> P (hd xs) \<and> \<not> P (last xs) \<Longrightarrow> trim_by P xs = xs"
proof (cases "xs = []")
  case False
  moreover assume "xs = [] \<or> \<not> P (hd xs) \<and> \<not> P (last xs)"
  ultimately have "dropWhile P xs = xs" "dropWhile P (rev xs) = rev xs"
    by (simp_all add: dropWhile_eq_self_iff hd_rev)
  then show ?thesis by (simp add: trim_by_def)
qed (simp add: trim_by_def)

lemma dropWhile_rev_Nil: "dropWhile P (rev (dropWhile P xs)) = [] \<longleftrightarrow> dropWhile P xs = []"
proof (cases "dropWhile P xs = []")
  case False
  then have "hd (dropWhile P xs) \<in> set (rev (dropWhile P xs))" "\<not> P (hd (dropWhile P xs))"
    by (simp_all add: hd_dropWhile)
  then have "dropWhile P (rev (dropWhile P xs)) \<noteq> []"
    by (meson dropWhile_eq_Nil_conv)
  with False show ?thesis by blast
qed (auto dest: set_dropWhileD)

lemma trim_by_eq_Nil: "trim_by P xs = [] \<longleftrightarrow> list_all P xs"
proof -
  have "trim_by P xs = [] \<longleftrightarrow> dropWhile P xs = []"
    unfolding trim_by_def rev_is_Nil_conv by (rule dropWhile_rev_Nil)
  then show ?thesis by (simp add: list_all_iff dropWhile_eq_Nil_conv)
qed

lemma trim_by_ends:
  assumes "trim_by P xs \<noteq> []"
  shows "\<not> P (hd (trim_by P xs))" "\<not> P (last (trim_by P xs))"
proof -
  let ?d = "dropWhile P (rev (dropWhile P xs))"
  have d: "?d \<noteq> []" using assms by (simp add: trim_by_def)
  have "\<not> P (hd ?d)" using hd_dropWhile [OF d] .
  then show "\<not> P (last (trim_by P xs))" using d by (simp add: trim_by_def last_rev)
  have x: "dropWhile P xs \<noteq> []" using d by (metis dropWhile.simps(1) rev.simps(1))
  have "last ?d = last (rev (dropWhile P xs))"
    using d by (metis last_appendR takeWhile_dropWhile_id)
  also have "\<dots> = hd (dropWhile P xs)" by (simp add: last_rev)
  finally show "\<not> P (hd (trim_by P xs))"
    using d x hd_dropWhile [OF x] by (simp add: trim_by_def hd_rev)
qed

lemma trim_by_idem [simp]: "trim_by P (trim_by P xs) = trim_by P xs"
  by (rule trim_by_id) (auto dest: trim_by_ends)

lemma set_trim_by: "set (trim_by P xs) \<subseteq> set xs"
  unfolding trim_by_def by (auto dest!: set_dropWhileD)

lemma trim_by_map: "trim_by P (map f xs) = map f (trim_by (P \<circ> f) xs)"
  by (simp add: trim_by_def dropWhile_map rev_map)

lemma segs_segment: "x \<in> set (segs bs) \<Longrightarrow> snd x \<noteq> []"
proof (induction bs rule: segs.induct)
  case (1 bs)
  then have ne: "bs \<noteq> []" by auto
  then have "take (snd (decode_rune bs)) bs \<noteq> []"
    using decode_rune_width [OF ne] by simp
  with 1 ne show ?case by (auto simp: segs_step [OF ne])
qed

lemma TrimSpace_Nil [simp]: "TrimSpace [] = []"
  by (simp add: TrimSpace_def bytes_of_def trim_by_def string_of_bytes_def)

lemma TrimSpace_ascii:
  "is_ascii s \<Longrightarrow> TrimSpace s = trim_by (\<lambda>c. IsSpace (of_char c)) s"
  by (simp add: TrimSpace_def segs_ascii trim_by_map o_def string_of_bytes_def)

lemma TrimSpace_eq_Nil: "TrimSpace s = [] \<longleftrightarrow> list_all IsSpace (runes s)"
proof -
  have "concat (map snd xs) = [] \<longleftrightarrow> xs = []" if "set xs \<subseteq> set (segs (bytes_of s))"
    for xs :: "(rune \<times> nat list) list"
    using that by (cases xs) (auto dest: segs_segment)
  then have "TrimSpace s = [] \<longleftrightarrow> trim_by (\<lambda>(r, _). IsSpace r) (segs (bytes_of s)) = []"
    by (simp only: TrimSpace_def string_of_bytes_def map_is_Nil_conv set_trim_by)
  then show ?thesis
    by (simp add: trim_by_eq_Nil runes_def list_all_iff split_beta)
qed

lemma TrimSpace_id:
  "is_ascii s \<Longrightarrow> s = [] \<or> \<not> IsSpace (of_char (hd s)) \<and> \<not> IsSpace (of_char (last s)) \<Longrightarrow> TrimSpace s = s"
  by (simp add: TrimSpace_ascii trim_by_id)

text \<open>Decimal notation.\<close>

lemma dec_val_snoc [simp]: "dec_val (s @ [c]) = dec_val s * 10 + (of_char c - 48)"
  by (simp add: dec_val_def)

lemma of_digit_char [simp]: "d < 10 \<Longrightarrow> of_char (digit_char d) = 48 + d"
  by (simp add: digit_char_def)

lemma dec_val_nat_dec [simp]: "dec_val (nat_dec n) = n"
proof (induction n rule: nat_dec.induct)
  case (1 n)
  then show ?case
    by (subst nat_dec.simps) (auto simp: dec_val_def [of "[_]"])
qed

lemma nat_dec_inj: "nat_dec m = nat_dec n \<longleftrightarrow> m = n"
  by (metis dec_val_nat_dec)

lemma nat_dec_digits: "c \<in> set (nat_dec n) \<Longrightarrow> is_digit_char c"
proof (induction n rule: nat_dec.induct)
  case (1 n)
  then show ?case
    by (subst (asm) (2) nat_dec.simps)
      (auto simp: is_digit_char_def is_digit_def split: if_splits)
qed

lemma nat_dec_not_Nil [simp]: "nat_dec n \<noteq> []"
  by (subst nat_dec.simps) simp

lemma wrap64_id: "- (2 ^ 63) \<le> x \<Longrightarrow> x < 2 ^ 63 \<Longrightarrow> wrap64 x = x"
  by (simp add: wrap64_def)

lemma wrap64_range: "- (2 ^ 63) \<le> wrap64 x \<and> wrap64 x < 2 ^ 63"
  by (simp add: wrap64_def)

text \<open>Phone numbers: digits, with or without a plus.\<close>

definition digit_string :: "gostring \<Rightarrow> bool" where
  "digit_string d \<longleftrightarrow> d \<noteq> [] \<and> list_all is_digit_char d"

lemma digit_string_facts:
  assumes "digit_string d"
  shows "TrimSpace d = d" "TrimSpace (CHR ''+'' # d) = CHR ''+'' # d" "\<not> HasPrefix d ''+''"
    "string_of_runes (filter is_digit (runes d)) = d"
    "string_of_runes (filter is_digit (runes (CHR ''+'' # d))) = d"
    "filter is_digit (runes d) = map of_char d"
proof -
  have dig: "48 \<le> (of_char c :: nat) \<and> of_char c \<le> (57 :: nat)" if "c \<in> set d" for c
    using assms that by (auto simp: digit_string_def list_all_iff is_digit_char_def is_digit_def)
  have asc: "is_ascii d" using dig by (fastforce simp: is_ascii_def list_all_iff)
  have sp: "\<not> IsSpace (of_char c)" if "c \<in> set d" for c using dig [OF that] by (auto simp: IsSpace_def)
  have ne: "d \<noteq> []" using assms by (simp add: digit_string_def)
  then have e: "hd d \<in> set d" "last d \<in> set d" by simp_all
  show "TrimSpace d = d" using asc sp e by (intro TrimSpace_id) auto
  show "TrimSpace (CHR ''+'' # d) = CHR ''+'' # d"
    using asc sp [OF e(2)] ne by (intro TrimSpace_id) (auto simp: IsSpace_def)
  show "\<not> HasPrefix d ''+''"
  proof
    assume "HasPrefix d ''+''"
    then have "CHR ''+'' \<in> set d" by (auto simp: HasPrefix_single)
    with dig show False by fastforce
  qed
  have f: "filter is_digit (map of_char d) = map of_char d"
    using assms by (simp add: filter_id_conv digit_string_def list_all_iff is_digit_char_def)
  have "is_digit 43 = False" by (simp add: is_digit_def)
  moreover have "string_of_runes (map of_char d) = d"
    using asc by (subst string_of_runes_ascii) (simp_all add: is_ascii_def list_all_iff o_def)
  ultimately show "string_of_runes (filter is_digit (runes d)) = d"
    "string_of_runes (filter is_digit (runes (CHR ''+'' # d))) = d"
    "filter is_digit (runes d) = map of_char d"
    using f asc by (simp_all add: runes_ascii)
qed

text \<open>Splitting and joining.\<close>

lemma Split_not_Nil [simp]: "Split s sep \<noteq> []"
  by (cases s) (simp_all split: list.split)

lemma Split_append: "sep \<notin> set a \<Longrightarrow> Split (a @ sep # b) sep = a # Split b sep"
proof (induction a)
  case Nil
  obtain p ps where "Split b sep = p # ps" using Split_not_Nil by (metis neq_Nil_conv)
  then show ?case by simp
qed auto

lemma Join_Split [simp]: "Join (Split s c) [c] = s"
proof (induction s)
  case (Cons x s)
  then show ?case by (cases "Split s c") (auto split: list.splits elim: Split.elims, (cases "tl (Split s c)"; simp)+)
qed simp

lemma Split_inj: "Split s c = Split t c \<longleftrightarrow> s = t"
  by (metis Join_Split)

text \<open>Printed integers.\<close>

lemma itoa_chars: "c \<in> set (itoa i) \<Longrightarrow> c = CHR ''-'' \<or> is_digit_char c"
  by (auto simp: itoa_def dest: nat_dec_digits split: if_splits)

lemma itoa_not_Nil [simp]: "itoa i \<noteq> []"
  by (simp add: itoa_def)

lemma itoa_char_codes: "c \<in> set (itoa i) \<Longrightarrow> of_char c = (45 :: nat) \<or> 48 \<le> (of_char c :: nat) \<and> of_char c \<le> (57 :: nat)"
  by (auto dest!: itoa_chars simp: is_digit_char_def is_digit_def)

lemma itoa_ascii: "is_ascii (itoa i)"
  by (fastforce simp: is_ascii_def list_all_iff dest: itoa_char_codes)

lemma itoa_no_space: "c \<in> set (itoa i) \<Longrightarrow> \<not> IsSpace (of_char c)"
  by (auto dest!: itoa_char_codes simp: IsSpace_def)

lemma itoa_ends: "\<not> IsSpace (of_char (hd (itoa i)))" "\<not> IsSpace (of_char (last (itoa i)))"
  using itoa_no_space [OF hd_in_set] itoa_no_space [OF last_in_set] by simp_all

lemma TrimSpace_itoa [simp]: "TrimSpace (itoa i) = itoa i"
  by (rule TrimSpace_id) (simp_all add: itoa_ascii itoa_ends)

lemma comma_notin_itoa: "CHR '','' \<notin> set (itoa i)"
  by (auto dest: itoa_char_codes)

lemma Atoi_itoa: "- (2 ^ 63) \<le> i \<Longrightarrow> i < 2 ^ 63 \<Longrightarrow> Atoi (itoa i) = Some i"
proof -
  assume r: "- (2 ^ 63) \<le> i" "i < 2 ^ 63"
  have d: "list_all is_digit_char (nat_dec n)" for n by (simp add: list_all_iff nat_dec_digits)
  have h: "hd (nat_dec n) \<noteq> CHR ''-'' \<and> hd (nat_dec n) \<noteq> CHR ''+''" for n
    using nat_dec_digits [OF hd_in_set [OF nat_dec_not_Nil], of n] by (auto simp: is_digit_char_def is_digit_def)
  have "\<not> HasPrefix (nat_dec n) ''-'' \<and> \<not> HasPrefix (nat_dec n) ''+''" for n
    using h [of n] by (auto simp: HasPrefix_single)
  then show ?thesis using r d by (simp add: Atoi_def itoa_def HasPrefix_single)
qed

end
