(* ===== verification/PDU_Alphabet.thy ===== *)
theory PDU_Alphabet
  imports Go_Prelude
begin

text \<open>
  The SMS alphabets of package \<^verbatim>\<open>internal/sms/pdu\<close> (gsm7.go and ucs2.go): the GSM 03.38
  default and extension tables, septet packing with a bit offset, and UCS-2 with surrogate
  pairs. The round-trip laws proved here carry the PDU codec and the end-to-end theorems.
\<close>

section \<open>GSM 7-bit default alphabet\<close>

definition gsm7BasicTable :: "rune list" where
  "gsm7BasicTable =
     [64, 163, 36, 165, 232, 233, 249, 236, 242, 199, 10, 216, 248, 13, 197, 229,
      916, 95, 934, 915, 923, 937, 928, 936, 931, 920, 926, 0, 198, 230, 223, 201,
      32, 33, 34, 35, 164, 37, 38, 39, 40, 41, 42, 43, 44, 45, 46, 47,
      48, 49, 50, 51, 52, 53, 54, 55, 56, 57, 58, 59, 60, 61, 62, 63,
      161, 65, 66, 67, 68, 69, 70, 71, 72, 73, 74, 75, 76, 77, 78, 79,
      80, 81, 82, 83, 84, 85, 86, 87, 88, 89, 90, 196, 214, 209, 220, 167,
      191, 97, 98, 99, 100, 101, 102, 103, 104, 105, 106, 107, 108, 109, 110, 111,
      112, 113, 114, 115, 116, 117, 118, 119, 120, 121, 122, 228, 246, 241, 252, 224]"

definition gsm7ExtensionTable :: "(byte \<times> rune) list" where
  "gsm7ExtensionTable =
     [(0x0A, 12), (0x14, 94), (0x28, 123), (0x29, 125), (0x2F, 92), (0x3C, 91), (0x3D, 126),
      (0x3E, 93), (0x40, 124), (0x65, 0x20AC)]"

definition runeToGSM7Basic :: "rune \<rightharpoonup> byte" where
  "runeToGSM7Basic = map_of (rev (map (\<lambda>(i, r). (r, word_of_nat i))
     (filter (\<lambda>(i, r). i \<noteq> 0x1B) (enumerate 0 gsm7BasicTable))))"

definition runeToGSM7Ext :: "rune \<rightharpoonup> byte" where
  "runeToGSM7Ext = map_of (map (\<lambda>(c, r). (r, c)) gsm7ExtensionTable)"

definition IsGSM7 :: "gostring \<Rightarrow> bool" where
  "IsGSM7 s \<longleftrightarrow> list_all (\<lambda>r. runeToGSM7Basic r \<noteq> None \<or> runeToGSM7Ext r \<noteq> None) (runes s)"

definition encode_gsm7_rune :: "rune \<Rightarrow> byte list" where
  "encode_gsm7_rune r = (case runeToGSM7Basic r of
     Some b \<Rightarrow> [b]
   | None \<Rightarrow> (case runeToGSM7Ext r of Some e \<Rightarrow> [0x1B, e] | None \<Rightarrow> [0x3F]))"

definition EncodeGSM7 :: "gostring \<Rightarrow> byte list" where
  "EncodeGSM7 s = concat (map encode_gsm7_rune (runes s))"

definition gsm7_basic :: "byte \<Rightarrow> rune list" where
  "gsm7_basic s = (if unat s < length gsm7BasicTable then [gsm7BasicTable ! unat s] else [])"

fun decode_gsm7_runes :: "byte list \<Rightarrow> rune list" where
  "decode_gsm7_runes [] = []"
| "decode_gsm7_runes [s] = gsm7_basic s"
| "decode_gsm7_runes (s # t # rest) =
     (if s = 0x1B then
        (case map_of gsm7ExtensionTable t of
           Some r \<Rightarrow> r # decode_gsm7_runes rest
         | None \<Rightarrow> gsm7_basic s @ decode_gsm7_runes rest)
      else gsm7_basic s @ decode_gsm7_runes (t # rest))"

definition DecodeGSM7 :: "byte list \<Rightarrow> gostring" where
  "DecodeGSM7 septets = string_of_runes (decode_gsm7_runes septets)"

section \<open>Septet packing\<close>

fun pack_loop :: "byte list \<Rightarrow> nat \<Rightarrow> byte list \<Rightarrow> byte list" where
  "pack_loop octets bitPos [] = octets"
| "pack_loop octets bitPos (s # ss) =
     (let val = (ucast (s AND 0x7F) :: 16 word);
          byteIdx = bitPos div 8;
          bitOffset = bitPos mod 8;
          octets1 = octets[byteIdx := octets ! byteIdx OR ucast (push_bit bitOffset val)];
          octets2 = (if byteIdx + 1 < length octets
                     then octets1[byteIdx + 1 := octets1 ! (byteIdx + 1) OR ucast (drop_bit (8 - bitOffset) val)]
                     else octets1)
      in pack_loop octets2 (bitPos + 7) ss)"

definition PackSeptets :: "byte list \<Rightarrow> nat \<Rightarrow> byte list" where
  "PackSeptets septets startBit =
     (if septets = [] then []
      else let totalBits = startBit + length septets * 7;
               numOctets = (totalBits + 7) div 8
           in pack_loop (replicate numOctets 0) startBit septets)"

definition unpack_one :: "byte list \<Rightarrow> nat \<Rightarrow> byte" where
  "unpack_one octets bitPos =
     (let byteIdx = bitPos div 8;
          bitOffset = bitPos mod 8;
          val0 = (if byteIdx < length octets then drop_bit bitOffset (octets ! byteIdx) else 0);
          val1 = (if 1 < bitOffset \<and> byteIdx + 1 < length octets
                  then val0 OR push_bit (8 - bitOffset) (octets ! (byteIdx + 1)) else val0)
      in val1 AND 0x7F)"

definition UnpackSeptets :: "byte list \<Rightarrow> nat \<Rightarrow> nat \<Rightarrow> byte list" where
  "UnpackSeptets octets numSeptets startBit =
     map (\<lambda>i. unpack_one octets (startBit + 7 * i)) [0..<numSeptets]"

section \<open>UCS-2\<close>

text \<open>Package \<^verbatim>\<open>utf16\<close> of the standard library, on code units below 65536.\<close>

definition utf16_encode_rune :: "rune \<Rightarrow> nat list" where
  "utf16_encode_rune r =
     (if r < 0xD800 \<or> (0xE000 \<le> r \<and> r < 0x10000) then [r]
      else if 0x10000 \<le> r \<and> r \<le> 0x10FFFF
           then [0xD800 + (r - 0x10000) div 1024, 0xDC00 + (r - 0x10000) mod 1024]
      else [0xFFFD])"

definition utf16_Encode :: "rune list \<Rightarrow> nat list" where
  "utf16_Encode rs = concat (map utf16_encode_rune rs)"

fun utf16_Decode :: "nat list \<Rightarrow> rune list" where
  "utf16_Decode [] = []"
| "utf16_Decode [u] = [if 0xD800 \<le> u \<and> u < 0xE000 then 0xFFFD else u]"
| "utf16_Decode (u # v # rest) =
     (if u < 0xD800 \<or> 0xE000 \<le> u then u # utf16_Decode (v # rest)
      else if u < 0xDC00 \<and> 0xDC00 \<le> v \<and> v < 0xE000
           then ((u - 0xD800) * 1024 + (v - 0xDC00) + 0x10000) # utf16_Decode rest
      else 0xFFFD # utf16_Decode (v # rest))"

definition EncodeUCS2 :: "gostring \<Rightarrow> byte list" where
  "EncodeUCS2 s = concat (map (\<lambda>v. [word_of_nat (v div 256), word_of_nat (v mod 256)])
                              (utf16_Encode (runes s)))"

fun ucs2_units :: "byte list \<Rightarrow> nat list" where
  "ucs2_units (a # b # rest) = (unat a * 256 + unat b) # ucs2_units rest"
| "ucs2_units _ = []"

definition DecodeUCS2 :: "byte list \<Rightarrow> gostring" where
  "DecodeUCS2 bytes =
     (let bytes' = (if length bytes mod 2 \<noteq> 0 then take (length bytes - 1) bytes else bytes)
      in string_of_runes (utf16_Decode (ucs2_units bytes')))"

section \<open>GSM 7-bit round trip\<close>

lemma runeToGSM7Basic_SomeD:
  assumes "runeToGSM7Basic r = Some b"
  shows "unat b < 128" "b \<noteq> 0x1B" "gsm7BasicTable ! unat b = r"
proof -
  have "(r, b) \<in> set (rev (map (\<lambda>(i, r). (r, word_of_nat i))
     (filter (\<lambda>(i, r). i \<noteq> 0x1B) (enumerate 0 gsm7BasicTable))))"
    using assms unfolding runeToGSM7Basic_def by (rule map_of_SomeD)
  then obtain i where i: "b = word_of_nat i" "i \<noteq> 0x1B" "i < length gsm7BasicTable"
    "gsm7BasicTable ! i = r"
    by (auto simp: in_set_enumerate_eq)
  moreover have "length gsm7BasicTable = 128"
    by (simp add: gsm7BasicTable_def)
  ultimately have u: "unat b = i" by (simp add: unat_of_nat take_bit_eq_mod)
  show "unat b < 128" "gsm7BasicTable ! unat b = r"
    using i u \<open>length gsm7BasicTable = 128\<close> by simp_all
  show "b \<noteq> 0x1B" using u i(2) by auto
qed

lemma runeToGSM7Ext_SomeD:
  assumes "runeToGSM7Ext r = Some c"
  shows "map_of gsm7ExtensionTable c = Some r"
proof -
  have "(r, c) \<in> set (map (\<lambda>(c, r). (r, c)) gsm7ExtensionTable)"
    using assms unfolding runeToGSM7Ext_def by (rule map_of_SomeD)
  then have "(c, r) \<in> set gsm7ExtensionTable" by auto
  moreover have "distinct (map fst gsm7ExtensionTable)"
    by (simp add: gsm7ExtensionTable_def)
  ultimately show ?thesis by simp
qed

lemma decode_gsm7_basic:
  assumes "runeToGSM7Basic r = Some b"
  shows "decode_gsm7_runes (b # rest) = r # decode_gsm7_runes rest"
proof -
  have "gsm7_basic b = [r]"
    using runeToGSM7Basic_SomeD [OF assms] by (simp add: gsm7_basic_def gsm7BasicTable_def)
  then show ?thesis
    using runeToGSM7Basic_SomeD(2) [OF assms] by (cases rest) simp_all
qed

lemma decode_gsm7_runes_encode:
  "list_all (\<lambda>r. runeToGSM7Basic r \<noteq> None \<or> runeToGSM7Ext r \<noteq> None) rs \<Longrightarrow>
   decode_gsm7_runes (concat (map encode_gsm7_rune rs)) = rs"
proof (induction rs)
  case (Cons r rs)
  then show ?case
    by (auto simp: encode_gsm7_rune_def decode_gsm7_basic runeToGSM7Ext_SomeD split: option.splits)
qed simp

lemma not_gsm7_RuneError: "runeToGSM7Basic RuneError = None" "runeToGSM7Ext RuneError = None"
proof -
  have "RuneError \<notin> set gsm7BasicTable"
    by (simp add: gsm7BasicTable_def RuneError_def)
  then show "runeToGSM7Basic RuneError = None"
    unfolding runeToGSM7Basic_def map_of_eq_None_iff
    by (auto simp: in_set_enumerate_eq dest: nth_mem)
  show "runeToGSM7Ext RuneError = None"
    by (simp add: runeToGSM7Ext_def gsm7ExtensionTable_def RuneError_def)
qed

lemma IsGSM7_utf8: "IsGSM7 s \<Longrightarrow> string_of_runes (runes s) = s"
  by (rule string_of_runes_runes) (auto simp: IsGSM7_def list_all_iff not_gsm7_RuneError)

lemma decode_encode_gsm7: "IsGSM7 s \<Longrightarrow> DecodeGSM7 (EncodeGSM7 s) = s"
  by (simp add: DecodeGSM7_def EncodeGSM7_def decode_gsm7_runes_encode IsGSM7_utf8 IsGSM7_def)

lemma encode_gsm7_septet: "b \<in> set (encode_gsm7_rune r) \<Longrightarrow> unat b < 128"
proof -
  have "map_of (map (\<lambda>(c, r). (r, c)) gsm7ExtensionTable) r = Some e \<Longrightarrow> unat e < 128" for e
    by (drule map_of_SomeD) (auto simp: gsm7ExtensionTable_def)
  then show "b \<in> set (encode_gsm7_rune r) \<Longrightarrow> unat b < 128"
    using runeToGSM7Basic_SomeD(1) [of r]
    by (auto simp: encode_gsm7_rune_def runeToGSM7Ext_def split: option.splits)
qed

lemma EncodeGSM7_septets: "list_all (\<lambda>b. unat b < 128) (EncodeGSM7 s)"
  by (auto simp: EncodeGSM7_def list_all_iff dest: encode_gsm7_septet)

section \<open>Packing: the bit-level specification\<close>

text \<open>Bit \<open>p\<close> of an octet sequence, counted from the least significant bit of the first
  octet.\<close>

definition obit :: "byte list \<Rightarrow> nat \<Rightarrow> bool" where
  "obit octets p \<longleftrightarrow> p div 8 < length octets \<and> bit (octets ! (p div 8)) (p mod 8)"

lemma and_7F: "(s::byte) AND 0x7F = take_bit 7 s"
proof -
  have "(mask 7 :: byte) = 0x7F" by (simp add: mask_eq_exp_minus_1)
  then show ?thesis by (simp add: take_bit_eq_mask)
qed

lemma div_mod_8: "r < 8 \<Longrightarrow> (8 * q + r) div 8 = q \<and> (8 * q + r) mod 8 = (r::nat)"
  by simp

definition pack_step :: "byte list \<Rightarrow> nat \<Rightarrow> byte \<Rightarrow> byte list" where
  "pack_step octets bitPos s =
     (let val = (ucast (s AND 0x7F) :: 16 word);
          octets1 = octets[bitPos div 8 := octets ! (bitPos div 8) OR ucast (push_bit (bitPos mod 8) val)]
      in if bitPos div 8 + 1 < length octets
         then octets1[bitPos div 8 + 1 :=
                octets1 ! (bitPos div 8 + 1) OR ucast (drop_bit (8 - bitPos mod 8) val)]
         else octets1)"

lemma pack_loop_Cons: "pack_loop oc bp (s # ss) = pack_loop (pack_step oc bp s) (bp + 7) ss"
  by (simp add: pack_step_def Let_def)

lemma length_pack_step [simp]: "length (pack_step oc bp s) = length oc"
  by (simp add: pack_step_def Let_def)

lemma pack_step_nth:
  assumes "bp + 7 \<le> 8 * length oc" "i < length oc"
  shows "bit (pack_step oc bp s ! i) k \<longleftrightarrow> bit (oc ! i) k \<or>
           k < 8 \<and> bp \<le> 8 * i + k \<and> 8 * i + k < bp + 7 \<and> bit s (8 * i + k - bp)"
proof -
  let ?q = "bp div 8" and ?m = "bp mod 8"
  have bp: "bp = 8 * ?q + ?m" "?m < 8" by simp_all
  have q: "?q < length oc" using assms(1) bp by linarith
  consider "i = ?q" | "i = ?q + 1" | "i < ?q" | "?q + 1 < i" by linarith
  then show ?thesis
  proof cases
    case 1
    have "pack_step oc bp s ! i = oc ! i OR ucast (push_bit ?m (ucast (s AND 0x7F) :: 16 word))"
      using 1 q by (simp add: pack_step_def Let_def)
    moreover have "(8 * i + k - bp) = k - ?m" "bp \<le> 8 * i + k \<longleftrightarrow> ?m \<le> k" using 1 bp by linarith+
    moreover have "8 * i + k < bp + 7 \<longleftrightarrow> k - ?m < 7" if "?m \<le> k" using 1 bp that by linarith
    ultimately show ?thesis
      by (auto simp: bit_or_iff bit_ucast_iff bit_push_bit_iff and_7F bit_take_bit_iff dest: bit_imp_le_length)
  next
    case 2
    have "pack_step oc bp s ! i = oc ! i OR ucast (drop_bit (8 - ?m) (ucast (s AND 0x7F) :: 16 word))"
      using 2 assms(2) by (simp add: pack_step_def Let_def)
    moreover have "8 * i + k - bp = 8 - ?m + k" "bp \<le> 8 * i + k" using 2 bp by linarith+
    moreover have "8 * i + k < bp + 7 \<longleftrightarrow> 8 - ?m + k < 7" using 2 bp by linarith
    moreover have "8 - ?m + k < 7 \<Longrightarrow> k < 8" by linarith
    ultimately show ?thesis
      by (auto simp: bit_or_iff bit_ucast_iff bit_drop_bit_eq and_7F bit_take_bit_iff)
  next
    case 3
    have "pack_step oc bp s ! i = oc ! i" using 3 by (simp add: pack_step_def Let_def)
    moreover have "k < 8 \<Longrightarrow> \<not> bp \<le> 8 * i + k" using 3 bp by linarith
    ultimately show ?thesis by auto
  next
    case 4
    have "pack_step oc bp s ! i = oc ! i" using 4 by (simp add: pack_step_def Let_def)
    moreover have "\<not> 8 * i + k < bp + 7" using 4 bp by linarith
    ultimately show ?thesis by auto
  qed
qed

lemma obit_pack_step:
  assumes "bp + 7 \<le> 8 * length oc"
  shows "obit (pack_step oc bp s) p \<longleftrightarrow> obit oc p \<or> bp \<le> p \<and> p < bp + 7 \<and> bit s (p - bp)"
proof -
  have "p < bp + 7 \<Longrightarrow> p div 8 < length oc" using assms by linarith
  then show ?thesis
    using pack_step_nth [OF assms, of "p div 8" s "p mod 8"] by (auto simp: obit_def)
qed

lemma obit_pack_loop:
  assumes "bp + 7 * length ss \<le> 8 * length oc"
  shows "obit (pack_loop oc bp ss) p \<longleftrightarrow> obit oc p \<or>
           bp \<le> p \<and> p < bp + 7 * length ss \<and> bit (ss ! ((p - bp) div 7)) ((p - bp) mod 7)"
  using assms
proof (induction ss arbitrary: oc bp)
  case (Cons s ss)
  have step: "obit (pack_step oc bp s) p \<longleftrightarrow> obit oc p \<or> bp \<le> p \<and> p < bp + 7 \<and> bit s (p - bp)"
    using Cons.prems by (intro obit_pack_step) simp
  have tail: "(p - bp) div 7 = Suc ((p - (bp + 7)) div 7)" "(p - bp) mod 7 = (p - (bp + 7)) mod 7"
    if le: "bp + 7 \<le> p"
  proof -
    obtain d where "p = bp + 7 + d" using le_Suc_ex [OF le] by auto
    then show "(p - bp) div 7 = Suc ((p - (bp + 7)) div 7)" "(p - bp) mod 7 = (p - (bp + 7)) mod 7"
      by simp_all
  qed
  have ih: "obit (pack_loop oc bp (s # ss)) p \<longleftrightarrow> obit (pack_step oc bp s) p \<or>
      bp + 7 \<le> p \<and> p < bp + 7 + 7 * length ss \<and> bit (ss ! ((p - (bp + 7)) div 7)) ((p - (bp + 7)) mod 7)"
    unfolding pack_loop_Cons using Cons.prems by (intro Cons.IH) simp
  show ?case
  proof (cases "p < bp + 7")
    case True
    then have h: "bp \<le> p \<Longrightarrow> (p - bp) div 7 = 0 \<and> (p - bp) mod 7 = p - bp" by simp
    have "\<not> bp + 7 \<le> p" "p < bp + 7 * length (s # ss)" using True by simp_all
    with h True show ?thesis unfolding ih step by (metis nth_Cons_0)
  next
    case False
    then have "bp + 7 \<le> p" by simp
    then show ?thesis unfolding ih step by (simp add: tail add.assoc)
  qed
qed auto

lemma length_pack_loop [simp]: "length (pack_loop oc bp ss) = length oc"
  by (induction ss arbitrary: oc bp) (simp_all del: pack_loop.simps(2) add: pack_loop_Cons)

lemma length_PackSeptets:
  "length (PackSeptets ss b) = (if ss = [] then 0 else (b + 7 * length ss + 7) div 8)"
  by (simp add: PackSeptets_def Let_def mult.commute)

lemma obit_PackSeptets:
  "obit (PackSeptets ss b) p \<longleftrightarrow>
     b \<le> p \<and> p < b + 7 * length ss \<and> bit (ss ! ((p - b) div 7)) ((p - b) mod 7)"
proof (cases "ss = []")
  case False
  have z: "\<not> obit (replicate n 0) p" for n by (simp add: obit_def)
  have "b + 7 * length ss \<le> 8 * ((b + 7 * length ss + 7) div 8)" by simp
  then show ?thesis
    using False z by (simp add: PackSeptets_def Let_def obit_pack_loop mult.commute)
qed (simp add: PackSeptets_def obit_def)

lemma bit_unpack_one: "bit (unpack_one oc bp) j \<longleftrightarrow> j < 7 \<and> obit oc (bp + j)"
proof (cases "j < 7")
  case j: True
  obtain q m where bp: "bp = 8 * q + m" "m < 8"
    by (metis mod_less_divisor mult_div_mod_eq zero_less_numeral)
  have qm: "bp div 8 = q" "bp mod 8 = m" using bp div_mod_8 by auto
  show ?thesis
  proof (cases "m + j < 8")
    case True
    then have "(bp + j) div 8 = q" "(bp + j) mod 8 = m + j"
      using div_mod_8 [of "m + j" q] by (simp_all add: bp add.assoc)
    moreover have "\<not> 8 - m \<le> j" using True by linarith
    ultimately show ?thesis
      using j by (auto simp: unpack_one_def Let_def obit_def and_7F bit_take_bit_iff bit_or_iff
          bit_drop_bit_eq bit_push_bit_iff qm)
  next
    case False
    then have e: "bp + j = 8 * (q + 1) + (m + j - 8)" "m + j - 8 < 8" using bp j by simp_all
    then have d: "(bp + j) div 8 = q + 1" "(bp + j) mod 8 = m + j - 8"
      using div_mod_8 [of "m + j - 8" "q + 1"] by simp_all
    have m: "1 < m" "8 - m \<le> j" "j - (8 - m) = m + j - 8" "8 \<le> m + j"
      using False j bp by linarith+
    have "\<not> bit x (m + j)" for x :: byte
      using m(4) bit_imp_le_length [of x "m + j"] by auto
    then show ?thesis
      using j d m by (auto simp: unpack_one_def Let_def obit_def and_7F bit_take_bit_iff bit_or_iff
          bit_drop_bit_eq bit_push_bit_iff qm)
  qed
qed (simp add: unpack_one_def Let_def and_7F bit_take_bit_iff)

lemma unpack_pack_septets:
  assumes "list_all (\<lambda>s. unat s < 128) ss"
  shows "UnpackSeptets (PackSeptets ss b) (length ss) b = ss"
proof (rule nth_equalityI)
  show "length (UnpackSeptets (PackSeptets ss b) (length ss) b) = length ss"
    by (simp add: UnpackSeptets_def)
  fix i assume "i < length (UnpackSeptets (PackSeptets ss b) (length ss) b)"
  then have i: "i < length ss" by (simp add: UnpackSeptets_def)
  have small: "\<not> bit (ss ! i) j" if "7 \<le> j" for j
  proof -
    have "unat (ss ! i) < 2 ^ 7" using assms i by (simp add: list_all_length)
    then have "take_bit 7 (ss ! i) = ss ! i"
      by (simp add: unsigned_take_bit_eq take_bit_nat_eq_self_iff word_unat_eq_iff)
    then show ?thesis using that by (metis bit_take_bit_iff not_le)
  qed
  have "bit (unpack_one (PackSeptets ss b) (b + 7 * i)) j \<longleftrightarrow> bit (ss ! i) j" for j
  proof (cases "j < 7")
    case True
    have "b + 7 * i + j - b = 7 * i + j" "b + 7 * i + j < b + 7 * length ss"
      using True i by linarith+
    moreover have "(7 * i + j) div 7 = i" "(7 * i + j) mod 7 = j" using True by simp_all
    ultimately show ?thesis using True by (simp add: bit_unpack_one obit_PackSeptets)
  next
    case False
    then show ?thesis using small by (simp add: bit_unpack_one)
  qed
  then show "UnpackSeptets (PackSeptets ss b) (length ss) b ! i = ss ! i"
    using i by (simp add: UnpackSeptets_def bit_word_eqI)
qed

section \<open>UCS-2 round trip\<close>

definition valid_utf8 :: "gostring \<Rightarrow> bool" where
  "valid_utf8 s \<longleftrightarrow> string_of_runes (runes s) = s"

lemma utf16_Decode_single:
  "u < 0xD800 \<or> 0xE000 \<le> u \<Longrightarrow> utf16_Decode (u # us) = u # utf16_Decode us"
  by (cases us) auto

lemma utf16_decode_encode_rune:
  assumes "valid_rune r"
  shows "utf16_Decode (utf16_encode_rune r @ us) = r # utf16_Decode us"
proof (cases "r < 0x10000")
  case True
  then have "utf16_encode_rune r = [r]" "r < 0xD800 \<or> 0xE000 \<le> r"
    using assms by (auto simp: utf16_encode_rune_def valid_rune_def)
  then show ?thesis by (simp add: utf16_Decode_single)
next
  case False
  define d where "d = r - 0x10000"
  then have d: "r = d + 0x10000" "d < 1048576" using False assms by (auto simp: valid_rune_def)
  have "utf16_encode_rune r = [0xD800 + d div 1024, 0xDC00 + d mod 1024]"
    using d by (simp add: utf16_encode_rune_def)
  moreover have "d div 1024 < 1024" "d div 1024 * 1024 + d mod 1024 = d"
    using d(2) by (simp_all add: div_less_iff_less_mult)
  ultimately show ?thesis by (simp add: d(1))
qed

lemma utf16_Decode_Encode: "list_all valid_rune rs \<Longrightarrow> utf16_Decode (utf16_Encode rs) = rs"
  by (induction rs) (simp_all add: utf16_Encode_def utf16_decode_encode_rune)

lemma utf16_encode_unit: "u \<in> set (utf16_encode_rune r) \<Longrightarrow> u < 65536"
  by (auto simp: utf16_encode_rune_def split: if_splits)

lemma ucs2_units_bytes:
  "list_all (\<lambda>u. u < 65536) us \<Longrightarrow>
   ucs2_units (concat (map (\<lambda>v. [word_of_nat (v div 256), word_of_nat (v mod 256)]) us)) = us"
  by (induction us) (simp_all add: unat_of_nat take_bit_eq_mod mod_less div_less_iff_less_mult)

lemma length_EncodeUCS2: "length (EncodeUCS2 s) = 2 * length (utf16_Encode (runes s))"
  by (simp add: EncodeUCS2_def length_concat o_def sum_list_triv)

lemma DecodeUCS2_EncodeUCS2: "DecodeUCS2 (EncodeUCS2 s) = string_of_runes (runes s)"
proof -
  have "list_all (\<lambda>u. u < 65536) (utf16_Encode (runes s))"
    by (auto simp: list_all_iff utf16_Encode_def dest: utf16_encode_unit)
  then have "ucs2_units (EncodeUCS2 s) = utf16_Encode (runes s)"
    unfolding EncodeUCS2_def by (rule ucs2_units_bytes)
  moreover have "length (EncodeUCS2 s) mod 2 = 0" by (simp add: length_EncodeUCS2)
  ultimately show ?thesis
    by (simp add: DecodeUCS2_def utf16_Decode_Encode runes_valid)
qed

end
