(* ===== verification/PDU_Codec.thy ===== *)
theory PDU_Codec
  imports PDU_Alphabet
begin

text \<open>
  The PDU codec of package \<^verbatim>\<open>internal/sms/pdu\<close> (types.go, errors.go, address.go,
  timestamp.go, encoder.go, decoder.go, status_report.go). Every early return of the
  decoders is a branch with its sentinel error, and every slice expression is checked, so
  that an index out of range would be the value \<open>GoPanic\<close>; the theorems show that no input
  reaches it. The package variable \<^verbatim>\<open>refCounter\<close> is passed in and returned.
\<close>

section \<open>Types and errors\<close>

type_synonym Encoding = gostring

definition EncodingAuto :: Encoding where "EncodingAuto = ''auto''"
definition EncodingGSM7 :: Encoding where "EncodingGSM7 = ''gsm7''"
definition EncodingUCS2 :: Encoding where "EncodingUCS2 = ''ucs2''"
definition EncodingBinary :: Encoding where "EncodingBinary = ''binary''"

lemmas Encoding_defs = EncodingAuto_def EncodingGSM7_def EncodingUCS2_def EncodingBinary_def

datatype pdu_error =
    ErrInvalidHex
  | ErrTruncatedPDU
  | ErrInvalidAddress
  | ErrEmptyRecipient
  | ErrEmptyText
  | ErrNotStatusReport
  | ErrUnsupportedMessageType
  | GoPanic

record PDU =
  CommandLength :: nat
  Hex :: gostring
  HasUDH :: bool
  PduEncoding :: Encoding
  PduPartNumber :: nat
  PduTotalParts :: nat

text \<open>An instant together with the offset (in seconds) of the location it carries.\<close>

record gotime =
  t_instant :: instant
  t_offset :: int

record DecodedSMS =
  SmsFrom :: gostring
  SmsText :: gostring
  SmsTimestamp :: gotime
  SmsEncoding :: Encoding
  SmsHasUDH :: bool
  SmsReference :: byte
  SmsPartNumber :: nat
  SmsTotalParts :: nat

record StatusReport =
  MessageRef :: byte
  Recipient :: gostring
  SCTimestamp :: gotime
  Discharge :: gotime
  StatusCode :: byte
  Delivered :: bool
  Temporary :: bool
  Permanent :: bool

section \<open>Addresses\<close>

fun bcd_pairs :: "byte list \<Rightarrow> byte list" where
  "bcd_pairs (a # b # rest) = (push_bit 4 b OR a) # bcd_pairs rest"
| "bcd_pairs _ = []"

definition address_digits :: "gostring \<Rightarrow> rune list" where
  "address_digits number =
     (let clean = TrimSpace number
      in filter is_digit (runes (if HasPrefix clean ''+'' then drop 1 clean else clean)))"

definition EncodeAddress :: "gostring \<Rightarrow> byte \<times> byte \<times> byte list" where
  "EncodeAddress number =
     (let clean = TrimSpace number;
          typeOfAddr = (if HasPrefix clean ''+'' then 0x91 else 0x81);
          digits = map (\<lambda>r. word_of_nat (r - 48)) (address_digits number);
          digitCount = word_of_nat (length digits);
          padded = (if length digits mod 2 \<noteq> 0 then digits @ [0x0F] else digits)
      in (digitCount, typeOfAddr, bcd_pairs padded))"

fun decode_digits :: "byte list \<Rightarrow> nat \<Rightarrow> nat \<Rightarrow> gostring" where
  "decode_digits [] digitCount digitsRead = []"
| "decode_digits (octet # bcd) digitCount digitsRead =
     (let low = octet AND 0x0F;
          high = drop_bit 4 octet AND 0x0F;
          takeLow = low \<le> 9 \<and> digitsRead < digitCount;
          read1 = (if takeLow then digitsRead + 1 else digitsRead);
          takeHigh = high \<le> 9 \<and> read1 < digitCount;
          read2 = (if takeHigh then read1 + 1 else read1)
      in (if takeLow then [digit_char (unat low)] else [])
         @ (if takeHigh then [digit_char (unat high)] else [])
         @ decode_digits bcd digitCount read2)"

definition DecodeAddress :: "byte list \<Rightarrow> nat \<Rightarrow> byte \<Rightarrow> gostring" where
  "DecodeAddress bcd digitCount typeOfAddr =
     (if typeOfAddr = 0x91 then ''+'' else []) @ decode_digits bcd digitCount 0"

definition FormatAddressHex :: "gostring \<Rightarrow> gostring" where
  "FormatAddressHex number =
     (let (digits, toa, bcd) = EncodeAddress number
      in hex_byte digits @ hex_byte toa @ hexString bcd)"

section \<open>Timestamps\<close>

text \<open>\<^verbatim>\<open>time.Date\<close> of the standard library: out-of-range months and days are carried, as in
  Go; the result counts nanoseconds from 1 January of year 1, the zero \<^verbatim>\<open>time.Time\<close>.\<close>

definition leap_year :: "int \<Rightarrow> bool" where
  "leap_year y \<longleftrightarrow> y mod 4 = 0 \<and> (y mod 100 \<noteq> 0 \<or> y mod 400 = 0)"

definition days_before_month :: "int list" where
  "days_before_month = [0, 31, 59, 90, 120, 151, 181, 212, 243, 273, 304, 334]"

definition time_Date :: "int \<Rightarrow> int \<Rightarrow> int \<Rightarrow> int \<Rightarrow> int \<Rightarrow> int \<Rightarrow> int \<Rightarrow> gotime" where
  "time_Date year month day hour minute sec off =
     (let m = (month - 1) mod 12;
          y = year + (month - 1) div 12;
          days = 365 * (y - 1) + (y - 1) div 4 - (y - 1) div 100 + (y - 1) div 400
                 + days_before_month ! nat m + (if leap_year y \<and> 2 \<le> m then 1 else 0) + (day - 1)
      in \<lparr>t_instant = (days * 86400 + hour * 3600 + minute * 60 + sec - off) * 1000000000,
          t_offset = off\<rparr>)"

definition decodeBCD :: "byte \<Rightarrow> int" where
  "decodeBCD b = int (unat (b AND 0x0F)) * 10 + int (unat (drop_bit 4 b AND 0x0F))"

definition tz_offset :: "byte \<Rightarrow> int" where
  "tz_offset tzRaw =
     (let tzQuarters = int (unat (tzRaw AND 0x07)) * 10 + int (unat (drop_bit 4 tzRaw AND 0x0F))
      in (if tzRaw AND 0x08 \<noteq> 0 then - tzQuarters else tzQuarters) * 15 * 60)"

definition DecodeTimestamp :: "gotime \<Rightarrow> byte list \<Rightarrow> gotime" where
  "DecodeTimestamp now data =
     (if length data < 7 then now
      else time_Date (2000 + decodeBCD (data ! 0)) (decodeBCD (data ! 1)) (decodeBCD (data ! 2))
             (decodeBCD (data ! 3)) (decodeBCD (data ! 4)) (decodeBCD (data ! 5))
             (tz_offset (data ! 6)))"

section \<open>Encoder\<close>

definition nextRefNumber :: "byte \<Rightarrow> byte" where
  "nextRefNumber refCounter = (if refCounter + 1 = 0 then 1 else refCounter + 1)"

definition init_refCounter :: "int \<Rightarrow> byte" where
  "init_refCounter unixNano = (let c = word_of_int (take_bit 8 unixNano) in if c = 0 then 1 else c)"

definition buildPDU :: "gostring \<Rightarrow> byte \<Rightarrow> byte \<Rightarrow> byte \<Rightarrow> gostring \<Rightarrow> bool \<Rightarrow> Encoding \<Rightarrow> nat \<Rightarrow> nat \<Rightarrow> PDU" where
  "buildPDU recipient firstOctet dcs udl udHex hasUDH enc partNum totalParts =
     (let smscHex = ''00'';
          mrHex = ''00'';
          daHex = FormatAddressHex recipient;
          pidHex = ''00'';
          dcsHex = hex_byte dcs;
          vpHex = ''AA'';
          udlHex = hex_byte udl;
          tpduHex = hex_byte firstOctet @ mrHex @ daHex @ pidHex @ dcsHex @ vpHex @ udlHex @ udHex;
          fullHex = smscHex @ tpduHex
      in \<lparr>CommandLength = length tpduHex div 2, Hex = fullHex, HasUDH = hasUDH, PduEncoding = enc,
          PduPartNumber = partNum, PduTotalParts = totalParts\<rparr>)"

definition encodeSingle :: "gostring \<Rightarrow> rune list \<Rightarrow> Encoding \<Rightarrow> bool \<Rightarrow> PDU" where
  "encodeSingle recipient rs enc srr =
     (let firstOctet = (if srr then 0x11 OR 0x20 else 0x11);
          (dcs, udl, udHex) =
            (if enc = EncodingGSM7 then
               (let septets = EncodeGSM7 (string_of_runes rs)
                in (0x00, word_of_nat (length septets), hexString (PackSeptets septets 0)))
             else
               (let ucs2Bytes = EncodeUCS2 (string_of_runes rs)
                in (0x08, word_of_nat (length ucs2Bytes), hexString ucs2Bytes)))
      in buildPDU recipient firstOctet dcs udl udHex False enc 1 1)"

definition encodePart :: "gostring \<Rightarrow> rune list \<Rightarrow> Encoding \<Rightarrow> bool \<Rightarrow> byte \<Rightarrow> nat \<Rightarrow> nat \<Rightarrow> PDU" where
  "encodePart recipient rs enc srr ref partNum totalParts =
     (let firstOctet = (if srr then (0x11 OR 0x40) OR 0x20 else 0x11 OR 0x40);
          udh = [0x05, 0x00, 0x03, ref, word_of_nat totalParts, word_of_nat partNum];
          (dcs, udl, udHex) =
            (if enc = EncodingGSM7 then
               (let septets = EncodeGSM7 (string_of_runes rs)
                in (0x00, word_of_nat (7 + length septets), hexString udh @ hexString (PackSeptets septets 1)))
             else
               (let ucs2Bytes = EncodeUCS2 (string_of_runes rs)
                in (0x08, word_of_nat (length udh + length ucs2Bytes), hexString udh @ hexString ucs2Bytes)))
      in buildPDU recipient firstOctet dcs udl udHex True enc partNum totalParts)"

definition rune_units :: "rune \<Rightarrow> nat" where
  "rune_units r = (if 0xFFFF < r then 2 else 1)"

text \<open>The slicing loop of \<^verbatim>\<open>splitChunks\<close> for the encodings other than UCS-2. The callers pass
  153 or 67; with a limit of 0 the loop would not advance.\<close>

function split_fixed :: "nat \<Rightarrow> rune list \<Rightarrow> rune list list" where
  "split_fixed maxUnits rs =
     (if rs = [] \<or> maxUnits = 0 then []
      else take maxUnits rs # split_fixed maxUnits (drop maxUnits rs))"
  by pat_completeness auto
termination
  by (relation "measure (\<lambda>(n, rs). length rs)") auto

declare split_fixed.simps [simp del]

fun split_ucs2 :: "nat \<Rightarrow> rune list \<Rightarrow> nat \<Rightarrow> rune list \<Rightarrow> rune list list" where
  "split_ucs2 maxUnits current currentUnits [] = (if current \<noteq> [] then [current] else [])"
| "split_ucs2 maxUnits current currentUnits (r # rs) =
     (if maxUnits < currentUnits + rune_units r
      then current # split_ucs2 maxUnits [r] (rune_units r) rs
      else split_ucs2 maxUnits (current @ [r]) (currentUnits + rune_units r) rs)"

definition splitChunks :: "rune list \<Rightarrow> Encoding \<Rightarrow> nat \<Rightarrow> rune list list" where
  "splitChunks rs enc maxUnits =
     (if enc \<noteq> EncodingUCS2 then split_fixed maxUnits rs else split_ucs2 maxUnits [] 0 rs)"

fun encodeParts :: "gostring \<Rightarrow> Encoding \<Rightarrow> bool \<Rightarrow> byte \<Rightarrow> nat \<Rightarrow> nat \<Rightarrow> rune list list \<Rightarrow> PDU list" where
  "encodeParts recipient enc srr ref i n [] = []"
| "encodeParts recipient enc srr ref i n (chunk # chunks) =
     encodePart recipient chunk enc srr ref (i + 1) n # encodeParts recipient enc srr ref (i + 1) n chunks"

definition selectEncoding :: "Encoding \<Rightarrow> gostring \<Rightarrow> Encoding" where
  "selectEncoding enc text =
     (if enc = EncodingAuto \<or> enc = [] then (if IsGSM7 text then EncodingGSM7 else EncodingUCS2) else enc)"

definition totalUnits :: "Encoding \<Rightarrow> rune list \<Rightarrow> nat" where
  "totalUnits enc rs = (if enc = EncodingUCS2 then sum_list (map rune_units rs) else length rs)"

definition EncodeSMS :: "byte \<Rightarrow> gostring \<Rightarrow> gostring \<Rightarrow> Encoding \<Rightarrow> bool \<Rightarrow> (pdu_error + PDU list) \<times> byte" where
  "EncodeSMS refCounter recipient text enc requestDeliveryReport =
     (if TrimSpace recipient = [] then (Inl ErrEmptyRecipient, refCounter)
      else if text = [] then (Inl ErrEmptyText, refCounter)
      else
        (let selectedEnc = selectEncoding enc text;
             rs = runes text;
             maxSingle = (if selectedEnc = EncodingGSM7 then 160 else 70);
             maxMultipart = (if selectedEnc = EncodingGSM7 then 153 else 67)
         in if totalUnits selectedEnc rs \<le> maxSingle
            then (Inr [encodeSingle recipient rs selectedEnc requestDeliveryReport], refCounter)
            else
              (let ref = nextRefNumber refCounter;
                   chunks = splitChunks rs selectedEnc maxMultipart
               in (Inr (encodeParts recipient selectedEnc requestDeliveryReport ref 0 (length chunks) chunks),
                   ref))))"

section \<open>Decoder\<close>

definition parseUDH :: "byte list \<Rightarrow> nat \<Rightarrow> nat \<Rightarrow> Encoding \<Rightarrow> DecodedSMS \<Rightarrow> pdu_error + DecodedSMS" where
  "parseUDH data offset udl enc res =
     (if length data \<le> offset then Inr res
      else bind_res (at_idx GoPanic data offset) (\<lambda>udhLen.
        let udhTotalBytes = 1 + unat udhLen
        in if length data < offset + udhTotalBytes then Inr res
           else bind_res (slice GoPanic data offset (offset + udhTotalBytes)) (\<lambda>udhData.
             let offset' = offset + udhTotalBytes;
                 res1 = (if 6 \<le> length udhData \<and> udhData ! 1 = 0x00
                         then res\<lparr>SmsReference := udhData ! 3, SmsTotalParts := unat (udhData ! 4),
                                  SmsPartNumber := unat (udhData ! 5)\<rparr>
                         else if 7 \<le> length udhData \<and> udhData ! 1 = 0x08
                         then res\<lparr>SmsReference := udhData ! 4, SmsTotalParts := unat (udhData ! 5),
                                  SmsPartNumber := unat (udhData ! 6)\<rparr>
                         else res)
             in if enc = EncodingUCS2
                then (if offset' \<le> length data
                      then bind_res (slice GoPanic data offset' (length data)) (\<lambda>ud.
                             Inr (res1\<lparr>SmsText := DecodeUCS2 ud\<rparr>))
                      else Inr res1)
                else let udhBits = udhTotalBytes * 8;
                         padBits = (7 - udhBits mod 7) mod 7;
                         septetsToSkip = (udhBits + padBits) div 7
                     in if offset' \<le> length data \<and> septetsToSkip < udl
                        then bind_res (slice GoPanic data offset' (length data)) (\<lambda>ud.
                               Inr (res1\<lparr>SmsText := DecodeGSM7 (UnpackSeptets ud (udl - septetsToSkip) padBits)\<rparr>))
                        else Inr res1)))"

definition parsePlainUD :: "byte list \<Rightarrow> nat \<Rightarrow> Encoding \<Rightarrow> DecodedSMS \<Rightarrow> DecodedSMS" where
  "parsePlainUD udBytes udl enc res =
     (if length udBytes = 0 then res
      else if enc = EncodingUCS2 then res\<lparr>SmsText := DecodeUCS2 udBytes\<rparr>
      else res\<lparr>SmsText := DecodeGSM7 (UnpackSeptets udBytes udl 0)\<rparr>)"

definition DecodeSMS :: "gotime \<Rightarrow> gostring \<Rightarrow> pdu_error + DecodedSMS" where
  "DecodeSMS now pduHex = (case hex_DecodeString pduHex of
     None \<Rightarrow> Inl ErrInvalidHex
   | Some data \<Rightarrow>
     if length data < 11 then Inl ErrTruncatedPDU
     else bind_res (at_idx GoPanic data 0) (\<lambda>scaLen.
       let offset = 1 + unat scaLen
       in if length data \<le> offset then Inl ErrTruncatedPDU
     else bind_res (at_idx GoPanic data offset) (\<lambda>firstOctet.
       if firstOctet AND 0x03 \<noteq> 0x00 then Inl ErrUnsupportedMessageType
       else let hasUDH = (firstOctet AND 0x40 \<noteq> 0); offset = offset + 1
       in if length data < offset + 2 then Inl ErrTruncatedPDU
     else bind_res (at_idx GoPanic data offset) (\<lambda>digitCount.
          bind_res (at_idx GoPanic data (offset + 1)) (\<lambda>toa.
       let offset = offset + 2; bcdLen = (unat digitCount + 1) div 2
       in if length data < offset + bcdLen then Inl ErrTruncatedPDU
     else bind_res (slice GoPanic data offset (offset + bcdLen)) (\<lambda>bcd.
       let from = DecodeAddress bcd (unat digitCount) toa; offset = offset + bcdLen
       in if length data < offset + 2 then Inl ErrTruncatedPDU
     else bind_res (at_idx GoPanic data offset) (\<lambda>_.
          bind_res (at_idx GoPanic data (offset + 1)) (\<lambda>dcs.
       let offset = offset + 2;
           encoding = (if dcs AND 0x0C = 0x08 then EncodingUCS2 else EncodingGSM7)
       in if length data < offset + 7 then Inl ErrTruncatedPDU
     else bind_res (slice GoPanic data offset (offset + 7)) (\<lambda>scts.
       let timestamp = DecodeTimestamp now scts; offset = offset + 7
       in if length data \<le> offset then Inl ErrTruncatedPDU
     else bind_res (at_idx GoPanic data offset) (\<lambda>udl.
       let offset = offset + 1;
           res = \<lparr>SmsFrom = from, SmsText = [], SmsTimestamp = timestamp, SmsEncoding = encoding,
                  SmsHasUDH = hasUDH, SmsReference = 0, SmsPartNumber = 0, SmsTotalParts = 0\<rparr>
       in if hasUDH then parseUDH data offset (unat udl) encoding res
          else bind_res (slice GoPanic data offset (length data)) (\<lambda>ud.
                 Inr (parsePlainUD ud (unat udl) encoding res))))))))))))"

section \<open>Status reports\<close>

definition DecodeStatusReport :: "gotime \<Rightarrow> gostring \<Rightarrow> pdu_error + StatusReport" where
  "DecodeStatusReport now pduHex = (case hex_DecodeString pduHex of
     None \<Rightarrow> Inl ErrInvalidHex
   | Some data \<Rightarrow>
     if length data < 18 then Inl ErrTruncatedPDU
     else bind_res (at_idx GoPanic data 0) (\<lambda>scaLen.
       let offset = 1 + unat scaLen
       in if length data \<le> offset then Inl ErrTruncatedPDU
     else bind_res (at_idx GoPanic data offset) (\<lambda>firstOctet.
       if firstOctet AND 0x03 \<noteq> 0x02 then Inl ErrNotStatusReport
       else let offset = offset + 1
       in if length data \<le> offset then Inl ErrTruncatedPDU
     else bind_res (at_idx GoPanic data offset) (\<lambda>msgRef.
       let offset = offset + 1
       in if length data < offset + 2 then Inl ErrTruncatedPDU
     else bind_res (at_idx GoPanic data offset) (\<lambda>digitCount.
          bind_res (at_idx GoPanic data (offset + 1)) (\<lambda>toa.
       let offset = offset + 2; bcdLen = (unat digitCount + 1) div 2
       in if length data < offset + bcdLen then Inl ErrTruncatedPDU
     else bind_res (slice GoPanic data offset (offset + bcdLen)) (\<lambda>bcd.
       let recipient = DecodeAddress bcd (unat digitCount) toa; offset = offset + bcdLen
       in if length data < offset + 7 then Inl ErrTruncatedPDU
     else bind_res (slice GoPanic data offset (offset + 7)) (\<lambda>scts.
       let scTimestamp = DecodeTimestamp now scts; offset = offset + 7
       in if length data < offset + 7 then Inl ErrTruncatedPDU
     else bind_res (slice GoPanic data offset (offset + 7)) (\<lambda>dt.
       let discharge = DecodeTimestamp now dt; offset = offset + 7
       in if length data \<le> offset then Inl ErrTruncatedPDU
     else bind_res (at_idx GoPanic data offset) (\<lambda>statusCode.
       Inr \<lparr>MessageRef = msgRef, Recipient = recipient, SCTimestamp = scTimestamp, Discharge = discharge,
            StatusCode = statusCode, Delivered = (statusCode \<le> 0x1F),
            Temporary = (0x20 \<le> statusCode \<and> statusCode \<le> 0x3F),
            Permanent = (0x40 \<le> statusCode \<and> statusCode \<le> 0x5F)\<rparr>))))))))))"

section \<open>Decoders never panic\<close>

lemma parseUDH_no_panic: "parseUDH data offset udl enc res \<noteq> Inl GoPanic"
  by (auto simp: parseUDH_def Let_def split: if_split)

lemma DecodeSMS_no_panic: "DecodeSMS now pduHex \<noteq> Inl GoPanic"
proof (cases "hex_DecodeString pduHex")
  case (Some data)
  show ?thesis
  proof (cases "length data < 11")
    case False
    then have "data \<noteq> []" by auto
    with False Some show ?thesis
      by (auto simp: DecodeSMS_def Let_def parseUDH_no_panic split: if_split)
  qed (simp add: DecodeSMS_def Some)
qed (simp add: DecodeSMS_def)

lemma DecodeStatusReport_no_panic: "DecodeStatusReport now pduHex \<noteq> Inl GoPanic"
proof (cases "hex_DecodeString pduHex")
  case (Some data)
  show ?thesis
  proof (cases "length data < 18")
    case False
    then have "data \<noteq> []" by auto
    with False Some show ?thesis
      by (auto simp: DecodeStatusReport_def Let_def split: if_split)
  qed (simp add: DecodeStatusReport_def Some)
qed (simp add: DecodeStatusReport_def)

section \<open>Address round trip\<close>

lemma and_0F: "(x::byte) AND 0x0F = take_bit 4 x"
proof -
  have "(mask 4 :: byte) = 0x0F" by (simp add: mask_eq_exp_minus_1)
  then show ?thesis by (simp add: take_bit_eq_mask)
qed

lemma take_bit_small: "unat (x::byte) < 2 ^ n \<Longrightarrow> take_bit n x = x"
  by (simp add: unsigned_take_bit_eq take_bit_nat_eq_self_iff word_unat_eq_iff)

lemma nibbles:
  assumes "unat (a::byte) < 16" "unat (b::byte) < 16"
  shows "(push_bit 4 b OR a) AND 0x0F = a" "drop_bit 4 (push_bit 4 b OR a) AND 0x0F = b"
proof -
  have a: "take_bit 4 a = a" and b: "take_bit 4 b = b"
    using assms by (simp_all add: take_bit_small)
  have "take_bit 4 (push_bit 4 b OR a) = take_bit 4 a"
    by (rule bit_eqI) (auto simp: bit_take_bit_iff bit_or_iff bit_push_bit_iff)
  then show "(push_bit 4 b OR a) AND 0x0F = a" by (simp add: and_0F a)
  have "take_bit 4 (drop_bit 4 (push_bit 4 b OR a)) = take_bit 4 b"
  proof (rule bit_eqI)
    fix n
    have "\<not> bit a (4 + n)" using a by (metis bit_take_bit_iff add.commute not_add_less2)
    then show "bit (take_bit 4 (drop_bit 4 (push_bit 4 b OR a))) n = bit (take_bit 4 b) n"
      by (auto simp: bit_take_bit_iff bit_or_iff bit_push_bit_iff bit_drop_bit_eq)
  qed
  then show "drop_bit 4 (push_bit 4 b OR a) AND 0x0F = b" by (simp add: and_0F b)
qed

lemma unat_small_byte: "n < 256 \<Longrightarrow> unat (word_of_nat n :: byte) = n"
  by (simp add: unat_of_nat take_bit_eq_mod)

lemma small_digit_le: "d < 10 \<Longrightarrow> (word_of_nat d :: byte) \<le> 9"
  by (simp add: word_le_nat_alt unat_small_byte)

lemma decode_digits_pair:
  assumes "d < 10" "e < 10" "k + 2 \<le> n"
  shows "decode_digits ((push_bit 4 (word_of_nat e) OR word_of_nat d) # bcd) n k =
           digit_char d # digit_char e # decode_digits bcd n (k + 2)"
proof -
  define oc where "oc = push_bit 4 (word_of_nat e) OR (word_of_nat d :: byte)"
  have "oc AND 0x0F = word_of_nat d" "drop_bit 4 oc AND 0x0F = word_of_nat e"
    unfolding oc_def using assms by (intro nibbles; simp add: unat_small_byte)+
  then show ?thesis
    using assms unfolding oc_def [symmetric] by (simp add: unat_small_byte small_digit_le)
qed

lemma decode_digits_last:
  assumes "d < 10" "unat h < 16"
  shows "decode_digits [push_bit 4 h OR word_of_nat d] (Suc k) k = [digit_char d]"
proof -
  define oc where "oc = push_bit 4 h OR (word_of_nat d :: byte)"
  have "oc AND 0x0F = word_of_nat d"
    unfolding oc_def using assms by (intro nibbles) (simp_all add: unat_small_byte)
  then show ?thesis
    using assms unfolding oc_def [symmetric] by (simp add: unat_small_byte small_digit_le Let_def)
qed

lemma decode_digits_even:
  assumes "list_all (\<lambda>d. d < 10) ds" "even (length ds)" "n = k + length ds"
  shows "decode_digits (bcd_pairs (map word_of_nat ds)) n k = map digit_char ds"
  using assms
proof (induction ds arbitrary: k rule: induct_list012)
  case (3 x y zs)
  then show ?case by (simp add: decode_digits_pair del: decode_digits.simps)
qed simp_all

lemma decode_digits_odd:
  assumes "list_all (\<lambda>d. d < 10) ds" "odd (length ds)" "n = k + length ds"
  shows "decode_digits (bcd_pairs (map word_of_nat ds @ [0x0F])) n k = map digit_char ds"
  using assms
proof (induction ds arbitrary: k rule: induct_list012)
  case (2 x)
  then show ?case using decode_digits_last [of x "0x0F" k] by simp
next
  case (3 x y zs)
  then show ?case by (simp add: decode_digits_pair del: decode_digits.simps)
qed simp_all

text \<open>What the receiver reads back: the digits of the number, with the plus sign of the
  international form.\<close>

definition address_text :: "gostring \<Rightarrow> gostring" where
  "address_text number =
     (if HasPrefix (TrimSpace number) ''+'' then ''+'' else []) @ map char_of (address_digits number)"

lemma address_digits_range: "list_all is_digit (address_digits number)"
  by (simp add: address_digits_def Let_def list_all_iff)

lemma length_bcd_pairs: "length (bcd_pairs ds) = length ds div 2"
  by (induction ds rule: bcd_pairs.induct) auto

lemma EncodeAddress_eq:
  obtains toa bcd where
    "EncodeAddress number = (word_of_nat (length (address_digits number)), toa, bcd)"
    "length bcd = (length (address_digits number) + 1) div 2"
    "DecodeAddress bcd (length (address_digits number)) toa = address_text number"
proof -
  define ds where "ds = map (\<lambda>r. r - 48) (address_digits number)"
  have dig: "list_all (\<lambda>d. d < 10) ds"
    using address_digits_range [of number] by (auto simp: ds_def list_all_iff is_digit_def)
  have ch: "map digit_char ds = map char_of (address_digits number)"
    using address_digits_range [of number]
    by (auto simp: ds_def list_all_iff is_digit_def digit_char_def)
  define pad where "pad = (if length ds mod 2 \<noteq> 0 then map word_of_nat ds @ [0x0F] else map word_of_nat ds :: byte list)"
  define toa where "toa = (if HasPrefix (TrimSpace number) ''+'' then 0x91 else 0x81 :: byte)"
  have enc: "EncodeAddress number = (word_of_nat (length (address_digits number)), toa, bcd_pairs pad)"
    by (simp add: EncodeAddress_def Let_def pad_def toa_def ds_def o_def)
  have len: "length (bcd_pairs pad) = (length (address_digits number) + 1) div 2"
    by (auto simp: length_bcd_pairs pad_def ds_def)
  have "decode_digits (bcd_pairs pad) (length ds) 0 = map digit_char ds"
    using dig by (auto simp: pad_def decode_digits_even decode_digits_odd odd_iff_mod_2_eq_one even_iff_mod_2_eq_zero)
  then have "DecodeAddress (bcd_pairs pad) (length (address_digits number)) toa = address_text number"
    by (simp add: DecodeAddress_def address_text_def toa_def ch) (simp add: ds_def)
  with enc len show ?thesis by (rule that)
qed

section \<open>Splitting and sizes\<close>

lemma split_fixed_concat: "0 < n \<Longrightarrow> concat (split_fixed n rs) = rs"
proof (induction n rs rule: split_fixed.induct)
  case (1 n rs)
  then show ?case by (subst split_fixed.simps) simp
qed

lemma split_fixed_chunk: "c \<in> set (split_fixed n rs) \<Longrightarrow> c \<noteq> [] \<and> length c \<le> n"
proof (induction n rs rule: split_fixed.induct)
  case (1 n rs)
  show ?case
  proof (cases "rs = [] \<or> n = 0")
    case False
    then have "c = take n rs \<or> c \<in> set (split_fixed n (drop n rs))"
      using "1.prems" by (subst (asm) split_fixed.simps) simp
    with False "1.IH" show ?thesis by auto
  qed (use "1.prems" in \<open>simp add: split_fixed.simps [of n rs]\<close>)
qed

lemma rune_units_pos: "0 < rune_units r" "rune_units r \<le> 2"
  by (simp_all add: rune_units_def)

lemma split_ucs2_concat: "concat (split_ucs2 m cur u rs) = cur @ rs"
  by (induction rs arbitrary: cur u) auto

lemma split_ucs2_chunk:
  assumes "2 \<le> m" "u = sum_list (map rune_units cur)" "u \<le> m" "c \<in> set (split_ucs2 m cur u rs)"
  shows "c \<noteq> [] \<and> sum_list (map rune_units c) \<le> m"
  using assms
proof (induction rs arbitrary: cur u)
  case (Cons r rs)
  show ?case
  proof (cases "m < u + rune_units r")
    case True
    then have "cur \<noteq> []" using Cons.prems(1,2) rune_units_pos(2) [of r] by auto
    moreover have "rune_units r \<le> m" using Cons.prems(1) rune_units_pos(2) [of r] by linarith
    ultimately show ?thesis using True Cons.prems Cons.IH [of "rune_units r" "[r]"] by auto
  next
    case False
    then show ?thesis using Cons.prems Cons.IH [of "u + rune_units r" "cur @ [r]"] by simp
  qed
qed (auto split: if_splits)

lemma splitChunks_concat: "0 < n \<Longrightarrow> concat (splitChunks rs enc n) = rs"
  by (simp add: splitChunks_def split_fixed_concat split_ucs2_concat)

lemma splitChunks_chunk:
  "2 \<le> n \<Longrightarrow> c \<in> set (splitChunks rs enc n) \<Longrightarrow> c \<noteq> [] \<and> totalUnits enc c \<le> n"
  by (auto simp: splitChunks_def totalUnits_def split: if_splits
      dest: split_fixed_chunk split_ucs2_chunk [where u = 0 and cur = "[]", simplified, rotated])

lemma length_utf16_Encode:
  "list_all valid_rune rs \<Longrightarrow> length (utf16_Encode rs) = sum_list (map rune_units rs)"
  by (induction rs) (auto simp: utf16_Encode_def utf16_encode_rune_def rune_units_def valid_rune_def)

lemma length_EncodeUCS2_runes:
  "list_all valid_rune rs \<Longrightarrow> length (EncodeUCS2 (string_of_runes rs)) = 2 * sum_list (map rune_units rs)"
  by (simp add: length_EncodeUCS2 runes_string_of_runes length_utf16_Encode)

definition basic_only :: "rune list \<Rightarrow> bool" where
  "basic_only rs \<longleftrightarrow> list_all (\<lambda>r. runeToGSM7Basic r \<noteq> None) rs"

lemma length_EncodeGSM7_basic:
  "list_all valid_rune rs \<Longrightarrow> basic_only rs \<Longrightarrow> length (EncodeGSM7 (string_of_runes rs)) = length rs"
  by (simp add: EncodeGSM7_def runes_string_of_runes length_concat basic_only_def)
     (induction rs, auto simp: encode_gsm7_rune_def)

text \<open>The octets of an SMS-SUBMIT as the modem reads them: SMSC length, first octet, message
  reference, destination address, protocol, coding scheme, validity, length, user data.\<close>

definition submit_frame :: "gostring \<Rightarrow> byte \<Rightarrow> byte \<Rightarrow> byte \<Rightarrow> byte list \<Rightarrow> byte list" where
  "submit_frame recipient fo dcs udl ud =
     (let (n, toa, bcd) = EncodeAddress recipient
      in [0x00, fo, 0x00, n, toa] @ bcd @ [0x00, dcs, 0xAA, udl] @ ud)"

lemma hex_const: "hex_byte 0 = ''00''" "hex_byte 0xAA = ''AA''"
  by code_simp+

lemma buildPDU_frame:
  "Hex (buildPDU recipient fo dcs udl (hexString ud) udh enc i n) = hexString (submit_frame recipient fo dcs udl ud)"
  by (simp add: buildPDU_def submit_frame_def Let_def FormatAddressHex_def split_beta hex_const)

lemma buildPDU_CommandLength:
  "CommandLength (buildPDU recipient fo dcs udl (hexString ud) udh enc i n) + 1 =
     length (submit_frame recipient fo dcs udl ud)"
  by (simp add: buildPDU_def submit_frame_def Let_def FormatAddressHex_def split_beta)

text \<open>What the two PDU builders put into the frame.\<close>

definition single_ud :: "Encoding \<Rightarrow> rune list \<Rightarrow> byte \<times> nat \<times> byte list" where
  "single_ud enc rs =
     (if enc = EncodingGSM7
      then (0x00, length (EncodeGSM7 (string_of_runes rs)), PackSeptets (EncodeGSM7 (string_of_runes rs)) 0)
      else (0x08, length (EncodeUCS2 (string_of_runes rs)), EncodeUCS2 (string_of_runes rs)))"

definition part_ud :: "Encoding \<Rightarrow> rune list \<Rightarrow> byte \<Rightarrow> nat \<Rightarrow> nat \<Rightarrow> byte \<times> nat \<times> byte list" where
  "part_ud enc rs ref i n =
     (let udh = [0x05, 0x00, 0x03, ref, word_of_nat n, word_of_nat i]
      in if enc = EncodingGSM7
         then (0x00, 7 + length (EncodeGSM7 (string_of_runes rs)),
               udh @ PackSeptets (EncodeGSM7 (string_of_runes rs)) 1)
         else (0x08, 6 + length (EncodeUCS2 (string_of_runes rs)), udh @ EncodeUCS2 (string_of_runes rs)))"

lemma encodeSingle_eq:
  "single_ud enc rs = (dcs, udl, ud) \<Longrightarrow>
   encodeSingle recipient rs enc srr =
     buildPDU recipient (if srr then 0x31 else 0x11) dcs (word_of_nat udl) (hexString ud) False enc 1 1"
  by (auto simp: encodeSingle_def single_ud_def Let_def split: if_splits)

lemma encodePart_eq:
  "part_ud enc rs ref i n = (dcs, udl, ud) \<Longrightarrow>
   encodePart recipient rs enc srr ref i n =
     buildPDU recipient (if srr then 0x71 else 0x51) dcs (word_of_nat udl) (hexString ud) True enc i n"
  by (auto simp: encodePart_def part_ud_def Let_def split: if_splits)

lemma encodeParts_nth:
  "k < length chunks \<Longrightarrow> encodeParts recipient enc srr ref i n chunks ! k =
     encodePart recipient (chunks ! k) enc srr ref (i + k + 1) n"
  by (induction chunks arbitrary: i k) (auto simp: nth_Cons split: nat.splits)

lemma length_encodeParts [simp]: "length (encodeParts recipient enc srr ref i n chunks) = length chunks"
  by (induction chunks arbitrary: i) auto

lemma set_encodeParts:
  "p \<in> set (encodeParts recipient enc srr ref i n chunks) \<Longrightarrow>
   \<exists>c\<in>set chunks. \<exists>k. p = encodePart recipient c enc srr ref k n"
  by (induction chunks arbitrary: i) auto

text \<open>The result of the encoder, on every branch.\<close>

lemma EncodeSMS_cases:
  assumes "EncodeSMS rc recipient text enc srr = (Inr pdus, rc')"
  obtains (single) "pdus = [encodeSingle recipient (runes text) (selectEncoding enc text) srr]" "rc' = rc"
      "totalUnits (selectEncoding enc text) (runes text) \<le> (if selectEncoding enc text = EncodingGSM7 then 160 else 70)"
  | (multi) chunks where
      "chunks = splitChunks (runes text) (selectEncoding enc text)
                  (if selectEncoding enc text = EncodingGSM7 then 153 else 67)"
      "pdus = encodeParts recipient (selectEncoding enc text) srr (nextRefNumber rc) 0 (length chunks) chunks"
      "rc' = nextRefNumber rc"
      "(if selectEncoding enc text = EncodingGSM7 then 160 else 70) < totalUnits (selectEncoding enc text) (runes text)"
proof (cases "totalUnits (selectEncoding enc text) (runes text) \<le>
              (if selectEncoding enc text = EncodingGSM7 then 160 else 70)")
  case True
  moreover from this assms have
    "pdus = [encodeSingle recipient (runes text) (selectEncoding enc text) srr] \<and> rc' = rc"
    unfolding EncodeSMS_def Let_def by (simp only: if_True split: if_splits) simp_all
  ultimately show ?thesis by (intro single) auto
next
  case False
  with assms show ?thesis
    unfolding EncodeSMS_def Let_def by (intro multi [OF refl]) (simp_all only: if_False split: if_splits, auto)
qed

end
