(* ===== verification/PDU_Network.thy ===== *)
theory PDU_Network
  imports PDU_Codec
begin

text \<open>
  The codec against the network: what a service centre makes of an SMS-SUBMIT of the
  encoder when it delivers it (\<open>relay\<close>, after 3GPP TS 23.040: the validity period and the
  message reference go, the originator and the service-centre time stamp come, protocol,
  coding scheme and user data are kept), and what the decoder reads from that SMS-DELIVER.
  The theorems are the end-to-end contracts of the codec: sizes, lengths and the text.
\<close>

section \<open>Service centre\<close>

definition deliver_frame :: "byte list \<Rightarrow> byte \<Rightarrow> gostring \<Rightarrow> byte \<Rightarrow> byte \<Rightarrow> byte list \<Rightarrow> byte \<Rightarrow> byte list \<Rightarrow> byte list" where
  "deliver_frame sca fo originator pid dcs scts udl ud =
     (let (n, toa, bcd) = EncodeAddress originator
      in word_of_nat (length sca) # sca @ [fo, n, toa] @ bcd @ [pid, dcs] @ scts @ [udl] @ ud)"

definition relay :: "byte list \<Rightarrow> gostring \<Rightarrow> byte list \<Rightarrow> gostring \<Rightarrow> gostring option" where
  "relay sca originator scts submitHex = (case hex_DecodeString submitHex of
     Some (_ # fo # _ # n # _ # rest) \<Rightarrow>
       (case drop ((unat n + 1) div 2) rest of
          pid # dcs # _ # udl # ud \<Rightarrow>
            Some (hexString (deliver_frame sca (fo AND 0x40) originator pid dcs scts udl ud))
        | _ \<Rightarrow> None)
   | _ \<Rightarrow> None)"

lemma relay_submit:
  assumes "length (address_digits recipient) < 256"
  shows "relay sca originator scts (hexString (submit_frame recipient fo dcs udl ud)) =
           Some (hexString (deliver_frame sca (fo AND 0x40) originator 0 dcs scts udl ud))"
proof -
  obtain toa bcd where "EncodeAddress recipient = (word_of_nat (length (address_digits recipient)), toa, bcd)"
    "length bcd = (length (address_digits recipient) + 1) div 2"
    by (rule EncodeAddress_eq)
  then show ?thesis
    using assms unfolding relay_def hex_DecodeString_hexString
    by (simp add: submit_frame_def unat_small_byte)
qed

section \<open>Decoding a delivered frame\<close>

definition deliver_result :: "gotime \<Rightarrow> gostring \<Rightarrow> byte \<Rightarrow> byte list \<Rightarrow> bool \<Rightarrow> DecodedSMS" where
  "deliver_result now originator dcs scts hasUDH =
     \<lparr>SmsFrom = address_text originator, SmsText = [], SmsTimestamp = DecodeTimestamp now scts,
      SmsEncoding = (if dcs AND 0x0C = 0x08 then EncodingUCS2 else EncodingGSM7),
      SmsHasUDH = hasUDH, SmsReference = 0, SmsPartNumber = 0, SmsTotalParts = 0\<rparr>"

lemma DecodeSMS_deliver:
  assumes sca: "length sca < 256" and orig: "length (address_digits originator) < 256"
    and scts: "length scts = 7" and fo: "fo AND 0x03 = 0"
  shows "DecodeSMS now (hexString (deliver_frame sca fo originator pid dcs scts udl ud)) =
    (let res = deliver_result now originator dcs scts (fo AND 0x40 \<noteq> 0)
     in if fo AND 0x40 \<noteq> 0
        then parseUDH (deliver_frame sca fo originator pid dcs scts udl ud)
               (length (deliver_frame sca fo originator pid dcs scts udl [])) (unat udl) (SmsEncoding res) res
        else Inr (parsePlainUD ud (unat udl) (SmsEncoding res) res))"
proof -
  obtain toa bcd where ea: "EncodeAddress originator = (word_of_nat (length (address_digits originator)), toa, bcd)"
    "length bcd = (length (address_digits originator) + 1) div 2"
    "DecodeAddress bcd (length (address_digits originator)) toa = address_text originator"
    by (rule EncodeAddress_eq)
  define n where "n = length (address_digits originator)"
  have n: "unat (word_of_nat n :: byte) = n" using orig by (simp add: n_def unat_small_byte)
  have s: "unat (word_of_nat (length sca) :: byte) = length sca" using sca by (simp add: unat_small_byte)
  have pre: "length (deliver_frame sca fo originator pid dcs scts udl []) = length sca + length bcd + 14"
    using scts by (simp add: deliver_frame_def ea(1))
  let ?data = "word_of_nat (length sca) # sca @ [fo, word_of_nat n, toa] @ bcd @ [pid, dcs] @ scts @ [udl] @ ud"
  have frame: "deliver_frame sca fo originator pid dcs scts udl ud = ?data"
    by (simp add: deliver_frame_def ea(1) n_def)
  have len: "length ?data = length sca + length bcd + 14 + length ud" using scts by simp
  have bcd: "(n + 1) div 2 = length bcd" by (simp add: ea(2) n_def)
  have addr: "DecodeAddress bcd n toa = address_text originator" using ea(3) by (simp add: n_def)
  have ts: "take 7 (drop (5 + length bcd) (fo # word_of_nat n # toa # bcd @ pid # dcs # scts @ udl # ud)) = scts"
    using scts by (simp add: numeral_eq_Suc)
  have dr: "drop (length sca + length bcd + 14) (word_of_nat (length sca) # sca @
              fo # word_of_nat n # toa # bcd @ pid # dcs # scts @ udl # ud) = ud"
    using scts by (simp add: numeral_eq_Suc)
  have pre': "14 + (length sca + length bcd) = length sca + length bcd + 14" by simp
  show ?thesis
    unfolding frame pre
    by (simp only: DecodeSMS_def hex_DecodeString_hexString option.case)
       (simp add: s n bcd [simplified] addr fo scts nth_append Let_def deliver_result_def ts dr pre')
qed

lemma deliver_frame_split:
  "deliver_frame sca fo originator pid dcs scts udl ud = deliver_frame sca fo originator pid dcs scts udl [] @ ud"
  by (simp add: deliver_frame_def split_beta)

lemma parseUDH_concat:
  "parseUDH (pre @ [0x05, 0x00, 0x03, ref, n, i] @ body) (length pre) udl enc res =
     Inr (let res1 = res\<lparr>SmsReference := ref, SmsTotalParts := unat n, SmsPartNumber := unat i\<rparr>
          in if enc = EncodingUCS2 then res1\<lparr>SmsText := DecodeUCS2 body\<rparr>
             else if 7 < udl then res1\<lparr>SmsText := DecodeGSM7 (UnpackSeptets body (udl - 7) 1)\<rparr> else res1)"
proof -
  have five: "unat (5 :: byte) = 5" by simp
  have "take 6 ([0x05, 0x00, 0x03, ref, n, i] @ body) = [0x05, 0x00, 0x03, ref, n, i]"
    by (simp add: numeral_eq_Suc)
  then show ?thesis
    by (simp add: parseUDH_def Let_def nth_append five)
qed

section \<open>What the receiver sees\<close>

definition receive :: "gotime \<Rightarrow> byte list \<Rightarrow> gostring \<Rightarrow> byte list \<Rightarrow> PDU \<Rightarrow> (pdu_error + DecodedSMS) option" where
  "receive now sca originator scts p = map_option (DecodeSMS now) (relay sca originator scts (Hex p))"

text \<open>User data that the one-octet length field and the alphabet can carry.\<close>

definition fits :: "Encoding \<Rightarrow> nat \<Rightarrow> rune list \<Rightarrow> bool" where
  "fits enc hdr c \<longleftrightarrow> (enc = EncodingGSM7 \<longrightarrow>
     IsGSM7 (string_of_runes c) \<and> hdr + length (EncodeGSM7 (string_of_runes c)) < 256)"

lemma gsm7_user_data:
  "IsGSM7 s \<Longrightarrow> DecodeGSM7 (UnpackSeptets (PackSeptets (EncodeGSM7 s) b) (length (EncodeGSM7 s)) b) = s"
  by (simp add: unpack_pack_septets EncodeGSM7_septets decode_encode_gsm7)

lemma ucs2_user_data:
  "list_all valid_rune c \<Longrightarrow> DecodeUCS2 (EncodeUCS2 (string_of_runes c)) = string_of_runes c"
  by (simp add: DecodeUCS2_EncodeUCS2 runes_string_of_runes)

lemma EncodeGSM7_nonempty: "list_all valid_rune c \<Longrightarrow> c \<noteq> [] \<Longrightarrow> EncodeGSM7 (string_of_runes c) \<noteq> []"
  by (cases c) (auto simp: EncodeGSM7_def runes_string_of_runes encode_gsm7_rune_def split: option.split)

lemma EncodeUCS2_nonempty: "list_all valid_rune c \<Longrightarrow> c \<noteq> [] \<Longrightarrow> EncodeUCS2 (string_of_runes c) \<noteq> []"
proof -
  assume c: "list_all valid_rune c" "c \<noteq> []"
  then have "0 < sum_list (map rune_units c)" by (cases c) (auto simp: rune_units_pos)
  then have "0 < length (EncodeUCS2 (string_of_runes c))" by (simp add: length_EncodeUCS2_runes c)
  then show ?thesis by simp
qed

lemma PackSeptets_nonempty: "ss \<noteq> [] \<Longrightarrow> PackSeptets ss b \<noteq> []"
proof -
  assume ss: "ss \<noteq> []"
  then have "0 < (b + 7 * length ss + 7) div 8" by (cases ss) (simp_all add: div_greater_zero_iff)
  with ss have "0 < length (PackSeptets ss b)" by (simp add: length_PackSeptets)
  then show ?thesis by simp
qed

lemma receive_frame:
  assumes "length (address_digits recipient) < 256" "length (address_digits originator) < 256"
    "length sca < 256" "length scts = 7"
    and "Hex p = hexString (submit_frame recipient fo dcs udl ud)"
  shows "receive now sca originator scts p = Some
    (let res = deliver_result now originator dcs scts (fo AND 0x40 \<noteq> 0)
     in if fo AND 0x40 \<noteq> 0
        then parseUDH (deliver_frame sca (fo AND 0x40) originator 0 dcs scts udl ud)
               (length (deliver_frame sca (fo AND 0x40) originator 0 dcs scts udl [])) (unat udl) (SmsEncoding res) res
        else Inr (parsePlainUD ud (unat udl) (SmsEncoding res) res))"
proof -
  have "(fo AND 0x40) AND 0x03 = 0" "(fo AND 0x40) AND 0x40 = fo AND 0x40"
    by (simp_all add: and.assoc)
  with assms show ?thesis
    by (simp add: receive_def relay_submit DecodeSMS_deliver)
qed

lemma receive_single:
  assumes "length (address_digits recipient) < 256" "length (address_digits originator) < 256"
    "length sca < 256" "length scts = 7"
    and c: "list_all valid_rune c" "c \<noteq> []" "fits enc 0 c"
  shows "receive now sca originator scts (encodeSingle recipient c enc srr) =
    Some (Inr ((deliver_result now originator (if enc = EncodingGSM7 then 0 else 8) scts False)
      \<lparr>SmsText := string_of_runes c\<rparr>))"
proof -
  obtain dcs udl ud where ud: "single_ud enc c = (dcs, udl, ud)" by (metis prod_cases3)
  note ne = EncodeGSM7_nonempty [OF c(1,2)] EncodeUCS2_nonempty [OF c(1,2)]
    PackSeptets_nonempty [OF EncodeGSM7_nonempty [OF c(1,2)], of 0]
  have fo: "(if srr then 0x31 else 0x11 :: byte) AND 0x40 = 0" by simp
  note rf = receive_frame [OF assms(1-4) buildPDU_frame [of recipient "if srr then 0x31 else 0x11" dcs "word_of_nat udl" ud False enc 1 1],
      folded encodeSingle_eq [OF ud, of recipient srr], unfolded fo]
  show ?thesis
    unfolding rf
    using ud c(3) ne
    by (auto simp: single_ud_def parsePlainUD_def Let_def deliver_result_def fits_def unat_small_byte gsm7_user_data ucs2_user_data c(1) 
      length_PackSeptets Encoding_defs split: if_splits)
qed

lemma receive_part:
  assumes "length (address_digits recipient) < 256" "length (address_digits originator) < 256"
    "length sca < 256" "length scts = 7"
    and c: "list_all valid_rune c" "c \<noteq> []" "fits enc 7 c" and nr: "i < 256" "n < 256"
  shows "receive now sca originator scts (encodePart recipient c enc srr ref i n) =
    Some (Inr ((deliver_result now originator (if enc = EncodingGSM7 then 0 else 8) scts True)
      \<lparr>SmsText := string_of_runes c, SmsReference := ref, SmsTotalParts := n, SmsPartNumber := i\<rparr>))"
proof -
  obtain dcs udl ud where ud: "part_ud enc c ref i n = (dcs, udl, ud)" by (metis prod_cases3)
  define body where "body = (if enc = EncodingGSM7 then PackSeptets (EncodeGSM7 (string_of_runes c)) 1
                             else EncodeUCS2 (string_of_runes c))"
  have ud': "ud = [0x05, 0x00, 0x03, ref, word_of_nat n, word_of_nat i] @ body"
    using ud by (auto simp: part_ud_def body_def Let_def split: if_splits)
  have fo: "(if srr then 0x71 else 0x51 :: byte) AND 0x40 = 0x40" by simp
  note rf = receive_frame [OF assms(1-4) buildPDU_frame [of recipient "if srr then 0x71 else 0x51" dcs "word_of_nat udl" ud True enc i n],
      folded encodePart_eq [OF ud, of recipient srr], unfolded fo]
  show ?thesis
    unfolding rf
    using ud c(3) EncodeGSM7_nonempty [OF c(1,2)]
    by (subst deliver_frame_split, unfold ud' parseUDH_concat)
       (auto simp: part_ud_def body_def Let_def deliver_result_def fits_def unat_small_byte nr
      gsm7_user_data ucs2_user_data c(1) Encoding_defs split: if_splits)
qed

section \<open>End to end\<close>

lemma basic_only_IsGSM7: "list_all valid_rune c \<Longrightarrow> basic_only c \<Longrightarrow> IsGSM7 (string_of_runes c)"
  by (simp add: IsGSM7_def basic_only_def runes_string_of_runes list_all_iff)

lemma basic_fits:
  "list_all valid_rune c \<Longrightarrow> (enc = EncodingGSM7 \<Longrightarrow> basic_only c \<and> hdr + length c < 256) \<Longrightarrow> fits enc hdr c"
  by (simp add: fits_def basic_only_IsGSM7 length_EncodeGSM7_basic)

lemma string_of_runes_concat: "string_of_runes (concat cs) = concat (map string_of_runes cs)"
  by (induction cs) (simp_all add: string_of_runes_append string_of_runes_Nil)

lemma concat_list_all: "list_all P (concat cs) \<Longrightarrow> c \<in> set cs \<Longrightarrow> list_all P c"
  by (auto simp: list_all_iff)

lemma receive_parts:
  assumes addr: "length (address_digits recipient) < 256" "length (address_digits originator) < 256"
    "length sca < 256" "length scts = 7"
    and cs: "\<And>c. c \<in> set cs \<Longrightarrow> list_all valid_rune c \<and> c \<noteq> [] \<and> fits enc 7 c" and n: "n < 256" "i + length cs \<le> n"
  shows "map (receive now sca originator scts) (encodeParts recipient enc srr ref i n cs) =
    map (\<lambda>k. Some (Inr ((deliver_result now originator (if enc = EncodingGSM7 then 0 else 8) scts True)
      \<lparr>SmsText := string_of_runes (cs ! k), SmsReference := ref, SmsTotalParts := n, SmsPartNumber := i + k + 1\<rparr>)))
      [0..<length cs]"
proof (rule nth_equalityI)
  fix k assume "k < length (map (receive now sca originator scts) (encodeParts recipient enc srr ref i n cs))"
  then have k: "k < length cs" by simp
  with cs [of "cs ! k"] n show "map (receive now sca originator scts) (encodeParts recipient enc srr ref i n cs) ! k =
    map (\<lambda>k. Some (Inr ((deliver_result now originator (if enc = EncodingGSM7 then 0 else 8) scts True)
      \<lparr>SmsText := string_of_runes (cs ! k), SmsReference := ref, SmsTotalParts := n, SmsPartNumber := i + k + 1\<rparr>)))
      [0..<length cs] ! k"
    by (simp add: encodeParts_nth receive_part addr)
qed simp

text \<open>The condition under which the chosen alphabet carries the text without loss and without
  a character of two septets.\<close>

definition carries :: "Encoding \<Rightarrow> gostring \<Rightarrow> bool" where
  "carries enc text \<longleftrightarrow>
     (if selectEncoding enc text = EncodingGSM7 then basic_only (runes text) else valid_utf8 text)"

lemma carries_text: "carries enc text \<Longrightarrow> string_of_runes (runes text) = text"
proof (cases "selectEncoding enc text = EncodingGSM7")
  case True
  moreover assume "carries enc text"
  ultimately have "IsGSM7 text" by (simp add: carries_def IsGSM7_def basic_only_def list_all_iff)
  then show ?thesis by (rule IsGSM7_utf8)
qed (simp add: carries_def valid_utf8_def)

lemma basic_only_concat: "basic_only (concat cs) \<Longrightarrow> c \<in> set cs \<Longrightarrow> basic_only c"
  by (auto simp: basic_only_def list_all_iff)

lemma multipart_chunks:
  assumes "sel = selectEncoding enc text" "cs = splitChunks (runes text) sel (if sel = EncodingGSM7 then 153 else 67)"
    and "carries enc text"
  shows "concat cs = runes text" "c \<in> set cs \<Longrightarrow> list_all valid_rune c \<and> c \<noteq> [] \<and> fits sel 7 c"
proof -
  show cc: "concat cs = runes text" by (simp add: assms(2) splitChunks_concat)
  assume c: "c \<in> set cs"
  have v: "list_all valid_rune c" using concat_list_all [OF _ c, of valid_rune] cc runes_valid by simp
  have "c \<noteq> []" "totalUnits sel c \<le> (if sel = EncodingGSM7 then 153 else 67)"
    using splitChunks_chunk [OF _ c [unfolded assms(2)]] by auto
  moreover have "sel = EncodingGSM7 \<Longrightarrow> basic_only c"
    using assms(3) basic_only_concat [OF _ c] cc by (simp add: carries_def assms(1))
  moreover have "sel = EncodingGSM7 \<Longrightarrow> totalUnits sel c = length c" by (simp add: totalUnits_def Encoding_defs)
  ultimately show "list_all valid_rune c \<and> c \<noteq> [] \<and> fits sel 7 c"
    using v basic_fits [OF v, of sel 7] by (cases "sel = EncodingGSM7") simp_all
qed

lemma several_chunks:
  assumes "cs = splitChunks rs enc m" "2 \<le> m" "m < totalUnits enc rs"
  shows "1 < length cs"
proof (rule ccontr)
  assume "\<not> 1 < length cs"
  then consider "cs = []" | c where "cs = [c]" by (cases cs) auto
  moreover have "concat cs = rs" using assms(1,2) splitChunks_concat by auto
  ultimately show False
    using assms(3) splitChunks_chunk [OF assms(2), of rs rs enc, folded assms(1)]
    by cases (auto simp: totalUnits_def split: if_splits)
qed

lemma map_nth_eq: "map (\<lambda>k. f (xs ! k)) [0..<length xs] = map f xs"
  by (rule nth_equalityI) simp_all

text \<open>The messages a receiver decodes, with the texts \<open>ts\<close> of the parts.\<close>

definition delivered :: "gotime \<Rightarrow> gostring \<Rightarrow> Encoding \<Rightarrow> byte list \<Rightarrow> byte \<Rightarrow> gostring list \<Rightarrow> nat \<Rightarrow> DecodedSMS" where
  "delivered now originator sel scts ref ts k =
     (let multi = 1 < length ts
      in (deliver_result now originator (if sel = EncodingGSM7 then 0 else 8) scts multi)
           \<lparr>SmsText := ts ! k, SmsReference := (if multi then ref else 0),
            SmsTotalParts := (if multi then length ts else 0), SmsPartNumber := (if multi then k + 1 else 0)\<rparr>)"

lemma EncodeSMS_messages:
  assumes enc: "EncodeSMS rc recipient text enc srr = (Inr pdus, rc')" and car: "carries enc text"
    and addr: "length (address_digits recipient) < 256" "length (address_digits originator) < 256"
      "length sca < 256" "length scts = 7" and n: "length pdus < 256"
  obtains ts where "length ts = length pdus" "ts \<noteq> []" "concat ts = text"
    "map (receive now sca originator scts) pdus
      = map (\<lambda>k. Some (Inr (delivered now originator (selectEncoding enc text) scts rc' ts k))) [0..<length ts]"
  using enc
proof (cases rule: EncodeSMS_cases)
  case single
  let ?sel = "selectEncoding enc text"
  have "runes text \<noteq> []" using enc carries_text [OF car]
    by (auto simp: EncodeSMS_def string_of_runes_def string_of_bytes_def split: if_splits)
  moreover have "fits ?sel 0 (runes text)"
    using single(3) car by (intro basic_fits) (auto simp: runes_valid totalUnits_def carries_def Encoding_defs split: if_splits)
  ultimately show ?thesis
    by (intro that [of "[text]"])
      (simp_all add: single(1) receive_single addr runes_valid carries_text [OF car], simp add: delivered_def deliver_result_def)
next
  case (multi chunks)
  let ?sel = "selectEncoding enc text"
  note mc = multipart_chunks [OF refl multi(1) car]
  have l: "1 < length chunks"
    by (rule several_chunks [OF multi(1)]) (use multi(4) in \<open>auto split: if_splits\<close>)
  show ?thesis
  proof (rule that [of "map string_of_runes chunks"])
    show "map (receive now sca originator scts) pdus = map (\<lambda>k. Some (Inr (delivered now originator ?sel scts rc'
        (map string_of_runes chunks) k))) [0..<length (map string_of_runes chunks)]"
      using receive_parts [OF addr mc(2), where i = 0 and cs = chunks and n = "length chunks"] n multi(2,3) l
      by (auto simp: delivered_def)
  qed (use l multi(2) in \<open>auto simp: mc(1) carries_text [OF car] simp flip: string_of_runes_concat\<close>)
qed

text \<open>Property C2. The whole path of a message: whatever the encoder returns for a text that the
  selected alphabet carries, the delivered PDUs decode, their texts concatenated are the
  text, each shows the originator's number, and the parts of a multipart message carry the
  message's reference (the new value of the counter), the number of parts and the part
  numbers 1 to n in order.
\<close>

theorem EncodeSMS_delivered:
  assumes "EncodeSMS rc recipient text enc srr = (Inr pdus, rc')" "carries enc text"
    and "length (address_digits recipient) < 256" "length (address_digits originator) < 256"
      "length sca < 256" "length scts = 7" "length pdus < 256"
  shows "\<exists>msgs. map (receive now sca originator scts) pdus = map (\<lambda>m. Some (Inr m)) msgs
    \<and> concat (map SmsText msgs) = text
    \<and> (\<forall>k<length msgs. SmsFrom (msgs ! k) = address_text originator
        \<and> SmsHasUDH (msgs ! k) = (1 < length msgs)
        \<and> (1 < length msgs \<longrightarrow> SmsReference (msgs ! k) = rc' \<and> SmsTotalParts (msgs ! k) = length msgs
            \<and> SmsPartNumber (msgs ! k) = k + 1))"
proof -
  let ?msg = "delivered now originator (selectEncoding enc text) scts rc'"
  obtain ts where "concat ts = text"
    "map (receive now sca originator scts) pdus = map (\<lambda>k. Some (Inr (?msg ts k))) [0..<length ts]"
    using EncodeSMS_messages [OF assms] .
  moreover have "map SmsText (map (?msg ts) [0..<length ts]) = ts"
    by (rule nth_equalityI) (simp_all add: delivered_def Let_def)
  ultimately show ?thesis
    by (intro exI [of _ "map (?msg ts) [0..<length ts]"]) (auto simp: delivered_def deliver_result_def Let_def)
qed

theorem EncodeSMS_delivered_witness:
  "\<exists>msgs. map (receive \<lparr>t_instant = 0, t_offset = 0\<rparr> [0x91] ''+491701'' [0, 0, 0, 0, 0, 0, 0])
        (projr (fst (EncodeSMS 7 ''+4917099'' (replicate 71 (CHR ''A'')) EncodingUCS2 False)))
      = map (\<lambda>m. Some (Inr m)) msgs
    \<and> concat (map SmsText msgs) = replicate 71 (CHR ''A'')
    \<and> (\<forall>k<length msgs. SmsFrom (msgs ! k) = address_text ''+491701''
        \<and> SmsHasUDH (msgs ! k) = (1 < length msgs)
        \<and> (1 < length msgs \<longrightarrow> SmsReference (msgs ! k) = 8 \<and> SmsTotalParts (msgs ! k) = length msgs
            \<and> SmsPartNumber (msgs ! k) = k + 1))"
proof (rule EncodeSMS_delivered)
  have "case EncodeSMS 7 ''+4917099'' (replicate 71 (CHR ''A'')) EncodingUCS2 False of
      (Inr ps, r) \<Rightarrow> r = 8 \<and> length ps = 2 | _ \<Rightarrow> False"
    by code_simp
  then show "EncodeSMS 7 ''+4917099'' (replicate 71 (CHR ''A'')) EncodingUCS2 False =
      (Inr (projr (fst (EncodeSMS 7 ''+4917099'' (replicate 71 (CHR ''A'')) EncodingUCS2 False))), 8)"
    "length (projr (fst (EncodeSMS 7 ''+4917099'' (replicate 71 (CHR ''A'')) EncodingUCS2 False))) < 256"
    by (auto split: prod.splits sum.splits)
qed code_simp+

section \<open>Sizes\<close>

lemma gsm7_single_size: "n \<le> 160 \<Longrightarrow> (7 * n + 7) div 8 \<le> (140::nat)"
  by linarith

text \<open>The user data of a PDU: its length field and its octets.\<close>

definition carries_ud :: "gostring \<Rightarrow> PDU \<Rightarrow> byte \<Rightarrow> byte list \<Rightarrow> bool" where
  "carries_ud recipient p udl ud \<longleftrightarrow> (\<exists>fo dcs. Hex p = hexString (submit_frame recipient fo dcs udl ud)
     \<and> CommandLength p + 1 = length (submit_frame recipient fo dcs udl ud))"

lemma buildPDU_carries_ud: "carries_ud recipient (buildPDU recipient fo dcs udl (hexString ud) h enc i n) udl ud"
  unfolding carries_ud_def using buildPDU_frame buildPDU_CommandLength by blast

definition ud_octets :: "Encoding \<Rightarrow> byte \<Rightarrow> nat" where
  "ud_octets enc udl = (if enc = EncodingGSM7 then (7 * unat udl + 7) div 8 else unat udl)"

lemma single_size:
  assumes "list_all valid_rune c" "c \<noteq> []" "enc = EncodingGSM7 \<and> basic_only c \<and> length c \<le> 160
      \<or> enc = EncodingUCS2 \<and> totalUnits enc c \<le> 70"
  obtains udl ud where "carries_ud recipient (encodeSingle recipient c enc srr) udl ud"
    "length ud \<le> 140" "length ud = ud_octets enc udl"
proof -
  obtain dcs udl ud where ud: "single_ud enc c = (dcs, udl, ud)" by (metis prod_cases3)
  have "EncodeGSM7 (string_of_runes c) \<noteq> []" by (rule EncodeGSM7_nonempty [OF assms(1,2)])
  then have "udl < 256 \<and> length ud \<le> 140 \<and> length ud = (if enc = EncodingGSM7 then (7 * udl + 7) div 8 else udl)"
    using assms ud
    by (auto simp: single_ud_def length_PackSeptets length_EncodeGSM7_basic length_EncodeUCS2_runes
        totalUnits_def Encoding_defs split: if_splits)
  then show ?thesis
    using that [of "word_of_nat udl" ud] by (simp add: encodeSingle_eq [OF ud] buildPDU_carries_ud ud_octets_def unat_small_byte)
qed

lemma part_size:
  assumes "list_all valid_rune c" "c \<noteq> []" "enc = EncodingGSM7 \<and> basic_only c \<and> length c \<le> 153
      \<or> enc = EncodingUCS2 \<and> totalUnits enc c \<le> 67"
  obtains udl ud where "carries_ud recipient (encodePart recipient c enc srr ref i n) udl ud"
    "length ud \<le> 140" "length ud = ud_octets enc udl"
proof -
  obtain dcs udl ud where ud: "part_ud enc c ref i n = (dcs, udl, ud)" by (metis prod_cases3)
  have "EncodeGSM7 (string_of_runes c) \<noteq> []" by (rule EncodeGSM7_nonempty [OF assms(1,2)])
  then have "udl < 256 \<and> length ud \<le> 140 \<and> length ud = (if enc = EncodingGSM7 then (7 * udl + 7) div 8 else udl)"
    using assms ud
    by (auto simp: part_ud_def Let_def length_PackSeptets length_EncodeGSM7_basic length_EncodeUCS2_runes
        totalUnits_def Encoding_defs split: if_splits)
  then show ?thesis
    using that [of "word_of_nat udl" ud] by (simp add: encodePart_eq [OF ud] buildPDU_carries_ud ud_octets_def unat_small_byte)
qed

text \<open>Property C24. The size limits of an SMS: for the GSM and UCS-2 alphabets, and a text without
  two-septet characters, every PDU carries at most 140 octets of user data, the length field
  agrees with them, and \<^verbatim>\<open>CommandLength\<close> (the argument of \<^verbatim>\<open>AT+CMGS\<close>) is the number of octets
  after the service-centre field.
\<close>

theorem EncodeSMS_size:
  assumes enc: "EncodeSMS rc recipient text enc srr = (Inr pdus, rc')" and car: "carries enc text"
    and sel: "selectEncoding enc text \<in> {EncodingGSM7, EncodingUCS2}" and p: "p \<in> set pdus"
  shows "\<exists>fo dcs udl ud. Hex p = hexString (submit_frame recipient fo dcs udl ud)
    \<and> CommandLength p + 1 = length (submit_frame recipient fo dcs udl ud)
    \<and> length ud \<le> 140 \<and> length ud = ud_octets (selectEncoding enc text) udl"
proof -
  let ?sel = "selectEncoding enc text"
  have ne: "runes text \<noteq> []" using enc carries_text [OF car]
    by (auto simp: EncodeSMS_def string_of_runes_Nil split: if_splits)
  have g: "?sel = EncodingGSM7 \<Longrightarrow> basic_only (runes text)" using car by (simp add: carries_def)
  have t: "totalUnits EncodingGSM7 c = length c" for c by (simp add: totalUnits_def Encoding_defs)
  obtain udl ud where "carries_ud recipient p udl ud" "length ud \<le> 140" "length ud = ud_octets ?sel udl"
    using enc
  proof (cases rule: EncodeSMS_cases)
    case single
    have "?sel = EncodingGSM7 \<and> basic_only (runes text) \<and> length (runes text) \<le> 160
        \<or> ?sel = EncodingUCS2 \<and> totalUnits ?sel (runes text) \<le> 70"
      using single(3) sel g t by (cases "?sel = EncodingGSM7") simp_all
    with single_size [OF runes_valid ne] that p single(1) show ?thesis by (metis list.set_intros(1) set_ConsD empty_iff list.set(1))
  next
    case (multi chunks)
    then obtain c k where c: "c \<in> set chunks" "p = encodePart recipient c ?sel srr (nextRefNumber rc) k (length chunks)"
      using p set_encodeParts by blast
    have v: "list_all valid_rune c \<and> c \<noteq> []" using multipart_chunks(2) [OF refl multi(1) car c(1)] by simp
    have u: "totalUnits ?sel c \<le> (if ?sel = EncodingGSM7 then 153 else 67)"
      using splitChunks_chunk [OF _ c(1) [unfolded multi(1)]] by auto
    have "?sel = EncodingGSM7 \<Longrightarrow> basic_only c"
      using g basic_only_concat [OF _ c(1)] multipart_chunks(1) [OF refl multi(1) car] by simp
    then have "?sel = EncodingGSM7 \<and> basic_only c \<and> length c \<le> 153 \<or> ?sel = EncodingUCS2 \<and> totalUnits ?sel c \<le> 67"
      using u sel t by (cases "?sel = EncodingGSM7") simp_all
    with part_size that c(2) v show ?thesis by metis
  qed
  then show ?thesis unfolding carries_ud_def by blast
qed

theorem EncodeSMS_size_witness:
  "\<exists>fo dcs udl ud. Hex (hd (projr (fst (EncodeSMS 7 ''123'' ''ok'' EncodingUCS2 True)))) = hexString (submit_frame ''123'' fo dcs udl ud)
    \<and> CommandLength (hd (projr (fst (EncodeSMS 7 ''123'' ''ok'' EncodingUCS2 True)))) + 1 = length (submit_frame ''123'' fo dcs udl ud)
    \<and> length ud \<le> 140 \<and> length ud = ud_octets (selectEncoding EncodingUCS2 ''ok'') udl"
  by (rule EncodeSMS_size [where rc = 7 and srr = True and rc' = 7
        and pdus = "[hd (projr (fst (EncodeSMS 7 ''123'' ''ok'' EncodingUCS2 True)))]"]) code_simp+

text \<open>The limit is counted in characters: a text of at most 160 characters of the GSM
  alphabet whose encoding needs more than 160 septets (each character of the extension table
  takes two) is still sent as one PDU. Its user data exceed 140 octets and its length field
  is the number of septets modulo 256.
\<close>

theorem EncodeSMS_extension_overflow:
  assumes "TrimSpace recipient \<noteq> []" "selectEncoding enc text = EncodingGSM7"
    and "IsGSM7 text" "length (runes text) \<le> 160" "160 < length (EncodeGSM7 text)"
  shows "\<exists>p fo ud. EncodeSMS rc recipient text enc srr = (Inr [p], rc)
    \<and> Hex p = hexString (submit_frame recipient fo 0 (word_of_nat (length (EncodeGSM7 text))) ud)
    \<and> 140 < length ud"
proof -
  define ud where "ud = PackSeptets (EncodeGSM7 text) 0"
  have utf: "string_of_runes (runes text) = text" using assms(3) by (rule IsGSM7_utf8)
  have ud: "single_ud EncodingGSM7 (runes text) = (0, length (EncodeGSM7 text), ud)"
    by (simp add: single_ud_def utf ud_def)
  have "text \<noteq> []" using assms(5) by (auto simp: EncodeGSM7_def runes_def bytes_of_def segs.simps)
  then have "EncodeSMS rc recipient text enc srr = (Inr [encodeSingle recipient (runes text) EncodingGSM7 srr], rc)"
    using assms by (simp add: EncodeSMS_def totalUnits_def Encoding_defs)
  moreover have "140 < length ud" using assms(5) by (auto simp: ud_def length_PackSeptets)
  ultimately show ?thesis using encodeSingle_eq [OF ud] buildPDU_frame by metis
qed

theorem EncodeSMS_extension_overflow_witness:
  "\<exists>p fo ud. EncodeSMS 1 ''123'' (replicate 128 CHR ''{'') EncodingGSM7 False = (Inr [p], 1)
    \<and> Hex p = hexString (submit_frame ''123'' fo 0 (word_of_nat (length (EncodeGSM7 (replicate 128 CHR ''{'')))) ud)
    \<and> 140 < length ud"
proof (rule EncodeSMS_extension_overflow)
  have asc: "runes (replicate 128 CHR ''{'') = replicate 128 123"
    by (subst runes_ascii) (simp_all add: is_ascii_def list_all_iff)
  have b: "runeToGSM7Basic 123 = None" "runeToGSM7Ext 123 = Some 0x28" by code_simp+
  show "TrimSpace ''123'' \<noteq> []" "selectEncoding EncodingGSM7 (replicate 128 CHR ''{'') = EncodingGSM7"
    by code_simp+
  show "IsGSM7 (replicate 128 CHR ''{'')" "length (runes (replicate 128 CHR ''{'')) \<le> 160"
      "160 < length (EncodeGSM7 (replicate 128 CHR ''{''))"
    using b by (simp_all add: IsGSM7_def EncodeGSM7_def asc encode_gsm7_rune_def length_concat list_all_iff sum_list_replicate)
qed

section \<open>Status reports\<close>

definition report_frame :: "byte list \<Rightarrow> byte \<Rightarrow> byte \<Rightarrow> gostring \<Rightarrow> byte list \<Rightarrow> byte list \<Rightarrow> byte \<Rightarrow> byte list" where
  "report_frame sca fo ref recipient scts dt st =
     (let (n, toa, bcd) = EncodeAddress recipient
      in word_of_nat (length sca) # sca @ [fo, ref, n, toa] @ bcd @ scts @ dt @ [st])"

lemma DecodeStatusReport_frame:
  assumes "length sca < 256" "length (address_digits recipient) < 256" "length scts = 7" "length dt = 7"
    and fo: "fo AND 0x03 = 0x02"
  shows "DecodeStatusReport now (hexString (report_frame sca fo ref recipient scts dt st)) = Inr
    \<lparr>MessageRef = ref, Recipient = address_text recipient, SCTimestamp = DecodeTimestamp now scts,
     Discharge = DecodeTimestamp now dt, StatusCode = st, Delivered = (st \<le> 0x1F),
     Temporary = (0x20 \<le> st \<and> st \<le> 0x3F), Permanent = (0x40 \<le> st \<and> st \<le> 0x5F)\<rparr>"
proof -
  define n where "n = length (address_digits recipient)"
  obtain toa bcd where ea: "EncodeAddress recipient = (word_of_nat n, toa, bcd)" "length bcd = (n + 1) div 2"
    "DecodeAddress bcd n toa = address_text recipient"
    unfolding n_def by (rule EncodeAddress_eq)
  have n: "unat (word_of_nat n :: byte) = n" using assms(2) by (simp add: n_def unat_small_byte)
  have s: "unat (word_of_nat (length sca) :: byte) = length sca" using assms(1) by (simp add: unat_small_byte)
  let ?data = "word_of_nat (length sca) # sca @ [fo, ref, word_of_nat n, toa] @ bcd @ scts @ dt @ [st]"
  have frame: "report_frame sca fo ref recipient scts dt st = ?data"
    by (simp add: report_frame_def ea(1))
  have l: "length ?data = length sca + length bcd + 20" using assms(3,4) by simp
  have bcd: "(n + 1) div 2 = length bcd" by (simp add: ea(2))
  have ts: "take 7 (drop (4 + length bcd) (fo # ref # word_of_nat n # toa # bcd @ scts @ dt @ [st])) = scts"
    "take 7 (drop (12 + (length sca + length bcd))
       (word_of_nat (length sca) # sca @ fo # ref # word_of_nat n # toa # bcd @ scts @ dt @ [st])) = dt"
    using assms(3,4) by (simp_all add: numeral_eq_Suc)
  show ?thesis
    unfolding frame
    by (simp only: DecodeStatusReport_def hex_DecodeString_hexString option.case)
       (simp add: s n bcd [simplified] ea(3) fo assms(3,4) nth_append Let_def ts)
qed

section \<open>Totality, addresses, references\<close>

lemma phone_number_address:
  assumes "digit_string d" "number = d \<or> number = CHR ''+'' # d"
  shows "address_digits number = map of_char d" "address_text number = number"
proof -
  note facts = digit_string_facts [OF assms(1)]
  have trim: "TrimSpace number = number" using assms(2) facts(1,2) by auto
  show d: "address_digits number = map of_char d"
    using assms(2) facts by (auto simp: address_digits_def Let_def trim HasPrefix_Cons_Cons)
  show "address_text number = number"
    using assms(2) facts(3) by (auto simp: address_text_def d trim HasPrefix_Cons_Cons o_def)
qed

text \<open>
  The encoder is total and its two errors are exact: it fails only for a blank
  recipient or an empty text, and otherwise returns at least one PDU.
\<close>

lemma EncodeSMS_total:
  "(fst (EncodeSMS rc recipient text enc srr) = Inl e \<longleftrightarrow>
      e = ErrEmptyRecipient \<and> TrimSpace recipient = []
      \<or> e = ErrEmptyText \<and> TrimSpace recipient \<noteq> [] \<and> text = [])
   \<and> fst (EncodeSMS rc recipient text enc srr) \<noteq> Inr []"
proof -
  let ?sel = "selectEncoding enc text"
  let ?m = "if ?sel = EncodingGSM7 then 153 else 67"
  have "text \<noteq> [] \<Longrightarrow> splitChunks (runes text) ?sel ?m \<noteq> []"
    using splitChunks_concat [of ?m "runes text" ?sel] by (metis concat.simps(1) runes_eq_Nil zero_less_numeral)
  moreover have "encodeParts r en s rf i n cs = [] \<longleftrightarrow> cs = []" for r en s rf i n cs by (cases cs) auto
  ultimately show ?thesis
    by (auto simp: EncodeSMS_def Let_def)
qed

text \<open>Property C23. Neither decoder can index or slice out of range: on every input string the
  result is a message or one of the sentinel errors, never a panic.
\<close>

theorem decoders_no_panic:
  "DecodeSMS now pduHex \<noteq> Inl GoPanic \<and> DecodeStatusReport now pduHex \<noteq> Inl GoPanic"
  by (simp add: DecodeSMS_no_panic DecodeStatusReport_no_panic)

text \<open>
  A phone number survives the address field: a number made of digits, with or
  without a leading plus, is read back unchanged by the receiver, for up to 255 digits.
\<close>

lemma address_roundtrip:
  assumes "digit_string ds" "length ds < 256" "number = ds \<or> number = CHR ''+'' # ds"
  shows "\<exists>n toa bcd. EncodeAddress number = (n, toa, bcd) \<and> DecodeAddress bcd (unat n) toa = number"
proof -
  obtain toa bcd where "EncodeAddress number = (word_of_nat (length (address_digits number)), toa, bcd)"
    "DecodeAddress bcd (length (address_digits number)) toa = address_text number"
    by (rule EncodeAddress_eq)
  then show ?thesis using assms(2) by (simp add: phone_number_address [OF assms(1,3)] unat_small_byte)
qed

lemma nextRefNumber_unat: "r \<noteq> 0 \<Longrightarrow> unat (nextRefNumber r) = unat r mod 255 + 1"
proof -
  assume r: "r \<noteq> 0"
  then have "0 < unat r" "unat r < 256" using unat_byte by (simp_all add: unat_gt_0)
  moreover have "unat (r + 1) = (unat r + 1) mod 256" by (simp add: unat_word_ariths)
  ultimately show ?thesis
    by (cases "unat r = 255") (auto simp: nextRefNumber_def word_unat_eq_iff)
qed

lemma nextRefNumber_nz: "nextRefNumber r \<noteq> 0"
  by (simp add: nextRefNumber_def)

lemma nextRefNumber_pow:
  assumes "r \<noteq> 0"
  shows "(nextRefNumber ^^ i) r \<noteq> 0 \<and> unat ((nextRefNumber ^^ i) r) = (unat r - 1 + i) mod 255 + 1"
proof (induction i)
  case 0
  have "0 < unat r" "unat r < 256" using assms unat_byte by (simp_all add: unat_gt_0)
  with assms show ?case by simp
next
  case (Suc i)
  then show ?case by (simp add: nextRefNumber_unat nextRefNumber_nz mod_Suc_eq)
qed

text \<open>
  Message references: the counter never yields 0, and any 255 consecutive
  multipart messages get pairwise different references.
\<close>

lemma references_distinct:
  assumes "r \<noteq> 0"
  shows "distinct (map (\<lambda>i. (nextRefNumber ^^ i) r) [0..<255]) \<and> (\<forall>i. (nextRefNumber ^^ i) r \<noteq> 0)"
proof -
  have "inj_on (\<lambda>i. (nextRefNumber ^^ i) r) {0..<255}"
  proof (rule inj_onI)
    fix i j assume ij: "i \<in> {0..<255::nat}" "j \<in> {0..<255::nat}" and eq: "(nextRefNumber ^^ i) r = (nextRefNumber ^^ j) r"
    define a where "a = unat r - 1"
    from eq have "(a + i) mod 255 = (a + j) mod 255" unfolding a_def
      using nextRefNumber_pow [OF assms, of i] nextRefNumber_pow [OF assms, of j] by simp
    then have "int ((a + i) mod 255) = int ((a + j) mod 255)" by simp
    then have "(int a + int i) mod 255 = (int a + int j) mod 255" by (simp add: zmod_int)
    from mod_diff_cong [OF this refl, of "int a"] ij show "i = j" by simp
  qed
  then show ?thesis using nextRefNumber_pow [OF assms] by (simp add: distinct_map)
qed

end
