(* ===== verification/Event_Machine.thy ===== *)
theory Event_Machine
  imports Go_Prelude
begin

text \<open>
  Two interfaces the stateful components share. Every exported method of those components
  holds its mutex from entry to exit, so an execution is a sequence of whole operations: a
  list of events, run one after the other. The locale \<open>event_machine\<close> is the contract of
  such a component (an invariant that every operation keeps); each component interprets it
  on its own step function and gets the invariant of every reachable state. \<open>gomap\<close> is a Go
  map whose size the code reads: an association list with distinct keys.
\<close>

section \<open>Sequences of operations\<close>

fun run :: "('e \<Rightarrow> 's \<Rightarrow> 's \<times> 'o) \<Rightarrow> 'e list \<Rightarrow> 's \<Rightarrow> 's \<times> 'o list" where
  "run step [] s = (s, [])"
| "run step (e # es) s =
     (let (s1, out) = step e s; (s2, outs) = run step es s1 in (s2, out # outs))"

lemma run_append:
  "run step (es @ fs) s =
     (let (s1, o1) = run step es s; (s2, o2) = run step fs s1 in (s2, o1 @ o2))"
  by (induction es arbitrary: s) (auto simp: Let_def split: prod.splits)

lemma length_run [simp]: "length (snd (run step es s)) = length es"
  by (induction es arbitrary: s) (simp_all add: Let_def split_beta)

locale event_machine =
  fixes step :: "'e \<Rightarrow> 's \<Rightarrow> 's \<times> 'o" and inv :: "'s \<Rightarrow> bool"
  assumes step_inv: "inv s \<Longrightarrow> inv (fst (step e s))"
begin

lemma run_inv: "inv s \<Longrightarrow> inv (fst (run step es s))"
proof (induction es arbitrary: s)
  case (Cons e es)
  then show ?case using step_inv [of s e] by (simp add: Let_def split_beta)
qed simp

lemma run_outputs:
  assumes "\<And>e s. inv s \<Longrightarrow> Q (snd (step e s))"
  shows "inv s \<Longrightarrow> list_all Q (snd (run step es s))"
proof (induction es arbitrary: s)
  case (Cons e es)
  then show ?case using step_inv [of s e] assms [of s e] by (simp add: Let_def split_beta)
qed simp

end

section \<open>Maps with a size\<close>

type_synonym ('k, 'v) gomap = "('k \<times> 'v) list"

definition gomap_ok :: "('k, 'v) gomap \<Rightarrow> bool" where
  "gomap_ok m \<longleftrightarrow> distinct (map fst m)"

lemma gomap_update:
  assumes "gomap_ok m"
  shows "gomap_ok (AList.update k v m)"
    and "length (AList.update k v m) = (if map_of m k = None then length m + 1 else length m)"
proof -
  show "gomap_ok (AList.update k v m)"
    using assms by (simp add: gomap_ok_def distinct_update)
  show "length (AList.update k v m) = (if map_of m k = None then length m + 1 else length m)"
    by (induction m) auto
qed

lemma gomap_delete: "gomap_ok m \<Longrightarrow> gomap_ok (AList.delete k m)"
  by (simp add: gomap_ok_def distinct_delete)

lemma gomap_Nil [simp]: "gomap_ok []"
  by (simp add: gomap_ok_def)

lemma gomap_length_dom: "gomap_ok m \<Longrightarrow> length m = card (dom (map_of m))"
  by (simp add: gomap_ok_def dom_map_of_conv_image_fst) (metis distinct_card length_map list.set_map)

text \<open>A map with \<open>n\<close> keys, all among 1 to \<open>n\<close>, has every one of them.\<close>

lemma gomap_full:
  assumes "gomap_ok m" "dom (map_of m) \<subseteq> {1..n}" "length m = nat n"
  shows "dom (map_of m) = {1..n :: int}"
  by (rule card_subset_eq) (use assms in \<open>simp_all add: gomap_length_dom\<close>)

section \<open>Keys\<close>

text \<open>The key \<^verbatim>\<open>"%s:%d"\<close> of a sender or recipient and a message reference.\<close>

definition key_fmt :: "gostring \<Rightarrow> byte \<Rightarrow> gostring" where
  "key_fmt name ref = name @ '':'' @ nat_dec (unat ref)"

lemma colon_split:
  assumes "a @ CHR '':'' # x = b @ CHR '':'' # y" "CHR '':'' \<notin> set x" "CHR '':'' \<notin> set y"
  shows "a = b \<and> x = y"
  using assms by (auto simp: append_eq_append_conv2 append_eq_Cons_conv Cons_eq_append_conv)

lemma key_fmt_inj: "key_fmt a r = key_fmt b q \<longleftrightarrow> a = b \<and> r = q"
proof -
  have "CHR '':'' \<notin> set (nat_dec n)" for n
    using nat_dec_digits [of "CHR '':''" n] by (auto simp: is_digit_char_def is_digit_def)
  then show ?thesis
    unfolding key_fmt_def
    using colon_split [of a "nat_dec (unat r)" b "nat_dec (unat q)"]
    by (auto simp: nat_dec_inj word_unat_eq_iff)
qed

end
