(* ===== verification/SMS_Assembler.thy ===== *)
theory SMS_Assembler
  imports Event_Machine PDU_Codec
begin

text \<open>
  Reassembly of multipart messages (\<^verbatim>\<open>internal/sms/assembler.go\<close>). The state has the two maps
  of the code, pending and flushed messages by the key \<^verbatim>\<open>"from:reference"\<close>. A timer is the
  instant at which it is due; that it fires is the event \<open>FlushPending\<close>, which may come at any
  time (the callback may already wait for the mutex when the timer is stopped). The clock is
  an argument of the operations that read it.
\<close>

section \<open>State\<close>

record IncomingPart =
  In_From :: gostring
  In_Text :: gostring
  In_Timestamp :: gotime
  IsMultipart :: bool
  In_Reference :: byte
  In_PartNumber :: int
  In_TotalParts :: int
  In_Encoding :: gostring

record AssembledSMS =
  As_From :: gostring
  As_Text :: gostring
  As_Timestamp :: gotime
  As_Segments :: int
  As_Encoding :: gostring
  IsComplete :: bool
  IsUpdate :: bool

record partialMessage =
  pm_from :: gostring
  pm_parts :: "(int, gostring) gomap"
  pm_totalParts :: int
  pm_timestamp :: gotime
  pm_encoding :: gostring
  pm_createdAt :: instant
  pm_timer :: "instant option"

record flushedMessage =
  fm_from :: gostring
  fm_parts :: "(int, gostring) gomap"
  fm_totalParts :: int
  fm_timestamp :: gotime
  fm_encoding :: gostring
  fm_flushedAt :: instant

record Assembler =
  asm_ttl :: duration
  asm_timeout :: duration
  asm_pending :: "gostring \<rightharpoonup> partialMessage"
  asm_flushed :: "gostring \<rightharpoonup> flushedMessage"
  asm_onFlush :: bool

section \<open>Operations\<close>

definition NewAssembler :: "duration \<Rightarrow> duration list \<Rightarrow> Assembler" where
  "NewAssembler ttl timeouts =
     \<lparr>asm_ttl = ttl, asm_timeout = (case timeouts of [] \<Rightarrow> 0 | t # _ \<Rightarrow> t),
      asm_pending = Map.empty, asm_flushed = Map.empty, asm_onFlush = False\<rparr>"

definition SetFlushHandler :: "bool \<Rightarrow> Assembler \<Rightarrow> Assembler" where
  "SetFlushHandler handler a = a\<lparr>asm_onFlush := handler\<rparr>"

definition SetAssemblyTimeout :: "duration \<Rightarrow> Assembler \<Rightarrow> Assembler" where
  "SetAssemblyTimeout timeout a = a\<lparr>asm_timeout := timeout\<rparr>"

definition CloseAssembler :: "Assembler \<Rightarrow> Assembler" where
  "CloseAssembler a = a\<lparr>asm_pending := Map.empty, asm_flushed := Map.empty\<rparr>"

definition isContiguous :: "int list \<Rightarrow> bool" where
  "isContiguous nums \<longleftrightarrow> (\<forall>i\<in>set [1..<length nums]. nums ! i = nums ! (i - 1) + 1)"

definition received :: "(int, gostring) gomap \<Rightarrow> int \<Rightarrow> int list" where
  "received parts totalParts = filter (\<lambda>i. map_of parts i \<noteq> None) [1..totalParts]"

definition formatPartsSummary :: "(int, gostring) gomap \<Rightarrow> int \<Rightarrow> gostring" where
  "formatPartsSummary parts totalParts =
     (let nums = received parts totalParts
      in if nums = [] then ''Part ?/'' @ itoa totalParts
         else if isContiguous nums then
           (if length nums = 1 then ''Part '' @ itoa (hd nums) @ ''/'' @ itoa totalParts
            else ''Part '' @ itoa (hd nums) @ ''-'' @ itoa (last nums) @ ''/'' @ itoa totalParts)
         else ''Part '' @ Join (map itoa nums) '','' @ ''/'' @ itoa totalParts)"

definition buildAvailableText :: "(int, gostring) gomap \<Rightarrow> int \<Rightarrow> gostring" where
  "buildAvailableText parts totalParts =
     concat (map (\<lambda>i. case map_of parts i of
         Some t \<Rightarrow> t
       | None \<Rightarrow>
           (if list_ex (\<lambda>j. map_of parts j \<noteq> None) [1..i - 1]
               \<and> list_ex (\<lambda>j. map_of parts j \<noteq> None) [i + 1..totalParts]
            then '' [...] '' else []))
       [1..totalParts])"

text \<open>The loop that concatenates the parts 1 to \<^verbatim>\<open>totalParts\<close>; a missing key reads as the empty
  string.\<close>

definition joinParts :: "(int, gostring) gomap \<Rightarrow> int \<Rightarrow> gostring" where
  "joinParts parts totalParts =
     concat (map (\<lambda>i. case map_of parts i of Some t \<Rightarrow> t | None \<Rightarrow> []) [1..totalParts])"

definition flushedTTL :: "duration \<Rightarrow> duration" where
  "flushedTTL ttl = (if 0 < ttl \<and> ttl < 15 * 60 * 1000000000 then ttl else 15 * 60 * 1000000000)"

definition cleanupExpired :: "instant \<Rightarrow> Assembler \<Rightarrow> Assembler" where
  "cleanupExpired now a =
     a\<lparr>asm_pending := (\<lambda>k. case asm_pending a k of
           Some pm \<Rightarrow> (if 0 < asm_ttl a \<and> asm_ttl a < now - pm_createdAt pm then None else Some pm)
         | None \<Rightarrow> None),
       asm_flushed := (\<lambda>k. case asm_flushed a k of
           Some fm \<Rightarrow> (if flushedTTL (asm_ttl a) < now - fm_flushedAt fm then None else Some fm)
         | None \<Rightarrow> None)\<rparr>"

definition addFlushed :: "gostring \<Rightarrow> IncomingPart \<Rightarrow> flushedMessage \<Rightarrow> Assembler \<Rightarrow> Assembler \<times> AssembledSMS option" where
  "addFlushed key part fm0 a =
     (let fm = fm0\<lparr>fm_parts := AList.update (In_PartNumber part) (In_Text part) (fm_parts fm0)\<rparr>
      in if int (length (fm_parts fm)) = fm_totalParts fm
         then (a\<lparr>asm_flushed := (asm_flushed a)(key := None)\<rparr>,
               Some \<lparr>As_From = fm_from fm,
                     As_Text = ''[Updated] '' @ joinParts (fm_parts fm) (fm_totalParts fm),
                     As_Timestamp = fm_timestamp fm, As_Segments = fm_totalParts fm,
                     As_Encoding = fm_encoding fm, IsComplete = True, IsUpdate = True\<rparr>)
         else (a\<lparr>asm_flushed := (asm_flushed a)(key \<mapsto> fm)\<rparr>,
               Some \<lparr>As_From = fm_from fm,
                     As_Text = ''[Updated '' @ formatPartsSummary (fm_parts fm) (fm_totalParts fm) @ '']: ''
                               @ buildAvailableText (fm_parts fm) (fm_totalParts fm),
                     As_Timestamp = fm_timestamp fm, As_Segments = int (length (fm_parts fm)),
                     As_Encoding = fm_encoding fm, IsComplete = False, IsUpdate = True\<rparr>))"

definition addPending :: "instant \<Rightarrow> gostring \<Rightarrow> IncomingPart \<Rightarrow> Assembler \<Rightarrow> Assembler \<times> AssembledSMS option" where
  "addPending now key part a =
     (let pm0 = (case asm_pending a key of
           Some pm \<Rightarrow> pm
         | None \<Rightarrow> \<lparr>pm_from = In_From part, pm_parts = [], pm_totalParts = In_TotalParts part,
                    pm_timestamp = In_Timestamp part, pm_encoding = In_Encoding part,
                    pm_createdAt = now, pm_timer = None\<rparr>);
          pm = pm0\<lparr>pm_parts := AList.update (In_PartNumber part) (In_Text part) (pm_parts pm0)\<rparr>
      in if int (length (pm_parts pm)) = pm_totalParts pm
         then (a\<lparr>asm_pending := (asm_pending a)(key := None)\<rparr>,
               Some \<lparr>As_From = pm_from pm, As_Text = joinParts (pm_parts pm) (pm_totalParts pm),
                     As_Timestamp = pm_timestamp pm, As_Segments = pm_totalParts pm,
                     As_Encoding = pm_encoding pm, IsComplete = True, IsUpdate = False\<rparr>)
         else (a\<lparr>asm_pending := (asm_pending a)(key \<mapsto>
                   (if 0 < asm_timeout a then pm\<lparr>pm_timer := Some (now + asm_timeout a)\<rparr> else pm))\<rparr>,
               None))"

definition AddPart :: "instant \<Rightarrow> IncomingPart \<Rightarrow> Assembler \<Rightarrow> Assembler \<times> AssembledSMS option" where
  "AddPart now part a =
     (if \<not> IsMultipart part \<or> In_TotalParts part \<le> 1
      then (a, Some \<lparr>As_From = In_From part, As_Text = In_Text part, As_Timestamp = In_Timestamp part,
                     As_Segments = 1, As_Encoding = In_Encoding part, IsComplete = True, IsUpdate = False\<rparr>)
      else if In_PartNumber part \<le> 0 \<or> In_TotalParts part < In_PartNumber part \<or> 20 < In_TotalParts part
      then (a, None)
      else
        (let a1 = cleanupExpired now a;
             key = key_fmt (In_From part) (In_Reference part)
         in case asm_flushed a1 key of
              Some fm \<Rightarrow> addFlushed key part fm a1
            | None \<Rightarrow> addPending now key part a1))"

definition flushPending :: "instant \<Rightarrow> gostring \<Rightarrow> Assembler \<Rightarrow> Assembler \<times> AssembledSMS option" where
  "flushPending now key a = (case asm_pending a key of
     None \<Rightarrow> (a, None)
   | Some pm \<Rightarrow>
       (let fm = \<lparr>fm_from = pm_from pm, fm_parts = pm_parts pm, fm_totalParts = pm_totalParts pm,
                  fm_timestamp = pm_timestamp pm, fm_encoding = pm_encoding pm, fm_flushedAt = now\<rparr>;
            assembled = \<lparr>As_From = fm_from fm,
                     As_Text = ''['' @ formatPartsSummary (fm_parts fm) (fm_totalParts fm) @ '']: ''
                               @ buildAvailableText (fm_parts fm) (fm_totalParts fm),
                     As_Timestamp = fm_timestamp fm, As_Segments = int (length (fm_parts fm)),
                     As_Encoding = fm_encoding fm, IsComplete = False, IsUpdate = False\<rparr>
        in (a\<lparr>asm_pending := (asm_pending a)(key := None), asm_flushed := (asm_flushed a)(key \<mapsto> fm)\<rparr>,
            if asm_onFlush a then Some assembled else None)))"

section \<open>Invariant\<close>

datatype asm_event =
    EvAddPart instant IncomingPart
  | EvFlushPending instant gostring
  | EvSetFlushHandler bool
  | EvSetAssemblyTimeout duration
  | EvCloseAssembler

fun asm_step :: "asm_event \<Rightarrow> Assembler \<Rightarrow> Assembler \<times> AssembledSMS option" where
  "asm_step (EvAddPart now part) a = AddPart now part a"
| "asm_step (EvFlushPending now key) a = flushPending now key a"
| "asm_step (EvSetFlushHandler h) a = (SetFlushHandler h a, None)"
| "asm_step (EvSetAssemblyTimeout t) a = (SetAssemblyTimeout t a, None)"
| "asm_step EvCloseAssembler a = (CloseAssembler a, None)"

text \<open>An incomplete message: at least one part, fewer than announced, keys in range, and the
  number of parts within the bound the code accepts.\<close>

definition partial_ok :: "(int, gostring) gomap \<Rightarrow> int \<Rightarrow> bool" where
  "partial_ok parts n \<longleftrightarrow> gomap_ok parts \<and> parts \<noteq> [] \<and> int (length parts) < n \<and> n \<le> 20
     \<and> dom (map_of parts) \<subseteq> {1..20}"

definition asm_inv :: "Assembler \<Rightarrow> bool" where
  "asm_inv a \<longleftrightarrow>
     (\<forall>k pm. asm_pending a k = Some pm \<longrightarrow> partial_ok (pm_parts pm) (pm_totalParts pm)
                \<and> (\<exists>ref. k = key_fmt (pm_from pm) ref) \<and> asm_flushed a k = None)
   \<and> (\<forall>k fm. asm_flushed a k = Some fm \<longrightarrow> partial_ok (fm_parts fm) (fm_totalParts fm)
                \<and> (\<exists>ref. k = key_fmt (fm_from fm) ref))"

lemma partial_ok_update:
  assumes "parts = [] \<and> 1 < n \<and> n \<le> 20 \<or> partial_ok parts n" "1 \<le> i" "i \<le> 20"
    and "int (length (AList.update i t parts)) \<noteq> n"
  shows "partial_ok (AList.update i t parts) n"
proof (cases "parts = []")
  case False
  then have ok: "partial_ok parts n" using assms(1) by simp
  then have "gomap_ok parts" by (simp add: partial_ok_def)
  then show ?thesis
    using ok assms(2-4) gomap_update [of parts i t]
    by (auto simp: partial_ok_def update_conv' split: if_splits)
qed (use assms in \<open>auto simp: partial_ok_def gomap_ok_def\<close>)

lemma cleanupExpired_inv: "asm_inv a \<Longrightarrow> asm_inv (cleanupExpired now a)"
  by (auto simp: asm_inv_def cleanupExpired_def split: option.splits if_splits)

lemma addFlushed_inv:
  assumes "asm_inv a" "asm_flushed a key = Some fm" "1 \<le> In_PartNumber part" "In_PartNumber part \<le> 20"
  shows "asm_inv (fst (addFlushed key part fm a))"
proof -
  have ok: "partial_ok (fm_parts fm) (fm_totalParts fm)" and k: "\<exists>ref. key = key_fmt (fm_from fm) ref"
    and d: "asm_pending a key = None"
    using assms(1,2) by (auto simp: asm_inv_def) (metis option.exhaust option.distinct(1))
  show ?thesis
    using assms(1) k d partial_ok_update [OF disjI2 [OF ok] assms(3,4), of "In_Text part"]
    by (auto simp: asm_inv_def addFlushed_def Let_def)
qed

lemma addPending_inv:
  assumes "asm_inv a" "asm_flushed a key = None" "1 \<le> In_PartNumber part" "In_PartNumber part \<le> 20"
    "1 < In_TotalParts part" "In_TotalParts part \<le> 20" "key = key_fmt (In_From part) ref"
  shows "asm_inv (fst (addPending now key part a))"
proof (cases "asm_pending a key")
  case None
  then show ?thesis
    using assms partial_ok_update [of "[]" "In_TotalParts part" "In_PartNumber part" "In_Text part"]
    by (auto simp: asm_inv_def addPending_def Let_def)
next
  case (Some pm)
  then have ok: "partial_ok (pm_parts pm) (pm_totalParts pm)" and k: "\<exists>ref. key = key_fmt (pm_from pm) ref"
    using assms(1) by (auto simp: asm_inv_def)
  show ?thesis
    using assms(1,2) Some k partial_ok_update [OF disjI2 [OF ok] assms(3,4), of "In_Text part"]
    by (auto simp: asm_inv_def addPending_def Let_def)
qed

lemma AddPart_inv: "asm_inv a \<Longrightarrow> asm_inv (fst (AddPart now part a))"
  using cleanupExpired_inv [of a now]
  by (auto simp: AddPart_def Let_def not_le intro!: addFlushed_inv addPending_inv split: option.splits)

lemma flushPending_inv: "asm_inv a \<Longrightarrow> asm_inv (fst (flushPending now key a))"
  by (auto simp: asm_inv_def flushPending_def Let_def split: option.splits)

interpretation asm: event_machine asm_step asm_inv
proof
  fix a e assume "asm_inv a"
  then show "asm_inv (fst (asm_step e a))"
    by (cases e) (auto simp: AddPart_inv flushPending_inv,
        auto simp: asm_inv_def SetFlushHandler_def SetAssemblyTimeout_def CloseAssembler_def)
qed

section \<open>Reassembly in any order\<close>

text \<open>The operations that concern the message of a key.\<close>

fun touches :: "gostring \<Rightarrow> asm_event \<Rightarrow> bool" where
  "touches key (EvAddPart now p) = (key_fmt (In_From p) (In_Reference p) = key)"
| "touches key (EvFlushPending now k) = (k = key)"
| "touches key (EvSetFlushHandler h) = False"
| "touches key (EvSetAssemblyTimeout t) = False"
| "touches key EvCloseAssembler = True"

text \<open>Clock readings within the lifetime of a message first seen at \<open>t0\<close> or later.\<close>

fun in_window :: "instant \<Rightarrow> duration \<Rightarrow> asm_event \<Rightarrow> bool" where
  "in_window t0 ttl (EvAddPart now p) = (t0 \<le> now \<and> (0 < ttl \<longrightarrow> now \<le> t0 + ttl))"
| "in_window t0 ttl e = True"

definition outputs_of :: "gostring \<Rightarrow> asm_event list \<Rightarrow> Assembler \<Rightarrow> AssembledSMS option list" where
  "outputs_of key es a = map snd (filter (\<lambda>(e, out). touches key e) (zip es (snd (run asm_step es a))))"

lemma outputs_of_simps [simp]:
  "outputs_of key [] a = []"
  "outputs_of key (e # es) a =
     (if touches key e then [snd (asm_step e a)] else []) @ outputs_of key es (fst (asm_step e a))"
  by (simp_all add: outputs_of_def Let_def split_beta)

text \<open>The parts of one message, as the decoder hands them over.\<close>

definition parts_of :: "gostring \<Rightarrow> byte \<Rightarrow> int \<Rightarrow> (int \<Rightarrow> IncomingPart) \<Rightarrow> bool" where
  "parts_of from ref n part \<longleftrightarrow> 2 \<le> n \<and> n \<le> 20 \<and>
     (\<forall>i\<in>{1..n}. IsMultipart (part i) \<and> In_From (part i) = from \<and> In_Reference (part i) = ref
        \<and> In_PartNumber (part i) = i \<and> In_TotalParts (part i) = n)"

definition text_of :: "int \<Rightarrow> (int \<Rightarrow> IncomingPart) \<Rightarrow> gostring" where
  "text_of n part = concat (map (\<lambda>i. In_Text (part i)) [1..n])"

definition assembled_of :: "int \<Rightarrow> (int \<Rightarrow> IncomingPart) \<Rightarrow> int \<Rightarrow> gostring \<Rightarrow> bool \<Rightarrow> AssembledSMS" where
  "assembled_of n part first text upd =
     \<lparr>As_From = In_From (part first), As_Text = text, As_Timestamp = In_Timestamp (part first),
      As_Segments = n, As_Encoding = In_Encoding (part first), IsComplete = True, IsUpdate = upd\<rparr>"

definition holds_parts :: "(int \<Rightarrow> IncomingPart) \<Rightarrow> int list \<Rightarrow> (int, gostring) gomap \<Rightarrow> bool" where
  "holds_parts part S m \<longleftrightarrow> gomap_ok m \<and> distinct S
     \<and> map_of m = (\<lambda>i. if i \<in> set S then Some (In_Text (part i)) else None)"

definition building :: "gostring \<Rightarrow> duration \<Rightarrow> instant \<Rightarrow> int \<Rightarrow> (int \<Rightarrow> IncomingPart) \<Rightarrow> int list \<Rightarrow> Assembler \<Rightarrow> bool" where
  "building key ttl t0 n part S a \<longleftrightarrow> asm_ttl a = ttl \<and> asm_flushed a key = None \<and>
     (case asm_pending a key of
        None \<Rightarrow> S = []
      | Some pm \<Rightarrow> S \<noteq> [] \<and> holds_parts part S (pm_parts pm) \<and> pm_totalParts pm = n
          \<and> pm_from pm = In_From (part (hd S)) \<and> pm_timestamp pm = In_Timestamp (part (hd S))
          \<and> pm_encoding pm = In_Encoding (part (hd S)) \<and> t0 \<le> pm_createdAt pm)"

lemma holds_parts_length: "holds_parts part S m \<Longrightarrow> length m = length S"
proof -
  assume h: "holds_parts part S m"
  then have "dom (map_of m) = set S" by (auto simp: holds_parts_def split: if_splits)
  with h show ?thesis by (metis gomap_length_dom holds_parts_def distinct_card)
qed

lemma holds_parts_update:
  assumes "holds_parts part S m" "i \<notin> set S"
  shows "holds_parts part (S @ [i]) (AList.update i (In_Text (part i)) m)"
  using assms by (auto simp: holds_parts_def gomap_update update_conv')

lemma holds_parts_join:
  assumes "holds_parts part S m" "set S = {1..n}"
  shows "joinParts m n = text_of n part"
  using assms by (auto simp: joinParts_def text_of_def holds_parts_def intro!: arg_cong [where f = concat])

lemma cleanup_building:
  assumes "building key ttl t0 n part S a" "0 < ttl \<longrightarrow> now \<le> t0 + ttl"
  shows "building key ttl t0 n part S (cleanupExpired now a)"
    "asm_pending (cleanupExpired now a) key = asm_pending a key" "asm_flushed (cleanupExpired now a) key = None"
  using assms by (auto simp: building_def cleanupExpired_def split: option.splits if_splits)

lemma other_building:
  assumes "building key ttl t0 n part S a" "\<not> touches key e" "in_window t0 ttl e"
  shows "building key ttl t0 n part S (fst (asm_step e a))"
proof (cases e)
  case (EvAddPart now p)
  note c = cleanup_building [OF assms(1), of now]
  have k: "key \<noteq> key_fmt (In_From p) (In_Reference p)" using assms(2) EvAddPart by auto
  have "building key ttl t0 n part S (fst (addFlushed (key_fmt (In_From p) (In_Reference p)) p fm (cleanupExpired now a)))"
    for fm using c assms(3) EvAddPart k by (auto simp: building_def addFlushed_def Let_def)
  moreover have "building key ttl t0 n part S (fst (addPending now (key_fmt (In_From p) (In_Reference p)) p (cleanupExpired now a)))"
    using c assms(3) EvAddPart k by (auto simp: building_def addPending_def Let_def split: if_splits)
  ultimately show ?thesis using assms(1) EvAddPart by (auto simp: AddPart_def Let_def split: option.split)
qed (use assms in \<open>auto simp: building_def flushPending_def SetFlushHandler_def SetAssemblyTimeout_def
      Let_def split: option.splits\<close>)

lemma part_building:
  assumes "building (key_fmt from ref) ttl t0 n part S a" "parts_of from ref n part" "i \<in> {1..n}" "i \<notin> set S"
    and "t0 \<le> now" "0 < ttl \<longrightarrow> now \<le> t0 + ttl"
  shows "int (length S) + 1 \<noteq> n \<Longrightarrow> snd (AddPart now (part i) a) = None
           \<and> building (key_fmt from ref) ttl t0 n part (S @ [i]) (fst (AddPart now (part i) a))"
    and "set S \<union> {i} = {1..n} \<Longrightarrow> int (length S) + 1 = n \<Longrightarrow>
           snd (AddPart now (part i) a) = Some (assembled_of n part (hd (S @ [i])) (text_of n part) False)"
proof -
  note c = cleanup_building [OF assms(1,6)]
  have p: "IsMultipart (part i)" "In_From (part i) = from" "In_Reference (part i) = ref"
    "In_PartNumber (part i) = i" "In_TotalParts (part i) = n" "2 \<le> n" "n \<le> 20" "1 \<le> i" "i \<le> n"
    using assms(2,3) by (auto simp: parts_of_def)
  have add: "AddPart now (part i) a = addPending now (key_fmt from ref) (part i) (cleanupExpired now a)"
    using p c(3) by (simp add: AddPart_def Let_def)
  have h: "holds_parts part (S @ [i]) (AList.update i (In_Text (part i))
      (case asm_pending (cleanupExpired now a) (key_fmt from ref) of None \<Rightarrow> [] | Some pm \<Rightarrow> pm_parts pm))"
    using c(1) assms(4) by (intro holds_parts_update) (auto simp: building_def holds_parts_def split: option.splits)
  note len = holds_parts_length [OF h]
  show "int (length S) + 1 \<noteq> n \<Longrightarrow> snd (AddPart now (part i) a) = None
           \<and> building (key_fmt from ref) ttl t0 n part (S @ [i]) (fst (AddPart now (part i) a))"
    unfolding add using h len c(1) p assms(5)
    by (auto simp: addPending_def building_def Let_def split: option.splits)
  show "set S \<union> {i} = {1..n} \<Longrightarrow> int (length S) + 1 = n \<Longrightarrow>
           snd (AddPart now (part i) a) = Some (assembled_of n part (hd (S @ [i])) (text_of n part) False)"
    unfolding add using h len c(1) p holds_parts_join [OF h, of n]
    by (auto simp: addPending_def building_def Let_def assembled_of_def split: option.splits)
qed

lemma assemble_run:
  assumes "parts_of from ref n part" "list_all (in_window t0 ttl) es"
    and "filter (touches (key_fmt from ref)) es = map (\<lambda>i. EvAddPart (time i) (part i)) rest"
    and "distinct (S @ rest)" "set (S @ rest) = {1..n}"
    and "rest \<noteq> [] \<longrightarrow> building (key_fmt from ref) ttl t0 n part S a"
  shows "outputs_of (key_fmt from ref) es a =
    (if rest = [] then []
     else replicate (length rest - 1) None @ [Some (assembled_of n part (hd (S @ rest)) (text_of n part) False)])"
  using assms(2-)
proof (induction es arbitrary: S rest a)
  case (Cons e es)
  show ?case
  proof (cases "touches (key_fmt from ref) e")
    case False
    then show ?thesis
      using Cons.prems Cons.IH [of rest S "fst (asm_step e a)"] other_building [of "key_fmt from ref" ttl t0 n part S a e]
      by auto
  next
    case True
    with Cons.prems(2) obtain i rest' where r: "rest = i # rest'" "e = EvAddPart (time i) (part i)"
      "filter (touches (key_fmt from ref)) es = map (\<lambda>i. EvAddPart (time i) (part i)) rest'"
      by (cases rest) auto
    have b: "building (key_fmt from ref) ttl t0 n part S a" using Cons.prems(5) r by simp
    have i: "i \<in> {1..n}" "i \<notin> set S" "t0 \<le> time i" "0 < ttl \<longrightarrow> time i \<le> t0 + ttl"
      using Cons.prems(1,3,4) r by auto
    note pb = part_building [OF b assms(1) i]
    have n: "int (length (S @ rest)) = n"
      using Cons.prems(3,4) assms(1) by (subst distinct_card [symmetric]) (auto simp: parts_of_def)
    show ?thesis
    proof (cases "rest' = []")
      case True
      then show ?thesis
        using pb(2) n r Cons.prems Cons.IH [of "[]" "S @ [i]" "fst (asm_step e a)"] \<open>touches _ e\<close> by auto
    next
      case False
      then have "replicate (length rest') None = None # replicate (length rest' - 1) (None :: AssembledSMS option)"
        by (cases rest') simp_all
      then show ?thesis
        using pb(1) n r False Cons.prems Cons.IH [of rest' "S @ [i]" "fst (asm_step e a)"] \<open>touches _ e\<close> by auto
    qed
  qed
qed simp

text \<open>Property C5. Reassembly: let the parts 1 to n (2 \<le> n \<le> 20) of a message arrive in any
  order \<open>order\<close>, interleaved with any other operations that do not concern its key (parts of
  other messages, timers of other messages, settings), all within the lifetime \<^verbatim>\<open>ttl\<close>. Then
  every part but the last yields nothing, and the last one to arrive yields the complete
  message: the texts in part order, n segments, sender, time stamp and encoding of the part
  that came first.
\<close>

theorem AddPart_any_order:
  assumes "parts_of from ref n part" "distinct order" "set order = {1..n}"
    and "filter (touches (key_fmt from ref)) es = map (\<lambda>i. EvAddPart (time i) (part i)) order"
    and "list_all (in_window t0 (asm_ttl a)) es"
    and "asm_pending a (key_fmt from ref) = None" "asm_flushed a (key_fmt from ref) = None"
  shows "outputs_of (key_fmt from ref) es a =
    replicate (nat n - 1) None @ [Some (assembled_of n part (hd order) (text_of n part) False)]"
proof -
  have "order \<noteq> []" using assms(1,3) by (auto simp: parts_of_def)
  moreover have "length order = nat n" using assms(2,3) by (metis card_atLeastAtMost_int diff_add_cancel add_diff_cancel_right' distinct_card)
  ultimately show ?thesis
    using assemble_run [OF assms(1,5,4), where S = "[]" and a = a] assms(2,3,6,7)
    by (simp add: building_def)
qed

text \<open>A concrete message of two parts.\<close>

definition demo_part :: "int \<Rightarrow> IncomingPart" where
  "demo_part i = \<lparr>In_From = ''+7900'', In_Text = (if i = 1 then ''ab'' else ''cd''),
     In_Timestamp = \<lparr>t_instant = 0, t_offset = 0\<rparr>, IsMultipart = True, In_Reference = 9,
     In_PartNumber = i, In_TotalParts = 2, In_Encoding = ''gsm7''\<rparr>"

theorem AddPart_any_order_witness:
  "outputs_of (key_fmt ''+7900'' 9)
     [EvAddPart 5 (demo_part 2), EvAddPart 6 (demo_part 1\<lparr>In_From := ''+1'', In_TotalParts := 8\<rparr>), EvAddPart 7 (demo_part 1)]
     (NewAssembler 1000 [10]) =
   replicate (nat 2 - 1) None @ [Some (assembled_of 2 demo_part (hd [2, 1]) (text_of 2 demo_part) False)]"
  by (rule AddPart_any_order [where time = "\<lambda>i. if i = 2 then 5 else 7" and ?t0.0 = 5])
    (auto simp: parts_of_def demo_part_def NewAssembler_def key_fmt_inj)

section \<open>Late parts of a flushed message\<close>

definition late :: "gostring \<Rightarrow> duration \<Rightarrow> instant \<Rightarrow> int \<Rightarrow> (int \<Rightarrow> IncomingPart) \<Rightarrow> int list \<Rightarrow> Assembler \<Rightarrow> bool" where
  "late key ttl t0 n part S a \<longleftrightarrow> asm_ttl a = ttl \<and> S \<noteq> [] \<and>
     (case asm_flushed a key of
        None \<Rightarrow> False
      | Some fm \<Rightarrow> holds_parts part S (fm_parts fm) \<and> fm_totalParts fm = n
          \<and> fm_from fm = In_From (part (hd S)) \<and> fm_timestamp fm = In_Timestamp (part (hd S))
          \<and> fm_encoding fm = In_Encoding (part (hd S)) \<and> t0 \<le> fm_flushedAt fm)"

lemma flush_late:
  assumes "building key ttl t0 n part S a" "S \<noteq> []"
  shows "late key ttl now n part S (fst (flushPending now key a))"
  using assms by (auto simp: building_def late_def flushPending_def Let_def split: option.splits)

lemma flushedTTL_pos: "0 < flushedTTL ttl"
  by (simp add: flushedTTL_def)

lemma cleanup_late:
  assumes "late key ttl t0 n part S a" "now \<le> t0 + flushedTTL ttl"
  shows "late key ttl t0 n part S (cleanupExpired now a)"
  using assms by (auto simp: late_def cleanupExpired_def split: option.splits if_splits)

lemma other_late:
  assumes "late key ttl t0 n part S a" "\<not> touches key e" "in_window t0 (flushedTTL ttl) e"
  shows "late key ttl t0 n part S (fst (asm_step e a))"
proof (cases e)
  case (EvAddPart now p)
  have c: "late key ttl t0 n part S (cleanupExpired now a)"
    using cleanup_late [OF assms(1)] assms(3) EvAddPart by (simp add: flushedTTL_pos)
  have k: "key \<noteq> key_fmt (In_From p) (In_Reference p)" using assms(2) EvAddPart by auto
  have "late key ttl t0 n part S (fst (addFlushed (key_fmt (In_From p) (In_Reference p)) p fm (cleanupExpired now a)))"
    for fm using c k by (auto simp: late_def addFlushed_def Let_def)
  moreover have "late key ttl t0 n part S (fst (addPending now (key_fmt (In_From p) (In_Reference p)) p (cleanupExpired now a)))"
    using c k by (auto simp: late_def addPending_def Let_def split: option.splits)
  ultimately show ?thesis using assms(1) EvAddPart by (auto simp: AddPart_def Let_def split: option.split)
qed (use assms in \<open>auto simp: late_def flushPending_def SetFlushHandler_def SetAssemblyTimeout_def
      Let_def split: option.splits\<close>)

text \<open>What a late part that does not complete the message yields.\<close>

definition progress :: "nat \<Rightarrow> AssembledSMS option \<Rightarrow> bool" where
  "progress k out \<longleftrightarrow> (\<exists>m. out = Some m \<and> \<not> IsComplete m \<and> IsUpdate m \<and> As_Segments m = int k)"

lemma part_late:
  assumes "late (key_fmt from ref) ttl t0 n part S a" "parts_of from ref n part" "i \<in> {1..n}" "i \<notin> set S"
    and "now \<le> t0 + flushedTTL ttl"
  shows "int (length S) + 1 \<noteq> n \<Longrightarrow> progress (length S + 1) (snd (AddPart now (part i) a))
           \<and> late (key_fmt from ref) ttl t0 n part (S @ [i]) (fst (AddPart now (part i) a))"
    and "set S \<union> {i} = {1..n} \<Longrightarrow> int (length S) + 1 = n \<Longrightarrow>
           snd (AddPart now (part i) a) = Some (assembled_of n part (hd S) (''[Updated] '' @ text_of n part) True)"
proof -
  have c: "late (key_fmt from ref) ttl t0 n part S (cleanupExpired now a)"
    using cleanup_late [OF assms(1,5)] .
  then obtain fm where fm: "asm_flushed (cleanupExpired now a) (key_fmt from ref) = Some fm" "holds_parts part S (fm_parts fm)"
    by (auto simp: late_def split: option.splits)
  have p: "IsMultipart (part i)" "In_From (part i) = from" "In_Reference (part i) = ref"
    "In_PartNumber (part i) = i" "In_TotalParts (part i) = n" "2 \<le> n" "n \<le> 20" "1 \<le> i" "i \<le> n"
    using assms(2,3) by (auto simp: parts_of_def)
  have add: "AddPart now (part i) a = addFlushed (key_fmt from ref) (part i) fm (cleanupExpired now a)"
    using p fm by (simp add: AddPart_def Let_def)
  note h = holds_parts_update [OF fm(2) assms(4)]
  note len = holds_parts_length [OF h]
  show "int (length S) + 1 \<noteq> n \<Longrightarrow> progress (length S + 1) (snd (AddPart now (part i) a))
           \<and> late (key_fmt from ref) ttl t0 n part (S @ [i]) (fst (AddPart now (part i) a))"
    unfolding add using h len c p fm by (auto simp: addFlushed_def late_def progress_def Let_def)
  show "set S \<union> {i} = {1..n} \<Longrightarrow> int (length S) + 1 = n \<Longrightarrow>
           snd (AddPart now (part i) a) = Some (assembled_of n part (hd S) (''[Updated] '' @ text_of n part) True)"
    unfolding add using h len c p fm holds_parts_join [OF h, of n]
    by (auto simp: addFlushed_def late_def Let_def assembled_of_def)
qed

definition late_outputs :: "int \<Rightarrow> (int \<Rightarrow> IncomingPart) \<Rightarrow> int list \<Rightarrow> int list \<Rightarrow> AssembledSMS option list \<Rightarrow> bool" where
  "late_outputs n part S rest outs \<longleftrightarrow>
     (if rest = [] then outs = []
      else \<exists>os. outs = os @ [Some (assembled_of n part (hd S) (''[Updated] '' @ text_of n part) True)]
             \<and> length os = length rest - 1 \<and> (\<forall>k<length os. progress (length S + k + 1) (os ! k)))"

lemma late_outputs_Cons:
  assumes "rest \<noteq> []" "S \<noteq> []" "progress (length S + 1) out" "late_outputs n part (S @ [i]) rest outs"
  shows "late_outputs n part S (i # rest) (out # outs)"
proof -
  obtain os where os: "outs = os @ [Some (assembled_of n part (hd S) (''[Updated] '' @ text_of n part) True)]"
    "length os = length rest - 1" "\<forall>k<length os. progress (length S + k + 2) (os ! k)"
    using assms by (auto simp: late_outputs_def)
  have "\<forall>k<length (out # os). progress (length S + k + 1) ((out # os) ! k)"
    using os(3) assms(3) by (auto simp: nth_Cons split: nat.split)
  then show ?thesis
    using os assms(1) by (auto simp: late_outputs_def intro!: exI [of _ "out # os"])
qed

lemma late_run:
  assumes "parts_of from ref n part" "list_all (in_window t0 (flushedTTL ttl)) es"
    and "filter (touches (key_fmt from ref)) es = map (\<lambda>i. EvAddPart (time i) (part i)) rest"
    and "distinct (S @ rest)" "set (S @ rest) = {1..n}" "S \<noteq> []"
    and "rest \<noteq> [] \<longrightarrow> late (key_fmt from ref) ttl t0 n part S a"
  shows "late_outputs n part S rest (outputs_of (key_fmt from ref) es a)"
  using assms(2-)
proof (induction es arbitrary: S rest a)
  case (Cons e es)
  show ?case
  proof (cases "touches (key_fmt from ref) e")
    case False
    then show ?thesis
      using Cons.prems Cons.IH [of rest S "fst (asm_step e a)"] other_late [of "key_fmt from ref" ttl t0 n part S a e]
      by auto
  next
    case True
    with Cons.prems(2) obtain i rest' where r: "rest = i # rest'" "e = EvAddPart (time i) (part i)"
      "filter (touches (key_fmt from ref)) es = map (\<lambda>i. EvAddPart (time i) (part i)) rest'"
      by (cases rest) auto
    have b: "late (key_fmt from ref) ttl t0 n part S a" using Cons.prems(6) r by simp
    have i: "i \<in> {1..n}" "i \<notin> set S" "time i \<le> t0 + flushedTTL ttl"
      using Cons.prems(1,3,4) r by (auto simp: flushedTTL_pos)
    note pl = part_late [OF b assms(1) i]
    have n: "int (length (S @ rest)) = n"
      using Cons.prems(3,4) assms(1) by (subst distinct_card [symmetric]) (auto simp: parts_of_def)
    have IH: "late_outputs n part (S @ [i]) rest' (outputs_of (key_fmt from ref) es (fst (asm_step e a)))"
      using Cons.prems pl(1) n r by (intro Cons.IH) auto
    show ?thesis
    proof (cases "rest' = []")
      case True
      then show ?thesis
        using pl(2) n r Cons.prems IH \<open>touches _ e\<close> by (auto simp: late_outputs_def)
    next
      case False
      then have "int (length S) + 1 \<noteq> n" using n r by auto
      then show ?thesis
        using late_outputs_Cons [OF False Cons.prems(5) _ IH] pl(1) r \<open>touches _ e\<close> by simp
    qed
  qed
qed (simp add: late_outputs_def)

text \<open>Late parts: when the timer of a message fires after the parts \<open>S\<close> have come,
  what was received is moved to the flushed messages; the parts \<open>rest\<close> that still come (in
  any order, interleaved with operations on other keys, within the flushed lifetime) each
  yield a progress update with one segment more, and the last one yields the complete text
  with the prefix \<^verbatim>\<open>[Updated]\<close>.
\<close>

theorem late_parts_complete:
  assumes "parts_of from ref n part" "S \<noteq> []" "rest \<noteq> []" "distinct (S @ rest)" "set (S @ rest) = {1..n}"
    and "building (key_fmt from ref) (asm_ttl a) t0 n part S a"
    and "filter (touches (key_fmt from ref)) es = map (\<lambda>i. EvAddPart (time i) (part i)) rest"
    and "list_all (in_window now (flushedTTL (asm_ttl a))) es"
  shows "\<exists>os. outputs_of (key_fmt from ref) es (fst (asm_step (EvFlushPending now (key_fmt from ref)) a)) =
        os @ [Some (assembled_of n part (hd S) (''[Updated] '' @ text_of n part) True)]
     \<and> length os = length rest - 1 \<and> (\<forall>k<length os. progress (length S + k + 1) (os ! k))"
proof -
  have "late (key_fmt from ref) (asm_ttl a) now n part S (fst (flushPending now (key_fmt from ref) a))"
    using flush_late [OF assms(6,2)] .
  from late_run [OF assms(1,8,7,4,5,2), OF impI, OF this] assms(3) show ?thesis
    by (simp add: late_outputs_def)
qed

theorem late_parts_complete_witness:
  "\<exists>os. outputs_of (key_fmt ''+7900'' 9) [EvAddPart 40 (demo_part 1)]
       (fst (asm_step (EvFlushPending 30 (key_fmt ''+7900'' 9)) (fst (AddPart 5 (demo_part 2) (NewAssembler 1000 [10]))))) =
        os @ [Some (assembled_of 2 demo_part (hd [2]) (''[Updated] '' @ text_of 2 demo_part) True)]
     \<and> length os = length [1::int] - 1 \<and> (\<forall>k<length os. progress (length [2::int] + k + 1) (os ! k))"
proof (rule late_parts_complete [where time = "\<lambda>i. 40" and ?t0.0 = 5])
  show po: "parts_of ''+7900'' 9 2 demo_part" by (auto simp: parts_of_def demo_part_def)
  have "building (key_fmt ''+7900'' 9) 1000 5 2 demo_part [] (NewAssembler 1000 [10])"
    by (simp add: building_def NewAssembler_def)
  from part_building(1) [OF this po, of 2 5] have "building (key_fmt ''+7900'' 9) 1000 5 2 demo_part [2]
      (fst (AddPart 5 (demo_part 2) (NewAssembler 1000 [10])))" by simp
  then show "building (key_fmt ''+7900'' 9) (asm_ttl (fst (AddPart 5 (demo_part 2) (NewAssembler 1000 [10])))) 5 2 demo_part [2]
      (fst (AddPart 5 (demo_part 2) (NewAssembler 1000 [10])))"
    by (simp add: building_def)
  show "list_all (in_window 30 (flushedTTL (asm_ttl (fst (AddPart 5 (demo_part 2) (NewAssembler 1000 [10]))))))
      [EvAddPart 40 (demo_part 1)]" by code_simp
qed (auto simp: demo_part_def)

section \<open>Bounds and keys\<close>

text \<open>In every state the operations can reach, a pending or flushed message holds at
  least one part and fewer than it waits for, at most 20 are ever awaited, part numbers lie
  between 1 and 20, and no key is pending and flushed at once.
\<close>

theorem assembler_reachable:
  assumes "a = fst (run asm_step es (NewAssembler ttl timeouts))"
  shows "(\<forall>k pm. asm_pending a k = Some pm \<longrightarrow> pm_parts pm \<noteq> [] \<and> int (length (pm_parts pm)) < pm_totalParts pm
            \<and> pm_totalParts pm \<le> 20 \<and> dom (map_of (pm_parts pm)) \<subseteq> {1..20} \<and> asm_flushed a k = None)
       \<and> (\<forall>k fm. asm_flushed a k = Some fm \<longrightarrow> fm_parts fm \<noteq> [] \<and> int (length (fm_parts fm)) < fm_totalParts fm
            \<and> fm_totalParts fm \<le> 20 \<and> dom (map_of (fm_parts fm)) \<subseteq> {1..20})"
proof -
  have "asm_inv (NewAssembler ttl timeouts)" by (simp add: asm_inv_def NewAssembler_def)
  then have "asm_inv a" unfolding assms by (rule asm.run_inv)
  then show ?thesis by (simp add: asm_inv_def partial_ok_def)
qed

theorem assembler_reachable_witness:
  "\<exists>pm. asm_pending (fst (run asm_step [EvAddPart 5 (demo_part 2)] (NewAssembler 1000 [10]))) (key_fmt ''+7900'' 9) = Some pm
     \<and> int (length (pm_parts pm)) < pm_totalParts pm"
proof -
  have "asm_pending (fst (run asm_step [EvAddPart 5 (demo_part 2)] (NewAssembler 1000 [10]))) (key_fmt ''+7900'' 9) \<noteq> None"
    by code_simp
  then show ?thesis using assembler_reachable [OF refl, of "[EvAddPart 5 (demo_part 2)]" 1000 "[10]"] by blast
qed

text \<open>
  Completion is decided by counting: when a second part under the same key
  announces a larger number of parts (a reused reference), the two parts make the first
  message complete although its part 2 never arrived; the text is that of part 1 alone.
\<close>

theorem AddPart_count_only:
  assumes "2 < n" "n \<le> 20" "2 < i" "i \<le> n"
    and "asm_pending a (key_fmt from ref) = None" "asm_flushed a (key_fmt from ref) = None"
    and "p = demo_part 1\<lparr>In_From := from, In_Reference := ref, In_Text := t\<rparr>"
    and "q = demo_part i\<lparr>In_From := from, In_Reference := ref, In_TotalParts := n\<rparr>"
  shows "\<exists>m. snd (run asm_step [EvAddPart now p, EvAddPart now q] a) = [None, Some m]
     \<and> IsComplete m \<and> As_Segments m = 2 \<and> As_Text m = t"
  using assms
  by (auto simp: AddPart_def addPending_def cleanupExpired_def demo_part_def Let_def joinParts_def upto_rec1
      split: if_splits)

theorem AddPart_count_only_witness:
  "\<exists>m. snd (run asm_step [EvAddPart 1 (demo_part 1\<lparr>In_From := ''x'', In_Reference := 1, In_Text := ''half''\<rparr>),
        EvAddPart 1 (demo_part 5\<lparr>In_From := ''x'', In_Reference := 1, In_TotalParts := 6\<rparr>)] (NewAssembler 0 [])) = [None, Some m]
     \<and> IsComplete m \<and> As_Segments m = 2 \<and> As_Text m = ''half''"
  by (rule AddPart_count_only [of 6 5 _ "''x''" 1])
     (simp_all add: NewAssembler_def)

end
