(* ===== verification/SMS_Tracker.thy ===== *)
theory SMS_Tracker
  imports Event_Machine PDU_Network
begin

text \<open>
  Delivery tracking (\<^verbatim>\<open>internal/sms/tracker.go\<close>): the map of sent messages that wait for a
  status report, by normalized recipient and message reference. Each operation returns the
  event it hands to the callback \<^verbatim>\<open>onUpdate\<close>, if one is registered.
\<close>

section \<open>State and operations\<close>

datatype DeliveryStatus =
    DeliveryStatusPending
  | DeliveryStatusDelivered
  | DeliveryStatusFailed
  | DeliveryStatusExpired

record DeliveryEvent =
  Ev_MessageRef :: byte
  Ev_To :: gostring
  Ev_Status :: DeliveryStatus
  Ev_ModemID :: gostring

record trackedSMS =
  trk_ref :: byte
  trk_to :: gostring
  trk_modemID :: gostring
  trk_timer :: "instant option"

record Tracker =
  trk_timeout :: duration
  trk_onUpdate :: bool
  trk_pending :: "gostring \<rightharpoonup> trackedSMS"

definition NewTracker :: "duration \<Rightarrow> bool \<Rightarrow> Tracker" where
  "NewTracker timeout onUpdate = \<lparr>trk_timeout = timeout, trk_onUpdate = onUpdate, trk_pending = Map.empty\<rparr>"

definition canonicalRecipient :: "gostring \<Rightarrow> gostring" where
  "canonicalRecipient raw =
     (let trimmed = TrimSpace raw
      in if trimmed = [] then raw
         else let hasPlus = HasPrefix trimmed ''+'';
                  d = string_of_runes (filter is_digit (runes trimmed))
              in if d = [] then trimmed
                 else if hasPlus then ''+'' @ d
                 else if length d = 11 \<and> hd d = CHR ''8'' then ''+7'' @ drop 1 d
                 else d)"

definition makeKey :: "gostring \<Rightarrow> byte \<Rightarrow> gostring" where
  "makeKey recipient ref = key_fmt (canonicalRecipient recipient) ref"

definition notify :: "Tracker \<Rightarrow> DeliveryEvent \<Rightarrow> DeliveryEvent option" where
  "notify t ev = (if trk_onUpdate t then Some ev else None)"

definition Track :: "instant \<Rightarrow> byte \<Rightarrow> gostring \<Rightarrow> gostring \<Rightarrow> Tracker \<Rightarrow> Tracker \<times> DeliveryEvent option" where
  "Track now ref recipient modemID t =
     (let key = makeKey recipient ref;
          item = \<lparr>trk_ref = ref, trk_to = recipient, trk_modemID = modemID,
                  trk_timer = (if 0 < trk_timeout t then Some (now + trk_timeout t) else None)\<rparr>
      in (t\<lparr>trk_pending := (trk_pending t)(key \<mapsto> item)\<rparr>,
          notify t \<lparr>Ev_MessageRef = ref, Ev_To = recipient, Ev_Status = DeliveryStatusPending, Ev_ModemID = modemID\<rparr>))"

definition report_status :: "StatusReport \<Rightarrow> DeliveryStatus" where
  "report_status report =
     (if \<not> Delivered report
      then (if Permanent report then DeliveryStatusFailed else DeliveryStatusPending)
      else DeliveryStatusDelivered)"

definition HandleReport :: "StatusReport \<Rightarrow> Tracker \<Rightarrow> Tracker \<times> DeliveryEvent option" where
  "HandleReport report t =
     (let key = makeKey (Recipient report) (MessageRef report)
      in case trk_pending t key of
           None \<Rightarrow> (t, None)
         | Some item \<Rightarrow>
             (t\<lparr>trk_pending := (trk_pending t)(key := None)\<rparr>,
              notify t \<lparr>Ev_MessageRef = MessageRef report, Ev_To = trk_to item,
                        Ev_Status = report_status report, Ev_ModemID = trk_modemID item\<rparr>))"

definition handleTimeout :: "gostring \<Rightarrow> Tracker \<Rightarrow> Tracker \<times> DeliveryEvent option" where
  "handleTimeout key t = (case trk_pending t key of
     None \<Rightarrow> (t, None)
   | Some item \<Rightarrow>
       (t\<lparr>trk_pending := (trk_pending t)(key := None)\<rparr>,
        notify t \<lparr>Ev_MessageRef = trk_ref item, Ev_To = trk_to item,
                  Ev_Status = DeliveryStatusExpired, Ev_ModemID = trk_modemID item\<rparr>))"

section \<open>Recipients\<close>

lemma filter_digit_ascii: "is_ascii (string_of_runes (filter is_digit rs))"
  "string_of_runes (filter is_digit rs) = map char_of (filter is_digit rs)"
proof -
  have small: "list_all (\<lambda>r. r < 0x80) (filter is_digit rs)" by (auto simp: list_all_iff is_digit_def)
  show "string_of_runes (filter is_digit rs) = map char_of (filter is_digit rs)"
    using small by (rule string_of_runes_ascii)
  then show "is_ascii (string_of_runes (filter is_digit rs))"
    using small by (auto simp: is_ascii_def list_all_iff)
qed

lemma digit_string_not_Nil: "digit_string d \<Longrightarrow> d \<noteq> []"
  by (simp add: digit_string_def)

lemma canonicalRecipient_digits:
  "digit_string d \<Longrightarrow> canonicalRecipient (CHR ''+'' # d) = CHR ''+'' # d"
  "digit_string d \<Longrightarrow> canonicalRecipient d = (if length d = 11 \<and> hd d = CHR ''8'' then ''+7'' @ drop 1 d else d)"
  by (simp_all add: canonicalRecipient_def digit_string_facts(1-5) HasPrefix_Cons_Cons digit_string_not_Nil Let_def)

section \<open>Life of a tracked message\<close>

datatype trk_event =
    EvTrack instant byte gostring gostring
  | EvHandleReport StatusReport
  | EvHandleTimeout gostring

fun trk_step :: "trk_event \<Rightarrow> Tracker \<Rightarrow> Tracker \<times> DeliveryEvent option" where
  "trk_step (EvTrack now ref recipient modemID) t = Track now ref recipient modemID t"
| "trk_step (EvHandleReport report) t = HandleReport report t"
| "trk_step (EvHandleTimeout key) t = handleTimeout key t"

fun trk_key :: "trk_event \<Rightarrow> gostring" where
  "trk_key (EvTrack now ref recipient modemID) = makeKey recipient ref"
| "trk_key (EvHandleReport report) = makeKey (Recipient report) (MessageRef report)"
| "trk_key (EvHandleTimeout key) = key"

fun is_track :: "trk_event \<Rightarrow> bool" where
  "is_track (EvTrack now ref recipient modemID) = True"
| "is_track _ = False"

text \<open>Every entry is filed under its own recipient and reference.\<close>

definition trk_inv :: "Tracker \<Rightarrow> bool" where
  "trk_inv t \<longleftrightarrow> (\<forall>k item. trk_pending t k = Some item \<longrightarrow> k = makeKey (trk_to item) (trk_ref item))"

interpretation trk: event_machine trk_step trk_inv
proof
  fix t e assume "trk_inv t"
  then show "trk_inv (fst (trk_step e t))"
    by (cases e) (auto simp: trk_inv_def Track_def HandleReport_def handleTimeout_def Let_def split: option.splits)
qed

lemma trk_step_other:
  "trk_key e \<noteq> k \<Longrightarrow> trk_pending (fst (trk_step e t)) k = trk_pending t k"
  by (cases e) (auto simp: Track_def HandleReport_def handleTimeout_def Let_def split: option.splits)

lemma trk_step_onUpdate [simp]: "trk_onUpdate (fst (trk_step e t)) = trk_onUpdate t"
  by (cases e) (auto simp: Track_def HandleReport_def handleTimeout_def Let_def split: option.splits)

definition trk_outputs :: "gostring \<Rightarrow> trk_event list \<Rightarrow> Tracker \<Rightarrow> DeliveryEvent list" where
  "trk_outputs k es t = List.map_filter (\<lambda>(e, out). if trk_key e = k then out else None)
     (zip es (snd (run trk_step es t)))"

lemma trk_outputs_simps [simp]:
  "trk_outputs k [] t = []"
  "trk_outputs k (e # es) t =
     (if trk_key e = k then (case snd (trk_step e t) of None \<Rightarrow> [] | Some ev \<Rightarrow> [ev]) else [])
     @ trk_outputs k es (fst (trk_step e t))"
  by (auto simp: trk_outputs_def Let_def split_beta List.map_filter_simps split: option.splits)

lemma untracked_silent:
  assumes "trk_pending t k = None" "\<forall>e\<in>set es. trk_key e = k \<longrightarrow> \<not> is_track e"
  shows "trk_outputs k es t = []"
  using assms
proof (induction es arbitrary: t)
  case (Cons e es)
  show ?case
  proof (cases "trk_key e = k")
    case True
    then have "trk_step e t = (t, None)"
      using Cons.prems by (cases e) (auto simp: HandleReport_def handleTimeout_def Let_def)
    with Cons show ?thesis by simp
  next
    case False
    with Cons.prems trk_step_other [OF False, of t] Cons.IH [of "fst (trk_step e t)"] show ?thesis by simp
  qed
qed simp

definition final_event :: "trackedSMS \<Rightarrow> trk_event \<Rightarrow> DeliveryEvent" where
  "final_event item e = (case e of
     EvHandleReport report \<Rightarrow> \<lparr>Ev_MessageRef = MessageRef report, Ev_To = trk_to item,
        Ev_Status = report_status report, Ev_ModemID = trk_modemID item\<rparr>
   | _ \<Rightarrow> \<lparr>Ev_MessageRef = trk_ref item, Ev_To = trk_to item, Ev_Status = DeliveryStatusExpired,
        Ev_ModemID = trk_modemID item\<rparr>)"

lemma tracked_once:
  assumes "trk_pending t k = Some item" "trk_onUpdate t" "\<forall>e\<in>set es. trk_key e = k \<longrightarrow> \<not> is_track e"
  shows "trk_outputs k es t = (case filter (\<lambda>e. trk_key e = k) es of [] \<Rightarrow> [] | e # _ \<Rightarrow> [final_event item e])"
  using assms
proof (induction es arbitrary: t)
  case (Cons e es)
  show ?case
  proof (cases "trk_key e = k")
    case True
    then have "trk_step e t = (t\<lparr>trk_pending := (trk_pending t)(k := None)\<rparr>, Some (final_event item e))"
      using Cons.prems by (cases e) (auto simp: HandleReport_def handleTimeout_def notify_def final_event_def Let_def)
    with True Cons.prems(3) untracked_silent [of "t\<lparr>trk_pending := (trk_pending t)(k := None)\<rparr>" k es]
    show ?thesis by simp
  next
    case False
    with Cons.prems trk_step_other [OF False, of t] Cons.IH [of "fst (trk_step e t)"] show ?thesis by simp
  qed
qed simp


text \<open>A report for a message sent to a Russian number in national form.\<close>

definition demo_report :: StatusReport where
  "demo_report = \<lparr>MessageRef = 3, Recipient = ''89001234567'', SCTimestamp = \<lparr>t_instant = 0, t_offset = 0\<rparr>,
     Discharge = \<lparr>t_instant = 0, t_offset = 0\<rparr>, StatusCode = 0, Delivered = True, Temporary = False,
     Permanent = False\<rparr>"


text \<open>
  Spellings of a recipient: the national form with 8 and the form +7 of a number
  share one key, so a report in national form finds the message; but a number tracked in
  international form and reported with the same digits without the plus (any number that is
  not of the 11-digit form with 8) has a different key, and the report is dropped.
\<close>

theorem makeKey_spelling:
  assumes "digit_string d"
  shows "(makeKey (CHR ''8'' # d) ref = makeKey (''+7'' @ d) ref \<longleftrightarrow> length d = 10)
    \<and> (makeKey (CHR ''+'' # d) ref = makeKey d ref' \<longrightarrow> length d = 11 \<and> hd d = CHR ''8'')"
proof -
  have d8: "digit_string (CHR ''8'' # d)" "digit_string (CHR ''7'' # d)"
    using assms by (simp_all add: digit_string_def is_digit_char_def is_digit_def)
  have "CHR ''8'' # d \<noteq> CHR ''+'' # x" for x by simp
  with d8 have "makeKey (CHR ''8'' # d) ref = makeKey (''+7'' @ d) ref \<longleftrightarrow> length d = 10"
    using canonicalRecipient_digits(1) [OF d8(2)] canonicalRecipient_digits(2) [OF d8(1)]
    by (simp add: makeKey_def key_fmt_inj)
  moreover have "d \<noteq> CHR ''+'' # d" by (metis not_Cons_self2)
  then have "makeKey (CHR ''+'' # d) ref = makeKey d ref' \<longrightarrow> length d = 11 \<and> hd d = CHR ''8''"
    using canonicalRecipient_digits [OF assms] by (auto simp: makeKey_def key_fmt_inj)
  ultimately show ?thesis ..
qed

theorem makeKey_spelling_witness:
  "makeKey (CHR ''8'' # ''9001234567'') 3 = makeKey (''+7'' @ ''9001234567'') 3
   \<and> makeKey (CHR ''+'' # ''491511'') 3 \<noteq> makeKey ''491511'' 3"
proof -
  have "digit_string ''9001234567''" "digit_string ''491511''" by code_simp+
  from makeKey_spelling [OF this(1)] makeKey_spelling [OF this(2), of 3 3] show ?thesis by simp
qed

text \<open>From the status report on the air to the event: when a message to \<open>number\<close> is
  tracked and the service centre reports on it under the same reference and number, the PDU
  decodes, the entry is removed, and the event is delivered for status 0x00 to 0x1F, failed
  for 0x40 to 0x5F and pending for every other value (temporary errors and reserved values).
\<close>

theorem report_to_event:
  assumes "digit_string d" "length d < 256" "number = d \<or> number = CHR ''+'' # d"
    and "length sca < 256" "length scts = 7" "length dt = 7" "fo AND 0x03 = 0x02" "trk_onUpdate t"
  shows "\<exists>rep. DecodeStatusReport clk (hexString (report_frame sca fo ref number scts dt st)) = Inr rep
     \<and> HandleReport rep (fst (Track now ref number modemID t)) =
        (t\<lparr>trk_pending := (trk_pending t)(makeKey number ref := None)\<rparr>,
         Some \<lparr>Ev_MessageRef = ref, Ev_To = number,
               Ev_Status = (if st \<le> 0x1F then DeliveryStatusDelivered
                            else if 0x40 \<le> st \<and> st \<le> 0x5F then DeliveryStatusFailed
                            else DeliveryStatusPending),
               Ev_ModemID = modemID\<rparr>)"
proof -
  note n = phone_number_address [OF assms(1,3)]
  from DecodeStatusReport_frame [of sca number scts dt fo clk ref st] assms(2,4-8) n show ?thesis
    by (simp add: HandleReport_def Track_def Let_def notify_def report_status_def)
qed

theorem report_to_event_witness:
  "\<exists>rep. DecodeStatusReport \<lparr>t_instant = 0, t_offset = 0\<rparr>
        (hexString (report_frame [] 0x06 3 ''+491511'' [0,0,0,0,0,0,0] [0,0,0,0,0,0,0] 0x30)) = Inr rep
     \<and> HandleReport rep (fst (Track 0 3 ''+491511'' ''m1'' (NewTracker 60 True))) =
        ((NewTracker 60 True)\<lparr>trk_pending := (trk_pending (NewTracker 60 True))(makeKey ''+491511'' 3 := None)\<rparr>,
         Some \<lparr>Ev_MessageRef = 3, Ev_To = ''+491511'',
               Ev_Status = (if (0x30::byte) \<le> 0x1F then DeliveryStatusDelivered
                            else if (0x40::byte) \<le> 0x30 \<and> (0x30::byte) \<le> 0x5F then DeliveryStatusFailed
                            else DeliveryStatusPending),
               Ev_ModemID = ''m1''\<rparr>)"
  by (rule report_to_event [of "''491511''"]) code_simp+

end
