(* ===== verification/SMS_Validator.thy ===== *)
theory SMS_Validator
  imports SMS_Tracker
begin

text \<open>
  Validation and transliteration of outgoing messages (\<^verbatim>\<open>internal/sms/validator.go\<close> and
  \<^verbatim>\<open>translit.go\<close>).
\<close>

section \<open>Phone numbers and texts\<close>

datatype sms_error =
    ErrSmsEmptyPhoneNumber
  | ErrPhoneNumberTooShort
  | ErrPhoneNumberTooLong
  | ErrInvalidPhoneCharacters
  | ErrSmsEmptyText
  | ErrNullByteInText
  | ErrModemEscapeChar

definition is_phone_filler :: "rune \<Rightarrow> bool" where
  "is_phone_filler r \<longleftrightarrow> r = 32 \<or> r = 45 \<or> r = 40 \<or> r = 41 \<or> r = 46"

text \<open>The scanning loop: \<open>first\<close> says that the index of the rune is 0.\<close>

fun scan_phone :: "bool \<Rightarrow> bool \<Rightarrow> rune list \<Rightarrow> rune list \<Rightarrow> sms_error + (bool \<times> rune list)" where
  "scan_phone first hasPlus digits [] = Inr (hasPlus, digits)"
| "scan_phone first hasPlus digits (r # rs) =
     (if r = 43 then (if first then scan_phone False True digits rs else Inl ErrInvalidPhoneCharacters)
      else if is_digit r then scan_phone False hasPlus (digits @ [r]) rs
      else if is_phone_filler r then scan_phone False hasPlus digits rs
      else Inl ErrInvalidPhoneCharacters)"

definition NormalizePhoneNumber :: "gostring \<Rightarrow> gostring \<Rightarrow> sms_error + gostring" where
  "NormalizePhoneNumber raw defaultCountryPrefix =
     (let trimmed = TrimSpace raw
      in if trimmed = [] then Inl ErrSmsEmptyPhoneNumber
         else bind_res (scan_phone True False [] (runes trimmed)) (\<lambda>(hasPlus, digits).
           if length digits = 0 then Inl ErrSmsEmptyPhoneNumber
           else if length digits < 2 then Inl ErrPhoneNumberTooShort
           else
             (let digitStr = string_of_runes digits
              in if hasPlus then
                   (if length digits < 3 then Inl ErrPhoneNumberTooShort
                    else if 15 < length digits then Inl ErrPhoneNumberTooLong
                    else Inr (''+'' @ digitStr))
                 else if length digits = 11 \<and> hd digits = 56 then Inr (''+7'' @ drop 1 digitStr)
                 else if length digits \<le> 6 then Inr digitStr
                 else if length digits = 10 \<and> defaultCountryPrefix \<noteq> [] then
                   (let cleanPrefix = TrimSpace defaultCountryPrefix
                    in Inr ((if HasPrefix cleanPrefix ''+'' then cleanPrefix else ''+'' @ cleanPrefix) @ digitStr))
                 else if 15 < length digits then Inl ErrPhoneNumberTooLong
                 else Inr (''+'' @ digitStr))))"

fun scan_text :: "rune list \<Rightarrow> sms_error option" where
  "scan_text [] = None"
| "scan_text (r # rs) =
     (if r = 0x00 then Some ErrNullByteInText
      else if r = 0x1A then Some ErrModemEscapeChar
      else scan_text rs)"

definition ValidateMessageText :: "gostring \<Rightarrow> sms_error option" where
  "ValidateMessageText text = (if text = [] then Some ErrSmsEmptyText else scan_text (runes text))"

section \<open>Transliteration\<close>

definition translitMap :: "(rune \<times> gostring) list" where
  "translitMap =
     [
      (1040, ''A''), (1041, ''B''), (1042, ''V''), (1043, ''G''), (1044, ''D''), (1045, ''E''),
      (1025, ''Yo''), (1046, ''Zh''), (1047, ''Z''), (1048, ''I''), (1049, ''J''), (1050, ''K''),
      (1051, ''L''), (1052, ''M''), (1053, ''N''), (1054, ''O''), (1055, ''P''), (1056, ''R''),
      (1057, ''S''), (1058, ''T''), (1059, ''U''), (1060, ''F''), (1061, ''Kh''), (1062, ''Ts''),
      (1063, ''Ch''), (1064, ''Sh''), (1065, ''Shch''), (1066, [CHR 0x27]), (1067, ''Y''), (1068, [CHR 0x27]),
      (1069, ''E''), (1070, ''Yu''), (1071, ''Ya''), (1072, ''a''), (1073, ''b''), (1074, ''v''),
      (1075, ''g''), (1076, ''d''), (1077, ''e''), (1105, ''yo''), (1078, ''zh''), (1079, ''z''),
      (1080, ''i''), (1081, ''j''), (1082, ''k''), (1083, ''l''), (1084, ''m''), (1085, ''n''),
      (1086, ''o''), (1087, ''p''), (1088, ''r''), (1089, ''s''), (1090, ''t''), (1091, ''u''),
      (1092, ''f''), (1093, ''kh''), (1094, ''ts''), (1095, ''ch''), (1096, ''sh''), (1097, ''shch''),
      (1098, [CHR 0x27]), (1099, ''y''), (1100, [CHR 0x27]), (1101, ''e''), (1102, ''yu''), (1103, ''ya'')]"

definition Transliterate :: "gostring \<Rightarrow> gostring" where
  "Transliterate text =
     concat (map (\<lambda>r. case map_of translitMap r of Some repl \<Rightarrow> repl | None \<Rightarrow> string_of_runes [r]) (runes text))"

section \<open>Normalized numbers\<close>

text \<open>What the service may hand to a modem: a short code of two to six digits, or a plus and
  three to fifteen digits.\<close>

definition dialable :: "gostring \<Rightarrow> bool" where
  "dialable n \<longleftrightarrow> (\<exists>d. digit_string d \<and>
     (n = d \<and> 2 \<le> length d \<and> length d \<le> 6 \<or> n = CHR ''+'' # d \<and> 3 \<le> length d \<and> length d \<le> 15))"

lemma scan_phone_digits:
  "scan_phone first hp ds rs = Inr (hp', ds') \<Longrightarrow> list_all is_digit ds \<Longrightarrow> list_all is_digit ds'"
  by (induction rs arbitrary: first hp ds) (auto split: if_splits)

lemma digits_string:
  assumes "list_all is_digit ds"
  shows "length (string_of_runes ds) = length ds" "ds \<noteq> [] \<Longrightarrow> digit_string (string_of_runes ds)"
    "string_of_runes ds = map char_of ds"
proof -
  have "list_all (\<lambda>r. r < 0x80) ds" using assms by (auto simp: list_all_iff is_digit_def)
  then show e: "string_of_runes ds = map char_of ds" by (rule string_of_runes_ascii)
  show "length (string_of_runes ds) = length ds" by (simp add: e)
  have "(of_char (char_of r) :: nat) = r" if "r \<in> set ds" for r
    using assms that by (auto simp: list_all_iff is_digit_def)
  then show "ds \<noteq> [] \<Longrightarrow> digit_string (string_of_runes ds)"
    using assms by (auto simp: digit_string_def e list_all_iff is_digit_char_def)
qed

lemma digit_string_append: "digit_string a \<Longrightarrow> digit_string b \<Longrightarrow> digit_string (a @ b)"
  by (auto simp: digit_string_def)

lemma scan_phone_all_digits:
  "list_all is_digit rs \<Longrightarrow> scan_phone f hp ds rs = Inr (hp, ds @ rs)"
  by (induction rs arbitrary: f ds) (auto simp: is_digit_def)

lemma runes_digit_string:
  assumes "digit_string d"
  shows "runes d = map of_char d" "runes (CHR ''+'' # d) = 43 # map of_char d" "list_all is_digit (map of_char d)"
proof -
  have a: "is_ascii d"
    using assms by (fastforce simp: digit_string_def is_ascii_def list_all_iff is_digit_char_def is_digit_def)
  then show "runes d = map of_char d" by (rule runes_ascii)
  show "runes (CHR ''+'' # d) = 43 # map of_char d" using a by (subst runes_ascii) simp_all
  show "list_all is_digit (map of_char d)"
    using assms by (simp add: digit_string_def list_all_iff is_digit_char_def)
qed

lemma dialable_normal: "dialable n \<Longrightarrow> NormalizePhoneNumber n pfx = Inr n"
proof -
  assume "dialable n"
  then obtain d where d: "digit_string d"
    and n: "n = d \<and> 2 \<le> length d \<and> length d \<le> 6 \<or> n = CHR ''+'' # d \<and> 3 \<le> length d \<and> length d \<le> 15"
    by (auto simp: dialable_def)
  note r = runes_digit_string [OF d] and f = digit_string_facts [OF d]
  have s: "string_of_runes (map of_char d) = d" using f(4,6) by simp
  have ne: "d \<noteq> []" using d by (simp add: digit_string_def)
  from n show ?thesis
  proof
    assume "n = d \<and> 2 \<le> length d \<and> length d \<le> 6"
    then show ?thesis
      using ne by (simp add: NormalizePhoneNumber_def f(1) r(1) scan_phone_all_digits [OF r(3)] s Let_def)
  next
    assume "n = CHR ''+'' # d \<and> 3 \<le> length d \<and> length d \<le> 15"
    then show ?thesis
      using ne by (simp add: NormalizePhoneNumber_def f(2) r(2) scan_phone_all_digits [OF r(3)] s Let_def)
  qed
qed

lemma dialable_canonical: "dialable n \<Longrightarrow> canonicalRecipient n = n"
  by (auto simp: dialable_def canonicalRecipient_digits)

definition country_prefix :: "gostring \<Rightarrow> bool" where
  "country_prefix p \<longleftrightarrow> p = [] \<or> (\<exists>d. digit_string d \<and> length d \<le> 5 \<and> (p = d \<or> p = CHR ''+'' # d))"

lemma country_prefix_plus:
  "country_prefix p \<Longrightarrow> p \<noteq> [] \<Longrightarrow>
   \<exists>d. digit_string d \<and> length d \<le> 5 \<and>
     (if HasPrefix (TrimSpace p) ''+'' then TrimSpace p else ''+'' @ TrimSpace p) = CHR ''+'' # d"
  by (auto simp: country_prefix_def digit_string_facts(1-3) HasPrefix_Cons_Cons)

lemma normalized_dialable:
  assumes "NormalizePhoneNumber raw pfx = Inr n" "country_prefix pfx"
  shows "dialable n"
proof -
  obtain hp ds where scan: "scan_phone True False [] (runes (TrimSpace raw)) = Inr (hp, ds)"
    and len: "2 \<le> length ds"
    using assms(1) by (auto simp: NormalizePhoneNumber_def bind_res_eq_Inr Let_def not_less split: if_splits prod.splits)
  have dig: "list_all is_digit ds" using scan_phone_digits [OF scan] by simp
  have ne: "ds \<noteq> []" using len by auto
  note ds = digits_string(1) [OF dig] digits_string(2) [OF dig ne]
  have d7: "hd ds = 56 \<Longrightarrow> digit_string (CHR ''7'' # drop 1 (string_of_runes ds))"
    using ds by (auto simp: digit_string_def is_digit_char_def is_digit_def list_all_iff dest: in_set_dropD)
  have "dialable (''+7'' @ drop 1 (string_of_runes ds))" if "length ds = 11" "hd ds = 56"
    using d7 that ds(1) by (auto simp: dialable_def)
  moreover have "dialable ((if HasPrefix (TrimSpace pfx) ''+'' then TrimSpace pfx else ''+'' @ TrimSpace pfx)
      @ string_of_runes ds)" if "length ds = 10" "pfx \<noteq> []"
    using country_prefix_plus [OF assms(2) that(2)] ds digit_string_append that(1) by (fastforce simp: dialable_def)
  moreover have "dialable (''+'' @ string_of_runes ds)" if "3 \<le> length ds" "length ds \<le> 15"
    using ds that by (auto simp: dialable_def)
  moreover have "dialable (string_of_runes ds)" if "length ds \<le> 6" using ds that len by (auto simp: dialable_def)
  ultimately show ?thesis
    using assms(1) scan len ne
    by (auto simp: NormalizePhoneNumber_def Let_def split: if_splits)
qed

text \<open>
  Every accepted phone number is a short code of two to six digits or a plus and
  three to fifteen digits (nothing else, so no quote, separator or control character reaches
  an AT command), for a default country prefix of up to five digits; normalizing it again
  changes nothing, and it is its own key in the delivery tracker.
\<close>

theorem NormalizePhoneNumber_shape:
  assumes "NormalizePhoneNumber raw pfx = Inr n" "country_prefix pfx"
  shows "dialable n \<and> NormalizePhoneNumber n pfx' = Inr n \<and> canonicalRecipient n = n"
  using normalized_dialable [OF assms] by (simp add: dialable_normal dialable_canonical)

theorem NormalizePhoneNumber_shape_witness:
  "dialable ''+79001234567'' \<and> NormalizePhoneNumber ''+79001234567'' [] = Inr ''+79001234567''
   \<and> canonicalRecipient ''+79001234567'' = ''+79001234567''"
proof (rule NormalizePhoneNumber_shape)
  show "NormalizePhoneNumber '' 8 (900) 123-45-67'' ''+7'' = Inr ''+79001234567''" by code_simp
  have "digit_string ''7''" by code_simp
  then show "country_prefix ''+7''" by (auto simp: country_prefix_def)
qed

lemma scan_text_None: "scan_text rs = None \<longleftrightarrow> 0 \<notin> set rs \<and> 0x1A \<notin> set rs"
  by (induction rs) auto

section \<open>Transliterated texts\<close>

lemma gsm7_iff: "IsGSM7 s \<longleftrightarrow> (\<forall>r\<in>set (runes s). runeToGSM7Basic r \<noteq> None \<or> runeToGSM7Ext r \<noteq> None)"
  by (simp add: IsGSM7_def list_all_iff)

lemma string_of_runes_valid1: "r \<in> set (runes t) \<Longrightarrow> runes (string_of_runes [r]) = [r]"
  using runes_valid [of t] by (intro runes_string_of_runes) (simp add: list_all_iff)

definition translit_rune :: "rune \<Rightarrow> rune list" where
  "translit_rune r = (case map_of translitMap r of Some repl \<Rightarrow> runes repl | None \<Rightarrow> [r])"

lemma translitMap_ascii: "map_of translitMap r = Some repl \<Longrightarrow> is_ascii repl"
  by (drule map_of_SomeD) (auto simp: translitMap_def is_ascii_def)

lemma Transliterate_runes: "Transliterate t = string_of_runes (concat (map translit_rune (runes t)))"
proof -
  have "(case map_of translitMap r of Some repl \<Rightarrow> repl | None \<Rightarrow> string_of_runes [r]) = string_of_runes (translit_rune r)" for r
    using translitMap_ascii [of r]
    by (auto simp: translit_rune_def runes_ascii is_ascii_def list_all_iff string_of_runes_ascii o_def split: option.split)
  then show ?thesis by (simp add: Transliterate_def string_of_runes_concat o_def)
qed

lemma basic_table_rune:
  "r \<in> set (map snd (filter (\<lambda>(i, r). i \<noteq> 0x1B) (enumerate 0 gsm7BasicTable))) \<Longrightarrow> runeToGSM7Basic r \<noteq> None"
  by (auto simp: runeToGSM7Basic_def map_of_eq_None_iff image_iff)

lemma latin_basic: "r = 39 \<or> r \<in> {65..<91} \<or> r \<in> {97..<123} \<Longrightarrow> runeToGSM7Basic r \<noteq> None"
proof -
  have "list_all (\<lambda>r. r \<in> set (map snd (filter (\<lambda>(i, r). i \<noteq> 0x1B) (enumerate 0 gsm7BasicTable))))
      (39 # [65..<91] @ [97..<123])" by code_simp
  moreover assume "r = 39 \<or> r \<in> {65..<91} \<or> r \<in> {97..<123}"
  then have "r \<in> set (39 # [65..<91] @ [97..<123])" by (simp only: list.set set_append set_upt) blast
  ultimately show ?thesis by (auto simp only: list_all_iff intro!: basic_table_rune)
qed

lemma translit_latin:
  "map_of translitMap r = Some repl \<Longrightarrow> c \<in> set repl \<Longrightarrow>
   of_char c = (39::nat) \<or> of_char c \<in> {65..<91::nat} \<or> of_char c \<in> {97..<123::nat}"
  by (drule map_of_SomeD) (auto simp: translitMap_def)

lemma translit_rune_gsm7:
  assumes "map_of translitMap r \<noteq> None \<or> runeToGSM7Basic r \<noteq> None \<or> runeToGSM7Ext r \<noteq> None"
    and "q \<in> set (translit_rune r)"
  shows "runeToGSM7Basic q \<noteq> None \<or> runeToGSM7Ext q \<noteq> None"
  using assms translitMap_ascii [of r]
  by (auto simp: translit_rune_def runes_ascii split: option.splits dest!: translit_latin latin_basic)

lemma translit_rune_valid: "valid_rune r \<Longrightarrow> list_all valid_rune (translit_rune r)"
  using runes_valid by (auto simp: translit_rune_def split: option.split)

text \<open>
  Transliteration serves its purpose: a text whose characters are Cyrillic
  letters of the table or characters of the GSM alphabet becomes a text of the GSM alphabet
  (so the encoder selects the 7-bit alphabet for it), and a text in valid UTF-8 without such
  letters is unchanged.
\<close>

theorem Transliterate_gsm7:
  "((\<forall>r\<in>set (runes t). map_of translitMap r \<noteq> None \<or> runeToGSM7Basic r \<noteq> None \<or> runeToGSM7Ext r \<noteq> None) \<longrightarrow>
     selectEncoding EncodingAuto (Transliterate t) = EncodingGSM7)
   \<and> (valid_utf8 t \<and> (\<forall>r\<in>set (runes t). map_of translitMap r = None) \<longrightarrow> Transliterate t = t)"
proof (intro conjI impI)
  have v: "list_all valid_rune (concat (map translit_rune (runes t)))"
    using runes_valid [of t] by (auto simp: list_all_iff dest!: translit_rune_valid)
  then have r: "runes (Transliterate t) = concat (map translit_rune (runes t))"
    by (simp add: Transliterate_runes runes_string_of_runes)
  assume "\<forall>r\<in>set (runes t). map_of translitMap r \<noteq> None \<or> runeToGSM7Basic r \<noteq> None \<or> runeToGSM7Ext r \<noteq> None"
  then have "IsGSM7 (Transliterate t)" unfolding gsm7_iff r using translit_rune_gsm7 by fastforce
  then show "selectEncoding EncodingAuto (Transliterate t) = EncodingGSM7" by (simp add: selectEncoding_def)
next
  have "concat (map translit_rune rs) = rs" if "\<forall>r\<in>set rs. map_of translitMap r = None" for rs
    using that by (induction rs) (auto simp: translit_rune_def)
  moreover assume "valid_utf8 t \<and> (\<forall>r\<in>set (runes t). map_of translitMap r = None)"
  ultimately show "Transliterate t = t" by (simp add: Transliterate_runes valid_utf8_def)
qed

theorem Transliterate_gsm7_witness:
  "selectEncoding EncodingAuto (Transliterate (string_of_runes [1055, 1088])) = EncodingGSM7
   \<and> Transliterate ''ok'' = ''ok''"
proof -
  have "\<forall>r\<in>set (runes (string_of_runes [1055, 1088])). map_of translitMap r \<noteq> None" by code_simp
  moreover have "valid_utf8 ''ok'' \<and> (\<forall>r\<in>set (runes ''ok''). map_of translitMap r = None)" by code_simp
  ultimately show ?thesis
    using Transliterate_gsm7 [of "string_of_runes [1055, 1088]"] Transliterate_gsm7 [of "''ok''"] by blast
qed

end
