(* ===== verification/Security.thy ===== *)
theory Security
  imports Go_Prelude
begin

text \<open>
  The stateless guards of package \<^verbatim>\<open>internal/security\<close>: the phone number filter (filter.go), the
  allowlist for raw AT commands (sanitizer.go) and the masking of numbers in logs (mask.go).
  The case and letter tables of non-ASCII characters are arguments (\<open>lt\<close>, \<open>up\<close>, \<open>lo\<close>).
\<close>

datatype sec_error =
    ErrNumberBlocked
  | ErrNumberNotWhitelisted
  | ErrInvalidFilterMode
  | ErrEmptyPhoneNumber
  | ErrRawATDisabled
  | ErrCommandBlocked
  | ErrEmptyCommand
  | ErrDangerousChars
  | ErrRateLimitMinuteExceeded
  | ErrRateLimitHourExceeded
  | ErrRateLimitDayExceeded
  | ErrRateLimitPerNumberExceeded
  | ErrRateLimitCooldown
  | ErrInvalidNumberFormat
  | ErrInvalidNumberLength
  | SecPanic

section \<open>Number filter\<close>

definition is_number_filler :: "rune \<Rightarrow> bool" where
  "is_number_filler r \<longleftrightarrow> r = 32 \<or> r = 45 \<or> r = 40 \<or> r = 41 \<or> r = 46"

definition normalizeNumber :: "(rune \<Rightarrow> bool) \<Rightarrow> (rune \<Rightarrow> rune) \<Rightarrow> gostring \<Rightarrow> gostring" where
  "normalizeNumber lt up number =
     (let hasLetters = list_ex (IsLetter lt) (runes number)
      in string_of_runes (map (\<lambda>r. if hasLetters then ToUpper_rune up r else r)
           (filter (\<lambda>r. \<not> is_number_filler r) (runes number))))"

record Filter =
  flt_mode :: gostring
  flt_whitelist :: "gostring set"
  flt_blacklist :: "gostring set"

definition NewFilter :: "(rune \<Rightarrow> bool) \<Rightarrow> (rune \<Rightarrow> rune) \<Rightarrow> (rune \<Rightarrow> rune) \<Rightarrow> gostring \<Rightarrow> gostring list \<Rightarrow> gostring list \<Rightarrow> Filter" where
  "NewFilter lt up lo mode whitelist blacklist =
     \<lparr>flt_mode = strings_ToLower lo (TrimSpace mode),
      flt_whitelist = set (filter (\<lambda>n. n \<noteq> []) (map (normalizeNumber lt up) whitelist)),
      flt_blacklist = set (filter (\<lambda>n. n \<noteq> []) (map (normalizeNumber lt up) blacklist))\<rparr>"

definition FilterCheck :: "(rune \<Rightarrow> bool) \<Rightarrow> (rune \<Rightarrow> rune) \<Rightarrow> Filter \<Rightarrow> gostring \<Rightarrow> sec_error option" where
  "FilterCheck lt up f number =
     (let trimmed = TrimSpace number
      in if trimmed = [] then Some ErrEmptyPhoneNumber
         else if ContainsAny_ascii number [CHR 0x00, CHR 0x0D, CHR 0x0A] then Some ErrDangerousChars
         else
           (let normalized = normalizeNumber lt up trimmed
            in if flt_mode f = ''all'' then None
               else if flt_mode f = ''whitelist'' then
                 (if normalized \<in> flt_whitelist f then None else Some ErrNumberNotWhitelisted)
               else if flt_mode f = ''blacklist'' then
                 (if normalized \<in> flt_blacklist f then Some ErrNumberBlocked else None)
               else Some ErrInvalidFilterMode))"

definition FilterAllowed :: "(rune \<Rightarrow> bool) \<Rightarrow> (rune \<Rightarrow> rune) \<Rightarrow> Filter \<Rightarrow> gostring \<Rightarrow> bool" where
  "FilterAllowed lt up f number \<longleftrightarrow> FilterCheck lt up f number = None"

section \<open>Raw AT commands\<close>

record Sanitizer =
  san_allowRaw :: bool
  san_allowedPrefixes :: "gostring list"

definition canonicalizeCommand :: "(rune \<Rightarrow> rune) \<Rightarrow> gostring \<Rightarrow> gostring" where
  "canonicalizeCommand up cmd =
     string_of_runes (map (ToUpper_rune up) (filter (\<lambda>r. \<not> IsSpace r) (runes cmd)))"

definition NewSanitizer :: "(rune \<Rightarrow> rune) \<Rightarrow> bool \<Rightarrow> gostring list \<Rightarrow> Sanitizer" where
  "NewSanitizer up allowRaw allowedCommands =
     \<lparr>san_allowRaw = allowRaw,
      san_allowedPrefixes = filter (\<lambda>c. c \<noteq> []) (map (canonicalizeCommand up) allowedCommands)\<rparr>"

definition token_end :: "char \<Rightarrow> bool" where
  "token_end c \<longleftrightarrow> c \<in> set ''?=;,/:0123456789'' \<or> c = CHR 0x22"

definition matchesAllowed :: "gostring \<Rightarrow> gostring \<Rightarrow> sec_error + bool" where
  "matchesAllowed canonicalCmd allowed =
     (if canonicalCmd = allowed then Inr True
      else if \<not> HasPrefix canonicalCmd allowed then Inr False
      else bind_res (at_idx SecPanic canonicalCmd (length allowed)) (\<lambda>c. Inr (token_end c)))"

fun firstAllowed :: "gostring \<Rightarrow> gostring list \<Rightarrow> sec_error option" where
  "firstAllowed canonicalCmd [] = Some ErrCommandBlocked"
| "firstAllowed canonicalCmd (allowed # rest) =
     (case matchesAllowed canonicalCmd allowed of
        Inl e \<Rightarrow> Some e
      | Inr b \<Rightarrow> if b then None else firstAllowed canonicalCmd rest)"

definition dangerous :: "char list" where
  "dangerous = [CHR 0x00, CHR 0x1A, CHR 0x1B, CHR 0x07, CHR 0x0B, CHR 0x0C, CHR 0x7F, CHR 0x0D, CHR 0x0A]"

definition SanitizerValidate :: "(rune \<Rightarrow> rune) \<Rightarrow> Sanitizer \<Rightarrow> gostring \<Rightarrow> sec_error option" where
  "SanitizerValidate up s cmd =
     (if ContainsAny_ascii cmd dangerous then Some ErrDangerousChars
      else let trimmed = TrimSpace cmd
           in if trimmed = [] then Some ErrEmptyCommand
              else if \<not> san_allowRaw s then Some ErrRawATDisabled
              else firstAllowed (canonicalizeCommand up trimmed) (san_allowedPrefixes s))"

definition SanitizerIsAllowed :: "(rune \<Rightarrow> rune) \<Rightarrow> Sanitizer \<Rightarrow> gostring \<Rightarrow> bool" where
  "SanitizerIsAllowed up s cmd = (SanitizerValidate up s cmd = None)"

section \<open>Masking\<close>

definition MaskPhone :: "gostring \<Rightarrow> sec_error + gostring" where
  "MaskPhone number =
     (if length number < 6 then Inr ''***''
      else bind_res (at_idx SecPanic number 0) (\<lambda>c0.
        let start = (if 0 < length number \<and> c0 \<noteq> CHR ''+'' then 4 else 5);
            stop = length number - 4
        in if stop \<le> start
           then bind_res (slice SecPanic number 0 2) (\<lambda>a.
                bind_res (slice SecPanic number (length number - 2) (length number)) (\<lambda>b.
                  Inr (a @ ''***'' @ b)))
           else bind_res (slice SecPanic number 0 start) (\<lambda>a.
                bind_res (slice SecPanic number stop (length number)) (\<lambda>b.
                  Inr (a @ ''***'' @ b)))))"

section \<open>Theorems\<close>

text \<open>
  The filter decides exactly: a number passes when it is not blank, has no NUL, CR
  or LF, and the policy admits its normalized form; with any mode other than all, whitelist
  and blacklist nothing passes (fail closed).
\<close>

theorem FilterCheck_exact:
  "FilterCheck lt up f number = None \<longleftrightarrow>
     TrimSpace number \<noteq> [] \<and> CHR 0x00 \<notin> set number \<and> CHR 0x0D \<notin> set number \<and> CHR 0x0A \<notin> set number
     \<and> (flt_mode f = ''all''
        \<or> flt_mode f = ''whitelist'' \<and> normalizeNumber lt up (TrimSpace number) \<in> flt_whitelist f
        \<or> flt_mode f = ''blacklist'' \<and> normalizeNumber lt up (TrimSpace number) \<notin> flt_blacklist f)"
  by (auto simp: FilterCheck_def ContainsAny_ascii_def list_ex_iff Let_def)

lemma matchesAllowed_eq:
  "matchesAllowed cmd allowed =
     Inr (cmd = allowed \<or> (\<exists>c rest. cmd = allowed @ c # rest \<and> token_end c))"
proof (cases "HasPrefix cmd allowed")
  case True
  then obtain t where t: "cmd = allowed @ t" by (rule HasPrefixE)
  with True show ?thesis by (cases t) (auto simp: matchesAllowed_def nth_append)
next
  case False
  moreover from this have "cmd \<noteq> allowed" "\<forall>t. cmd \<noteq> allowed @ t"
    by (metis HasPrefix_append append_Nil2, metis HasPrefix_append)
  ultimately show ?thesis by (simp add: matchesAllowed_def)
qed

lemma firstAllowed_eq:
  "firstAllowed cmd ps =
     (if \<exists>allowed\<in>set ps. cmd = allowed \<or> (\<exists>c rest. cmd = allowed @ c # rest \<and> token_end c)
      then None else Some ErrCommandBlocked)"
  by (induction ps) (auto simp: matchesAllowed_eq)

lemma token_end_letter: "token_end c \<Longrightarrow> (of_char c :: nat) < 0x80 \<Longrightarrow> \<not> IsLetter lt (of_char c)"
  unfolding token_end_def by (elim disjE) (auto simp: IsLetter_def)

text \<open>The allowlist decides exactly and never indexes out of range: a command is
  accepted when raw commands are enabled, it has no control character of the list, it is not
  blank, and its canonical form is an entry or an entry followed by a character that ends the
  token. A letter does not end a token, so an entry never admits a longer command name.
\<close>

theorem SanitizerValidate_exact:
  "(SanitizerValidate up s cmd = None \<longleftrightarrow>
     san_allowRaw s \<and> TrimSpace cmd \<noteq> [] \<and> set cmd \<inter> set dangerous = {}
     \<and> (\<exists>allowed\<in>set (san_allowedPrefixes s). canonicalizeCommand up (TrimSpace cmd) = allowed
          \<or> (\<exists>c rest. canonicalizeCommand up (TrimSpace cmd) = allowed @ c # rest \<and> token_end c)))
   \<and> SanitizerValidate up s cmd \<noteq> Some SecPanic
   \<and> {c. token_end c} \<inter> {c. IsLetter lt (of_char c) \<and> (of_char c :: nat) < 0x80} = {}"
proof (intro conjI)
  define A where "A \<longleftrightarrow> (\<exists>allowed\<in>set (san_allowedPrefixes s). canonicalizeCommand up (TrimSpace cmd) = allowed
          \<or> (\<exists>c rest. canonicalizeCommand up (TrimSpace cmd) = allowed @ c # rest \<and> token_end c))"
  have fa: "firstAllowed (canonicalizeCommand up (TrimSpace cmd)) (san_allowedPrefixes s) =
      (if A then None else Some ErrCommandBlocked)"
    unfolding A_def by (rule firstAllowed_eq)
  have "ContainsAny_ascii cmd dangerous \<longleftrightarrow> set cmd \<inter> set dangerous \<noteq> {}"
    by (auto simp: ContainsAny_ascii_def list_ex_iff)
  then have v: "SanitizerValidate up s cmd =
      (if set cmd \<inter> set dangerous \<noteq> {} then Some ErrDangerousChars else if TrimSpace cmd = [] then Some ErrEmptyCommand
       else if \<not> san_allowRaw s then Some ErrRawATDisabled else if A then None else Some ErrCommandBlocked)"
    by (simp only: SanitizerValidate_def Let_def fa)
  show "SanitizerValidate up s cmd = None \<longleftrightarrow>
     san_allowRaw s \<and> TrimSpace cmd \<noteq> [] \<and> set cmd \<inter> set dangerous = {}
     \<and> (\<exists>allowed\<in>set (san_allowedPrefixes s). canonicalizeCommand up (TrimSpace cmd) = allowed
          \<or> (\<exists>c rest. canonicalizeCommand up (TrimSpace cmd) = allowed @ c # rest \<and> token_end c))"
    unfolding A_def [symmetric] v by simp
  show "SanitizerValidate up s cmd \<noteq> Some SecPanic" unfolding v by simp
  show "{c. token_end c} \<inter> {c. IsLetter lt (of_char c) \<and> (of_char c :: nat) < 0x80} = {}"
    by (auto dest: token_end_letter)
qed

text \<open>The semicolon ends a token, so an entry admits every command line that chains
  further commands after it: with the entry \<^verbatim>\<open>AT+CSQ\<close> any text follows \<^verbatim>\<open>AT+CSQ;\<close>, such as
  \<^verbatim>\<open>+CFUN=0\<close>, although that command is on no list.
\<close>

theorem sanitizer_chained_commands:
  assumes "san_allowRaw s" "entry \<in> set (san_allowedPrefixes s)"
    and "TrimSpace cmd \<noteq> []" "set cmd \<inter> set dangerous = {}"
    and "canonicalizeCommand up (TrimSpace cmd) = entry @ '';'' @ rest"
  shows "SanitizerValidate up s cmd = None"
  using assms by (auto simp: SanitizerValidate_def firstAllowed_eq ContainsAny_ascii_def list_ex_iff token_end_def)

theorem sanitizer_chained_commands_witness:
  "SanitizerValidate id (NewSanitizer id True [''AT+CSQ'']) ''AT+CSQ;+CFUN=0'' = None"
  by (rule sanitizer_chained_commands [of _ "''AT+CSQ''" _ _ "''+CFUN=0''"]) code_simp+

text \<open>
  Masking never slices out of range, and it always hides something: the result is
  three asterisks, or a prefix and a suffix of the number around them that together are
  shorter than the number, with at most nine characters shown.
\<close>

lemma MaskPhone_hides:
  "\<exists>a b. MaskPhone number = Inr (a @ ''***'' @ b) \<and> length a + length b \<le> 9
     \<and> (number = [] \<or> length a + length b < length number)
     \<and> a = take (length a) number \<and> b = drop (length number - length b) number"
proof (cases "length number < 6")
  case True
  then show ?thesis by (intro exI [of _ "[]"]) (auto simp: MaskPhone_def)
next
  case False
  define start where "start = (if hd number \<noteq> CHR ''+'' then 4 else 5 :: nat)"
  have h: "number \<noteq> []" "number ! 0 = hd number" using False by (cases number; simp)+
  show ?thesis
  proof (cases "length number - 4 \<le> start")
    case True
    then show ?thesis
      using False h by (intro exI [of _ "take 2 number"] exI [of _ "drop (length number - 2) number"])
        (auto simp: MaskPhone_def Let_def slice_def start_def split: if_splits)
  next
    case gt: False
    then show ?thesis
      using False h by (intro exI [of _ "take start number"] exI [of _ "drop (length number - 4) number"])
        (auto simp: MaskPhone_def Let_def slice_def start_def split: if_splits)
  qed
qed

end
