(* ===== verification/Rate_Limiter.thy ===== *)
theory Rate_Limiter
  imports Event_Machine Security
begin

text \<open>
  The SMS rate limiter (\<^verbatim>\<open>internal/security/ratelimit.go\<close>): three sliding windows over all
  accepted messages, one per recipient, and a cooldown after a violation. The locale
  \<open>sliding_window\<close> is the contract of one window: a history that is pruned before it is counted
  bounds the accepted messages in every interval of the width of the window.
\<close>

section \<open>State and operations\<close>

record RateLimiterConfig =
  Enabled :: bool
  MaxPerMinute :: int
  MaxPerHour :: int
  MaxPerDay :: int
  MaxPerNumberPerHour :: int
  Cooldown :: duration

record RateLimiter =
  rl_cfg :: RateLimiterConfig
  minuteHistory :: "instant list"
  hourHistory :: "instant list"
  dayHistory :: "instant list"
  perNumberHistory :: "gostring \<rightharpoonup> instant list"
  cooldownUntil :: instant

definition Minute :: duration where "Minute = 60 * 1000000000"
definition Hour :: duration where "Hour = 60 * Minute"

definition NewRateLimiterWithConfig :: "RateLimiterConfig \<Rightarrow> RateLimiter" where
  "NewRateLimiterWithConfig cfg =
     \<lparr>rl_cfg = cfg, minuteHistory = [], hourHistory = [], dayHistory = [], perNumberHistory = Map.empty,
      cooldownUntil = 0\<rparr>"

definition NewRateLimiter :: "int \<Rightarrow> RateLimiter" where
  "NewRateLimiter maxPerMinute = NewRateLimiterWithConfig
     \<lparr>Enabled = True, MaxPerMinute = maxPerMinute, MaxPerHour = 0, MaxPerDay = 0,
      MaxPerNumberPerHour = 0, Cooldown = 0\<rparr>"

definition pruneOlderThan :: "instant list \<Rightarrow> instant \<Rightarrow> instant list" where
  "pruneOlderThan timestamps cutoff = dropWhile (\<lambda>t. t < cutoff) timestamps"

definition numberHistory :: "RateLimiter \<Rightarrow> gostring \<Rightarrow> instant list" where
  "numberHistory r number = (case perNumberHistory r number of None \<Rightarrow> [] | Some ts \<Rightarrow> ts)"

definition checkLimits :: "instant \<Rightarrow> gostring \<Rightarrow> RateLimiter \<Rightarrow> RateLimiter \<times> sec_error option" where
  "checkLimits now number r =
     (let r1 = r\<lparr>minuteHistory := pruneOlderThan (minuteHistory r) (now - Minute)\<rparr>
      in if 0 < MaxPerMinute (rl_cfg r) \<and> MaxPerMinute (rl_cfg r) \<le> int (length (minuteHistory r1))
         then (r1, Some ErrRateLimitMinuteExceeded)
         else
      let r2 = r1\<lparr>hourHistory := pruneOlderThan (hourHistory r1) (now - Hour)\<rparr>
      in if 0 < MaxPerHour (rl_cfg r) \<and> MaxPerHour (rl_cfg r) \<le> int (length (hourHistory r2))
         then (r2, Some ErrRateLimitHourExceeded)
         else
      let r3 = r2\<lparr>dayHistory := pruneOlderThan (dayHistory r2) (now - 24 * Hour)\<rparr>
      in if 0 < MaxPerDay (rl_cfg r) \<and> MaxPerDay (rl_cfg r) \<le> int (length (dayHistory r3))
         then (r3, Some ErrRateLimitDayExceeded)
         else
      let numHistory = pruneOlderThan (numberHistory r3 number) (now - Hour);
          r4 = r3\<lparr>perNumberHistory := (perNumberHistory r3)
                 (number := if length numHistory = 0 then None else Some numHistory)\<rparr>
      in if 0 < MaxPerNumberPerHour (rl_cfg r) \<and> MaxPerNumberPerHour (rl_cfg r) \<le> int (length numHistory)
         then (r4, Some ErrRateLimitPerNumberExceeded)
         else (r4, None))"

definition recordSend :: "instant \<Rightarrow> gostring \<Rightarrow> RateLimiter \<Rightarrow> RateLimiter" where
  "recordSend now number r =
     r\<lparr>minuteHistory := minuteHistory r @ [now], hourHistory := hourHistory r @ [now],
       dayHistory := dayHistory r @ [now],
       perNumberHistory := (perNumberHistory r)(number \<mapsto> numberHistory r number @ [now])\<rparr>"

definition RateCheck :: "(rune \<Rightarrow> bool) \<Rightarrow> (rune \<Rightarrow> rune) \<Rightarrow> instant \<Rightarrow> gostring \<Rightarrow> RateLimiter \<Rightarrow> RateLimiter \<times> sec_error option" where
  "RateCheck lt up now number r =
     (let trimmed = TrimSpace number
      in if trimmed = [] then (r, Some ErrEmptyPhoneNumber)
         else if \<not> Enabled (rl_cfg r) then (r, None)
         else if now < cooldownUntil r then (r, Some ErrRateLimitCooldown)
         else
           (let cleaned = normalizeNumber lt up trimmed;
                (r1, err) = checkLimits now cleaned r
            in case err of
                 Some e \<Rightarrow> (if 0 < Cooldown (rl_cfg r1) then r1\<lparr>cooldownUntil := now + Cooldown (rl_cfg r1)\<rparr> else r1, Some e)
               | None \<Rightarrow> (recordSend now cleaned r1, None)))"

definition RateAllow :: "(rune \<Rightarrow> bool) \<Rightarrow> (rune \<Rightarrow> rune) \<Rightarrow> instant \<Rightarrow> gostring \<Rightarrow> RateLimiter \<Rightarrow> RateLimiter \<times> bool" where
  "RateAllow lt up now number r = (let (r1, err) = RateCheck lt up now number r in (r1, err = None))"

definition RateReset :: "RateLimiter \<Rightarrow> RateLimiter" where
  "RateReset r = r\<lparr>minuteHistory := [], hourHistory := [], dayHistory := [], perNumberHistory := Map.empty,
     cooldownUntil := 0\<rparr>"

section \<open>One window\<close>

text \<open>\<open>hist\<close> keeps every accepted instant of \<open>acc\<close> that may still count at \<open>prev\<close> or later.\<close>

definition tracks :: "duration \<Rightarrow> instant \<Rightarrow> instant list \<Rightarrow> instant list \<Rightarrow> bool" where
  "tracks width prev acc hist \<longleftrightarrow> sorted acc \<and> (\<forall>x\<in>set acc. x \<le> prev)
     \<and> (\<exists>pre. acc = pre @ hist \<and> (\<forall>x\<in>set pre. x < prev - width))"

definition in_interval :: "duration \<Rightarrow> instant \<Rightarrow> instant list \<Rightarrow> nat" where
  "in_interval width t acc = length (filter (\<lambda>s. t - width \<le> s \<and> s \<le> t) acc)"

definition bounded :: "duration \<Rightarrow> int \<Rightarrow> instant list \<Rightarrow> bool" where
  "bounded width limit acc \<longleftrightarrow> (0 < limit \<longrightarrow> (\<forall>t. int (in_interval width t acc) \<le> limit))"

lemma prune_split:
  "xs = takeWhile (\<lambda>t. t < c) xs @ pruneOlderThan xs c" "x \<in> set (takeWhile (\<lambda>t. t < c) xs) \<Longrightarrow> x < c"
  by (simp_all add: pruneOlderThan_def) (auto dest: set_takeWhileD)

locale sliding_window =
  fixes width :: duration and limit :: int
  assumes width_pos: "0 < width"
begin

lemma tracks_prune:
  assumes "tracks width prev acc hist" "prev \<le> now"
  shows "tracks width now acc (pruneOlderThan hist (now - width))"
proof -
  from assms obtain pre where p: "acc = pre @ hist" "\<forall>x\<in>set pre. x < prev - width" "sorted acc" "\<forall>x\<in>set acc. x \<le> prev"
    by (auto simp: tracks_def)
  let ?d = "takeWhile (\<lambda>t. t < now - width) hist"
  have "acc = (pre @ ?d) @ pruneOlderThan hist (now - width)"
    using p(1) prune_split(1) [of hist "now - width"] by simp
  moreover have "\<forall>x\<in>set (pre @ ?d). x < now - width"
    using p(2) assms(2) prune_split(2) [of _ "now - width" hist] by force
  ultimately show ?thesis unfolding tracks_def using p(3,4) assms(2) by force
qed

lemma tracks_later: "tracks width prev acc hist \<Longrightarrow> prev \<le> now \<Longrightarrow> tracks width now acc hist"
  unfolding tracks_def by force

lemma tracks_check:
  "tracks width prev acc hist \<Longrightarrow> prev \<le> now \<Longrightarrow> hist' \<in> {hist, pruneOlderThan hist (now - width)} \<Longrightarrow>
   tracks width now acc hist'"
  using tracks_later tracks_prune by auto

lemma tracks_record:
  assumes "tracks width now acc hist"
  shows "tracks width now (acc @ [now]) (hist @ [now])"
  using assms by (auto simp: tracks_def sorted_append)

lemma bounded_record:
  assumes "bounded width limit acc" "tracks width now acc hist" "0 < limit \<longrightarrow> int (length hist) < limit"
  shows "bounded width limit (acc @ [now])"
  unfolding bounded_def
proof (intro impI allI)
  fix t assume l: "0 < limit"
  from assms(2) obtain pre where p: "acc = pre @ hist" "\<forall>x\<in>set pre. x < now - width" by (auto simp: tracks_def)
  show "int (in_interval width t (acc @ [now])) \<le> limit"
  proof (cases "now \<le> t")
    case True
    then have "filter (\<lambda>s. t - width \<le> s \<and> s \<le> t) pre = []" using p(2) by (auto simp: filter_empty_conv)
    then have "in_interval width t (acc @ [now]) \<le> length hist + 1" by (simp add: in_interval_def p(1) le_SucI)
    with assms(3) l show ?thesis by linarith
  next
    case False
    then show ?thesis using assms(1) l by (simp add: in_interval_def bounded_def)
  qed
qed

end

text \<open>The windows of the limiter: a minute, an hour (also per recipient) and a day.\<close>

interpretation minute_window: sliding_window Minute "MaxPerMinute cfg" for cfg
  by unfold_locales (simp add: Minute_def)

interpretation hour_window: sliding_window Hour "MaxPerHour cfg" for cfg
  by unfold_locales (simp add: Hour_def Minute_def)

interpretation day_window: sliding_window "24 * Hour" "MaxPerDay cfg" for cfg
  by unfold_locales (simp add: Hour_def Minute_def)

interpretation number_window: sliding_window Hour "MaxPerNumberPerHour cfg" for cfg
  by unfold_locales (simp add: Hour_def Minute_def)

section \<open>All windows together\<close>

type_synonym send = "instant \<times> gostring"

definition sends_to :: "gostring \<Rightarrow> send list \<Rightarrow> instant list" where
  "sends_to n acc = map fst (filter (\<lambda>(t, m). m = n) acc)"

definition rl_tracks :: "instant \<Rightarrow> send list \<Rightarrow> RateLimiter \<Rightarrow> bool" where
  "rl_tracks prev acc r \<longleftrightarrow> tracks Minute prev (map fst acc) (minuteHistory r)
     \<and> tracks Hour prev (map fst acc) (hourHistory r) \<and> tracks (24 * Hour) prev (map fst acc) (dayHistory r)
     \<and> (\<forall>n. tracks Hour prev (sends_to n acc) (numberHistory r n))"

definition rl_bounded :: "RateLimiterConfig \<Rightarrow> send list \<Rightarrow> bool" where
  "rl_bounded cfg acc \<longleftrightarrow> bounded Minute (MaxPerMinute cfg) (map fst acc)
     \<and> bounded Hour (MaxPerHour cfg) (map fst acc) \<and> bounded (24 * Hour) (MaxPerDay cfg) (map fst acc)
     \<and> (\<forall>n. bounded Hour (MaxPerNumberPerHour cfg) (sends_to n acc))"

lemmas window_check = minute_window.tracks_check hour_window.tracks_check day_window.tracks_check
lemmas window_record = minute_window.tracks_record hour_window.tracks_record day_window.tracks_record

lemma checkLimits_cfg [simp]: "rl_cfg (fst (checkLimits now n r)) = rl_cfg r"
  by (simp add: checkLimits_def Let_def)

lemma numberHistory_prune:
  "numberHistory (r\<lparr>perNumberHistory := h(n := if length ts = 0 then None else Some ts)\<rparr>) m =
     (if m = n then ts else numberHistory (r\<lparr>perNumberHistory := h\<rparr>) m)"
  by (auto simp: numberHistory_def)

lemma numberHistory_eq: "perNumberHistory r = perNumberHistory r' \<Longrightarrow> numberHistory r n = numberHistory r' n"
  by (simp add: numberHistory_def)

lemma checkLimits_hist:
  fixes now n r
  defines "r' \<equiv> fst (checkLimits now n r)"
  shows "minuteHistory r' = pruneOlderThan (minuteHistory r) (now - Minute)"
    "hourHistory r' \<in> {hourHistory r, pruneOlderThan (hourHistory r) (now - Hour)}"
    "dayHistory r' \<in> {dayHistory r, pruneOlderThan (dayHistory r) (now - 24 * Hour)}"
    "numberHistory r' m \<in> {numberHistory r m, pruneOlderThan (numberHistory r m) (now - Hour)}"
  by (simp_all add: r'_def checkLimits_def Let_def numberHistory_def)

lemma rl_tracks_check:
  assumes "rl_tracks prev acc r" "prev \<le> now"
    and "minuteHistory r' \<in> {minuteHistory r, pruneOlderThan (minuteHistory r) (now - Minute)}"
    "hourHistory r' \<in> {hourHistory r, pruneOlderThan (hourHistory r) (now - Hour)}"
    "dayHistory r' \<in> {dayHistory r, pruneOlderThan (dayHistory r) (now - 24 * Hour)}"
    "\<And>m. numberHistory r' m \<in> {numberHistory r m, pruneOlderThan (numberHistory r m) (now - Hour)}"
  shows "rl_tracks now acc r'"
  unfolding rl_tracks_def
proof (intro conjI allI)
  note t = assms(1) [unfolded rl_tracks_def]
  show "tracks Minute now (map fst acc) (minuteHistory r')" using window_check(1) [OF _ assms(2,3)] t by blast
  show "tracks Hour now (map fst acc) (hourHistory r')" using window_check(2) [OF _ assms(2,4)] t by blast
  show "tracks (24 * Hour) now (map fst acc) (dayHistory r')" using window_check(3) [OF _ assms(2,5)] t by blast
  show "tracks Hour now (sends_to m acc) (numberHistory r' m)" for m using window_check(2) [OF _ assms(2,6)] t by blast
qed

lemma checkLimits_tracks:
  "rl_tracks prev acc r \<Longrightarrow> prev \<le> now \<Longrightarrow> rl_tracks now acc (fst (checkLimits now n r))"
  by (rule rl_tracks_check) (use checkLimits_hist [of now n r] in simp_all)

lemma checkLimits_room:
  assumes "checkLimits now n r = (r', None)"
  shows "0 < MaxPerMinute (rl_cfg r) \<longrightarrow> int (length (minuteHistory r')) < MaxPerMinute (rl_cfg r)"
    "0 < MaxPerHour (rl_cfg r) \<longrightarrow> int (length (hourHistory r')) < MaxPerHour (rl_cfg r)"
    "0 < MaxPerDay (rl_cfg r) \<longrightarrow> int (length (dayHistory r')) < MaxPerDay (rl_cfg r)"
    "0 < MaxPerNumberPerHour (rl_cfg r) \<longrightarrow> int (length (numberHistory r' n)) < MaxPerNumberPerHour (rl_cfg r)"
  using assms by (auto simp: checkLimits_def Let_def numberHistory_def split: if_splits)

lemma sends_to_snoc: "sends_to m (acc @ [(t, n)]) = sends_to m acc @ (if m = n then [t] else [])"
  by (simp add: sends_to_def)

lemma recordSend_tracks: "rl_tracks now acc r \<Longrightarrow> rl_tracks now (acc @ [(now, n)]) (recordSend now n r)"
  using window_record by (simp add: rl_tracks_def recordSend_def sends_to_snoc numberHistory_def)

lemma recordSend_bounded:
  assumes "rl_bounded (rl_cfg r) acc" "rl_tracks now acc r'" "checkLimits now n r = (r', None)"
  shows "rl_bounded (rl_cfg r) (acc @ [(now, n)])"
proof -
  note room = checkLimits_room [OF assms(3)]
  have t: "tracks Minute now (map fst acc) (minuteHistory r')" "tracks Hour now (map fst acc) (hourHistory r')"
    "tracks (24 * Hour) now (map fst acc) (dayHistory r')" "tracks Hour now (sends_to n acc) (numberHistory r' n)"
    using assms(2) by (simp_all add: rl_tracks_def)
  have b: "bounded Minute (MaxPerMinute (rl_cfg r)) (map fst acc)" "bounded Hour (MaxPerHour (rl_cfg r)) (map fst acc)"
    "bounded (24 * Hour) (MaxPerDay (rl_cfg r)) (map fst acc)"
    "bounded Hour (MaxPerNumberPerHour (rl_cfg r)) (sends_to m acc)" for m
    using assms(1) by (simp_all add: rl_bounded_def)
  have "bounded Hour (MaxPerNumberPerHour (rl_cfg r)) (sends_to m (acc @ [(now, n)]))" for m
    using b(4) number_window.bounded_record [OF b(4) t(4) room(4)] by (simp add: sends_to_snoc)
  with minute_window.bounded_record [OF b(1) t(1) room(1)] hour_window.bounded_record [OF b(2) t(2) room(2)]
    day_window.bounded_record [OF b(3) t(3) room(3)]
  show ?thesis by (simp add: rl_bounded_def)
qed

section \<open>Every sequence of requests\<close>

definition rl_step :: "(rune \<Rightarrow> bool) \<Rightarrow> (rune \<Rightarrow> rune) \<Rightarrow> instant \<times> gostring \<Rightarrow> RateLimiter \<Rightarrow> RateLimiter \<times> sec_error option" where
  "rl_step lt up = (\<lambda>(now, number) r. RateCheck lt up now number r)"

text \<open>The accepted messages of a run, with their normalized recipients.\<close>

fun accepted :: "(rune \<Rightarrow> bool) \<Rightarrow> (rune \<Rightarrow> rune) \<Rightarrow> (instant \<times> gostring) list \<Rightarrow> RateLimiter \<Rightarrow> send list" where
  "accepted lt up [] r = []"
| "accepted lt up ((now, number) # es) r =
     (case RateCheck lt up now number r of
        (r', None) \<Rightarrow> (now, normalizeNumber lt up (TrimSpace number)) # accepted lt up es r'
      | (r', Some _) \<Rightarrow> accepted lt up es r')"

lemma RateCheck_inv:
  assumes "rl_tracks prev acc r" "rl_bounded (rl_cfg r) acc" "prev \<le> now" "Enabled (rl_cfg r)"
    and "RateCheck lt up now number r = (r', out)"
  defines "acc' \<equiv> (if out = None then acc @ [(now, normalizeNumber lt up (TrimSpace number))] else acc)"
  shows "rl_tracks now acc' r' \<and> rl_bounded (rl_cfg r') acc' \<and> rl_cfg r' = rl_cfg r"
proof -
  let ?n = "normalizeNumber lt up (TrimSpace number)"
  obtain r1 err where c: "checkLimits now ?n r = (r1, err)" by fastforce
  have t1: "rl_tracks now acc r1" and cfg: "rl_cfg r1 = rl_cfg r"
    using checkLimits_tracks [OF assms(1,3), of ?n] checkLimits_cfg [of now ?n r] c by simp_all
  have t0: "rl_tracks now acc r" by (rule rl_tracks_check [OF assms(1,3)]) simp_all
  have cool: "rl_tracks now acc (r1\<lparr>cooldownUntil := t\<rparr>)" for t
    using t1 by (simp add: rl_tracks_def numberHistory_def)
  have rec: "rl_cfg (recordSend now ?n r1) = rl_cfg r" by (simp add: recordSend_def cfg)
  consider "r' = r" "out \<noteq> None" | e t where "err = Some e" "r' = r1 \<or> r' = r1\<lparr>cooldownUntil := t\<rparr>" "out \<noteq> None"
    | "err = None" "r' = recordSend now ?n r1" "out = None"
    using assms(4,5) c by (fastforce simp: RateCheck_def Let_def split: if_splits option.splits)
  then show ?thesis
  proof cases
    case 3
    then show ?thesis
      using recordSend_tracks [OF t1, of ?n] recordSend_bounded [OF assms(2) t1] c rec by (simp add: acc'_def)
  qed (use t0 t1 cool cfg assms(2) in \<open>auto simp: acc'_def\<close>)
qed

lemma accepted_bounded:
  assumes "rl_tracks prev acc r" "rl_bounded (rl_cfg r) acc" "Enabled (rl_cfg r)" "sorted (prev # map fst es)"
  shows "rl_bounded (rl_cfg r) (acc @ accepted lt up es r)"
  using assms
proof (induction es arbitrary: prev acc r)
  case (Cons e es)
  obtain now number where e: "e = (now, number)" by fastforce
  obtain r' out where rc: "RateCheck lt up now number r = (r', out)" by fastforce
  have le: "prev \<le> now" "sorted (now # map fst es)" using Cons.prems(4) e by simp_all
  note inv = RateCheck_inv [OF Cons.prems(1,2) le(1) Cons.prems(3) rc]
  then show ?case
    using Cons.IH [of now _ r'] Cons.prems(3) le(2) e rc by (cases out) fastforce+
qed simp

text \<open>Property C7. The rate limits hold over every interval, not only over calendar minutes: for
  any sequence of requests with a clock that does not go back, in every interval of a minute,
  an hour and a day at most the configured number of messages is accepted, and at most the
  configured number per recipient in every hour (a limit of 0 means unlimited).
\<close>

theorem rate_limits_hold:
  assumes "Enabled cfg" "sorted (map fst es)"
    and "acc = accepted lt up es (NewRateLimiterWithConfig cfg)"
  shows "(0 < MaxPerMinute cfg \<longrightarrow> int (in_interval Minute t (map fst acc)) \<le> MaxPerMinute cfg)
    \<and> (0 < MaxPerHour cfg \<longrightarrow> int (in_interval Hour t (map fst acc)) \<le> MaxPerHour cfg)
    \<and> (0 < MaxPerDay cfg \<longrightarrow> int (in_interval (24 * Hour) t (map fst acc)) \<le> MaxPerDay cfg)
    \<and> (0 < MaxPerNumberPerHour cfg \<longrightarrow> int (in_interval Hour t (sends_to n acc)) \<le> MaxPerNumberPerHour cfg)"
proof (cases es)
  case Nil
  then show ?thesis using assms by (simp add: in_interval_def sends_to_def)
next
  case (Cons e es')
  let ?r = "NewRateLimiterWithConfig cfg"
  have "rl_tracks (fst e) [] ?r" "rl_bounded (rl_cfg ?r) []" "Enabled (rl_cfg ?r)" "sorted (fst e # map fst es)"
    using assms(1,2) Cons
    by (auto simp: rl_tracks_def rl_bounded_def tracks_def bounded_def in_interval_def sends_to_def numberHistory_def
        NewRateLimiterWithConfig_def)
  from accepted_bounded [OF this, of lt up] assms(3) show ?thesis
    by (simp add: rl_bounded_def bounded_def NewRateLimiterWithConfig_def)
qed

definition demo_cfg :: RateLimiterConfig where
  "demo_cfg = \<lparr>Enabled = True, MaxPerMinute = 2, MaxPerHour = 0, MaxPerDay = 0, MaxPerNumberPerHour = 1, Cooldown = 0\<rparr>"

theorem rate_limits_hold_witness:
  "length (accepted (\<lambda>_. False) id [(1, ''+1''), (2, ''+1''), (3, ''+2''), (4, ''+3'')] (NewRateLimiterWithConfig demo_cfg)) = 2
   \<and> int (in_interval Minute 4 (map fst (accepted (\<lambda>_. False) id [(1, ''+1''), (2, ''+1''), (3, ''+2''), (4, ''+3'')]
       (NewRateLimiterWithConfig demo_cfg)))) \<le> 2"
proof
  show "length (accepted (\<lambda>_. False) id [(1, ''+1''), (2, ''+1''), (3, ''+2''), (4, ''+3'')] (NewRateLimiterWithConfig demo_cfg)) = 2"
    by code_simp
qed (use rate_limits_hold [of demo_cfg "[(1, ''+1''), (2, ''+1''), (3, ''+2''), (4, ''+3'')]", OF _ _ refl, where lt = "\<lambda>_. False" and up = id and t = 4]
     in \<open>simp add: demo_cfg_def\<close>)

lemma RateCheck_error:
  assumes "RateCheck lt up now number r = (r', Some e)" "e \<noteq> ErrEmptyPhoneNumber" "e \<noteq> ErrRateLimitCooldown"
  shows "Enabled (rl_cfg r) \<and> rl_cfg r' = rl_cfg r \<and> (0 < Cooldown (rl_cfg r) \<longrightarrow> cooldownUntil r' = now + Cooldown (rl_cfg r))"
proof -
  let ?n = "normalizeNumber lt up (TrimSpace number)"
  obtain r1 err where c: "checkLimits now ?n r = (r1, err)" by fastforce
  then have "rl_cfg r1 = rl_cfg r" using checkLimits_cfg [of now ?n r] by simp
  with assms c show ?thesis
    by (auto simp: RateCheck_def Let_def split: if_splits option.splits)
qed

text \<open>
  A violation starts the cooldown: after a request rejected by one of the four
  limits, with a cooldown configured, every request before its end is rejected with the
  cooldown error and changes nothing; and a request that finds no cooldown and only histories
  older than their windows is accepted, whatever the limits.
\<close>

theorem cooldown_exact:
  "(RateCheck lt up now number r = (r', Some e) \<and> e \<notin> {ErrEmptyPhoneNumber, ErrRateLimitCooldown}
      \<and> 0 < Cooldown (rl_cfg r) \<and> t < now + Cooldown (rl_cfg r) \<and> TrimSpace other \<noteq> [] \<longrightarrow>
    RateCheck lt up t other r' = (r', Some ErrRateLimitCooldown))
   \<and> (TrimSpace number \<noteq> [] \<and> cooldownUntil r \<le> now \<and> list_all (\<lambda>s. s < now - Minute) (minuteHistory r)
      \<and> list_all (\<lambda>s. s < now - Hour) (hourHistory r) \<and> list_all (\<lambda>s. s < now - 24 * Hour) (dayHistory r)
      \<and> list_all (\<lambda>s. s < now - Hour) (numberHistory r (normalizeNumber lt up (TrimSpace number))) \<longrightarrow>
    snd (RateCheck lt up now number r) = None)"
proof (intro conjI impI)
  assume a: "RateCheck lt up now number r = (r', Some e) \<and> e \<notin> {ErrEmptyPhoneNumber, ErrRateLimitCooldown}
      \<and> 0 < Cooldown (rl_cfg r) \<and> t < now + Cooldown (rl_cfg r) \<and> TrimSpace other \<noteq> []"
  then show "RateCheck lt up t other r' = (r', Some ErrRateLimitCooldown)"
    using RateCheck_error [of lt up now number r r' e] by (simp add: RateCheck_def)
next
  assume a: "TrimSpace number \<noteq> [] \<and> cooldownUntil r \<le> now \<and> list_all (\<lambda>s. s < now - Minute) (minuteHistory r)
      \<and> list_all (\<lambda>s. s < now - Hour) (hourHistory r) \<and> list_all (\<lambda>s. s < now - 24 * Hour) (dayHistory r)
      \<and> list_all (\<lambda>s. s < now - Hour) (numberHistory r (normalizeNumber lt up (TrimSpace number)))"
  have p: "list_all (\<lambda>s. s < c) xs \<Longrightarrow> pruneOlderThan xs c = []" for c xs
    by (simp add: pruneOlderThan_def list_all_iff)
  have "snd (checkLimits now (normalizeNumber lt up (TrimSpace number)) r) = None"
    using a by (simp add: checkLimits_def Let_def p numberHistory_def)
  with a show "snd (RateCheck lt up now number r) = None"
    by (simp add: RateCheck_def Let_def split_beta)
qed

theorem cooldown_exact_witness:
  "RateCheck (\<lambda>_. False) id 5 ''+2'' (fst (RateCheck (\<lambda>_. False) id 3 ''+1''
       (NewRateLimiterWithConfig (demo_cfg\<lparr>Cooldown := 10\<rparr>)\<lparr>minuteHistory := [1, 2]\<rparr>))) =
     (fst (RateCheck (\<lambda>_. False) id 3 ''+1'' (NewRateLimiterWithConfig (demo_cfg\<lparr>Cooldown := 10\<rparr>)\<lparr>minuteHistory := [1, 2]\<rparr>)),
      Some ErrRateLimitCooldown)
   \<and> snd (RateCheck (\<lambda>_. False) id 3 ''+1'' (NewRateLimiterWithConfig demo_cfg)) = None"
proof -
  let ?r = "NewRateLimiterWithConfig (demo_cfg\<lparr>Cooldown := 10\<rparr>)\<lparr>minuteHistory := [1, 2]\<rparr>"
  have "snd (RateCheck (\<lambda>_. False) id 3 ''+1'' ?r) = Some ErrRateLimitMinuteExceeded" by code_simp
  then have "RateCheck (\<lambda>_. False) id 3 ''+1'' ?r = (fst (RateCheck (\<lambda>_. False) id 3 ''+1'' ?r), Some ErrRateLimitMinuteExceeded)"
    by (metis prod.collapse)
  moreover have "TrimSpace ''+2'' \<noteq> []" "TrimSpace ''+1'' \<noteq> []" by code_simp+
  moreover have "Cooldown (rl_cfg ?r) = 10" by (simp add: NewRateLimiterWithConfig_def)
  ultimately show ?thesis
    using cooldown_exact [of "\<lambda>_. False" id 3 "''+1''" ?r "fst (RateCheck (\<lambda>_. False) id 3 ''+1'' ?r)"
        ErrRateLimitMinuteExceeded 5 "''+2''"]
      cooldown_exact [of "\<lambda>_. False" id 3 "''+1''" "NewRateLimiterWithConfig demo_cfg"]
    by (simp add: NewRateLimiterWithConfig_def numberHistory_def)
qed

end
