(* ===== verification/Recipients.thy ===== *)
theory Recipients
  imports Event_Machine Security
begin

text \<open>
  The alert recipients (\<^verbatim>\<open>internal/security/recipients.go\<close>): a list of normalized numbers, saved
  to a file after every change. \<open>rcp_disk\<close> is what the file holds as a list of strings (\<open>None\<close>
  when it is missing or not readable JSON); \<open>ok\<close> says whether a write succeeds (the code
  ignores the error). The operations that notify return the list handed to \<^verbatim>\<open>onChange\<close>.
  The locale \<open>registry\<close> is the contract the gateway relies on.
\<close>

section \<open>Normalization\<close>

definition is_punctuation :: "rune \<Rightarrow> bool" where
  "is_punctuation r \<longleftrightarrow> r = 32 \<or> r = 45 \<or> r = 40 \<or> r = 41 \<or> r = 46 \<or> r = 9 \<or> r = 13 \<or> r = 10"

definition NormalizeNumber :: "gostring \<Rightarrow> sec_error + gostring" where
  "NormalizeNumber raw =
     (let trimmed = TrimSpace raw
      in if trimmed = [] then Inl ErrEmptyPhoneNumber
         else
           (let cleaned = string_of_runes (filter (\<lambda>r. \<not> is_punctuation r) (runes trimmed));
                hasPlus = HasPrefix cleaned ''+'';
                digits = TrimPrefix cleaned ''+''
            in if \<not> (digits \<noteq> [] \<and> list_all is_digit_char digits) then Inl ErrInvalidNumberFormat
               else if length digits < 4 \<or> 16 < length digits then Inl ErrInvalidNumberLength
               else if \<not> hasPlus \<and> length digits = 11 \<and> HasPrefix digits ''8''
               then Inr (''+7'' @ drop 1 digits)
               else Inr (''+'' @ digits)))"

section \<open>Manager\<close>

record RecipientsManager =
  rcp_filePath :: gostring
  rcp_numbers :: "gostring list"
  rcp_onChange :: bool
  rcp_disk :: "gostring list option"

definition saveLocked :: "bool \<Rightarrow> RecipientsManager \<Rightarrow> RecipientsManager" where
  "saveLocked ok m =
     (if rcp_filePath m = [] then m else if ok then m\<lparr>rcp_disk := Some (rcp_numbers m)\<rparr> else m)"

definition addNumberInMemory :: "gostring \<Rightarrow> RecipientsManager \<Rightarrow> RecipientsManager" where
  "addNumberInMemory norm m =
     (if norm \<in> set (rcp_numbers m) then m else m\<lparr>rcp_numbers := rcp_numbers m @ [norm]\<rparr>)"

fun addAll :: "gostring list \<Rightarrow> RecipientsManager \<Rightarrow> RecipientsManager" where
  "addAll [] m = m"
| "addAll (raw # rest) m =
     (case NormalizeNumber raw of
        Inr norm \<Rightarrow> addAll rest (addNumberInMemory norm m)
      | Inl _ \<Rightarrow> addAll rest m)"

definition loadRecipients :: "RecipientsManager \<Rightarrow> RecipientsManager \<times> bool" where
  "loadRecipients m =
     (if rcp_filePath m = [] then (m, True)
      else case rcp_disk m of None \<Rightarrow> (m, False) | Some nums \<Rightarrow> (addAll nums m, True))"

definition NewRecipientsManager :: "bool \<Rightarrow> gostring list option \<Rightarrow> gostring \<Rightarrow> gostring list \<Rightarrow> RecipientsManager" where
  "NewRecipientsManager ok disk filePath defaultNumbers =
     (let (m, loaded) = loadRecipients \<lparr>rcp_filePath = filePath, rcp_numbers = [], rcp_onChange = False, rcp_disk = disk\<rparr>
      in if \<not> loaded \<or> rcp_numbers m = []
         then let m1 = addAll defaultNumbers m
              in if rcp_numbers m1 \<noteq> [] \<and> filePath \<noteq> [] then saveLocked ok m1 else m1
         else m)"

definition SetOnChange :: "bool \<Rightarrow> RecipientsManager \<Rightarrow> RecipientsManager" where
  "SetOnChange fn m = m\<lparr>rcp_onChange := fn\<rparr>"

definition rcp_Get :: "RecipientsManager \<Rightarrow> gostring list" where
  "rcp_Get m = rcp_numbers m"

definition rcp_Contains :: "gostring \<Rightarrow> RecipientsManager \<Rightarrow> bool" where
  "rcp_Contains raw m = (case NormalizeNumber raw of Inl _ \<Rightarrow> False | Inr norm \<Rightarrow> norm \<in> set (rcp_numbers m))"

definition change_note :: "RecipientsManager \<Rightarrow> gostring list option" where
  "change_note m = (if rcp_onChange m then Some (rcp_numbers m) else None)"

definition rcp_Add :: "bool \<Rightarrow> gostring \<Rightarrow> RecipientsManager \<Rightarrow> RecipientsManager \<times> sec_error option \<times> gostring list option" where
  "rcp_Add ok raw m = (case NormalizeNumber raw of
     Inl e \<Rightarrow> (m, Some e, None)
   | Inr norm \<Rightarrow>
       if norm \<in> set (rcp_numbers m) then (m, None, None)
       else let m1 = saveLocked ok (m\<lparr>rcp_numbers := rcp_numbers m @ [norm]\<rparr>)
            in (m1, None, change_note m1))"

definition rcp_Remove :: "bool \<Rightarrow> gostring \<Rightarrow> RecipientsManager \<Rightarrow> RecipientsManager \<times> bool \<times> gostring list option" where
  "rcp_Remove ok raw m = (case NormalizeNumber raw of
     Inl e \<Rightarrow> (m, False, None)
   | Inr norm \<Rightarrow>
       if norm \<notin> set (rcp_numbers m) then (m, False, None)
       else let m1 = saveLocked ok (m\<lparr>rcp_numbers := remove1 norm (rcp_numbers m)\<rparr>)
            in (m1, True, change_note m1))"

fun collect_new :: "gostring list \<Rightarrow> gostring list \<Rightarrow> sec_error + gostring list" where
  "collect_new seen [] = Inr seen"
| "collect_new seen (raw # rest) = bind_res (NormalizeNumber raw) (\<lambda>norm.
     collect_new (if norm \<in> set seen then seen else seen @ [norm]) rest)"

definition rcp_Set :: "bool \<Rightarrow> gostring list \<Rightarrow> RecipientsManager \<Rightarrow> RecipientsManager \<times> sec_error option \<times> gostring list option" where
  "rcp_Set ok rawNumbers m = (case collect_new [] rawNumbers of
     Inl e \<Rightarrow> (m, Some e, None)
   | Inr normalized \<Rightarrow>
       let m1 = saveLocked ok (m\<lparr>rcp_numbers := normalized\<rparr>)
       in (m1, None, change_note m1))"

section \<open>Normal form\<close>

lemma NormalizeNumber_result:
  assumes "NormalizeNumber raw = Inr n"
  obtains d where "digit_string d" "4 \<le> length d" "length d \<le> 16" "n = CHR ''+'' # d"
proof -
  let ?c = "string_of_runes (filter (\<lambda>r. \<not> is_punctuation r) (runes (TrimSpace raw)))"
  let ?d = "TrimPrefix ?c ''+''"
  have d: "digit_string ?d" "4 \<le> length ?d" "length ?d \<le> 16"
    and n: "n = CHR ''+'' # ?d \<or> length ?d = 11 \<and> n = ''+7'' @ drop 1 ?d"
    using assms by (auto simp: NormalizeNumber_def Let_def digit_string_def split: if_splits)
  have "length ?d = 11 \<Longrightarrow> digit_string (CHR ''7'' # drop 1 ?d)"
    using d(1) by (auto simp: digit_string_def is_digit_char_def is_digit_def list_all_iff dest: in_set_dropD)
  with n d that show ?thesis by auto
qed

lemma NormalizeNumber_plus:
  assumes "digit_string d" "4 \<le> length d" "length d \<le> 16"
  shows "NormalizeNumber (CHR ''+'' # d) = Inr (CHR ''+'' # d)"
proof -
  have asc: "is_ascii d"
    using assms(1) by (fastforce simp: digit_string_def is_ascii_def list_all_iff is_digit_char_def is_digit_def)
  have r: "runes (CHR ''+'' # d) = 43 # map of_char d" using asc by (subst runes_ascii) simp_all
  have f: "filter (\<lambda>r. \<not> is_punctuation r) (43 # map of_char d) = 43 # map of_char d"
    using assms(1) by (auto simp: filter_id_conv is_punctuation_def digit_string_def list_all_iff is_digit_char_def is_digit_def)
  have plus: "char_of (43 :: nat) = CHR ''+''" by code_simp
  have s: "string_of_runes (43 # map of_char d) = CHR ''+'' # d"
    using asc by (subst string_of_runes_ascii) (auto simp: is_ascii_def list_all_iff o_def plus)
  have tp: "TrimPrefix (CHR ''+'' # d) ''+'' = d" "HasPrefix (CHR ''+'' # d) ''+''"
    by (simp_all add: TrimPrefix_def HasPrefix_Cons_Cons)
  have dd: "d \<noteq> [] \<and> list_all is_digit_char d" using assms(1) by (simp add: digit_string_def)
  show ?thesis
    using assms(2,3) unfolding NormalizeNumber_def digit_string_facts(2) [OF assms(1)] r f s Let_def tp
    by (simp add: dd tp(2))
qed

lemma NormalizeNumber_idem: "NormalizeNumber raw = Inr n \<Longrightarrow> NormalizeNumber n = Inr n"
  by (elim NormalizeNumber_result) (simp add: NormalizeNumber_plus)

section \<open>Contract\<close>

text \<open>A sequence of additions (\<open>True\<close>) and removals.\<close>

fun apply_ops :: "('r \<Rightarrow> 'm \<Rightarrow> 'm) \<Rightarrow> ('r \<Rightarrow> 'm \<Rightarrow> 'm) \<Rightarrow> (bool \<times> 'r) list \<Rightarrow> 'm \<Rightarrow> 'm" where
  "apply_ops add remove [] m = m"
| "apply_ops add remove ((b, x) # ops) m = apply_ops add remove ops (if b then add x m else remove x m)"

locale registry =
  fixes inv :: "'m \<Rightarrow> bool" and norm :: "'r \<Rightarrow> 'n option" and elems :: "'m \<Rightarrow> 'n set"
    and contains :: "'r \<Rightarrow> 'm \<Rightarrow> bool" and add remove :: "'r \<Rightarrow> 'm \<Rightarrow> 'm"
  assumes contains_elems: "contains x m \<longleftrightarrow> (\<exists>n. norm x = Some n \<and> n \<in> elems m)"
    and add_elems: "inv m \<Longrightarrow> elems (add x m) = elems m \<union> set_option (norm x)"
    and remove_elems: "inv m \<Longrightarrow> elems (remove x m) = elems m - set_option (norm x)"
    and add_inv: "inv m \<Longrightarrow> inv (add x m)"
    and remove_inv: "inv m \<Longrightarrow> inv (remove x m)"
begin

lemma contains_add: "inv m \<Longrightarrow> contains y (add x m) \<longleftrightarrow> contains y m \<or> norm y \<noteq> None \<and> norm y = norm x"
  by (auto simp: contains_elems add_elems)

lemma contains_remove: "inv m \<Longrightarrow> contains y (remove x m) \<longleftrightarrow> contains y m \<and> norm y \<noteq> norm x"
  by (auto simp: contains_elems remove_elems)

lemma apply_ops_inv: "inv m \<Longrightarrow> inv (apply_ops add remove ops m)"
proof (induction ops arbitrary: m)
  case (Cons op ops)
  then show ?case by (cases op) (auto simp: add_inv remove_inv)
qed simp

lemma apply_ops_last_wins:
  assumes "inv m" "norm y \<noteq> None"
  shows "contains y (apply_ops add remove ops m) =
    (case filter (\<lambda>(b, x). norm x = norm y) ops of [] \<Rightarrow> contains y m | hits \<Rightarrow> fst (last hits))"
  using assms(1)
proof (induction ops arbitrary: m)
  case (Cons op ops)
  obtain b x where op: "op = (b, x)" by fastforce
  have i: "inv (if b then add x m else remove x m)" using Cons.prems by (simp add: add_inv remove_inv)
  then show ?case
    using Cons.IH [OF i] Cons.prems assms(2) op
    by (auto simp: contains_add contains_remove split: list.splits)
qed simp

end

section \<open>The manager fulfils the contract\<close>

definition rcp_inv :: "RecipientsManager \<Rightarrow> bool" where
  "rcp_inv m \<longleftrightarrow> distinct (rcp_numbers m) \<and> (\<forall>n\<in>set (rcp_numbers m). NormalizeNumber n = Inr n)"

definition norm_opt :: "gostring \<Rightarrow> gostring option" where
  "norm_opt raw = (case NormalizeNumber raw of Inl _ \<Rightarrow> None | Inr n \<Rightarrow> Some n)"

lemma saveLocked_numbers [simp]:
  "rcp_numbers (saveLocked ok m) = rcp_numbers m" "rcp_filePath (saveLocked ok m) = rcp_filePath m"
  "rcp_onChange (saveLocked ok m) = rcp_onChange m"
  by (simp_all add: saveLocked_def)

interpretation recipients: registry rcp_inv norm_opt "\<lambda>m. set (rcp_numbers m)" rcp_Contains
    "\<lambda>x m. fst (rcp_Add ok x m)" "\<lambda>x m. fst (rcp_Remove ok x m)" for ok
proof
  show "rcp_Contains x m \<longleftrightarrow> (\<exists>n. norm_opt x = Some n \<and> n \<in> set (rcp_numbers m))" for x m
    by (simp add: rcp_Contains_def norm_opt_def split: sum.split)
  show "rcp_inv m \<Longrightarrow> set (rcp_numbers (fst (rcp_Add ok x m))) = set (rcp_numbers m) \<union> set_option (norm_opt x)" for x m
    by (auto simp: rcp_Add_def norm_opt_def Let_def split: sum.split)
  show "rcp_inv m \<Longrightarrow> set (rcp_numbers (fst (rcp_Remove ok x m))) = set (rcp_numbers m) - set_option (norm_opt x)" for x m
    by (auto simp: rcp_Remove_def rcp_inv_def norm_opt_def Let_def split: sum.split)
  show "rcp_inv m \<Longrightarrow> rcp_inv (fst (rcp_Add ok x m))" for x m
    by (auto simp: rcp_inv_def rcp_Add_def Let_def dest: NormalizeNumber_idem split: sum.split)
  show "rcp_inv m \<Longrightarrow> rcp_inv (fst (rcp_Remove ok x m))" for x m
    by (auto simp: rcp_inv_def rcp_Remove_def Let_def dest: notin_set_remove1 split: sum.split)
qed

lemma addAll_inv: "rcp_inv m \<Longrightarrow> rcp_inv (addAll raws m)"
proof (induction raws arbitrary: m)
  case (Cons raw raws)
  have "rcp_inv (addNumberInMemory n m)" if "NormalizeNumber raw = Inr n" for n
    using Cons.prems NormalizeNumber_idem [OF that] by (auto simp: rcp_inv_def addNumberInMemory_def)
  then show ?case using Cons by (auto split: sum.split)
qed simp

lemma collect_new_ok:
  "collect_new seen raws = Inr ns \<Longrightarrow> distinct seen \<Longrightarrow> (\<forall>n\<in>set seen. NormalizeNumber n = Inr n) \<Longrightarrow>
   distinct ns \<and> (\<forall>n\<in>set ns. NormalizeNumber n = Inr n)"
proof (induction raws arbitrary: seen)
  case (Cons raw raws)
  then obtain n where n: "NormalizeNumber raw = Inr n" by (auto simp: bind_res_eq_Inr)
  then have step: "collect_new (if n \<in> set seen then seen else seen @ [n]) raws = Inr ns" using Cons.prems(1) by simp
  show ?case
    by (rule Cons.IH [OF step]) (use Cons.prems(2,3) NormalizeNumber_idem [OF n] in simp_all)
qed simp

lemma rcp_Set_inv: "rcp_inv m \<Longrightarrow> rcp_inv (fst (rcp_Set ok raws m))"
  using collect_new_ok [of "[]" raws] by (auto simp: rcp_Set_def rcp_inv_def Let_def split: sum.split)

text \<open>Property C34. The recipients behave as a set of phone numbers under any sequence of additions
  and removals: whether a number is registered is decided by the last request that names it
  in any spelling, numbers nobody named keep their state, and the list keeps its invariant
  (no duplicates, every entry in normal form).
\<close>

theorem recipients_last_wins:
  assumes "rcp_inv m" "NormalizeNumber raw = Inr n"
  shows "rcp_Contains raw (apply_ops (\<lambda>x m. fst (rcp_Add ok x m)) (\<lambda>x m. fst (rcp_Remove ok x m)) ops m) =
      (case filter (\<lambda>(b, x). NormalizeNumber x = Inr n) ops of [] \<Rightarrow> rcp_Contains raw m | hits \<Rightarrow> fst (last hits))
    \<and> rcp_inv (apply_ops (\<lambda>x m. fst (rcp_Add ok x m)) (\<lambda>x m. fst (rcp_Remove ok x m)) ops m)"
proof -
  have "norm_opt raw = Some n" "\<And>x. norm_opt x = Some n \<longleftrightarrow> NormalizeNumber x = Inr n"
    using assms(2) by (auto simp: norm_opt_def split: sum.split)
  with recipients.apply_ops_last_wins [OF assms(1), of raw ok ops] recipients.apply_ops_inv [OF assms(1), of ok ops]
  show ?thesis by simp
qed

lemma loadRecipients_inv: "rcp_inv m \<Longrightarrow> rcp_inv (fst (loadRecipients m))"
  by (simp add: loadRecipients_def addAll_inv split: option.split)

lemma saveLocked_inv: "rcp_inv (saveLocked ok m) = rcp_inv m"
  by (simp add: rcp_inv_def)

lemma NewRecipientsManager_inv: "rcp_inv (NewRecipientsManager ok disk path defaults)"
proof -
  have "rcp_inv \<lparr>rcp_filePath = path, rcp_numbers = [], rcp_onChange = False, rcp_disk = disk\<rparr>"
    by (simp add: rcp_inv_def)
  from loadRecipients_inv [OF this] show ?thesis
    by (simp add: NewRecipientsManager_def Let_def split_beta saveLocked_inv addAll_inv)
qed

definition demo_manager :: RecipientsManager where
  "demo_manager = NewRecipientsManager True None ''/var/rcp.json'' [''+7 900 123-45-67'']"

lemmas demo_manager_inv = NewRecipientsManager_inv [of True None "''/var/rcp.json''" "[''+7 900 123-45-67'']", folded demo_manager_def]

theorem recipients_last_wins_witness:
  "rcp_Contains ''89001234567'' (apply_ops (\<lambda>x m. fst (rcp_Add True x m)) (\<lambda>x m. fst (rcp_Remove True x m))
       [(False, ''+79001234567''), (True, ''8 (900) 1234567'')] demo_manager) =
      (case filter (\<lambda>(b, x). NormalizeNumber x = Inr ''+79001234567'') [(False, ''+79001234567''), (True, ''8 (900) 1234567'')]
       of [] \<Rightarrow> rcp_Contains ''89001234567'' demo_manager | hits \<Rightarrow> fst (last hits))
    \<and> rcp_inv (apply_ops (\<lambda>x m. fst (rcp_Add True x m)) (\<lambda>x m. fst (rcp_Remove True x m))
       [(False, ''+79001234567''), (True, ''8 (900) 1234567'')] demo_manager)"
  by (rule recipients_last_wins [OF demo_manager_inv]) code_simp

section \<open>Persistence\<close>

lemma addAll_normal:
  assumes "distinct ns" "\<forall>n\<in>set ns. NormalizeNumber n = Inr n" "set ns \<inter> set (rcp_numbers m) = {}"
  shows "addAll ns m = m\<lparr>rcp_numbers := rcp_numbers m @ ns\<rparr>"
  using assms
proof (induction ns arbitrary: m)
  case (Cons n ns)
  then show ?case by (simp add: addNumberInMemory_def)
qed simp

lemma addAll_disk: "addAll raws (m\<lparr>rcp_disk := d\<rparr>) = (addAll raws m)\<lparr>rcp_disk := d\<rparr>"
proof (induction raws arbitrary: m)
  case (Cons raw raws)
  have "addNumberInMemory n (m\<lparr>rcp_disk := d\<rparr>) = (addNumberInMemory n m)\<lparr>rcp_disk := d\<rparr>" for n
    by (simp add: addNumberInMemory_def)
  then show ?case using Cons by (simp split: sum.split)
qed simp

definition synced :: "RecipientsManager \<Rightarrow> bool" where
  "synced m \<longleftrightarrow> rcp_filePath m \<noteq> [] \<and> rcp_disk m = Some (rcp_numbers m)"

lemma restart_synced:
  assumes "rcp_inv m" "synced m" "rcp_numbers m \<noteq> []"
  shows "rcp_numbers (NewRecipientsManager ok (rcp_disk m) (rcp_filePath m) defaults) = rcp_numbers m"
  using assms addAll_normal [of "rcp_numbers m"]
  by (simp add: NewRecipientsManager_def loadRecipients_def synced_def rcp_inv_def)

lemma saveLocked_synced: "rcp_filePath m \<noteq> [] \<Longrightarrow> synced (saveLocked True m)"
  by (simp add: synced_def saveLocked_def)

lemma synced_ops:
  assumes "synced m"
  shows "synced (fst (rcp_Add True raw m))" "synced (fst (rcp_Remove True raw m))" "synced (fst (rcp_Set True raws m))"
  using assms by (auto simp: rcp_Add_def rcp_Remove_def rcp_Set_def Let_def synced_def saveLocked_def split: sum.split)

text \<open>Changes survive a restart: when the file agrees with the list and the writes
  succeed, then after an addition, a removal or a replacement a manager created anew on the
  same file has the same list, except that an empty list brings the configured defaults back.
\<close>

theorem recipients_persist:
  assumes "rcp_inv m" "rcp_filePath m \<noteq> []" "rcp_disk m = Some (rcp_numbers m)"
    and "m' = fst (rcp_Add True raw m) \<or> m' = fst (rcp_Remove True raw m) \<or> m' = fst (rcp_Set True raws m)"
  shows "rcp_numbers (NewRecipientsManager ok (rcp_disk m') (rcp_filePath m') defaults) =
    (if rcp_numbers m' \<noteq> [] then rcp_numbers m'
     else rcp_numbers (NewRecipientsManager ok None (rcp_filePath m') defaults))"
proof -
  have s: "synced m'" using assms(2-4) synced_ops [of m] by (auto simp: synced_def)
  have i: "rcp_inv m'"
    using assms(1,4) recipients.add_inv recipients.remove_inv rcp_Set_inv by auto
  have "rcp_numbers (NewRecipientsManager ok (Some []) path defaults) = rcp_numbers (NewRecipientsManager ok None path defaults)"
    for path
    using addAll_disk [of defaults "Some []" "\<lparr>rcp_filePath = path, rcp_numbers = [], rcp_onChange = False, rcp_disk = None\<rparr>"]
    by (auto simp: NewRecipientsManager_def loadRecipients_def Let_def)
  with s i restart_synced [OF i s] show ?thesis by (auto simp: synced_def)
qed

theorem recipients_persist_witness:
  "rcp_numbers (NewRecipientsManager True (rcp_disk (fst (rcp_Remove True ''89001234567'' demo_manager)))
        (rcp_filePath (fst (rcp_Remove True ''89001234567'' demo_manager))) [''+4915112345'']) =
    (if rcp_numbers (fst (rcp_Remove True ''89001234567'' demo_manager)) \<noteq> []
     then rcp_numbers (fst (rcp_Remove True ''89001234567'' demo_manager))
     else rcp_numbers (NewRecipientsManager True None (rcp_filePath (fst (rcp_Remove True ''89001234567'' demo_manager))) [''+4915112345'']))"
proof (rule recipients_persist [OF demo_manager_inv, where raw = "''89001234567''"])
  show "rcp_filePath demo_manager \<noteq> []" "rcp_disk demo_manager = Some (rcp_numbers demo_manager)" by code_simp+
qed blast

end
