(* ===== verification/Modem_Pool.thy ===== *)
theory Modem_Pool
  imports Go_Prelude "HOL-Library.Multiset"
begin

text \<open>
  The modem pool (\<^verbatim>\<open>internal/pool/pool.go\<close>, \<^verbatim>\<open>strategy.go\<close>). A member is what the interface
  \<^verbatim>\<open>ModemMember\<close> shows of a modem during one operation of the pool: its identity, status, signal
  and operator, and the outcome of each call on it. The counter \<^verbatim>\<open>rrIndex\<close> is a 64-bit word that
  wraps. The locale \<open>ordering_strategy\<close> is the contract of a selection strategy (it only
  reorders the ready modems); the failover lemmas are proved in it once and hold for each.
\<close>

section \<open>Members and strategies\<close>

record ModemMember =
  mm_ID :: gostring
  mm_Status :: gostring
  mm_Signal :: int
  mm_Operator :: gostring
  mm_SendSMS :: "gostring \<Rightarrow> gostring \<Rightarrow> gostring + nat list"
  mm_SendUSSD :: "gostring \<Rightarrow> gostring + gostring"
  mm_Dial :: "gostring \<Rightarrow> gostring option"
  mm_Hangup :: "gostring option"

type_synonym Strategy = gostring

definition StrategyRoundRobin :: Strategy where "StrategyRoundRobin = ''round-robin''"
definition StrategyFailover :: Strategy where "StrategyFailover = ''failover''"
definition StrategyBestSignal :: Strategy where "StrategyBestSignal = ''best-signal''"
definition StrategyOperatorMatch :: Strategy where "StrategyOperatorMatch = ''operator-match''"

lemmas Strategy_defs = StrategyRoundRobin_def StrategyFailover_def StrategyBestSignal_def StrategyOperatorMatch_def

definition Strategy_IsValid :: "Strategy \<Rightarrow> bool" where
  "Strategy_IsValid s \<longleftrightarrow>
     s \<in> {StrategyRoundRobin, StrategyFailover, StrategyBestSignal, StrategyOperatorMatch}"

record SelectionCriteria =
  RecipientNumber :: gostring
  RequiredModemID :: gostring

datatype pool_error =
    ErrNoReadyModems
  | ErrModemNotFound gostring
  | ErrInvalidStrategy gostring
  | ErrAllModemsFailed "gostring option"
  | ErrMember gostring

fun pickBest :: "ModemMember \<Rightarrow> ModemMember list \<Rightarrow> ModemMember" where
  "pickBest best [] = best"
| "pickBest best (m # rest) = pickBest (if mm_Signal best < mm_Signal m then m else best) rest"

definition pickBestSignal :: "ModemMember list \<Rightarrow> ModemMember option" where
  "pickBestSignal ready = (case ready of [] \<Rightarrow> None | best # rest \<Rightarrow> Some (pickBest best rest))"

definition extractDigits :: "gostring \<Rightarrow> gostring" where
  "extractDigits s = string_of_runes (filter is_digit (runes s))"

definition isMTSPrefix :: "gostring \<Rightarrow> bool" where
  "isMTSPrefix p \<longleftrightarrow> HasPrefix p ''91'' \<or> HasPrefix p ''98''"

definition isMegaFonPrefix :: "gostring \<Rightarrow> bool" where
  "isMegaFonPrefix p \<longleftrightarrow> HasPrefix p ''92'' \<or> HasPrefix p ''93''"

definition isBeelinePrefix :: "gostring \<Rightarrow> bool" where
  "isBeelinePrefix p \<longleftrightarrow> HasPrefix p ''96'' \<or> p \<in> {''903'', ''905'', ''906'', ''909''}"

definition isTele2Prefix :: "gostring \<Rightarrow> bool" where
  "isTele2Prefix p \<longleftrightarrow> HasPrefix p ''95'' \<or> HasPrefix p ''99''
     \<or> p \<in> {''977'', ''900'', ''901'', ''902'', ''904'', ''908''}"

definition detectOperatorByNumber :: "gostring \<Rightarrow> gostring" where
  "detectOperatorByNumber number =
     (let digits = extractDigits number
      in if length digits < 4 then []
         else
           (let prefix3 = (if (HasPrefix digits ''7'' \<or> HasPrefix digits ''8'') \<and> 4 \<le> length digits
                           then take 3 (drop 1 digits)
                           else if 3 \<le> length digits then take 3 digits else [])
            in if isMTSPrefix prefix3 then ''MTS''
               else if isMegaFonPrefix prefix3 then ''MegaFon''
               else if isBeelinePrefix prefix3 then ''Beeline''
               else if isTele2Prefix prefix3 then ''Tele2''
               else []))"

text \<open>\<^verbatim>\<open>strings.EqualFold\<close>: equality under simple case folding, with the folding of non-ASCII
  characters as the argument \<open>fo\<close>.\<close>

definition EqualFold :: "(rune \<Rightarrow> rune) \<Rightarrow> gostring \<Rightarrow> gostring \<Rightarrow> bool" where
  "EqualFold fo a b \<longleftrightarrow> map (ToLower_rune fo) (runes a) = map (ToLower_rune fo) (runes b)"

definition pickOperatorMatch :: "(rune \<Rightarrow> rune) \<Rightarrow> ModemMember list \<Rightarrow> gostring \<Rightarrow> ModemMember" where
  "pickOperatorMatch fo ready number =
     (let targetOp = detectOperatorByNumber number
      in if targetOp \<noteq> [] then
           (case filter (\<lambda>m. EqualFold fo (mm_Operator m) targetOp) ready of m # _ \<Rightarrow> m | [] \<Rightarrow> hd ready)
         else hd ready)"

definition prependCandidate :: "ModemMember list \<Rightarrow> ModemMember \<Rightarrow> ModemMember list" where
  "prependCandidate ms first = first # filter (\<lambda>m. mm_ID m \<noteq> mm_ID first) ms"

section \<open>Pool\<close>

record Pool =
  pl_strategy :: Strategy
  pl_modems :: "ModemMember list"
  pl_rrIndex :: "64 word"

definition NewPool :: "Strategy \<Rightarrow> pool_error + Pool" where
  "NewPool strategy =
     (let s = (if strategy = [] then StrategyRoundRobin else strategy)
      in if \<not> Strategy_IsValid s then Inl (ErrInvalidStrategy s)
         else Inr \<lparr>pl_strategy = s, pl_modems = [], pl_rrIndex = 0\<rparr>)"

fun register_in :: "ModemMember \<Rightarrow> ModemMember list \<Rightarrow> ModemMember list" where
  "register_in m [] = [m]"
| "register_in m (x # xs) = (if mm_ID x = mm_ID m then m # xs else x # register_in m xs)"

definition Register :: "ModemMember \<Rightarrow> Pool \<Rightarrow> Pool" where
  "Register m p = p\<lparr>pl_modems := register_in m (pl_modems p)\<rparr>"

fun unregister_in :: "gostring \<Rightarrow> ModemMember list \<Rightarrow> ModemMember list" where
  "unregister_in i [] = []"
| "unregister_in i (x # xs) = (if mm_ID x = i then xs else x # unregister_in i xs)"

definition Unregister :: "gostring \<Rightarrow> Pool \<Rightarrow> Pool" where
  "Unregister i p = p\<lparr>pl_modems := unregister_in i (pl_modems p)\<rparr>"

definition rr_order :: "64 word \<Rightarrow> ModemMember list \<Rightarrow> ModemMember list" where
  "rr_order idx ready =
     (let start = unat (idx mod word_of_nat (length ready))
      in map (\<lambda>i. ready ! ((start + i) mod length ready)) [0..<length ready])"

definition orderCandidates :: "(rune \<Rightarrow> rune) \<Rightarrow> ModemMember list \<Rightarrow> SelectionCriteria \<Rightarrow> Pool \<Rightarrow> Pool \<times> ModemMember list" where
  "orderCandidates fo ready criteria p =
     (if pl_strategy p = StrategyFailover then (p, ready)
      else if pl_strategy p = StrategyBestSignal then
        (p, case pickBestSignal ready of Some best \<Rightarrow> prependCandidate ready best | None \<Rightarrow> [])
      else if pl_strategy p = StrategyOperatorMatch then
        (p, prependCandidate ready (pickOperatorMatch fo ready (RecipientNumber criteria)))
      else
        (let p1 = p\<lparr>pl_rrIndex := pl_rrIndex p + 1\<rparr>; idx = pl_rrIndex p1 - 1
         in (p1, rr_order idx ready)))"

definition ready_modems :: "Pool \<Rightarrow> ModemMember list" where
  "ready_modems p = filter (\<lambda>m. mm_Status m = ''ready'') (pl_modems p)"

definition Candidates :: "(rune \<Rightarrow> rune) \<Rightarrow> SelectionCriteria \<Rightarrow> Pool \<Rightarrow> Pool \<times> (pool_error + ModemMember list)" where
  "Candidates fo criteria p =
     (if pl_modems p = [] then (p, Inl ErrNoReadyModems)
      else if RequiredModemID criteria \<noteq> [] then
        (case filter (\<lambda>m. mm_ID m = RequiredModemID criteria \<and> mm_Status m = ''ready'') (pl_modems p) of
           m # _ \<Rightarrow> (p, Inr [m])
         | [] \<Rightarrow> (p, Inl (ErrModemNotFound (RequiredModemID criteria))))
      else
        (let ready = ready_modems p
         in if ready = [] then (p, Inl ErrNoReadyModems)
            else let (p1, cs) = orderCandidates fo ready criteria p in (p1, Inr cs)))"

definition Select :: "(rune \<Rightarrow> rune) \<Rightarrow> SelectionCriteria \<Rightarrow> Pool \<Rightarrow> Pool \<times> (pool_error + ModemMember)" where
  "Select fo criteria p =
     (let (p1, r) = Candidates fo criteria p
      in (p1, bind_res r (\<lambda>cs. case cs of c # _ \<Rightarrow> Inr c | [] \<Rightarrow> Inl ErrNoReadyModems)))"

text \<open>The failover loop over the candidates: the first success, or the last error.\<close>

fun try_members :: "(ModemMember \<Rightarrow> gostring + 'r) \<Rightarrow> gostring option \<Rightarrow> ModemMember list \<Rightarrow> pool_error + 'r" where
  "try_members call lastErr [] = Inl (ErrAllModemsFailed lastErr)"
| "try_members call lastErr (m # rest) =
     (case call m of Inr ref \<Rightarrow> Inr ref | Inl e \<Rightarrow> try_members call (Some e) rest)"

definition PoolSendSMS :: "(rune \<Rightarrow> rune) \<Rightarrow> gostring \<Rightarrow> gostring \<Rightarrow> Pool \<Rightarrow> Pool \<times> (pool_error + nat list)" where
  "PoolSendSMS fo recipient text p =
     (let (p1, r) = Candidates fo \<lparr>RecipientNumber = recipient, RequiredModemID = []\<rparr> p
      in (p1, bind_res r (try_members (\<lambda>m. mm_SendSMS m recipient text) None)))"

definition PoolSendUSSD :: "(rune \<Rightarrow> rune) \<Rightarrow> gostring \<Rightarrow> Pool \<Rightarrow> Pool \<times> (pool_error + gostring)" where
  "PoolSendUSSD fo code p =
     (let (p1, r) = Select fo \<lparr>RecipientNumber = [], RequiredModemID = []\<rparr> p
      in (p1, bind_res r (\<lambda>m. case mm_SendUSSD m code of Inr t \<Rightarrow> Inr t | Inl e \<Rightarrow> Inl (ErrMember e))))"

definition PoolDial :: "(rune \<Rightarrow> rune) \<Rightarrow> gostring \<Rightarrow> Pool \<Rightarrow> Pool \<times> (pool_error + unit)" where
  "PoolDial fo number p =
     (let (p1, r) = Candidates fo \<lparr>RecipientNumber = number, RequiredModemID = []\<rparr> p
      in (p1, bind_res r (try_members (\<lambda>m. case mm_Dial m number of None \<Rightarrow> Inr () | Some e \<Rightarrow> Inl e) None)))"

fun first_error :: "gostring option \<Rightarrow> ModemMember list \<Rightarrow> gostring option" where
  "first_error firstErr [] = firstErr"
| "first_error firstErr (m # rest) =
     first_error (case mm_Hangup m of Some e \<Rightarrow> (if firstErr = None then Some e else firstErr) | None \<Rightarrow> firstErr) rest"

definition PoolHangup :: "Pool \<Rightarrow> gostring option" where
  "PoolHangup p = first_error None (pl_modems p)"

record ModemInfo =
  mi_ID :: gostring
  mi_Status :: gostring
  mi_Signal :: int
  mi_Operator :: gostring

record PoolStatus =
  ps_Strategy :: Strategy
  ps_TotalModems :: nat
  ps_ReadyModems :: nat
  ps_Modems :: "ModemInfo list"

definition GetPoolStatus :: "Pool \<Rightarrow> PoolStatus" where
  "GetPoolStatus p =
     \<lparr>ps_Strategy = pl_strategy p, ps_TotalModems = length (pl_modems p),
      ps_ReadyModems = length (ready_modems p),
      ps_Modems = map (\<lambda>m. \<lparr>mi_ID = mm_ID m, mi_Status = mm_Status m, mi_Signal = mm_Signal m,
                           mi_Operator = mm_Operator m\<rparr>) (pl_modems p)\<rparr>"

section \<open>The failover loop\<close>

lemma try_members_iff: "(\<exists>r. try_members call le ms = Inr r) \<longleftrightarrow> (\<exists>m\<in>set ms. \<exists>r. call m = Inr r)"
  by (induction ms arbitrary: le) (auto split: sum.splits)

lemma try_members_first:
  "try_members call le ms = Inr r \<Longrightarrow>
   \<exists>pre m post. ms = pre @ m # post \<and> (\<forall>x\<in>set pre. \<exists>e. call x = Inl e) \<and> call m = Inr r"
proof (induction ms arbitrary: le)
  case (Cons m ms)
  show ?case
  proof (cases "call m")
    case (Inl e)
    then have "try_members call (Some e) ms = Inr r" using Cons.prems by simp
    from Cons.IH [OF this] obtain pre m' post
      where "ms = pre @ m' # post" "\<forall>x\<in>set pre. \<exists>e. call x = Inl e" "call m' = Inr r"
      by blast
    with Inl show ?thesis by (intro exI [of _ "m # pre"]) auto
  qed (use Cons in \<open>auto intro: exI [of _ "[]"]\<close>)
qed simp

section \<open>Contract of a strategy\<close>

definition distinct_ids :: "ModemMember list \<Rightarrow> bool" where
  "distinct_ids ms \<longleftrightarrow> distinct (map mm_ID ms)"

definition ready_list :: "ModemMember list \<Rightarrow> bool" where
  "ready_list ms \<longleftrightarrow> distinct_ids ms \<and> ms \<noteq> [] \<and> length ms < 2 ^ 64"

locale ordering_strategy =
  fixes order :: "ModemMember list \<Rightarrow> ModemMember list"
  assumes order_perm: "ready_list ready \<Longrightarrow> mset (order ready) = mset ready"
begin

lemma order_set: "ready_list ready \<Longrightarrow> set (order ready) = set ready"
  by (metis order_perm mset_eq_setD)

lemma order_length: "ready_list ready \<Longrightarrow> length (order ready) = length ready"
  by (metis order_perm mset_eq_length)

lemma order_distinct: "ready_list ready \<Longrightarrow> distinct_ids (order ready)"
  unfolding distinct_ids_def ready_list_def
  by (metis mset_map mset_eq_imp_distinct_iff order_perm ready_list_def distinct_ids_def)

lemma failover_complete:
  assumes "ready_list ready"
  shows "(\<exists>r. try_members call le (order ready) = Inr r) \<longleftrightarrow> (\<exists>m\<in>set ready. \<exists>r. call m = Inr r)"
    and "try_members call le (order ready) = Inr r \<Longrightarrow> \<exists>m\<in>set ready. call m = Inr r"
  using try_members_iff [of call le "order ready"] try_members_first [of call le "order ready" r] order_set [OF assms]
  by auto

end

section \<open>The four strategies fulfil it\<close>

lemma pickBest_in: "pickBest b ms \<in> insert b (set ms)"
  by (induction ms arbitrary: b) (auto split: if_splits)

lemma pickBest_max: "mm_Signal b \<le> mm_Signal (pickBest b ms) \<and> (\<forall>m\<in>set ms. mm_Signal m \<le> mm_Signal (pickBest b ms))"
proof (induction ms arbitrary: b)
  case (Cons m ms)
  show ?case
    using Cons.IH [of m] Cons.IH [of b] by (cases "mm_Signal b < mm_Signal m") auto
qed simp

lemma prependCandidate_perm:
  assumes "distinct_ids ready" "m \<in> set ready"
  shows "mset (prependCandidate ready m) = mset ready"
proof -
  have "mset (filter (\<lambda>x. mm_ID x \<noteq> mm_ID m) xs) = mset xs - {#m#}" if "distinct_ids xs" "m \<in> set xs" for xs
    using that
  proof (induction xs)
    case (Cons x xs)
    show ?case
    proof (cases "x = m")
      case True
      have "filter (\<lambda>x. mm_ID x \<noteq> mm_ID m) xs = xs"
        using Cons.prems(1) True by (auto simp: distinct_ids_def filter_id_conv image_iff)
      then show ?thesis using True by simp
    next
      case False
      then have "m \<in> set xs" "mm_ID x \<noteq> mm_ID m" using Cons.prems by (auto simp: distinct_ids_def)
      then show ?thesis using Cons False by (simp add: distinct_ids_def)
    qed
  qed simp
  then show ?thesis using assms by (simp add: prependCandidate_def)
qed

lemma pickOperatorMatch_in:
  assumes "ready \<noteq> []"
  shows "pickOperatorMatch fo ready number \<in> set ready"
proof (cases "filter (\<lambda>m. EqualFold fo (mm_Operator m) (detectOperatorByNumber number)) ready")
  case (Cons m ms)
  then have "m \<in> set ready" by (metis filter_is_subset list.set_intros(1) subsetD)
  with Cons assms show ?thesis by (simp add: pickOperatorMatch_def Let_def)
qed (use assms in \<open>simp add: pickOperatorMatch_def Let_def\<close>)

lemma unat_mod_length: "0 < n \<Longrightarrow> n < 2 ^ 64 \<Longrightarrow> unat (idx mod word_of_nat n :: 64 word) = unat idx mod n"
  by (simp add: unat_mod unat_of_nat take_bit_nat_eq_self)

lemma rr_order_rotate:
  assumes "ready \<noteq> []" "length ready < 2 ^ 64"
  shows "rr_order idx ready = rotate (unat idx mod length ready) ready"
  using assms by (intro nth_equalityI) (auto simp: rr_order_def Let_def unat_mod_length nth_rotate)

lemma mset_rotate_eq: "mset (rotate k xs) = mset xs"
  by (simp add: rotate_drop_take) (metis append_take_drop_id mset_append union_commute)

interpretation failover_order: ordering_strategy "\<lambda>ready. ready"
  by unfold_locales simp

interpretation best_signal_order: ordering_strategy
    "\<lambda>ready. case pickBestSignal ready of Some best \<Rightarrow> prependCandidate ready best | None \<Rightarrow> []"
proof
  fix ready assume r: "ready_list ready"
  then obtain b rest where "ready = b # rest" by (cases ready) (auto simp: ready_list_def)
  with r pickBest_in [of b rest] prependCandidate_perm [of ready]
  show "mset (case pickBestSignal ready of Some best \<Rightarrow> prependCandidate ready best | None \<Rightarrow> []) = mset ready"
    by (simp add: pickBestSignal_def ready_list_def)
qed

interpretation operator_order: ordering_strategy
    "\<lambda>ready. prependCandidate ready (pickOperatorMatch fo ready number)" for fo number
  by unfold_locales (simp add: ready_list_def prependCandidate_perm pickOperatorMatch_in)

interpretation round_robin_order: ordering_strategy "rr_order idx" for idx
  by unfold_locales (simp add: ready_list_def rr_order_rotate mset_rotate_eq)

section \<open>Pool invariant\<close>

definition pool_inv :: "Pool \<Rightarrow> bool" where
  "pool_inv p \<longleftrightarrow> distinct_ids (pl_modems p) \<and> length (pl_modems p) < 2 ^ 64"

lemma ready_modems_list: "pool_inv p \<Longrightarrow> ready_modems p \<noteq> [] \<Longrightarrow> ready_list (ready_modems p)"
proof -
  assume p: "pool_inv p" "ready_modems p \<noteq> []"
  have "length (ready_modems p) \<le> length (pl_modems p)" by (simp add: ready_modems_def)
  moreover have "distinct_ids (ready_modems p)"
    using p(1) by (simp add: pool_inv_def distinct_ids_def ready_modems_def distinct_map_filter)
  ultimately show ?thesis using p by (simp add: ready_list_def pool_inv_def)
qed

lemma register_in_ids:
  "set (map mm_ID (register_in m ms)) = insert (mm_ID m) (set (map mm_ID ms))"
  "distinct (map mm_ID ms) \<Longrightarrow> distinct (map mm_ID (register_in m ms))"
  "length (register_in m ms) \<le> length ms + 1"
  by (induction ms) (auto simp del: set_map)

lemma orderCandidates_contract:
  "ready_list ready \<Longrightarrow> mset (snd (orderCandidates fo ready criteria p)) = mset ready"
  using failover_order.order_perm [of ready] best_signal_order.order_perm [of ready]
    operator_order.order_perm [of ready fo "RecipientNumber criteria"]
    round_robin_order.order_perm [of ready "pl_rrIndex p"]
  by (simp add: orderCandidates_def Let_def)

interpretation pool_order: ordering_strategy "\<lambda>ready. snd (orderCandidates fo ready criteria p)" for fo criteria p
  by unfold_locales (rule orderCandidates_contract)

section \<open>Theorems\<close>

lemma Candidates_any:
  assumes "pool_inv p" "RequiredModemID criteria = []"
  shows "snd (Candidates fo criteria p) =
    (if ready_modems p = [] then Inl ErrNoReadyModems
     else Inr (snd (orderCandidates fo (ready_modems p) criteria p)))"
  using assms by (auto simp: Candidates_def Let_def ready_modems_def split_beta)


definition demo_modem :: "gostring \<Rightarrow> gostring \<Rightarrow> int \<Rightarrow> gostring + nat list \<Rightarrow> ModemMember" where
  "demo_modem i st sig res = \<lparr>mm_ID = i, mm_Status = st, mm_Signal = sig, mm_Operator = ''MTS'',
     mm_SendSMS = (\<lambda>_ _. res), mm_SendUSSD = (\<lambda>_. Inl ''no''), mm_Dial = (\<lambda>_. None), mm_Hangup = None\<rparr>"

definition demo_pool :: "Strategy \<Rightarrow> Pool" where
  "demo_pool strat = \<lparr>pl_strategy = strat,
     pl_modems = [demo_modem ''a'' ''ready'' 10 (Inl ''busy''), demo_modem ''b'' ''offline'' 31 (Inr [1]),
                  demo_modem ''c'' ''ready'' 20 (Inr [7])], pl_rrIndex = 0\<rparr>"

lemma demo_pool_inv: "pool_inv (demo_pool strat)"
  by (simp add: pool_inv_def demo_pool_def distinct_ids_def demo_modem_def)


text \<open>
  What each strategy puts first: failover the first ready modem in the order of
  registration, best-signal a ready modem of the highest signal; and under every strategy the
  candidates are a permutation of the ready modems.
\<close>

theorem strategy_choice:
  assumes "pool_inv p" "ready_modems p \<noteq> []"
  shows "mset (snd (orderCandidates fo (ready_modems p) criteria p)) = mset (ready_modems p)
    \<and> (pl_strategy p = StrategyFailover \<longrightarrow> hd (snd (orderCandidates fo (ready_modems p) criteria p)) = hd (ready_modems p))
    \<and> (pl_strategy p = StrategyBestSignal \<longrightarrow> (\<forall>m\<in>set (ready_modems p).
         mm_Signal m \<le> mm_Signal (hd (snd (orderCandidates fo (ready_modems p) criteria p)))))"
proof -
  have "\<forall>m\<in>set (ready_modems p). mm_Signal m \<le> mm_Signal (hd (snd (orderCandidates fo (ready_modems p) criteria p)))"
    if "pl_strategy p = StrategyBestSignal"
  proof (cases "ready_modems p")
    case (Cons b rest)
    then show ?thesis
      using pickBest_max [of b rest] that
      by (simp add: orderCandidates_def Strategy_defs pickBestSignal_def prependCandidate_def)
  qed (use assms in simp)
  with orderCandidates_contract [OF ready_modems_list [OF assms]] show ?thesis
    by (simp add: orderCandidates_def)
qed

theorem strategy_choice_witness:
  "mset (snd (orderCandidates id (ready_modems (demo_pool StrategyBestSignal)) \<lparr>RecipientNumber = [], RequiredModemID = []\<rparr>
       (demo_pool StrategyBestSignal))) = mset (ready_modems (demo_pool StrategyBestSignal))
   \<and> list_all (\<lambda>m. mm_Signal m \<le> mm_Signal (hd (snd (orderCandidates id (ready_modems (demo_pool StrategyBestSignal))
           \<lparr>RecipientNumber = [], RequiredModemID = []\<rparr> (demo_pool StrategyBestSignal)))))
         (ready_modems (demo_pool StrategyBestSignal))"
proof -
  have "ready_modems (demo_pool StrategyBestSignal) \<noteq> []" "pl_strategy (demo_pool StrategyBestSignal) = StrategyBestSignal"
    by (simp_all add: ready_modems_def demo_pool_def demo_modem_def)
  then show ?thesis
    using strategy_choice [OF demo_pool_inv, of StrategyBestSignal id "\<lparr>RecipientNumber = [], RequiredModemID = []\<rparr>"]
    by (simp add: list_all_iff)
qed

text \<open>The modems selected by \<open>n\<close> successive calls.\<close>

fun selections :: "(rune \<Rightarrow> rune) \<Rightarrow> SelectionCriteria \<Rightarrow> nat \<Rightarrow> Pool \<Rightarrow> (pool_error + ModemMember) list" where
  "selections fo criteria 0 p = []"
| "selections fo criteria (Suc n) p =
     (let (p1, r) = Select fo criteria p in r # selections fo criteria n p1)"

lemma select_round_robin:
  assumes "pl_strategy p = StrategyRoundRobin" "RequiredModemID criteria = []" "pool_inv p" "ready_modems p \<noteq> []"
  shows "Select fo criteria p =
    (p\<lparr>pl_rrIndex := pl_rrIndex p + 1\<rparr>,
     Inr (ready_modems p ! (unat (pl_rrIndex p) mod length (ready_modems p))))"
proof -
  let ?r = "ready_modems p"
  have rl: "ready_list ?r" using ready_modems_list [OF assms(3,4)] .
  then have o: "rr_order (pl_rrIndex p) ?r = rotate (unat (pl_rrIndex p) mod length ?r) ?r"
    by (simp add: ready_list_def rr_order_rotate)
  obtain x xs where x: "rr_order (pl_rrIndex p) ?r = x # xs"
    using assms(4) by (metis length_0_conv length_rotate neq_Nil_conv o)
  have "x = rotate (unat (pl_rrIndex p) mod length ?r) ?r ! 0" using x o by (metis nth_Cons_0)
  then have "x = ?r ! (unat (pl_rrIndex p) mod length ?r)" using assms(4) by (simp add: nth_rotate)
  moreover have "pl_modems p \<noteq> []" using assms(4) by (auto simp: ready_modems_def)
  ultimately show ?thesis
    using assms x by (simp add: Select_def Candidates_def orderCandidates_def Strategy_defs Let_def)
qed

lemma selections_round_robin:
  assumes "pl_strategy p = StrategyRoundRobin" "RequiredModemID criteria = []" "pool_inv p" "ready_modems p \<noteq> []"
    and "unat (pl_rrIndex p) + n \<le> 2 ^ 64"
  shows "selections fo criteria n p =
    map (\<lambda>k. Inr (ready_modems p ! ((unat (pl_rrIndex p) + k) mod length (ready_modems p)))) [0..<n]"
  using assms
proof (induction n arbitrary: p)
  case (Suc n)
  let ?q = "p\<lparr>pl_rrIndex := pl_rrIndex p + 1\<rparr>"
  have q: "ready_modems ?q = ready_modems p" "pool_inv ?q" using Suc.prems by (simp_all add: ready_modems_def pool_inv_def)
  have u: "n \<noteq> 0 \<Longrightarrow> unat (pl_rrIndex p + 1) = unat (pl_rrIndex p) + 1"
    using Suc.prems(5) by (simp add: unat_word_ariths)
  have "selections fo criteria n ?q =
      map (\<lambda>k. Inr (ready_modems p ! ((unat (pl_rrIndex p) + 1 + k) mod length (ready_modems p)))) [0..<n]"
  proof (cases "n = 0")
    case False
    then show ?thesis using Suc.IH [of ?q] Suc.prems q u [OF False] by simp
  qed simp
  then show ?case
    using select_round_robin [OF Suc.prems(1-4)]
    by (simp add: Let_def map_upt_Suc del: upt_Suc)
qed simp

text \<open>Round robin is fair: while the ready modems stay the same, as many successive
  selections as there are ready modems select each of them exactly once, wherever the counter
  stands (up to its wrap at two to the power 64).
\<close>

theorem round_robin_fair:
  assumes "pl_strategy p = StrategyRoundRobin" "RequiredModemID criteria = []" "pool_inv p"
    and "n = length (ready_modems p)" "unat (pl_rrIndex p) + n \<le> 2 ^ 64"
  shows "mset (selections fo criteria n p) = mset (map Inr (ready_modems p))"
proof (cases "ready_modems p = []")
  case False
  let ?r = "ready_modems p"
  have "map (\<lambda>k. ?r ! ((unat (pl_rrIndex p) + k) mod length ?r)) [0..<length ?r] = rotate (unat (pl_rrIndex p)) ?r"
    by (rule nth_equalityI) (simp_all add: nth_rotate)
  then have "selections fo criteria n p = map Inr (rotate (unat (pl_rrIndex p)) ?r)"
    using selections_round_robin [OF assms(1-3) False assms(5)] assms(4) by (metis (no_types, lifting) map_eq_conv map_map o_def)
  then show ?thesis by (simp add: mset_rotate_eq)
qed (use assms(4) in simp)

theorem round_robin_fair_witness:
  "mset (selections id \<lparr>RecipientNumber = [], RequiredModemID = []\<rparr> 2 (demo_pool StrategyRoundRobin\<lparr>pl_rrIndex := 5\<rparr>)) =
   mset (map Inr (ready_modems (demo_pool StrategyRoundRobin\<lparr>pl_rrIndex := 5\<rparr>)))"
  by (rule round_robin_fair) (simp_all add: demo_pool_def pool_inv_def distinct_ids_def demo_modem_def ready_modems_def)

end
