(* ===== verification/Tariff.thy ===== *)
theory Tariff
  imports Complex_Main Event_Machine
begin

text \<open>
  Tariff accounting (\<^verbatim>\<open>internal/tariff\<close>: types.go, manager.go, manager_store.go, store.go,
  alerts.go). Amounts of type float64 are rationals (rounding is not modelled), int and int64
  are integers wrapped to 64 bits. The clock, its two formatted dates and the success of a
  write come with each operation in the record \<open>Env\<close>; \<open>fmt\<close> is the formatting of a number with
  a given precision by package fmt. The locale \<open>state_store\<close> is the interface \<^verbatim>\<open>Store\<close>.
\<close>

section \<open>Data\<close>

record TariffConfig =
  tc_Enabled :: bool
  tc_OperatorPreset :: gostring
  tc_BalanceUSSD :: gostring
  tc_BalanceRegex :: gostring
  tc_AutoCheckOnError :: bool
  tc_CheckInterval :: duration
  tc_MinBalanceAlert :: rat
  tc_SMSLimit :: int
  tc_CallMinutesLimit :: rat
  tc_DataTrafficLimitMB :: int
  tc_ResetDayOfMonth :: int
  tc_StorageDir :: gostring

record UsageStatus =
  us_Balance :: rat
  us_Currency :: gostring
  us_LowBalance :: bool
  us_MinBalanceAlert :: rat
  us_SMSDayCount :: int
  us_SMSMonthCount :: int
  us_SMSLimit :: int
  us_SMSRemaining :: int
  us_CallMinutesLimit :: rat
  us_CallMinutesUsed :: rat
  us_CallMinutesRemaining :: rat
  us_DataTrafficLimitMB :: int
  us_DataBytesLimit :: int
  us_DataBytesUsed :: int
  us_DataBytesRemaining :: int
  us_LastBalanceCheck :: instant
  us_ResetDayOfMonth :: int

record AlertEvent =
  al_Type :: gostring
  al_Message :: gostring
  al_Value :: rat
  al_ModemID :: gostring

record TariffState =
  st_Balance :: rat
  st_Currency :: gostring
  st_SMSDayCount :: int
  st_SMSMonthCount :: int
  st_CallMinutesUsed :: rat
  st_DataBytesUsed :: int
  st_LastBalanceCheck :: instant
  st_LastDailyResetDate :: gostring
  st_LastMonthlyResetMonth :: gostring
  st_SMSLimit :: int
  st_CallMinutesLimit :: rat
  st_DataTrafficLimitMB :: int
  st_ResetDayOfMonth :: int
  st_MinBalanceAlert :: rat
  st_BalanceUSSD :: gostring
  st_OperatorPreset :: gostring

record Env =
  env_now :: instant
  env_today :: gostring
  env_month :: gostring
  env_saveOK :: bool

section \<open>File store\<close>

type_synonym disk = "gostring \<rightharpoonup> TariffState"

definition safe_char :: "rune \<Rightarrow> bool" where
  "safe_char r \<longleftrightarrow> (97 \<le> r \<and> r \<le> 122) \<or> (65 \<le> r \<and> r \<le> 90) \<or> is_digit r \<or> r = 95 \<or> r = 45"

definition store_filePath :: "gostring \<Rightarrow> gostring" where
  "store_filePath modemID =
     (let cleanID = string_of_runes (map (\<lambda>r. if safe_char r then r else 95) (runes modemID))
      in ''tariff_'' @ (if cleanID = [] then ''default'' else cleanID) @ ''.json'')"

definition store_Save :: "bool \<Rightarrow> gostring \<Rightarrow> TariffState \<Rightarrow> disk \<Rightarrow> disk" where
  "store_Save ok modemID state d = (if ok then d(store_filePath modemID \<mapsto> state) else d)"

definition store_Load :: "gostring \<Rightarrow> disk \<Rightarrow> TariffState option" where
  "store_Load modemID d = d (store_filePath modemID)"

section \<open>Manager\<close>

record Manager =
  tm_modemID :: gostring
  tm_cfg :: TariffConfig
  tm_store :: "disk option"
  tm_onAlert :: bool
  tm_balance :: rat
  tm_currency :: gostring
  tm_smsDayCount :: int
  tm_smsMonthCount :: int
  tm_callMinutesUsed :: rat
  tm_dataBytesUsed :: int
  tm_lastBalanceCheck :: instant
  tm_lastDailyResetDate :: gostring
  tm_lastMonthlyResetMonth :: gostring
  tm_warnedSMS90 :: bool
  tm_warnedSMSExceeded :: bool
  tm_warnedCall90 :: bool
  tm_warnedCallExceeded :: bool
  tm_warnedData90 :: bool
  tm_warnedDataExceeded :: bool
  tm_warnedLowBalance :: bool

definition restoreFromStore :: "Env \<Rightarrow> Manager \<Rightarrow> Manager" where
  "restoreFromStore env m = (case tm_store m of
     None \<Rightarrow> m
   | Some d \<Rightarrow> (case store_Load (tm_modemID m) d of
       None \<Rightarrow> m
     | Some s \<Rightarrow>
         m\<lparr>tm_balance := st_Balance s,
           tm_currency := (if st_Currency s \<noteq> [] then st_Currency s else tm_currency m),
           tm_lastBalanceCheck := st_LastBalanceCheck s,
           tm_dataBytesUsed := st_DataBytesUsed s,
           tm_callMinutesUsed := st_CallMinutesUsed s,
           tm_smsDayCount := (if st_LastDailyResetDate s = [] \<or> st_LastDailyResetDate s = env_today env
                              then st_SMSDayCount s else 0),
           tm_lastDailyResetDate := env_today env,
           tm_smsMonthCount := (if st_LastMonthlyResetMonth s = [] \<or> st_LastMonthlyResetMonth s = env_month env
                                then st_SMSMonthCount s else 0),
           tm_lastMonthlyResetMonth := env_month env\<rparr>))"

definition persisted_state :: "Manager \<Rightarrow> TariffState" where
  "persisted_state m =
     \<lparr>st_Balance = tm_balance m, st_Currency = tm_currency m, st_SMSDayCount = tm_smsDayCount m,
      st_SMSMonthCount = tm_smsMonthCount m, st_CallMinutesUsed = tm_callMinutesUsed m,
      st_DataBytesUsed = tm_dataBytesUsed m, st_LastBalanceCheck = tm_lastBalanceCheck m,
      st_LastDailyResetDate = tm_lastDailyResetDate m, st_LastMonthlyResetMonth = tm_lastMonthlyResetMonth m,
      st_SMSLimit = tc_SMSLimit (tm_cfg m), st_CallMinutesLimit = tc_CallMinutesLimit (tm_cfg m),
      st_DataTrafficLimitMB = tc_DataTrafficLimitMB (tm_cfg m), st_ResetDayOfMonth = tc_ResetDayOfMonth (tm_cfg m),
      st_MinBalanceAlert = tc_MinBalanceAlert (tm_cfg m), st_BalanceUSSD = tc_BalanceUSSD (tm_cfg m),
      st_OperatorPreset = tc_OperatorPreset (tm_cfg m)\<rparr>"

definition persistLocked :: "Env \<Rightarrow> Manager \<Rightarrow> Manager" where
  "persistLocked env m = (case tm_store m of
     None \<Rightarrow> m
   | Some d \<Rightarrow>
       (let m1 = m\<lparr>tm_lastDailyResetDate := (if tm_lastDailyResetDate m = [] then env_today env else tm_lastDailyResetDate m),
                   tm_lastMonthlyResetMonth := (if tm_lastMonthlyResetMonth m = [] then env_month env
                                                else tm_lastMonthlyResetMonth m)\<rparr>
        in m1\<lparr>tm_store := Some (store_Save (env_saveOK env) (tm_modemID m) (persisted_state m1) d)\<rparr>))"

definition SetStore :: "Env \<Rightarrow> disk option \<Rightarrow> Manager \<Rightarrow> Manager" where
  "SetStore env store m = restoreFromStore env (m\<lparr>tm_store := store\<rparr>)"

definition NewManager :: "Env \<Rightarrow> disk \<Rightarrow> gostring \<Rightarrow> TariffConfig \<Rightarrow> bool \<Rightarrow> Manager" where
  "NewManager env d modemID cfg onAlert =
     (let cfg1 = (if tc_ResetDayOfMonth cfg \<le> 0 \<or> 31 < tc_ResetDayOfMonth cfg
                  then cfg\<lparr>tc_ResetDayOfMonth := 1\<rparr> else cfg);
          m = \<lparr>tm_modemID = modemID, tm_cfg = cfg1, tm_store = None, tm_onAlert = onAlert, tm_balance = 0,
               tm_currency = ''RUB'', tm_smsDayCount = 0, tm_smsMonthCount = 0, tm_callMinutesUsed = 0,
               tm_dataBytesUsed = 0, tm_lastBalanceCheck = 0, tm_lastDailyResetDate = [],
               tm_lastMonthlyResetMonth = [], tm_warnedSMS90 = False, tm_warnedSMSExceeded = False,
               tm_warnedCall90 = False, tm_warnedCallExceeded = False, tm_warnedData90 = False,
               tm_warnedDataExceeded = False, tm_warnedLowBalance = False\<rparr>
      in if tc_StorageDir cfg1 \<noteq> [] then SetStore env (Some d) m else m)"

definition UpdateConfig :: "Env \<Rightarrow> TariffConfig \<Rightarrow> Manager \<Rightarrow> Manager" where
  "UpdateConfig env n m =
     (let c = tm_cfg m;
          c1 = c\<lparr>tc_SMSLimit := (if 0 \<le> tc_SMSLimit n then tc_SMSLimit n else tc_SMSLimit c),
                 tc_CallMinutesLimit := (if 0 \<le> tc_CallMinutesLimit n then tc_CallMinutesLimit n else tc_CallMinutesLimit c),
                 tc_DataTrafficLimitMB := (if 0 \<le> tc_DataTrafficLimitMB n then tc_DataTrafficLimitMB n else tc_DataTrafficLimitMB c),
                 tc_ResetDayOfMonth := (if 1 \<le> tc_ResetDayOfMonth n \<and> tc_ResetDayOfMonth n \<le> 31
                                        then tc_ResetDayOfMonth n else tc_ResetDayOfMonth c),
                 tc_MinBalanceAlert := (if 0 \<le> tc_MinBalanceAlert n then tc_MinBalanceAlert n else tc_MinBalanceAlert c),
                 tc_BalanceUSSD := (if tc_BalanceUSSD n \<noteq> [] then tc_BalanceUSSD n else tc_BalanceUSSD c),
                 tc_OperatorPreset := (if tc_OperatorPreset n \<noteq> [] then tc_OperatorPreset n else tc_OperatorPreset c)\<rparr>
      in persistLocked env (m\<lparr>tm_cfg := c1\<rparr>))"

section \<open>Limits and alerts\<close>

definition alert :: "Manager \<Rightarrow> gostring \<Rightarrow> gostring \<Rightarrow> rat \<Rightarrow> AlertEvent" where
  "alert m typ msg v = \<lparr>al_Type = typ, al_Message = msg, al_Value = v, al_ModemID = tm_modemID m\<rparr>"

definition evaluateSMSLimits :: "Manager \<Rightarrow> Manager \<times> AlertEvent list" where
  "evaluateSMSLimits m =
     (let used = tm_smsMonthCount m; limit = tc_SMSLimit (tm_cfg m)
      in if limit \<le> 0 \<or> \<not> tm_onAlert m then (m, [])
         else
           (let ratio = of_int used / of_int limit :: rat;
                counts = '' ('' @ itoa used @ ''/'' @ itoa limit @ '')'';
                warn = (9 / 10 \<le> ratio \<and> ratio < 1 \<and> \<not> tm_warnedSMS90 m);
                exceed = (1 \<le> ratio \<and> \<not> tm_warnedSMSExceeded m)
            in (m\<lparr>tm_warnedSMS90 := (tm_warnedSMS90 m \<or> warn), tm_warnedSMSExceeded := (tm_warnedSMSExceeded m \<or> exceed)\<rparr>,
                (if warn then [alert m ''sms_limit_warning'' (''90% of monthly SMS quota reached'' @ counts) (of_int used)] else [])
                @ (if exceed then [alert m ''sms_limit_exceeded'' (''Monthly SMS quota exceeded'' @ counts) (of_int used)] else []))))"

definition evaluateCallLimits :: "(nat \<Rightarrow> rat \<Rightarrow> gostring) \<Rightarrow> Manager \<Rightarrow> Manager \<times> AlertEvent list" where
  "evaluateCallLimits fmt m =
     (let used = tm_callMinutesUsed m; limit = tc_CallMinutesLimit (tm_cfg m)
      in if limit \<le> 0 \<or> \<not> tm_onAlert m then (m, [])
         else
           (let ratio = used / limit;
                counts = '' ('' @ fmt 1 used @ ''/'' @ fmt 1 limit @ '')'';
                warn = (9 / 10 \<le> ratio \<and> ratio < 1 \<and> \<not> tm_warnedCall90 m);
                exceed = (1 \<le> ratio \<and> \<not> tm_warnedCallExceeded m)
            in (m\<lparr>tm_warnedCall90 := (tm_warnedCall90 m \<or> warn), tm_warnedCallExceeded := (tm_warnedCallExceeded m \<or> exceed)\<rparr>,
                (if warn then [alert m ''call_limit_warning'' (''90% of call minutes quota reached'' @ counts) used] else [])
                @ (if exceed then [alert m ''call_limit_exceeded'' (''Call minutes quota exceeded'' @ counts) used] else []))))"

definition limitBytes :: "Manager \<Rightarrow> int" where
  "limitBytes m = wrap64 (tc_DataTrafficLimitMB (tm_cfg m) * 1024 * 1024)"

text \<open>A byte limit that wraps to 0 gives the infinite ratio of a division by zero.\<close>

definition evaluateDataLimits :: "(nat \<Rightarrow> rat \<Rightarrow> gostring) \<Rightarrow> Manager \<Rightarrow> Manager \<times> AlertEvent list" where
  "evaluateDataLimits fmt m =
     (let used = tm_dataBytesUsed m; limitMB = tc_DataTrafficLimitMB (tm_cfg m)
      in if limitMB \<le> 0 \<or> \<not> tm_onAlert m then (m, [])
         else
           (let ratio = of_int used / of_int (limitBytes m) :: rat;
                counts = '' ('' @ fmt 1 (of_int used / (1024 * 1024)) @ '' MB/'' @ itoa limitMB @ '' MB)'';
                full = (if limitBytes m = 0 then 0 < used else 1 \<le> ratio);
                warn = (9 / 10 \<le> ratio \<and> ratio < 1 \<and> limitBytes m \<noteq> 0 \<and> \<not> tm_warnedData90 m);
                exceed = (full \<and> \<not> tm_warnedDataExceeded m)
            in (m\<lparr>tm_warnedData90 := (tm_warnedData90 m \<or> warn), tm_warnedDataExceeded := (tm_warnedDataExceeded m \<or> exceed)\<rparr>,
                (if warn then [alert m ''data_limit_warning'' (''90% of data traffic quota reached'' @ counts) (of_int used)] else [])
                @ (if exceed then [alert m ''data_limit_exceeded'' (''Data traffic quota exceeded'' @ counts) (of_int used)] else []))))"

definition evaluateBalanceLimits :: "(nat \<Rightarrow> rat \<Rightarrow> gostring) \<Rightarrow> rat \<Rightarrow> Manager \<Rightarrow> Manager \<times> AlertEvent list" where
  "evaluateBalanceLimits fmt balance m =
     (let threshold = tc_MinBalanceAlert (tm_cfg m)
      in if threshold \<le> 0 \<or> \<not> tm_onAlert m then (m, [])
         else if balance < threshold then
           (if \<not> tm_warnedLowBalance m
            then (m\<lparr>tm_warnedLowBalance := True\<rparr>,
                  [alert m ''low_balance'' (''Balance is low: '' @ fmt 2 balance @ '' '' @ tm_currency m
                     @ '' (threshold: '' @ fmt 2 threshold @ '')'') balance])
            else (m, []))
         else (m\<lparr>tm_warnedLowBalance := False\<rparr>, []))"

section \<open>Recording\<close>

record UsageUpdate =
  uu_SMSDayCount :: "int option"
  uu_SMSMonthCount :: "int option"
  uu_CallMinutesUsed :: "rat option"
  uu_DataBytesUsed :: "int option"

definition override :: "'a::linordered_idom option \<Rightarrow> 'a \<Rightarrow> 'a" where
  "override upd old = (case upd of Some v \<Rightarrow> (if 0 \<le> v then v else old) | None \<Rightarrow> old)"

definition SetUsage :: "(nat \<Rightarrow> rat \<Rightarrow> gostring) \<Rightarrow> Env \<Rightarrow> UsageUpdate \<Rightarrow> Manager \<Rightarrow> Manager" where
  "SetUsage fmt env u m =
     (let m1 = m\<lparr>tm_smsDayCount := override (uu_SMSDayCount u) (tm_smsDayCount m),
                 tm_smsMonthCount := override (uu_SMSMonthCount u) (tm_smsMonthCount m),
                 tm_callMinutesUsed := override (uu_CallMinutesUsed u) (tm_callMinutesUsed m),
                 tm_dataBytesUsed := override (uu_DataBytesUsed u) (tm_dataBytesUsed m)\<rparr>;
          m2 = fst (evaluateSMSLimits m1);
          m3 = fst (evaluateCallLimits fmt m2);
          m4 = fst (evaluateDataLimits fmt m3)
      in persistLocked env m4)"

definition RecordSMS :: "Env \<Rightarrow> int \<Rightarrow> Manager \<Rightarrow> Manager \<times> AlertEvent list" where
  "RecordSMS env count m =
     (if count \<le> 0 then (m, [])
      else
        (let (m1, alerts) = evaluateSMSLimits (m\<lparr>tm_smsDayCount := wrap64 (tm_smsDayCount m + count),
                                                tm_smsMonthCount := wrap64 (tm_smsMonthCount m + count)\<rparr>)
         in (persistLocked env m1, alerts)))"

definition RecordCallMinutes :: "(nat \<Rightarrow> rat \<Rightarrow> gostring) \<Rightarrow> Env \<Rightarrow> rat \<Rightarrow> Manager \<Rightarrow> Manager \<times> AlertEvent list" where
  "RecordCallMinutes fmt env minutes m =
     (if minutes \<le> 0 then (m, [])
      else
        (let (m1, alerts) = evaluateCallLimits fmt (m\<lparr>tm_callMinutesUsed := tm_callMinutesUsed m + minutes\<rparr>)
         in (persistLocked env m1, alerts)))"

definition RecordCallDuration :: "(nat \<Rightarrow> rat \<Rightarrow> gostring) \<Rightarrow> Env \<Rightarrow> duration \<Rightarrow> Manager \<Rightarrow> Manager \<times> AlertEvent list" where
  "RecordCallDuration fmt env d m =
     (if d \<le> 0 then (m, []) else RecordCallMinutes fmt env (of_int d / 60000000000) m)"

definition RecordData :: "(nat \<Rightarrow> rat \<Rightarrow> gostring) \<Rightarrow> Env \<Rightarrow> int \<Rightarrow> Manager \<Rightarrow> Manager \<times> AlertEvent list" where
  "RecordData fmt env bytes m =
     (if bytes \<le> 0 then (m, [])
      else
        (let (m1, alerts) = evaluateDataLimits fmt (m\<lparr>tm_dataBytesUsed := wrap64 (tm_dataBytesUsed m + bytes)\<rparr>)
         in (persistLocked env m1, alerts)))"

definition UpdateBalance :: "(nat \<Rightarrow> rat \<Rightarrow> gostring) \<Rightarrow> Env \<Rightarrow> rat \<Rightarrow> gostring \<Rightarrow> Manager \<Rightarrow> Manager \<times> AlertEvent list" where
  "UpdateBalance fmt env balance currency m =
     (let (m1, alerts) = evaluateBalanceLimits fmt balance
            (m\<lparr>tm_balance := balance, tm_currency := (if currency \<noteq> [] then currency else tm_currency m),
               tm_lastBalanceCheck := env_now env\<rparr>)
      in (persistLocked env m1, alerts))"

definition ResetDaily :: "Env \<Rightarrow> Manager \<Rightarrow> Manager" where
  "ResetDaily env m = persistLocked env (m\<lparr>tm_smsDayCount := 0, tm_lastDailyResetDate := env_today env\<rparr>)"

definition ResetMonthly :: "Env \<Rightarrow> Manager \<Rightarrow> Manager" where
  "ResetMonthly env m = persistLocked env
     (m\<lparr>tm_smsMonthCount := 0, tm_warnedSMS90 := False, tm_warnedSMSExceeded := False,
        tm_callMinutesUsed := 0, tm_warnedCall90 := False, tm_warnedCallExceeded := False,
        tm_dataBytesUsed := 0, tm_warnedData90 := False, tm_warnedDataExceeded := False,
        tm_lastMonthlyResetMonth := env_month env\<rparr>)"

definition ResetQuotas :: "Env \<Rightarrow> Manager \<Rightarrow> Manager" where
  "ResetQuotas env m = ResetMonthly env m"

definition GetConfig :: "Manager \<Rightarrow> TariffConfig" where
  "GetConfig m = tm_cfg m"

definition Status :: "Manager \<Rightarrow> UsageStatus" where
  "Status m =
     (let c = tm_cfg m;
          remSMS = (if 0 < tc_SMSLimit c then max 0 (tc_SMSLimit c - tm_smsMonthCount m) else 0);
          remMins = (if 0 < tc_CallMinutesLimit c then max 0 (tc_CallMinutesLimit c - tm_callMinutesUsed m) else 0);
          bytes = (if 0 < tc_DataTrafficLimitMB c then limitBytes m else 0);
          remBytes = (if 0 < tc_DataTrafficLimitMB c then max 0 (wrap64 (bytes - tm_dataBytesUsed m)) else 0)
      in \<lparr>us_Balance = tm_balance m, us_Currency = tm_currency m,
          us_LowBalance = (0 < tc_MinBalanceAlert c \<and> tm_balance m < tc_MinBalanceAlert c),
          us_MinBalanceAlert = tc_MinBalanceAlert c, us_SMSDayCount = tm_smsDayCount m,
          us_SMSMonthCount = tm_smsMonthCount m, us_SMSLimit = tc_SMSLimit c, us_SMSRemaining = remSMS,
          us_CallMinutesLimit = tc_CallMinutesLimit c, us_CallMinutesUsed = tm_callMinutesUsed m,
          us_CallMinutesRemaining = remMins, us_DataTrafficLimitMB = tc_DataTrafficLimitMB c,
          us_DataBytesLimit = bytes, us_DataBytesUsed = tm_dataBytesUsed m, us_DataBytesRemaining = remBytes,
          us_LastBalanceCheck = tm_lastBalanceCheck m, us_ResetDayOfMonth = tc_ResetDayOfMonth c\<rparr>)"

section \<open>Alerts are raised once\<close>

text \<open>The contract of a quota: an alert of its kind is raised exactly when its flag is set.\<close>

locale quota_alert =
  fixes rec :: "'x \<Rightarrow> Manager \<Rightarrow> Manager \<times> AlertEvent list" and kind :: gostring and flag :: "Manager \<Rightarrow> bool"
  assumes rec_flag: "length (filter (\<lambda>a. al_Type a = kind) (snd (rec x m))) + of_bool (flag m) = of_bool (flag (fst (rec x m)))"
begin

lemma alerts_once:
  "length (filter (\<lambda>a. al_Type a = kind) (concat (snd (run rec xs m)))) + of_bool (flag m) =
     of_bool (flag (fst (run rec xs m)))"
proof (induction xs arbitrary: m)
  case (Cons x xs)
  show ?case using Cons.IH [of "fst (rec x m)"] rec_flag [of x m] by (simp add: Let_def split_beta)
qed simp

end

lemma persistLocked_keeps [simp]:
  "tm_warnedSMS90 (persistLocked env m) = tm_warnedSMS90 m" "tm_warnedSMSExceeded (persistLocked env m) = tm_warnedSMSExceeded m"
  "tm_warnedCall90 (persistLocked env m) = tm_warnedCall90 m" "tm_warnedCallExceeded (persistLocked env m) = tm_warnedCallExceeded m"
  "tm_warnedData90 (persistLocked env m) = tm_warnedData90 m" "tm_warnedDataExceeded (persistLocked env m) = tm_warnedDataExceeded m"
  "tm_warnedLowBalance (persistLocked env m) = tm_warnedLowBalance m"
  "tm_smsMonthCount (persistLocked env m) = tm_smsMonthCount m" "tm_smsDayCount (persistLocked env m) = tm_smsDayCount m"
  "tm_cfg (persistLocked env m) = tm_cfg m" "tm_onAlert (persistLocked env m) = tm_onAlert m"
  "tm_balance (persistLocked env m) = tm_balance m" "tm_currency (persistLocked env m) = tm_currency m"
  "tm_callMinutesUsed (persistLocked env m) = tm_callMinutesUsed m" "tm_dataBytesUsed (persistLocked env m) = tm_dataBytesUsed m"
  "tm_lastBalanceCheck (persistLocked env m) = tm_lastBalanceCheck m" "tm_modemID (persistLocked env m) = tm_modemID m"
  by (simp_all add: persistLocked_def Let_def split: option.split)

lemma evaluateSMSLimits_flags:
  "length (filter (\<lambda>a. al_Type a = ''sms_limit_warning'') (snd (evaluateSMSLimits m))) + of_bool (tm_warnedSMS90 m) =
     of_bool (tm_warnedSMS90 (fst (evaluateSMSLimits m)))"
  "length (filter (\<lambda>a. al_Type a = ''sms_limit_exceeded'') (snd (evaluateSMSLimits m))) + of_bool (tm_warnedSMSExceeded m) =
     of_bool (tm_warnedSMSExceeded (fst (evaluateSMSLimits m)))"
  by (simp_all add: evaluateSMSLimits_def alert_def Let_def)

lemma evaluateCallLimits_flags:
  "length (filter (\<lambda>a. al_Type a = ''call_limit_warning'') (snd (evaluateCallLimits fmt m))) + of_bool (tm_warnedCall90 m) =
     of_bool (tm_warnedCall90 (fst (evaluateCallLimits fmt m)))"
  "length (filter (\<lambda>a. al_Type a = ''call_limit_exceeded'') (snd (evaluateCallLimits fmt m))) + of_bool (tm_warnedCallExceeded m) =
     of_bool (tm_warnedCallExceeded (fst (evaluateCallLimits fmt m)))"
  by (simp_all add: evaluateCallLimits_def alert_def Let_def)

lemma evaluateDataLimits_flags:
  "length (filter (\<lambda>a. al_Type a = ''data_limit_warning'') (snd (evaluateDataLimits fmt m))) + of_bool (tm_warnedData90 m) =
     of_bool (tm_warnedData90 (fst (evaluateDataLimits fmt m)))"
  "length (filter (\<lambda>a. al_Type a = ''data_limit_exceeded'') (snd (evaluateDataLimits fmt m))) + of_bool (tm_warnedDataExceeded m) =
     of_bool (tm_warnedDataExceeded (fst (evaluateDataLimits fmt m)))"
  by (simp_all add: evaluateDataLimits_def alert_def Let_def)

interpretation sms_warning: quota_alert "\<lambda>(env, n). RecordSMS env n" "''sms_limit_warning''" tm_warnedSMS90
proof
  fix x :: "Env \<times> int" and m
  obtain env n where x: "x = (env, n)" by fastforce
  show "length (filter (\<lambda>a. al_Type a = ''sms_limit_warning'') (snd ((\<lambda>(env, n). RecordSMS env n) x m))) + of_bool (tm_warnedSMS90 m) =
      of_bool (tm_warnedSMS90 (fst ((\<lambda>(env, n). RecordSMS env n) x m)))"
    using evaluateSMSLimits_flags(1) [of "m\<lparr>tm_smsDayCount := wrap64 (tm_smsDayCount m + n), tm_smsMonthCount := wrap64 (tm_smsMonthCount m + n)\<rparr>"] by (simp add: x RecordSMS_def Let_def split_beta)
qed

interpretation sms_exceeded: quota_alert "\<lambda>(env, n). RecordSMS env n" "''sms_limit_exceeded''" tm_warnedSMSExceeded
proof
  fix x :: "Env \<times> int" and m
  obtain env n where x: "x = (env, n)" by fastforce
  show "length (filter (\<lambda>a. al_Type a = ''sms_limit_exceeded'') (snd ((\<lambda>(env, n). RecordSMS env n) x m))) + of_bool (tm_warnedSMSExceeded m) =
      of_bool (tm_warnedSMSExceeded (fst ((\<lambda>(env, n). RecordSMS env n) x m)))"
    using evaluateSMSLimits_flags(2) [of "m\<lparr>tm_smsDayCount := wrap64 (tm_smsDayCount m + n), tm_smsMonthCount := wrap64 (tm_smsMonthCount m + n)\<rparr>"] by (simp add: x RecordSMS_def Let_def split_beta)
qed

interpretation call_warning: quota_alert "\<lambda>(env, d). RecordCallDuration fmt env d" "''call_limit_warning''" tm_warnedCall90 for fmt
proof
  fix x :: "Env \<times> int" and m
  obtain env n where x: "x = (env, n)" by fastforce
  show "length (filter (\<lambda>a. al_Type a = ''call_limit_warning'') (snd ((\<lambda>(env, d). RecordCallDuration fmt env d) x m))) + of_bool (tm_warnedCall90 m) =
      of_bool (tm_warnedCall90 (fst ((\<lambda>(env, d). RecordCallDuration fmt env d) x m)))"
    using evaluateCallLimits_flags(1) [of fmt "m\<lparr>tm_callMinutesUsed := tm_callMinutesUsed m + of_int n / 60000000000\<rparr>"] by (simp add: x RecordCallDuration_def RecordCallMinutes_def Let_def split_beta)
qed

interpretation call_exceeded: quota_alert "\<lambda>(env, d). RecordCallDuration fmt env d" "''call_limit_exceeded''" tm_warnedCallExceeded for fmt
proof
  fix x :: "Env \<times> int" and m
  obtain env n where x: "x = (env, n)" by fastforce
  show "length (filter (\<lambda>a. al_Type a = ''call_limit_exceeded'') (snd ((\<lambda>(env, d). RecordCallDuration fmt env d) x m))) + of_bool (tm_warnedCallExceeded m) =
      of_bool (tm_warnedCallExceeded (fst ((\<lambda>(env, d). RecordCallDuration fmt env d) x m)))"
    using evaluateCallLimits_flags(2) [of fmt "m\<lparr>tm_callMinutesUsed := tm_callMinutesUsed m + of_int n / 60000000000\<rparr>"] by (simp add: x RecordCallDuration_def RecordCallMinutes_def Let_def split_beta)
qed

interpretation data_warning: quota_alert "\<lambda>(env, n). RecordData fmt env n" "''data_limit_warning''" tm_warnedData90 for fmt
proof
  fix x :: "Env \<times> int" and m
  obtain env n where x: "x = (env, n)" by fastforce
  show "length (filter (\<lambda>a. al_Type a = ''data_limit_warning'') (snd ((\<lambda>(env, n). RecordData fmt env n) x m))) + of_bool (tm_warnedData90 m) =
      of_bool (tm_warnedData90 (fst ((\<lambda>(env, n). RecordData fmt env n) x m)))"
    using evaluateDataLimits_flags(1) [of fmt "m\<lparr>tm_dataBytesUsed := wrap64 (tm_dataBytesUsed m + n)\<rparr>"] by (simp add: x RecordData_def Let_def split_beta)
qed

interpretation data_exceeded: quota_alert "\<lambda>(env, n). RecordData fmt env n" "''data_limit_exceeded''" tm_warnedDataExceeded for fmt
proof
  fix x :: "Env \<times> int" and m
  obtain env n where x: "x = (env, n)" by fastforce
  show "length (filter (\<lambda>a. al_Type a = ''data_limit_exceeded'') (snd ((\<lambda>(env, n). RecordData fmt env n) x m))) + of_bool (tm_warnedDataExceeded m) =
      of_bool (tm_warnedDataExceeded (fst ((\<lambda>(env, n). RecordData fmt env n) x m)))"
    using evaluateDataLimits_flags(2) [of fmt "m\<lparr>tm_dataBytesUsed := wrap64 (tm_dataBytesUsed m + n)\<rparr>"] by (simp add: x RecordData_def Let_def split_beta)
qed

text \<open>The flag says that the quota is used up, when the counters do not overflow.\<close>

definition sms_flag_exact :: "Manager \<Rightarrow> bool" where
  "sms_flag_exact m \<longleftrightarrow> 0 < tc_SMSLimit (tm_cfg m) \<and> tm_onAlert m
     \<and> (tm_warnedSMSExceeded m \<longleftrightarrow> tc_SMSLimit (tm_cfg m) \<le> tm_smsMonthCount m)"

lemma RecordSMS_exact:
  assumes "sms_flag_exact m" "0 \<le> tm_smsMonthCount m" "0 \<le> n" "tm_smsMonthCount m + n < 2 ^ 63"
  shows "sms_flag_exact (fst (RecordSMS env n m)) \<and> tm_smsMonthCount (fst (RecordSMS env n m)) = tm_smsMonthCount m + n
    \<and> tc_SMSLimit (tm_cfg (fst (RecordSMS env n m))) = tc_SMSLimit (tm_cfg m)"
proof -
  have w: "wrap64 (tm_smsMonthCount m + n) = tm_smsMonthCount m + n" using assms by (intro wrap64_id) auto
  have r: "(1 \<le> (of_int k / of_int l :: rat)) \<longleftrightarrow> l \<le> k" if "0 < l" for k l :: int
    using that by (simp add: le_divide_eq)
  show ?thesis
    using assms by (simp add: RecordSMS_def evaluateSMSLimits_def sms_flag_exact_def Let_def w r) auto
qed

lemma RecordSMS_run_exact:
  assumes "sms_flag_exact m" "0 \<le> tm_smsMonthCount m" "\<forall>(env, n)\<in>set xs. 0 \<le> n"
    and "tm_smsMonthCount m + sum_list (map snd xs) < 2 ^ 63"
  shows "sms_flag_exact (fst (run (\<lambda>(env, n). RecordSMS env n) xs m))
    \<and> tm_smsMonthCount (fst (run (\<lambda>(env, n). RecordSMS env n) xs m)) = tm_smsMonthCount m + sum_list (map snd xs)
    \<and> tc_SMSLimit (tm_cfg (fst (run (\<lambda>(env, n). RecordSMS env n) xs m))) = tc_SMSLimit (tm_cfg m)"
  using assms
proof (induction xs arbitrary: m)
  case (Cons x xs)
  obtain env n where x: "x = (env, n)" by fastforce
  have s: "0 \<le> sum_list (map snd xs)" using Cons.prems(3) by (intro sum_list_nonneg) auto
  have "sms_flag_exact (fst (RecordSMS env n m)) \<and> tm_smsMonthCount (fst (RecordSMS env n m)) = tm_smsMonthCount m + n
    \<and> tc_SMSLimit (tm_cfg (fst (RecordSMS env n m))) = tc_SMSLimit (tm_cfg m)"
    by (rule RecordSMS_exact) (use Cons.prems x s in auto)
  then show ?case
    using Cons.IH [of "fst (RecordSMS env n m)"] Cons.prems x by (auto simp: Let_def split_beta)
qed simp

text \<open>Quota alerts: over any sequence of recorded messages since the quota was reset,
  the exceeded alert is raised exactly once if the monthly total reaches the limit and not at
  all otherwise, the 90 percent warning at most once, and the total is the sum of the counts.
\<close>

theorem sms_quota_alerts:
  assumes "0 < tc_SMSLimit (tm_cfg m)" "tm_onAlert m" "tm_smsMonthCount m = 0" "\<not> tm_warnedSMSExceeded m"
    and "\<forall>(env, n)\<in>set xs. 0 \<le> n" "sum_list (map snd xs) < 2 ^ 63"
    and "(m', outs) = run (\<lambda>(env, n). RecordSMS env n) xs m"
  shows "tm_smsMonthCount m' = sum_list (map snd xs)
    \<and> length (filter (\<lambda>a. al_Type a = ''sms_limit_exceeded'') (concat outs)) =
        (if tc_SMSLimit (tm_cfg m) \<le> sum_list (map snd xs) then 1 else 0)
    \<and> length (filter (\<lambda>a. al_Type a = ''sms_limit_warning'') (concat outs)) \<le> 1"
proof -
  have "sms_flag_exact m" using assms(1-4) by (simp add: sms_flag_exact_def)
  with RecordSMS_run_exact [of m xs] assms(3,5,6)
  have e: "sms_flag_exact (fst (run (\<lambda>(env, n). RecordSMS env n) xs m))
    \<and> tm_smsMonthCount (fst (run (\<lambda>(env, n). RecordSMS env n) xs m)) = sum_list (map snd xs)
    \<and> tc_SMSLimit (tm_cfg (fst (run (\<lambda>(env, n). RecordSMS env n) xs m))) = tc_SMSLimit (tm_cfg m)"
    by simp
  have mo: "m' = fst (run (\<lambda>(env, n). RecordSMS env n) xs m)" "outs = snd (run (\<lambda>(env, n). RecordSMS env n) xs m)"
    using assms(7) by (metis fst_conv, metis snd_conv)
  show ?thesis
    using e sms_exceeded.alerts_once [of xs m] sms_warning.alerts_once [of xs m] assms(4)
    unfolding mo by (auto simp: sms_flag_exact_def of_bool_def split: if_splits)
qed

definition demo_env :: Env where
  "demo_env = \<lparr>env_now = 1, env_today = ''2026-01-31'', env_month = ''2026-01'', env_saveOK = True\<rparr>"

definition demo_tariff :: TariffConfig where
  "demo_tariff = \<lparr>tc_Enabled = True, tc_OperatorPreset = [], tc_BalanceUSSD = [], tc_BalanceRegex = [],
     tc_AutoCheckOnError = False, tc_CheckInterval = 0, tc_MinBalanceAlert = 0, tc_SMSLimit = 10,
     tc_CallMinutesLimit = 0, tc_DataTrafficLimitMB = 0, tc_ResetDayOfMonth = 1, tc_StorageDir = ''/var''\<rparr>"

abbreviation demo_tm :: Manager where
  "demo_tm \<equiv> NewManager demo_env Map.empty ''m1'' demo_tariff True"

lemma demo_tm_simps:
  "tm_cfg demo_tm = demo_tariff" "tm_onAlert demo_tm" "tm_smsMonthCount demo_tm = 0" "\<not> tm_warnedSMSExceeded demo_tm"
  "tm_store demo_tm = Some Map.empty" "tm_modemID demo_tm = ''m1''" "tm_lastDailyResetDate demo_tm = []"
  "tm_lastMonthlyResetMonth demo_tm = []"
  by (simp_all add: NewManager_def SetStore_def restoreFromStore_def store_Load_def demo_tariff_def Let_def)

theorem sms_quota_alerts_witness:
  "tm_smsMonthCount (fst (run (\<lambda>(env, n). RecordSMS env n) [(demo_env, 9), (demo_env, 3), (demo_env, 4)] demo_tm)) = 16
   \<and> length (filter (\<lambda>a. al_Type a = ''sms_limit_exceeded'')
       (concat (snd (run (\<lambda>(env, n). RecordSMS env n) [(demo_env, 9), (demo_env, 3), (demo_env, 4)] demo_tm)))) = 1"
proof -
  let ?xs = "[(demo_env, 9), (demo_env, 3), (demo_env, 4 :: int)]"
  have "0 < tc_SMSLimit (tm_cfg demo_tm)" "tc_SMSLimit (tm_cfg demo_tm) \<le> sum_list (map snd ?xs)"
    unfolding demo_tm_simps by (simp_all add: demo_tariff_def)
  with sms_quota_alerts [of demo_tm ?xs, OF _ demo_tm_simps(2-4) _ _ prod.collapse]
  show ?thesis by simp
qed

section \<open>Persistence\<close>

text \<open>The interface \<^verbatim>\<open>Store\<close>: what is saved for a modem is loaded for it, and only for it.\<close>

locale state_store =
  fixes valid :: "gostring \<Rightarrow> bool" and save :: "gostring \<Rightarrow> 's \<Rightarrow> 'd \<Rightarrow> 'd" and load :: "gostring \<Rightarrow> 'd \<Rightarrow> 's option"
  assumes load_save: "load i (save i s d) = Some s"
    and load_other: "valid i \<Longrightarrow> valid j \<Longrightarrow> i \<noteq> j \<Longrightarrow> load j (save i s d) = load j d"
begin

lemma load_saves:
  assumes "valid i" "\<forall>(j, t)\<in>set ws. valid j \<and> j \<noteq> i"
  shows "load i (fold (\<lambda>(j, t). save j t) ws (save i s d)) = Some s"
  using assms(2)
proof (induction ws rule: rev_induct)
  case (snoc w ws)
  obtain j t where "w = (j, t)" by fastforce
  with snoc assms(1) show ?case using load_other [of j i t] by auto
qed (simp add: load_save)

end

definition safe_id :: "gostring \<Rightarrow> bool" where
  "safe_id i \<longleftrightarrow> i \<noteq> [] \<and> list_all safe_char (runes i)"

lemma store_filePath_safe: "safe_id i \<Longrightarrow> store_filePath i = ''tariff_'' @ i @ ''.json''"
proof -
  assume i: "safe_id i"
  then have "RuneError \<notin> set (runes i)"
    by (auto simp: safe_id_def list_all_iff safe_char_def is_digit_def RuneError_def)
  then have "string_of_runes (runes i) = i" by (rule string_of_runes_runes)
  moreover have "map (\<lambda>r. if safe_char r then r else 95) (runes i) = runes i"
    using i by (simp add: safe_id_def list_all_iff map_idI)
  ultimately show ?thesis using i by (simp add: store_filePath_def safe_id_def)
qed

interpretation file_store: state_store safe_id "store_Save True" store_Load
proof
  fix i j :: gostring and s :: TariffState and d :: disk
  show "store_Load i (store_Save True i s d) = Some s" by (simp add: store_Load_def store_Save_def)
  show "safe_id i \<Longrightarrow> safe_id j \<Longrightarrow> i \<noteq> j \<Longrightarrow> store_Load j (store_Save True i s d) = store_Load j d"
    by (simp add: store_Load_def store_Save_def store_filePath_safe)
qed

text \<open>
  The file store keeps the modems apart only up to the characters of their names:
  for names of letters, digits, underscore and hyphen the state saved for one modem is what
  is loaded for it, whatever is saved for others; but every other character is stored as an
  underscore, so two names that differ there share one file and the later save wins.
\<close>

theorem store_isolation:
  "(safe_id i \<and> (\<forall>(j, t)\<in>set ws. safe_id j \<and> j \<noteq> i) \<longrightarrow>
      store_Load i (fold (\<lambda>(j, t). store_Save True j t) ws (store_Save True i s d)) = Some s)
   \<and> (is_ascii a \<and> is_ascii b \<longrightarrow> store_Load (a @ ''.'' @ b) (store_Save True (a @ ''_'' @ b) s d) = Some s)"
proof (intro conjI impI)
  assume "safe_id i \<and> (\<forall>(j, t)\<in>set ws. safe_id j \<and> j \<noteq> i)"
  then show "store_Load i (fold (\<lambda>(j, t). store_Save True j t) ws (store_Save True i s d)) = Some s"
    by (intro file_store.load_saves) auto
next
  assume ab: "is_ascii a \<and> is_ascii b"
  then have r: "is_ascii (a @ ''.'' @ b)" "is_ascii (a @ ''_'' @ b)" by (auto simp: is_ascii_def list_all_iff)
  have "\<not> safe_char 46" "safe_char 95" by (simp_all add: safe_char_def is_digit_def)
  then have "store_filePath (a @ ''.'' @ b) = store_filePath (a @ ''_'' @ b)"
    unfolding store_filePath_def runes_ascii [OF r(1)] runes_ascii [OF r(2)] by simp
  then show "store_Load (a @ ''.'' @ b) (store_Save True (a @ ''_'' @ b) s d) = Some s"
    by (simp add: store_Load_def store_Save_def)
qed

theorem store_isolation_witness:
  "store_Load ''m1'' (fold (\<lambda>(j, t). store_Save True j t) [(''m2'', persisted_state demo_tm)]
      (store_Save True ''m1'' (persisted_state demo_tm) Map.empty)) = Some (persisted_state demo_tm)
   \<and> store_Load (''m'' @ ''.'' @ ''1'') (store_Save True (''m'' @ ''_'' @ ''1'') (persisted_state demo_tm) Map.empty) = Some (persisted_state demo_tm)"
proof -
  have "safe_id ''m1''" "safe_id ''m2''" "is_ascii ''m''" "is_ascii ''1''" by code_simp+
  then show ?thesis
    using store_isolation [of "''m1''" "[(''m2'', persisted_state demo_tm)]" "persisted_state demo_tm" Map.empty "''m''" "''1''"]
    by simp
qed

text \<open>Property C35. What a restart brings back: after an operation that saved its state, a new
  manager for the same modem has the balance, its time, the call minutes and the data volume
  of before; the daily and the monthly message count only if the day and the month of the
  last reset are still current, and else 0 (call minutes and data volume are kept even when
  the month has changed, unlike the monthly reset). The limits are those of the configuration
  passed to it: limits changed at run time are saved but not restored.
\<close>

theorem tariff_restart:
  assumes "tm_store m = Some d" "env_saveOK env" "tc_StorageDir cfg \<noteq> []" "tm_currency m \<noteq> []"
    and "m1 = persistLocked env m" "m2 = NewManager env2 (the (tm_store m1)) (tm_modemID m) cfg onAlert"
    and "date = tm_lastDailyResetDate m1" "month = tm_lastMonthlyResetMonth m1"
  shows "tm_balance m2 = tm_balance m \<and> tm_currency m2 = tm_currency m \<and> tm_lastBalanceCheck m2 = tm_lastBalanceCheck m
    \<and> tm_callMinutesUsed m2 = tm_callMinutesUsed m \<and> tm_dataBytesUsed m2 = tm_dataBytesUsed m
    \<and> tm_smsDayCount m2 = (if date = [] \<or> date = env_today env2 then tm_smsDayCount m else 0)
    \<and> tm_smsMonthCount m2 = (if month = [] \<or> month = env_month env2 then tm_smsMonthCount m else 0)
    \<and> tc_SMSLimit (tm_cfg m2) = tc_SMSLimit cfg \<and> tc_CallMinutesLimit (tm_cfg m2) = tc_CallMinutesLimit cfg
    \<and> tc_DataTrafficLimitMB (tm_cfg m2) = tc_DataTrafficLimitMB cfg"
  using assms
  by (simp add: NewManager_def SetStore_def restoreFromStore_def persistLocked_def persisted_state_def
      store_Load_def store_Save_def Let_def)

theorem tariff_restart_witness:
  "tm_callMinutesUsed (NewManager (demo_env\<lparr>env_today := ''2026-02-01'', env_month := ''2026-02''\<rparr>)
        (the (tm_store (persistLocked demo_env (demo_tm\<lparr>tm_callMinutesUsed := 5, tm_smsMonthCount := 3\<rparr>)))) ''m1'' demo_tariff True) = 5
   \<and> tm_smsMonthCount (NewManager (demo_env\<lparr>env_today := ''2026-02-01'', env_month := ''2026-02''\<rparr>)
        (the (tm_store (persistLocked demo_env (demo_tm\<lparr>tm_callMinutesUsed := 5, tm_smsMonthCount := 3\<rparr>)))) ''m1'' demo_tariff True) = 0"
proof -
  let ?m = "demo_tm\<lparr>tm_callMinutesUsed := 5, tm_smsMonthCount := 3\<rparr>"
  have "tm_store ?m = Some Map.empty" "tm_modemID ?m = ''m1''" using demo_tm_simps by simp_all
  moreover have "env_saveOK demo_env" "tc_StorageDir demo_tariff \<noteq> []" by (simp_all add: demo_env_def demo_tariff_def)
  moreover have "tm_currency ?m \<noteq> []" "tm_lastMonthlyResetMonth (persistLocked demo_env ?m) = ''2026-01''"
    by (simp_all add: NewManager_def SetStore_def restoreFromStore_def store_Load_def demo_tariff_def persistLocked_def
        demo_env_def Let_def)
  ultimately show ?thesis
    using tariff_restart [of ?m Map.empty demo_env demo_tariff "persistLocked demo_env ?m" _
        "demo_env\<lparr>env_today := ''2026-02-01'', env_month := ''2026-02''\<rparr>" True, OF _ _ _ _ refl refl refl refl]
    by simp
qed

text \<open>An alert that is lost: when the usage is set by hand to the limit or beyond, the
  flag of the exceeded alert is set but the alert itself is dropped, and no later recording of
  messages raises it until the monthly reset.
\<close>

theorem SetUsage_drops_alert:
  assumes "0 < tc_SMSLimit (tm_cfg m)" "tm_onAlert m" "uu_SMSMonthCount u = Some v" "tc_SMSLimit (tm_cfg m) \<le> v"
  shows "tm_warnedSMSExceeded (SetUsage fmt env u m)
    \<and> filter (\<lambda>a. al_Type a = ''sms_limit_exceeded'')
        (concat (snd (run (\<lambda>(env, n). RecordSMS env n) xs (SetUsage fmt env u m)))) = []"
proof -
  have r: "(1 \<le> (of_int v / of_int (tc_SMSLimit (tm_cfg m)) :: rat))" using assms(1,4) by (simp add: le_divide_eq)
  have "tm_warnedSMSExceeded (fst (evaluateCallLimits fmt x)) = tm_warnedSMSExceeded x"
    "tm_warnedSMSExceeded (fst (evaluateDataLimits fmt x)) = tm_warnedSMSExceeded x" for x
    by (simp_all add: evaluateCallLimits_def evaluateDataLimits_def Let_def)
  then have f: "tm_warnedSMSExceeded (SetUsage fmt env u m)"
    using assms r by (simp add: SetUsage_def Let_def override_def evaluateSMSLimits_def)
  with sms_exceeded.alerts_once [of xs "SetUsage fmt env u m"] show ?thesis
    by (simp add: of_bool_def split: if_splits)
qed

theorem SetUsage_drops_alert_witness:
  "tm_warnedSMSExceeded (SetUsage (\<lambda>_ _. []) demo_env
      \<lparr>uu_SMSDayCount = None, uu_SMSMonthCount = Some 12, uu_CallMinutesUsed = None, uu_DataBytesUsed = None\<rparr> demo_tm)"
proof -
  have "0 < tc_SMSLimit (tm_cfg demo_tm)" "tc_SMSLimit (tm_cfg demo_tm) \<le> 12"
    unfolding demo_tm_simps by (simp_all add: demo_tariff_def)
  moreover have "uu_SMSMonthCount \<lparr>uu_SMSDayCount = None, uu_SMSMonthCount = Some 12, uu_CallMinutesUsed = None,
      uu_DataBytesUsed = None\<rparr> = Some 12" by simp
  ultimately show ?thesis using SetUsage_drops_alert [OF _ demo_tm_simps(2)] by blast
qed

end
