(* ===== verification/AT_Engine.thy ===== *)
theory AT_Engine
  imports Event_Machine
begin

text \<open>
  The AT command engine (\<^verbatim>\<open>internal/modem/at/engine.go\<close>, \<^verbatim>\<open>urc.go\<close>). The read loop of \<^verbatim>\<open>Start\<close> is
  the function \<open>feed_byte\<close>, applied to the bytes in the order they are read; the commands are
  the sections of \<^verbatim>\<open>Send\<close> and \<^verbatim>\<open>SendPDU\<close> between two points where they wait, so that any
  interleaving of the reader with a waiting command is a sequence of events. A channel is its
  buffer: \<open>eng_respChan\<close> the response channel of the command in flight (capacity 1),
  \<open>eng_promptChan\<close> the prompt channel (\<open>None\<close> when nil), \<open>eng_urcChan\<close> the URC channel
  (capacity 100). \<open>eng_written\<close> is what was written to the port. A send that would block
  forever on a full channel and the use of a nil response are the value \<open>EngStuck\<close>.
\<close>

section \<open>State\<close>

record Response =
  Lines :: "gostring list"
  RespOK :: bool
  RespError :: bool

record Engine =
  eng_urcChan :: "gostring list"
  eng_inFlight :: bool
  eng_respChan :: "Response option"
  eng_currentResp :: "Response option"
  eng_activeCmd :: gostring
  eng_promptChan :: "bool option"
  eng_lineBuf :: gostring
  eng_written :: gostring

datatype at_error = ErrTimeout | ErrPromptTimeout | ErrCtx | ErrWrite | ErrCommandFailed | EngStuck

definition NewEngine :: Engine where
  "NewEngine = \<lparr>eng_urcChan = [], eng_inFlight = False, eng_respChan = None, eng_currentResp = None,
     eng_activeCmd = [], eng_promptChan = None, eng_lineBuf = [], eng_written = []\<rparr>"

definition emptyResponse :: Response where
  "emptyResponse = \<lparr>Lines = [], RespOK = False, RespError = False\<rparr>"

section \<open>Classification of lines\<close>

definition dispatchURC :: "gostring \<Rightarrow> Engine \<Rightarrow> Engine" where
  "dispatchURC line e = (if length (eng_urcChan e) < 100 then e\<lparr>eng_urcChan := eng_urcChan e @ [line]\<rparr> else e)"

definition isCallTerminationResponse :: "(rune \<Rightarrow> rune) \<Rightarrow> gostring \<Rightarrow> gostring \<Rightarrow> bool" where
  "isCallTerminationResponse up cmd line =
     (let upperCmd = strings_ToUpper up (TrimSpace cmd)
      in (HasPrefix upperCmd ''ATD'' \<or> upperCmd = ''ATA'' \<or> upperCmd = ''ATH'')
         \<and> line \<in> {''NO CARRIER'', ''BUSY'', ''NO ANSWER'', ''NO DIALTONE''})"

definition cut_at :: "gostring \<Rightarrow> gostring \<Rightarrow> gostring" where
  "cut_at stop clean = (case Index clean stop of Some idx \<Rightarrow> take idx clean | None \<Rightarrow> clean)"

definition isCommandResponse :: "(rune \<Rightarrow> rune) \<Rightarrow> gostring \<Rightarrow> gostring \<Rightarrow> bool" where
  "isCommandResponse up cmd line =
     (let upperCmd = strings_ToUpper up (TrimSpace cmd);
          upperLine = strings_ToUpper up (TrimSpace line)
      in if HasPrefix upperCmd ''AT''
         then let clean = fold cut_at [''?'', ''='', [CHR 0x0D], [CHR 0x0A]] (TrimPrefix upperCmd ''AT'')
              in clean \<noteq> [] \<and> HasPrefix upperLine (clean @ '':'')
         else False)"

definition urcPrefixes :: "gostring list" where
  "urcPrefixes = [''+CLIP:'', ''+CMTI:'', ''+CMT:'', ''+CDS:'', ''+DTMF:'',
     ''+CUSD:'', ''RING'', ''+CRING:'', ''+CREG:'',
     ''+CGREG:'', ''+CEREG:'', ''NO CARRIER'', ''+COLP:'',
     ''^ORIG:'', ''^CONN:'', ''^CEND:'', ''^RSSI:'', ''^MODE:'',
     ''^DSFLOWRPT:'', ''^BOOT:'', ''^SRVST:'',
     ''RDY'', ''Call Ready'', ''SMS Ready'', ''NORMAL POWER DOWN'',
     ''UNDER-VOLTAGE WARNNING'', ''UNDER-VOLTAGE POWER DOWN'',
     ''OVER-VOLTAGE WARNNING'', ''OVER-VOLTAGE POWER DOWN'',
     ''MODEM:STARTUP'', ''+PBREADY'', ''+ZUSIMR:'']"

definition isURC :: "gostring \<Rightarrow> bool" where
  "isURC line = list_ex (HasPrefix line) urcPrefixes"

section \<open>Reader\<close>

text \<open>Completion of the command in flight: the response is sent to its channel.\<close>

definition deliver :: "Response \<Rightarrow> Engine \<Rightarrow> at_error + Engine" where
  "deliver resp e =
     (if eng_respChan e \<noteq> None then Inl EngStuck
      else Inr (e\<lparr>eng_currentResp := Some resp, eng_respChan := Some resp, eng_inFlight := False\<rparr>))"

definition processLine :: "(rune \<Rightarrow> rune) \<Rightarrow> gostring \<Rightarrow> Engine \<Rightarrow> at_error + Engine" where
  "processLine up line e =
     (if \<not> eng_inFlight e then Inr (dispatchURC line e)
      else if line = eng_activeCmd e then Inr e
      else if isCallTerminationResponse up (eng_activeCmd e) line then
        (case eng_currentResp e of
           None \<Rightarrow> Inl EngStuck
         | Some r \<Rightarrow> deliver (r\<lparr>RespError := True, Lines := Lines r @ [line]\<rparr>) e)
      else if \<not> isCommandResponse up (eng_activeCmd e) line \<and> isURC line then Inr (dispatchURC line e)
      else
        (case eng_currentResp e of
           None \<Rightarrow> Inl EngStuck
         | Some r \<Rightarrow>
             if line = ''OK'' then deliver (r\<lparr>RespOK := True\<rparr>) e
             else if line = ''ERROR'' \<or> HasPrefix line ''+CME ERROR:'' \<or> HasPrefix line ''+CMS ERROR:''
             then deliver (r\<lparr>RespError := True, Lines := Lines r @ [line]\<rparr>) e
             else Inr (e\<lparr>eng_currentResp := Some (r\<lparr>Lines := Lines r @ [line]\<rparr>)\<rparr>)))"

definition feed_byte :: "(rune \<Rightarrow> rune) \<Rightarrow> char \<Rightarrow> Engine \<Rightarrow> at_error + Engine" where
  "feed_byte up b e =
     (if b = CHR ''>'' then
        Inr (e\<lparr>eng_promptChan := (case eng_promptChan e of None \<Rightarrow> None | Some _ \<Rightarrow> Some True), eng_lineBuf := []\<rparr>)
      else if b = CHR 0x0A then
        (let line = TrimSpace (eng_lineBuf e); e1 = e\<lparr>eng_lineBuf := []\<rparr>
         in if line \<noteq> [] \<and> line \<noteq> ''>'' then processLine up line e1 else Inr e1)
      else if b \<noteq> CHR 0x0D then
        (let buf = eng_lineBuf e @ [b]
         in Inr (e\<lparr>eng_lineBuf := (if 4096 < length buf then [] else buf)\<rparr>))
      else Inr e)"

fun feed :: "(rune \<Rightarrow> rune) \<Rightarrow> gostring \<Rightarrow> Engine \<Rightarrow> at_error + Engine" where
  "feed up [] e = Inr e"
| "feed up (b # bs) e = bind_res (feed_byte up b e) (feed up bs)"

section \<open>Commands\<close>

definition clearInFlight :: "Engine \<Rightarrow> Engine" where
  "clearInFlight e = e\<lparr>eng_inFlight := False, eng_currentResp := None, eng_activeCmd := [], eng_promptChan := None\<rparr>"

definition port_Write :: "gostring \<Rightarrow> Engine \<Rightarrow> Engine" where
  "port_Write s e = e\<lparr>eng_written := eng_written e @ s\<rparr>"

text \<open>\<^verbatim>\<open>Send\<close> up to the wait: a fresh response channel, then the command line.\<close>

definition Send_begin :: "bool \<Rightarrow> gostring \<Rightarrow> Engine \<Rightarrow> Engine \<times> at_error option" where
  "Send_begin writeOK cmd e =
     (let cleanCmd = TrimSpace cmd;
          e1 = e\<lparr>eng_inFlight := True, eng_respChan := None, eng_currentResp := Some emptyResponse, eng_activeCmd := cleanCmd\<rparr>
      in if writeOK then (port_Write (cleanCmd @ [CHR 0x0D, CHR 0x0A]) e1, None)
         else (clearInFlight e1, Some ErrWrite))"

text \<open>The wait of \<^verbatim>\<open>Send\<close>: the response if it is there, the timeout otherwise.\<close>

definition Send_end :: "bool \<Rightarrow> Engine \<Rightarrow> Engine \<times> (at_error + Response)" where
  "Send_end timedOut e =
     (if timedOut then (clearInFlight e, Inl ErrTimeout)
      else case eng_respChan e of
             Some r \<Rightarrow> (e\<lparr>eng_respChan := None\<rparr>, Inr r)
           | None \<Rightarrow> (clearInFlight e, Inl ErrTimeout))"

definition SendCommand_result :: "at_error + Response \<Rightarrow> gostring \<times> at_error option" where
  "SendCommand_result r = (case r of
     Inl err \<Rightarrow> ([], Some err)
   | Inr resp \<Rightarrow> (Join (Lines resp) [CHR 0x0A], if RespError resp then Some ErrCommandFailed else None))"

datatype pdu_phase =
    WaitPrompt gostring
  | PromptDelay gostring
  | WaitFinal
  | PduDone "at_error + Response"

datatype pdu_event = PCtxDone | PPrompt | PResp | PTimeout | PDelayOver bool

definition ESC :: gostring where "ESC = [CHR 0x1B]"

definition SendPDU_begin :: "bool \<Rightarrow> nat \<Rightarrow> gostring \<Rightarrow> Engine \<Rightarrow> Engine \<times> pdu_phase" where
  "SendPDU_begin writeOK cmdLength pduHex e =
     (let e1 = e\<lparr>eng_inFlight := True, eng_respChan := None, eng_promptChan := Some False,
               eng_currentResp := Some emptyResponse, eng_activeCmd := ''AT+CMGS''\<rparr>
      in if writeOK then (port_Write (''AT+CMGS='' @ nat_dec cmdLength @ [CHR 0x0D]) e1, WaitPrompt pduHex)
         else (clearInFlight e1, PduDone (Inl ErrWrite)))"

definition pdu_abort :: "at_error \<Rightarrow> Engine \<Rightarrow> Engine \<times> pdu_phase" where
  "pdu_abort err e = (clearInFlight (port_Write ESC e), PduDone (Inl err))"

text \<open>One step of a waiting \<^verbatim>\<open>SendPDU\<close>; an event that is not enabled leaves it waiting.\<close>

definition pdu_step :: "pdu_event \<Rightarrow> pdu_phase \<Rightarrow> Engine \<Rightarrow> Engine \<times> pdu_phase" where
  "pdu_step ev ph e = (case ph of
     WaitPrompt pduHex \<Rightarrow> (case ev of
         PCtxDone \<Rightarrow> pdu_abort ErrCtx e
       | PPrompt \<Rightarrow> (if eng_promptChan e = Some True
                    then (e\<lparr>eng_promptChan := Some False\<rparr>, PromptDelay pduHex) else (e, ph))
       | PResp \<Rightarrow> (case eng_respChan e of
                     Some r \<Rightarrow> (clearInFlight (e\<lparr>eng_respChan := None\<rparr>), PduDone (Inr r))
                   | None \<Rightarrow> (e, ph))
       | PTimeout \<Rightarrow> pdu_abort ErrPromptTimeout e
       | PDelayOver _ \<Rightarrow> (e, ph))
   | PromptDelay pduHex \<Rightarrow> (case ev of
         PCtxDone \<Rightarrow> pdu_abort ErrCtx e
       | PDelayOver writeOK \<Rightarrow> (if writeOK then (port_Write (pduHex @ [CHR 0x1A]) e, WaitFinal) else pdu_abort ErrWrite e)
       | _ \<Rightarrow> (e, ph))
   | WaitFinal \<Rightarrow> (case ev of
         PCtxDone \<Rightarrow> pdu_abort ErrCtx e
       | PResp \<Rightarrow> (case eng_respChan e of
                     Some r \<Rightarrow> (clearInFlight (e\<lparr>eng_respChan := None\<rparr>), PduDone (Inr r))
                   | None \<Rightarrow> (e, ph))
       | PTimeout \<Rightarrow> pdu_abort ErrTimeout e
       | _ \<Rightarrow> (e, ph))
   | PduDone r \<Rightarrow> (e, ph))"

section \<open>Invariant\<close>

definition eng_inv :: "Engine \<Rightarrow> bool" where
  "eng_inv e \<longleftrightarrow> (eng_inFlight e \<longrightarrow> eng_currentResp e \<noteq> None \<and> eng_respChan e = None)
     \<and> length (eng_urcChan e) \<le> 100 \<and> length (eng_lineBuf e) \<le> 4096"

lemma dispatchURC_inv: "eng_inv e \<Longrightarrow> eng_inv (dispatchURC line e)"
  by (simp add: eng_inv_def dispatchURC_def)

lemma processLine_inv:
  assumes "eng_inv e"
  obtains e' where "processLine up line e = Inr e'" "eng_inv e'" "eng_lineBuf e' = eng_lineBuf e"
proof -
  have "\<exists>e'. processLine up line e = Inr e' \<and> eng_inv e' \<and> eng_lineBuf e' = eng_lineBuf e"
  proof (cases "eng_inFlight e")
    case True
    then obtain r where "eng_currentResp e = Some r" "eng_respChan e = None" using assms by (auto simp: eng_inv_def)
    then show ?thesis
      using assms True dispatchURC_inv [OF assms, of line]
      by (simp add: processLine_def deliver_def eng_inv_def dispatchURC_def)
  next
    case False
    then show ?thesis using assms dispatchURC_inv [OF assms, of line] by (simp add: processLine_def dispatchURC_def)
  qed
  with that show ?thesis by blast
qed

lemma feed_byte_inv:
  assumes "eng_inv e"
  shows "\<exists>e'. feed_byte up b e = Inr e' \<and> eng_inv e'"
proof (cases "b = CHR 0x0A")
  case True
  have "eng_inv (e\<lparr>eng_lineBuf := []\<rparr>)" using assms by (simp add: eng_inv_def)
  then obtain e' where "processLine up (TrimSpace (eng_lineBuf e)) (e\<lparr>eng_lineBuf := []\<rparr>) = Inr e'" "eng_inv e'"
    by (rule processLine_inv)
  with True assms show ?thesis by (simp add: feed_byte_def eng_inv_def Let_def)
qed (use assms in \<open>auto simp: feed_byte_def eng_inv_def Let_def\<close>)

section \<open>Every interleaving\<close>

text \<open>The mutex \<^verbatim>\<open>cmdMu\<close> admits one command at a time.\<close>

datatype cmd_phase = NoCmd | InSend | InPDU pdu_phase

datatype eng_event =
    EvByte char
  | EvSend bool gostring
  | EvSendEnd bool
  | EvPDU bool nat gostring
  | EvPDUStep pdu_event
  | EvTakeURC

fun eng_step :: "(rune \<Rightarrow> rune) \<Rightarrow> eng_event \<Rightarrow> Engine \<times> cmd_phase \<Rightarrow> (Engine \<times> cmd_phase) \<times> at_error option" where
  "eng_step up (EvByte b) (e, ph) =
     (case feed_byte up b e of Inr e' \<Rightarrow> ((e', ph), None) | Inl err \<Rightarrow> ((e, ph), Some err))"
| "eng_step up (EvSend writeOK cmd) (e, ph) =
     (if ph = NoCmd then (case Send_begin writeOK cmd e of
          (e', None) \<Rightarrow> ((e', InSend), None) | (e', Some err) \<Rightarrow> ((e', NoCmd), Some err))
      else ((e, ph), None))"
| "eng_step up (EvSendEnd timedOut) (e, ph) =
     (if ph = InSend \<and> (timedOut \<or> eng_respChan e \<noteq> None) then ((fst (Send_end timedOut e), NoCmd), None)
      else ((e, ph), None))"
| "eng_step up (EvPDU writeOK n pduHex) (e, ph) =
     (if ph = NoCmd then (case SendPDU_begin writeOK n pduHex e of (e', p) \<Rightarrow> ((e', InPDU p), None))
      else ((e, ph), None))"
| "eng_step up (EvPDUStep ev) (e, ph) =
     (case ph of
        InPDU (PduDone r) \<Rightarrow> ((e, NoCmd), None)
      | InPDU p \<Rightarrow> (case pdu_step ev p e of (e', p') \<Rightarrow> ((e', InPDU p'), None))
      | _ \<Rightarrow> ((e, ph), None))"
| "eng_step up EvTakeURC (e, ph) = ((e\<lparr>eng_urcChan := drop 1 (eng_urcChan e)\<rparr>, ph), None)"

lemma clearInFlight_inv: "eng_inv e \<Longrightarrow> eng_inv (clearInFlight e)"
  by (simp add: eng_inv_def clearInFlight_def)

lemma pdu_step_inv: "eng_inv e \<Longrightarrow> eng_inv (fst (pdu_step ev p e))"
  by (auto simp: pdu_step_def pdu_abort_def eng_inv_def clearInFlight_def port_Write_def
      split: pdu_phase.splits pdu_event.splits option.splits)

lemma eng_step_inv:
  assumes "eng_inv (fst s)"
  shows "eng_inv (fst (fst (eng_step up ev s))) \<and> snd (eng_step up ev s) \<noteq> Some EngStuck"
proof -
  obtain e ph where s: "s = (e, ph)" by fastforce
  have i: "eng_inv e" using assms s by simp
  show ?thesis
  proof (cases ev)
    case (EvByte b)
    then show ?thesis using feed_byte_inv [OF i, of up b] s by auto
  next
    case (EvPDUStep pe)
    then show ?thesis
      using pdu_step_inv [OF i, of pe] i s by (auto split: cmd_phase.splits pdu_phase.splits prod.splits) (metis fst_conv)+
  qed (use i s in \<open>auto simp: Send_begin_def Send_end_def SendPDU_begin_def eng_inv_def clearInFlight_def
        port_Write_def Let_def split: option.splits prod.splits if_splits\<close>)
qed

interpretation eng: event_machine "eng_step up" "\<lambda>s. eng_inv (fst s)" for up
  by unfold_locales (use eng_step_inv in blast)

text \<open>Property C17. In every interleaving of received bytes, commands, PDU transmissions, timeouts and
  URC consumers, the reader neither blocks on a response channel nor uses a nil response, the
  URC queue stays within its 100 places and the line buffer within 4096 bytes.
\<close>

theorem engine_never_stuck:
  assumes "run (eng_step up) es (NewEngine, NoCmd) = ((e, ph), outs)"
  shows "Some EngStuck \<notin> set outs \<and> length (eng_urcChan e) \<le> 100 \<and> length (eng_lineBuf e) \<le> 4096
    \<and> (eng_inFlight e \<longrightarrow> eng_currentResp e \<noteq> None \<and> eng_respChan e = None)"
proof -
  have i: "eng_inv (fst (NewEngine, NoCmd))" by (simp add: eng_inv_def NewEngine_def)
  have "list_all (\<lambda>out. out \<noteq> Some EngStuck) (snd (run (eng_step up) es (NewEngine, NoCmd)))"
    by (rule eng.run_outputs [OF _ i]) (use eng_step_inv in blast)
  moreover have "eng_inv (fst (fst (run (eng_step up) es (NewEngine, NoCmd))))" by (rule eng.run_inv [OF i])
  ultimately show ?thesis using assms by (auto simp: list_all_iff eng_inv_def)
qed

theorem engine_never_stuck_witness:
  "eng_urcChan (fst (fst (run (eng_step id) (EvSend True ''AT'' # map EvByte ''RING'' @ [EvByte (CHR 0x0A)]) (NewEngine, NoCmd)))) = [''RING'']
   \<and> length (eng_urcChan (fst (fst (run (eng_step id) (EvSend True ''AT'' # map EvByte ''RING'' @ [EvByte (CHR 0x0A)]) (NewEngine, NoCmd))))) \<le> 100"
proof
  show "eng_urcChan (fst (fst (run (eng_step id) (EvSend True ''AT'' # map EvByte ''RING'' @ [EvByte (CHR 0x0A)]) (NewEngine, NoCmd)))) = [''RING'']"
    by code_simp
  define r where "r = run (eng_step id) (EvSend True ''AT'' # map EvByte ''RING'' @ [EvByte (CHR 0x0A)]) (NewEngine, NoCmd)"
  have "r = ((fst (fst r), snd (fst r)), snd r)" by simp
  from engine_never_stuck [OF this [unfolded r_def]]
  show "length (eng_urcChan (fst (fst (run (eng_step id)
      (EvSend True ''AT'' # map EvByte ''RING'' @ [EvByte (CHR 0x0A)]) (NewEngine, NoCmd))))) \<le> 100"
    by (elim conjE)
qed

section \<open>Framing and routing of lines\<close>

definition plain_line :: "gostring \<Rightarrow> bool" where
  "plain_line l \<longleftrightarrow> l \<noteq> [] \<and> TrimSpace l = l \<and> length l \<le> 4096
     \<and> CHR ''>'' \<notin> set l \<and> CHR 0x0A \<notin> set l \<and> CHR 0x0D \<notin> set l"

definition CRLF :: gostring where "CRLF = [CHR 0x0D, CHR 0x0A]"

lemma feed_append: "feed up (xs @ ys) e = bind_res (feed up xs e) (feed up ys)"
proof (induction xs arbitrary: e)
  case (Cons x xs)
  then show ?case by (cases "feed_byte up x e") simp_all
qed simp

lemma feed_chars:
  assumes "CHR ''>'' \<notin> set l" "CHR 0x0A \<notin> set l" "CHR 0x0D \<notin> set l" "length (eng_lineBuf e) + length l \<le> 4096"
  shows "feed up l e = Inr (e\<lparr>eng_lineBuf := eng_lineBuf e @ l\<rparr>)"
  using assms
proof (induction l arbitrary: e)
  case (Cons c l)
  have "c \<noteq> CHR ''>''" "c \<noteq> CHR 0x0A" "c \<noteq> CHR 0x0D" using Cons.prems(1-3) by auto
  then have "feed_byte up c e = Inr (e\<lparr>eng_lineBuf := eng_lineBuf e @ [c]\<rparr>)"
    using Cons.prems(4) by (simp add: feed_byte_def)
  with Cons show ?case by simp
qed simp

lemma feed_line:
  assumes "plain_line l" "eng_lineBuf e = []"
  shows "feed up (l @ CRLF) e = processLine up l e"
proof -
  have l: "feed up l e = Inr (e\<lparr>eng_lineBuf := l\<rparr>)" using assms feed_chars [of l e up] by (simp add: plain_line_def)
  have "l \<noteq> ''>''" using assms(1) by (auto simp: plain_line_def)
  moreover have "e\<lparr>eng_lineBuf := []\<rparr> = e" using assms(2) by simp
  ultimately have "feed up CRLF (e\<lparr>eng_lineBuf := l\<rparr>) = processLine up l e"
    using assms(1) by (cases "processLine up l e") (simp_all add: CRLF_def feed_byte_def plain_line_def)
  with l show ?thesis by (simp add: feed_append)
qed

fun process_lines :: "(rune \<Rightarrow> rune) \<Rightarrow> gostring list \<Rightarrow> Engine \<Rightarrow> at_error + Engine" where
  "process_lines up [] e = Inr e"
| "process_lines up (l # ls) e = bind_res (processLine up l e) (process_lines up ls)"

lemma feed_lines:
  assumes "list_all plain_line ls" "eng_inv e" "eng_lineBuf e = []"
  shows "feed up (concat (map (\<lambda>l. l @ CRLF) ls)) e = process_lines up ls e"
  using assms
proof (induction ls arbitrary: e)
  case (Cons l ls)
  obtain e' where "processLine up l e = Inr e'" "eng_inv e'" "eng_lineBuf e' = eng_lineBuf e"
    using processLine_inv [OF Cons.prems(2)] .
  with Cons show ?case using feed_line [of l e up] feed_append [of up "l @ CRLF"] by simp
qed simp

text \<open>How a line is routed while a command is in flight.\<close>

definition routes_urc :: "(rune \<Rightarrow> rune) \<Rightarrow> gostring \<Rightarrow> gostring \<Rightarrow> bool" where
  "routes_urc up cmd l \<longleftrightarrow> l \<noteq> cmd \<and> \<not> isCommandResponse up cmd l \<and> isURC l"

definition routes_body :: "(rune \<Rightarrow> rune) \<Rightarrow> gostring \<Rightarrow> gostring \<Rightarrow> bool" where
  "routes_body up cmd l \<longleftrightarrow> l \<noteq> cmd \<and> (isCommandResponse up cmd l \<or> \<not> isURC l)"

definition final_line :: "(rune \<Rightarrow> rune) \<Rightarrow> gostring \<Rightarrow> gostring \<Rightarrow> bool" where
  "final_line up cmd l \<longleftrightarrow> isCallTerminationResponse up cmd l \<or> l = ''OK'' \<or> l = ''ERROR''
     \<or> HasPrefix l ''+CME ERROR:'' \<or> HasPrefix l ''+CMS ERROR:''"

lemma dispatchURC_take:
  "length (eng_urcChan e) \<le> 100 \<Longrightarrow> dispatchURC l e = e\<lparr>eng_urcChan := take 100 (eng_urcChan e @ [l])\<rparr>"
  by (cases "length (eng_urcChan e) < 100") (simp_all add: dispatchURC_def)

lemma take_take_append: "take n (take n xs @ ys) = take n (xs @ ys)"
  by (simp add: min_def)

lemma process_body:
  assumes "eng_inFlight e" "eng_activeCmd e = cmd" "eng_currentResp e = Some r" "\<forall>l\<in>set ls. \<not> final_line up cmd l"
    and "length (eng_urcChan e) \<le> 100"
  shows "process_lines up ls e = Inr (e\<lparr>eng_currentResp := Some (r\<lparr>Lines := Lines r @ filter (routes_body up cmd) ls\<rparr>),
    eng_urcChan := take 100 (eng_urcChan e @ filter (routes_urc up cmd) ls)\<rparr>)"
  using assms
proof (induction ls arbitrary: e r)
  case (Cons l ls)
  have nf: "\<not> final_line up cmd l" using Cons.prems(4) by simp
  consider "l = cmd" | "routes_urc up cmd l" "\<not> routes_body up cmd l" | "routes_body up cmd l" "\<not> routes_urc up cmd l"
    by (auto simp: routes_urc_def routes_body_def)
  then show ?case
  proof cases
    case 1
    then have "processLine up l e = Inr e" using Cons.prems by (simp add: processLine_def)
    with 1 Cons.prems Cons.IH [of e r] show ?thesis by (simp add: routes_urc_def routes_body_def)
  next
    case 2
    then have "processLine up l e = Inr (dispatchURC l e)"
      using Cons.prems nf by (auto simp: processLine_def routes_urc_def final_line_def)
    with 2 Cons.prems Cons.IH [of "dispatchURC l e" r] show ?thesis
      by (simp add: dispatchURC_take take_take_append del: take_append)
  next
    case 3
    then have "processLine up l e = Inr (e\<lparr>eng_currentResp := Some (r\<lparr>Lines := Lines r @ [l]\<rparr>)\<rparr>)"
      using Cons.prems nf by (auto simp: processLine_def routes_body_def final_line_def)
    with 3 Cons.prems Cons.IH [of "e\<lparr>eng_currentResp := Some (r\<lparr>Lines := Lines r @ [l]\<rparr>)\<rparr>" "r\<lparr>Lines := Lines r @ [l]\<rparr>"]
    show ?thesis by simp
  qed
qed simp

lemma prefixes_apart:
  assumes "HasPrefix l p" "list_all (\<lambda>q. \<not> HasPrefix p q \<and> \<not> HasPrefix q p) ps"
  shows "\<not> list_ex (HasPrefix l) ps"
  using assms prefix_same_cases by (force simp: list_all_iff list_ex_iff HasPrefix_conv_prefix)

lemma error_lines_not_URC:
  assumes "l = ''OK'' \<or> l = ''ERROR'' \<or> HasPrefix l ''+CME ERROR:'' \<or> HasPrefix l ''+CMS ERROR:''"
  shows "\<not> isURC l"
proof -
  have "list_all (\<lambda>p. list_all (\<lambda>q. \<not> HasPrefix p q \<and> \<not> HasPrefix q p) urcPrefixes)
    [''OK'', ''ERROR'', ''+CME ERROR:'', ''+CMS ERROR:'']" by code_simp
  moreover have "HasPrefix l ''OK'' \<or> HasPrefix l ''ERROR'' \<or> HasPrefix l ''+CME ERROR:'' \<or> HasPrefix l ''+CMS ERROR:''"
    using assms by (auto simp: HasPrefix_def)
  ultimately show ?thesis using prefixes_apart [of l _ urcPrefixes] by (auto simp: isURC_def)
qed

definition final_response :: "gostring \<Rightarrow> Response \<Rightarrow> Response" where
  "final_response l r = (if l = ''OK'' then r\<lparr>RespOK := True\<rparr> else r\<lparr>RespError := True, Lines := Lines r @ [l]\<rparr>)"

lemma process_final:
  assumes "eng_inFlight e" "eng_currentResp e = Some r" "eng_respChan e = None"
    and "final_line up (eng_activeCmd e) l" "l \<noteq> eng_activeCmd e"
  shows "processLine up l e = deliver (final_response l r) e"
proof (cases "isCallTerminationResponse up (eng_activeCmd e) l")
  case True
  then have "l \<noteq> ''OK''" by (auto simp: isCallTerminationResponse_def Let_def)
  with True assms show ?thesis by (simp add: processLine_def final_response_def)
next
  case False
  then have l: "l = ''OK'' \<or> l = ''ERROR'' \<or> HasPrefix l ''+CME ERROR:'' \<or> HasPrefix l ''+CMS ERROR:''"
    using assms(4) by (simp add: final_line_def)
  then have "\<not> isURC l" by (rule error_lines_not_URC)
  with False l assms show ?thesis by (auto simp: processLine_def final_response_def)
qed

lemma process_lines_append: "process_lines up (xs @ ys) e = bind_res (process_lines up xs e) (process_lines up ys)"
proof (induction xs arbitrary: e)
  case (Cons x xs)
  then show ?case by (cases "processLine up x e") simp_all
qed simp

text \<open>The response of the command in flight: all the lines of the modem up to the final one.\<close>

definition response_of_lines :: "(rune \<Rightarrow> rune) \<Rightarrow> gostring \<Rightarrow> gostring list \<Rightarrow> gostring \<Rightarrow> Response" where
  "response_of_lines up cmd ls fin = \<lparr>Lines = filter (routes_body up cmd) ls @ (if fin = ''OK'' then [] else [fin]),
     RespOK = (fin = ''OK''), RespError = (fin \<noteq> ''OK'')\<rparr>"

lemma response_cycle:
  assumes "eng_inv e" "eng_lineBuf e = []" "eng_inFlight e" "eng_currentResp e = Some emptyResponse" "list_all plain_line (ls @ [fin])"
    and "\<forall>l\<in>set ls. \<not> final_line up (eng_activeCmd e) l" "final_line up (eng_activeCmd e) fin" "fin \<noteq> eng_activeCmd e"
  shows "feed up (concat (map (\<lambda>l. l @ CRLF) (ls @ [fin]))) e =
    Inr (e\<lparr>eng_currentResp := Some (response_of_lines up (eng_activeCmd e) ls fin), eng_respChan := Some (response_of_lines up (eng_activeCmd e) ls fin),
      eng_inFlight := False, eng_urcChan := take 100 (eng_urcChan e @ filter (routes_urc up (eng_activeCmd e)) ls)\<rparr>)"
proof -
  let ?r = "emptyResponse\<lparr>Lines := Lines emptyResponse @ filter (routes_body up (eng_activeCmd e)) ls\<rparr>"
  define b where "b = e\<lparr>eng_currentResp := Some ?r, eng_urcChan := take 100 (eng_urcChan e @ filter (routes_urc up (eng_activeCmd e)) ls)\<rparr>"
  have i: "eng_respChan e = None" "length (eng_urcChan e) \<le> 100" using assms(1,3) by (simp_all add: eng_inv_def)
  have "process_lines up ls e = Inr b"
    unfolding b_def using assms i by (intro process_body) simp_all
  moreover have "processLine up fin b = deliver (final_response fin ?r) b"
    using assms i by (intro process_final) (simp_all add: b_def)
  moreover have "final_response fin ?r = response_of_lines up (eng_activeCmd e) ls fin"
    by (simp add: final_response_def emptyResponse_def response_of_lines_def)
  ultimately show ?thesis
    using i feed_lines [OF assms(5,1,2), of up] by (simp add: process_lines_append deliver_def b_def)
qed

text \<open>One command from \<^verbatim>\<open>Send\<close> to its response: the engine is ready for the next command afterwards.\<close>

lemma send_cycle:
  assumes "eng_inv e" "eng_lineBuf e = []" "list_all plain_line (ls @ [fin])"
    and "\<forall>l\<in>set ls. \<not> final_line up (TrimSpace cmd) l" "final_line up (TrimSpace cmd) fin" "fin \<noteq> TrimSpace cmd"
  obtains e' where "feed up (concat (map (\<lambda>l. l @ CRLF) (ls @ [fin]))) (fst (Send_begin True cmd e)) = Inr e'"
    "eng_written e' = eng_written e @ TrimSpace cmd @ CRLF"
    "eng_urcChan e' = take 100 (eng_urcChan e @ filter (routes_urc up (TrimSpace cmd)) ls)"
    "\<not> eng_inFlight e'" "eng_inv (fst (Send_end False e'))" "eng_lineBuf e' = []"
    "snd (Send_end False e') = Inr (response_of_lines up (TrimSpace cmd) ls fin)"
proof -
  let ?e = "fst (Send_begin True cmd e)"
  have e: "eng_inv ?e" "eng_lineBuf ?e = []" "eng_inFlight ?e" "eng_currentResp ?e = Some emptyResponse" "eng_activeCmd ?e = TrimSpace cmd"
      "eng_urcChan ?e = eng_urcChan e" "eng_written ?e = eng_written e @ TrimSpace cmd @ CRLF"
    using assms(1,2) by (simp_all add: Send_begin_def eng_inv_def port_Write_def CRLF_def Let_def)
  show ?thesis
    by (rule that [OF response_cycle [OF e(1-4) assms(3)]])
      (use assms(4-6) e in \<open>simp_all add: Send_end_def eng_inv_def del: take_append\<close>)
qed



text \<open>
  The reader takes any \<^verbatim>\<open>>\<close> byte for the prompt of a PDU transmission, also in
  the middle of a line: what was read of that line before it is discarded, so a response line
  that contains the character reaches the caller without its beginning.
\<close>

theorem prompt_byte_cuts_line:
  assumes "eng_lineBuf e = []" "plain_line b" "CHR ''>'' \<notin> set a" "CHR 0x0A \<notin> set a" "CHR 0x0D \<notin> set a" "length a \<le> 4096"
  shows "feed up (a @ CHR ''>'' # b @ CRLF) e
    = feed up (b @ CRLF) (e\<lparr>eng_promptChan := map_option (\<lambda>_. True) (eng_promptChan e)\<rparr>)"
proof -
  have a: "feed up a e = Inr (e\<lparr>eng_lineBuf := a\<rparr>)" using assms feed_chars [of a e up] by simp
  have "feed_byte up (CHR ''>'') (e\<lparr>eng_lineBuf := a\<rparr>) = Inr (e\<lparr>eng_promptChan := map_option (\<lambda>_. True) (eng_promptChan e)\<rparr>)"
    using assms(1) by (cases "eng_promptChan e") (simp_all add: feed_byte_def)
  then show ?thesis by (simp add: feed_append [of up a] a)
qed

theorem prompt_byte_cuts_line_witness:
  "feed id (''+CUSD: 0,\"1'' @ CHR ''>'' # ''2\",15'' @ CRLF) NewEngine = Inr (NewEngine\<lparr>eng_urcChan := [''2\",15'']\<rparr>)"
proof -
  have h: "eng_lineBuf NewEngine = []" "plain_line ''2\",15''" "CHR ''>'' \<notin> set ''+CUSD: 0,\"1''" "CHR 0x0A \<notin> set ''+CUSD: 0,\"1''"
      "CHR 0x0D \<notin> set ''+CUSD: 0,\"1''" "length ''+CUSD: 0,\"1'' \<le> 4096"
    by code_simp+
  have "feed id (''2\",15'' @ CRLF) NewEngine = Inr (NewEngine\<lparr>eng_urcChan := [''2\",15'']\<rparr>)" by code_simp
  moreover have "NewEngine\<lparr>eng_promptChan := map_option (\<lambda>_. True) (eng_promptChan NewEngine)\<rparr> = NewEngine"
    by (simp add: NewEngine_def)
  ultimately show ?thesis using prompt_byte_cuts_line [OF h] by simp
qed

end
