(* ===== verification/SMS_Service.thy ===== *)
theory SMS_Service
  imports PDU_Network SMS_Assembler SMS_Validator Rate_Limiter
begin

text \<open>
  The SMS service (\<^verbatim>\<open>internal/services/sms.go\<close>, \<^verbatim>\<open>sms_urc.go\<close>, \<^verbatim>\<open>sms_storage.go\<close>), which
  composes the number filter, the rate limiter, the validator, the encoder, the delivery tracker and
  the assembler. What the service does to the outside is the list of its effects, in order:
  PDUs handed to the modem, delivery events, received messages, storage commands. The modem
  behind the interfaces \<^verbatim>\<open>PDUSender\<close> and \<^verbatim>\<open>StorageManager\<close> is a parameter that answers the
  n-th call; the clock readings come with the calls. \<open>svc_refCounter\<close> is the package variable
  \<^verbatim>\<open>refCounter\<close> of the encoder.
\<close>

section \<open>State\<close>

record SMSServiceConfig =
  sc_ModemID :: gostring
  sc_Transliterate :: bool
  sc_DeliveryReport :: bool
  sc_DefaultPrefix :: gostring

record SendSMSRequest =
  rq_To :: gostring
  rq_Text :: gostring
  rq_Message :: gostring
  rq_DeliveryReport :: bool

definition GetText :: "SendSMSRequest \<Rightarrow> gostring" where
  "GetText r = (if rq_Text r \<noteq> [] then rq_Text r else rq_Message r)"

record SMSService =
  svc_cfg :: SMSServiceConfig
  svc_filter :: "Filter option"
  svc_limiter :: "RateLimiter option"
  svc_tracker :: "Tracker option"
  svc_assembler :: "Assembler option"
  svc_onReceived :: bool
  svc_storageMgr :: bool
  expectingCMT :: bool
  expectingCDS :: bool
  svc_refCounter :: byte

record StoredMessage =
  stm_Index :: int
  stm_Status :: int
  stm_PDUHex :: gostring

record StorageStatus =
  sst_Name :: gostring
  sst_Used :: int
  sst_Total :: int

datatype svc_error =
    SvcPolicy sec_error
  | SvcNumber sms_error
  | SvcText sms_error
  | SvcEncode pdu_error
  | SvcPart nat nat gostring
  | SvcCtx
  | SvcNoStorage

datatype effect =
    PduTx nat gostring
  | StatusEvent DeliveryEvent
  | Received AssembledSMS
  | SpawnSync "gostring list"
  | SelectStorage gostring
  | ListMessages
  | DeleteMessage int

definition NewSMSService :: "byte \<Rightarrow> SMSServiceConfig \<Rightarrow> Filter option \<Rightarrow> RateLimiter option \<Rightarrow> Tracker option
    \<Rightarrow> Assembler option \<Rightarrow> bool \<Rightarrow> SMSService" where
  "NewSMSService refCounter cfg flt limiter tracker assembler onReceived =
     \<lparr>svc_cfg = (if sc_DefaultPrefix cfg = [] then cfg\<lparr>sc_DefaultPrefix := ''+7''\<rparr> else cfg),
      svc_filter = flt, svc_limiter = limiter, svc_tracker = tracker,
      svc_assembler = (if onReceived then map_option (SetFlushHandler True) assembler else assembler),
      svc_onReceived = onReceived, svc_storageMgr = False, expectingCMT = False, expectingCDS = False,
      svc_refCounter = refCounter\<rparr>"

section \<open>Sending\<close>

type_synonym pdu_sender = "nat \<Rightarrow> nat \<Rightarrow> gostring \<Rightarrow> gostring + byte"

definition checkFilter :: "(rune \<Rightarrow> bool) \<Rightarrow> (rune \<Rightarrow> rune) \<Rightarrow> gostring \<Rightarrow> SMSService \<Rightarrow> sec_error option" where
  "checkFilter lt up dest s = (case svc_filter s of None \<Rightarrow> None | Some f \<Rightarrow> FilterCheck lt up f dest)"

definition checkLimiter :: "(rune \<Rightarrow> bool) \<Rightarrow> (rune \<Rightarrow> rune) \<Rightarrow> instant \<Rightarrow> gostring \<Rightarrow> SMSService \<Rightarrow> SMSService \<times> sec_error option" where
  "checkLimiter lt up now dest s = (case svc_limiter s of
     None \<Rightarrow> (s, None)
   | Some r \<Rightarrow> (let (r1, err) = RateCheck lt up now dest r in (s\<lparr>svc_limiter := Some r1\<rparr>, err)))"

definition trackPart :: "instant \<Rightarrow> byte \<Rightarrow> gostring \<Rightarrow> SMSService \<Rightarrow> SMSService \<times> effect list" where
  "trackPart now ref normNumber s = (case svc_tracker s of
     None \<Rightarrow> (s, [])
   | Some t \<Rightarrow> (let (t1, ev) = Track now ref normNumber (sc_ModemID (svc_cfg s)) t
               in (s\<lparr>svc_tracker := Some t1\<rparr>, case ev of Some e \<Rightarrow> [StatusEvent e] | None \<Rightarrow> [])))"

text \<open>\<open>i\<close> PDUs are already sent; \<open>clk (i + 1)\<close> is the clock when part \<open>i + 1\<close> is tracked.\<close>

fun dispatchPDUs :: "pdu_sender \<Rightarrow> (nat \<Rightarrow> instant) \<Rightarrow> gostring \<Rightarrow> bool \<Rightarrow> nat \<Rightarrow> nat \<Rightarrow> PDU list \<Rightarrow> SMSService
    \<Rightarrow> SMSService \<times> effect list \<times> (svc_error + byte list)" where
  "dispatchPDUs sender clk normNumber requestReport n i [] s = (s, [], Inr [])"
| "dispatchPDUs sender clk normNumber requestReport n i (p # ps) s =
     (case sender i (CommandLength p) (Hex p) of
        Inl err \<Rightarrow> (s, [PduTx (CommandLength p) (Hex p)], Inl (SvcPart (i + 1) n err))
      | Inr ref \<Rightarrow>
          (let (s1, evs) = (if requestReport then trackPart (clk (i + 1)) ref normNumber s else (s, []));
               (s2, effs, res) = dispatchPDUs sender clk normNumber requestReport n (i + 1) ps s1
           in (s2, PduTx (CommandLength p) (Hex p) # evs @ effs, map_sum id ((#) ref) res)))"

definition outgoing_text :: "SendSMSRequest \<Rightarrow> SMSService \<Rightarrow> gostring" where
  "outgoing_text req s = (if sc_Transliterate (svc_cfg s) then Transliterate (rq_Text req) else rq_Text req)"

definition wants_report :: "SendSMSRequest \<Rightarrow> SMSService \<Rightarrow> bool" where
  "wants_report req s \<longleftrightarrow> rq_DeliveryReport req \<or> sc_DeliveryReport (svc_cfg s)"

definition Send :: "(rune \<Rightarrow> bool) \<Rightarrow> (rune \<Rightarrow> rune) \<Rightarrow> pdu_sender \<Rightarrow> (nat \<Rightarrow> instant) \<Rightarrow> SendSMSRequest \<Rightarrow> SMSService
    \<Rightarrow> SMSService \<times> effect list \<times> (svc_error + byte list)" where
  "Send lt up sender clk req s =
     (case checkFilter lt up (rq_To req) s of
        Some err \<Rightarrow> (s, [], Inl (SvcPolicy err))
      | None \<Rightarrow>
     (case checkLimiter lt up (clk 0) (rq_To req) s of
        (s1, Some err) \<Rightarrow> (s1, [], Inl (SvcPolicy err))
      | (s1, None) \<Rightarrow>
     (case NormalizePhoneNumber (rq_To req) (sc_DefaultPrefix (svc_cfg s1)) of
        Inl err \<Rightarrow> (s1, [], Inl (SvcNumber err))
      | Inr normNumber \<Rightarrow>
     (case ValidateMessageText (rq_Text req) of
        Some err \<Rightarrow> (s1, [], Inl (SvcText err))
      | None \<Rightarrow>
     (case EncodeSMS (svc_refCounter s1) normNumber (outgoing_text req s1) EncodingAuto (wants_report req s1) of
        (Inl err, rc) \<Rightarrow> (s1\<lparr>svc_refCounter := rc\<rparr>, [], Inl (SvcEncode err))
      | (Inr pdus, rc) \<Rightarrow>
          dispatchPDUs sender clk normNumber (wants_report req s1) (length pdus) 0 pdus (s1\<lparr>svc_refCounter := rc\<rparr>))))))"

section \<open>Receiving\<close>

definition is_hex_rune :: "rune \<Rightarrow> bool" where
  "is_hex_rune r \<longleftrightarrow> is_digit r \<or> (65 \<le> r \<and> r \<le> 70) \<or> (97 \<le> r \<and> r \<le> 102)"

definition isHexPDU :: "gostring \<Rightarrow> bool" where
  "isHexPDU s \<longleftrightarrow> \<not> length s < 10 \<and> list_all is_hex_rune (runes s)"

definition extractLastHexToken :: "gostring \<Rightarrow> gostring" where
  "extractLastHexToken s = (let parts = Fields s in if parts = [] then [] else last parts)"

definition incoming_part :: "DecodedSMS \<Rightarrow> IncomingPart" where
  "incoming_part d = \<lparr>In_From = SmsFrom d, In_Text = SmsText d, In_Timestamp = SmsTimestamp d, IsMultipart = SmsHasUDH d,
     In_Reference = SmsReference d, In_PartNumber = int (SmsPartNumber d), In_TotalParts = int (SmsTotalParts d),
     In_Encoding = SmsEncoding d\<rparr>"

definition deliverPart :: "instant \<Rightarrow> DecodedSMS \<Rightarrow> SMSService \<Rightarrow> SMSService \<times> effect list" where
  "deliverPart now d s = (case svc_assembler s of
     None \<Rightarrow> (s, [])
   | Some a \<Rightarrow> (let (a1, out) = AddPart now (incoming_part d) a
               in (s\<lparr>svc_assembler := Some a1\<rparr>,
                   case out of Some m \<Rightarrow> if svc_onReceived s then [Received m] else [] | None \<Rightarrow> [])))"

definition decodeAndDispatchPDU :: "gotime \<Rightarrow> instant \<Rightarrow> gostring \<Rightarrow> SMSService \<Rightarrow> SMSService \<times> effect list" where
  "decodeAndDispatchPDU gnow now pduHex s = (case svc_assembler s of
     None \<Rightarrow> (s, [])
   | Some _ \<Rightarrow> (case DecodeSMS gnow pduHex of Inl _ \<Rightarrow> (s, []) | Inr d \<Rightarrow> deliverPart now d s))"

definition decodeAndDispatchReport :: "gotime \<Rightarrow> gostring \<Rightarrow> SMSService \<Rightarrow> SMSService \<times> effect list" where
  "decodeAndDispatchReport gnow pduHex s = (case svc_tracker s of
     None \<Rightarrow> (s, [])
   | Some t \<Rightarrow> (case DecodeStatusReport gnow pduHex of
       Inl _ \<Rightarrow> (s, [])
     | Inr report \<Rightarrow> (let (t1, ev) = HandleReport report t
                     in (s\<lparr>svc_tracker := Some t1\<rparr>, case ev of Some e \<Rightarrow> [StatusEvent e] | None \<Rightarrow> []))))"

definition handleIncomingSMSURC :: "gotime \<Rightarrow> instant \<Rightarrow> gostring \<Rightarrow> SMSService \<Rightarrow> SMSService \<times> effect list" where
  "handleIncomingSMSURC gnow now urc s =
     (let pduHex = extractLastHexToken urc
      in if pduHex \<noteq> [] \<and> isHexPDU pduHex then decodeAndDispatchPDU gnow now pduHex s
         else (s\<lparr>expectingCMT := True\<rparr>, []))"

definition handleDeliveryReportURC :: "gotime \<Rightarrow> gostring \<Rightarrow> SMSService \<Rightarrow> SMSService \<times> effect list" where
  "handleDeliveryReportURC gnow urc s =
     (let pduHex = extractLastHexToken urc
      in if pduHex \<noteq> [] \<and> isHexPDU pduHex then decodeAndDispatchReport gnow pduHex s
         else (s\<lparr>expectingCDS := True\<rparr>, []))"

definition handleContinuedURC :: "gotime \<Rightarrow> instant \<Rightarrow> gostring \<Rightarrow> SMSService \<Rightarrow> SMSService \<times> effect list" where
  "handleContinuedURC gnow now trimmed s =
     (let s1 = s\<lparr>expectingCMT := False, expectingCDS := False\<rparr>
      in if expectingCMT s \<and> isHexPDU trimmed then decodeAndDispatchPDU gnow now trimmed s1
         else if expectingCDS s \<and> isHexPDU trimmed then decodeAndDispatchReport gnow trimmed s1
         else (s1, []))"

definition parseCMTIStorage :: "gostring \<Rightarrow> gostring" where
  "parseCMTIStorage urc =
     (let parts = Split (TrimSpace (TrimPrefix urc ''+CMTI:'')) (CHR '','')
      in if 0 < length parts
         then (let mem = Trim_ascii (TrimSpace (hd parts)) [CHR 0x22, CHR '' ''] in if mem \<noteq> [] then mem else ''SM'')
         else ''SM'')"

text \<open>The goroutine started for \<^verbatim>\<open>+CMTI\<close> is the effect \<open>SpawnSync\<close>; it runs \<open>SyncStoredMessages\<close>
  later.\<close>

definition handleCMTIURC :: "gostring \<Rightarrow> SMSService \<Rightarrow> SMSService \<times> effect list" where
  "handleCMTIURC urc s =
     (let mem = parseCMTIStorage urc
      in (s, [SpawnSync (if mem = ''MT'' \<or> mem = [] then [''SM'', ''ME''] else [mem])]))"

definition HandleURC :: "gotime \<Rightarrow> instant \<Rightarrow> gostring \<Rightarrow> SMSService \<Rightarrow> SMSService \<times> effect list" where
  "HandleURC gnow now urc s =
     (let trimmed = TrimSpace urc
      in if HasPrefix trimmed ''+CMTI:'' then handleCMTIURC trimmed s
         else if HasPrefix trimmed ''+CMT:'' then handleIncomingSMSURC gnow now trimmed s
         else if HasPrefix trimmed ''+CDS:'' then handleDeliveryReportURC gnow trimmed s
         else handleContinuedURC gnow now trimmed s)"

section \<open>Stored messages\<close>

definition SetStorageManager :: "bool \<Rightarrow> SMSService \<Rightarrow> SMSService" where
  "SetStorageManager mgr s = s\<lparr>svc_storageMgr := mgr\<rparr>"

fun processAndPurgeMessages :: "gotime \<Rightarrow> instant \<Rightarrow> StoredMessage list \<Rightarrow> SMSService \<Rightarrow> SMSService \<times> effect list \<times> int" where
  "processAndPurgeMessages gnow now [] s = (s, [], 0)"
| "processAndPurgeMessages gnow now (m # ms) s =
     (if stm_PDUHex m = [] then processAndPurgeMessages gnow now ms s
      else if stm_Status m = 2 \<or> stm_Status m = 3 then
        (let (s2, effs, n) = processAndPurgeMessages gnow now ms s in (s2, DeleteMessage (stm_Index m) # effs, n))
      else case DecodeSMS gnow (stm_PDUHex m) of
        Inl _ \<Rightarrow> (let (s2, effs, n) = processAndPurgeMessages gnow now ms s in (s2, DeleteMessage (stm_Index m) # effs, n))
      | Inr d \<Rightarrow>
          (let (s1, evs) = deliverPart now d s;
               (s2, effs, n) = processAndPurgeMessages gnow now ms s1
           in (s2, evs @ DeleteMessage (stm_Index m) # effs, n + 1)))"

record storage_env =
  env_ctxDone :: "nat \<Rightarrow> bool"
  env_select :: "nat \<Rightarrow> gostring \<Rightarrow> gostring + StorageStatus option"
  env_list :: "nat \<Rightarrow> gostring + StoredMessage list"
  env_gnow :: gotime
  env_clock :: "nat \<Rightarrow> instant"

fun sync_loop :: "storage_env \<Rightarrow> nat \<Rightarrow> gostring list \<Rightarrow> int \<Rightarrow> SMSService \<Rightarrow> SMSService \<times> effect list \<times> int \<times> svc_error option" where
  "sync_loop env i [] n s = (s, [], n, None)"
| "sync_loop env i (name # names) n s =
     (if env_ctxDone env i then (s, [], n, Some SvcCtx)
      else case env_select env i name of
        Inl _ \<Rightarrow> (let (s2, effs, r) = sync_loop env (i + 1) names n s in (s2, SelectStorage name # effs, r))
      | Inr st \<Rightarrow>
          if (case st of Some x \<Rightarrow> sst_Used x = 0 | None \<Rightarrow> False)
          then (let (s2, effs, r) = sync_loop env (i + 1) names n s in (s2, SelectStorage name # effs, r))
          else case env_list env i of
            Inl _ \<Rightarrow> (let (s2, effs, r) = sync_loop env (i + 1) names n s in (s2, SelectStorage name # ListMessages # effs, r))
          | Inr msgs \<Rightarrow>
              (let (s1, evs, k) = processAndPurgeMessages (env_gnow env) (env_clock env i) msgs s;
                   (s2, effs, r) = sync_loop env (i + 1) names (n + k) s1
               in (s2, SelectStorage name # ListMessages # evs @ effs, r)))"

definition SyncStoredMessages :: "storage_env \<Rightarrow> gostring list \<Rightarrow> SMSService \<Rightarrow> SMSService \<times> effect list \<times> int \<times> svc_error option" where
  "SyncStoredMessages env storageNames s =
     (if \<not> svc_storageMgr s then (s, [], 0, None)
      else
        (let names = (if storageNames = [] then [''SM'', ''ME''] else storageNames);
             (s2, effs, n, err) = sync_loop env 0 names 0 s
         in if err = None \<and> 1 < length names then (s2, effs @ [SelectStorage ''SM''], n, None)
            else (s2, effs, n, err)))"

definition CheckStorageCapacity :: "(gostring + StorageStatus) \<Rightarrow> SMSService \<Rightarrow> (svc_error + (gostring + StorageStatus))" where
  "CheckStorageCapacity reply s = (if \<not> svc_storageMgr s then Inl SvcNoStorage else Inr reply)"

section \<open>What is transmitted\<close>

lemma request_view [simp]:
  "outgoing_text (req\<lparr>rq_To := dest\<rparr>) s = outgoing_text req s" "wants_report (req\<lparr>rq_To := dest\<rparr>) s = wants_report req s"
  "outgoing_text req (s\<lparr>svc_limiter := r\<rparr>) = outgoing_text req s" "wants_report req (s\<lparr>svc_limiter := r\<rparr>) = wants_report req s"
  by (simp_all add: outgoing_text_def wants_report_def)

fun pdu_tx :: "effect \<Rightarrow> (nat \<times> gostring) list" where
  "pdu_tx (PduTx n h) = [(n, h)]"
| "pdu_tx _ = []"

definition pdus_of :: "effect list \<Rightarrow> (nat \<times> gostring) list" where
  "pdus_of effs = concat (map pdu_tx effs)"

lemma pdus_of_simps [simp]:
  "pdus_of [] = []" "pdus_of (e # es) = pdu_tx e @ pdus_of es" "pdus_of (es @ fs) = pdus_of es @ pdus_of fs"
  by (simp_all add: pdus_of_def)

lemma tracker_same [simp]: "\<exists>t. s = s\<lparr>svc_tracker := t\<rparr>"
  by (rule exI [of _ "svc_tracker s"]) simp

lemma trackPart_facts:
  assumes "trackPart now ref n s = (s1, evs)"
  shows "pdus_of evs = [] \<and> (\<exists>t. s1 = s\<lparr>svc_tracker := t\<rparr>)"
  using assms by (auto simp: trackPart_def split: prod.splits option.splits)

abbreviation frame_of :: "PDU \<Rightarrow> nat \<times> gostring" where
  "frame_of p \<equiv> (CommandLength p, Hex p)"

text \<open>A dispatch sends its PDUs in order up to the first that the modem refuses; the references are
  those the modem returned, and only the tracker changes.\<close>

lemma dispatchPDUs_exact:
  assumes "dispatchPDUs sender clk num rr n i ps s = (s', effs, res)"
  shows "pdus_of effs = map frame_of (take (length (pdus_of effs)) ps) \<and> length (pdus_of effs) \<le> length ps
    \<and> (\<forall>refs. res = Inr refs \<longrightarrow> length refs = length ps \<and> length (pdus_of effs) = length ps
          \<and> (\<forall>k<length ps. sender (i + k) (CommandLength (ps ! k)) (Hex (ps ! k)) = Inr (refs ! k)))
    \<and> (\<forall>err. res = Inl err \<longrightarrow> (\<exists>k<length ps. \<exists>e. err = SvcPart (i + k + 1) n e \<and> length (pdus_of effs) = k + 1
          \<and> sender (i + k) (CommandLength (ps ! k)) (Hex (ps ! k)) = Inl e))
    \<and> (\<exists>t. s' = s\<lparr>svc_tracker := t\<rparr>)"
  using assms
proof (induction ps arbitrary: i s s' effs res)
  case Nil
  then show ?case by auto
next
  case (Cons p ps)
  show ?case
  proof (cases "sender i (CommandLength p) (Hex p)")
    case (Inl e)
    with Cons.prems have "s' = s" "effs = [PduTx (CommandLength p) (Hex p)]"
      "res = Inl (SvcPart (i + 1) n e)" by simp_all
    with Inl show ?thesis by auto
  next
    case (Inr ref)
    obtain s1 evs where t: "(if rr then trackPart (clk (i + 1)) ref num s else (s, [])) = (s1, evs)" by fastforce
    obtain s2 effs2 res2 where d: "dispatchPDUs sender clk num rr n (i + 1) ps s1 = (s2, effs2, res2)"
      by (metis prod_cases3)
    have r: "s' = s2" "effs = PduTx (CommandLength p) (Hex p) # evs @ effs2" "res = map_sum id ((#) ref) res2"
      using Cons.prems Inr t d by (auto split: if_splits)
    have e: "pdus_of evs = []" and s1: "\<exists>u. s1 = s\<lparr>svc_tracker := u\<rparr>"
      using t trackPart_facts [of "clk (i + 1)" ref num s s1 evs] by (auto split: if_splits)
    note IH = Cons.IH [OF d]
    show ?thesis
      unfolding r
      using IH e s1 Inr by (cases res2) (auto simp: nth_Cons split: nat.splits)
  qed
qed

lemma checkLimiter_keeps: "checkLimiter lt up now dest s = (s1, err) \<Longrightarrow> \<exists>r. s1 = s\<lparr>svc_limiter := r\<rparr>"
  by (auto simp: checkLimiter_def intro: exI [of _ "svc_limiter s"] split: option.splits prod.splits)

lemma Send_dispatch:
  assumes "Send lt up sender clk req s = (s', effs, res)" "pdus_of effs \<noteq> [] \<or> res = Inr refs"
  obtains r norm pdus rc where "checkFilter lt up (rq_To req) s = None"
    "checkLimiter lt up (clk 0) (rq_To req) s = (s\<lparr>svc_limiter := r\<rparr>, None)"
    "NormalizePhoneNumber (rq_To req) (sc_DefaultPrefix (svc_cfg s)) = Inr norm"
    "ValidateMessageText (rq_Text req) = None"
    "EncodeSMS (svc_refCounter s) norm (outgoing_text req s) EncodingAuto (wants_report req s) = (Inr pdus, rc)"
    "dispatchPDUs sender clk norm (wants_report req s) (length pdus) 0 pdus (s\<lparr>svc_limiter := r, svc_refCounter := rc\<rparr>) = (s', effs, res)"
proof -
  obtain s1 err where l: "checkLimiter lt up (clk 0) (rq_To req) s = (s1, err)" by fastforce
  from checkLimiter_keeps [OF this] obtain r where r: "s1 = s\<lparr>svc_limiter := r\<rparr>" by blast
  show ?thesis
    using assms l that [of r]
    by (auto simp: Send_def r split: option.splits sum.splits prod.splits if_splits)
qed

text \<open>Property C19. Nothing reaches the modem unless every gate is passed: when a PDU is transmitted or the
  request succeeds, the filter and the rate limiter have admitted the recipient, the number is
  valid and is one that can be dialled, the text is not empty and has no NUL and no Ctrl-Z, and the
  frames transmitted are those of the encoder in their order. On success all of them are
  transmitted and the references are one per part; on a failure nothing is transmitted after the
  part that the modem refused, whose number the error names.
\<close>

theorem Send_gates:
  assumes "Send lt up sender clk req s = (s', effs, res)" "pdus_of effs \<noteq> [] \<or> res = Inr refs"
    and "country_prefix (sc_DefaultPrefix (svc_cfg s))"
  shows "checkFilter lt up (rq_To req) s = None \<and> snd (checkLimiter lt up (clk 0) (rq_To req) s) = None
    \<and> 0 \<notin> set (runes (rq_Text req)) \<and> 0x1A \<notin> set (runes (rq_Text req)) \<and> rq_Text req \<noteq> []
    \<and> (\<exists>norm pdus rc. NormalizePhoneNumber (rq_To req) (sc_DefaultPrefix (svc_cfg s)) = Inr norm \<and> dialable norm
        \<and> EncodeSMS (svc_refCounter s) norm (outgoing_text req s) EncodingAuto (wants_report req s) = (Inr pdus, rc)
        \<and> pdus_of effs = map frame_of (take (length (pdus_of effs)) pdus)
        \<and> (res = Inr refs \<longrightarrow> length refs = length pdus \<and> pdus_of effs = map frame_of pdus)
        \<and> (\<forall>err. res = Inl err \<longrightarrow> (\<exists>e. err = SvcPart (length (pdus_of effs)) (length pdus) e)))"
proof -
  obtain r norm pdus rc where d: "checkFilter lt up (rq_To req) s = None"
    "checkLimiter lt up (clk 0) (rq_To req) s = (s\<lparr>svc_limiter := r\<rparr>, None)"
    "NormalizePhoneNumber (rq_To req) (sc_DefaultPrefix (svc_cfg s)) = Inr norm"
    "ValidateMessageText (rq_Text req) = None"
    "EncodeSMS (svc_refCounter s) norm (outgoing_text req s) EncodingAuto (wants_report req s) = (Inr pdus, rc)"
    "dispatchPDUs sender clk norm (wants_report req s) (length pdus) 0 pdus (s\<lparr>svc_limiter := r, svc_refCounter := rc\<rparr>) = (s', effs, res)"
    using Send_dispatch [OF assms(1,2)] .
  note x = dispatchPDUs_exact [OF d(6)]
  have "pdus_of effs = map frame_of pdus" if "res = Inr refs" using x that by (metis take_all_iff order_refl)
  moreover have "\<exists>e. err = SvcPart (length (pdus_of effs)) (length pdus) e" if "res = Inl err" for err
    using x that by auto
  ultimately show ?thesis
    using d(1-5) x normalized_dialable [OF d(3) assms(3)] scan_text_None
    by (auto simp: ValidateMessageText_def split: if_splits)
qed

text \<open>A concrete service and a modem that accepts every PDU.\<close>

definition demo_service :: "Filter option \<Rightarrow> SMSService" where
  "demo_service flt = NewSMSService 7 \<lparr>sc_ModemID = ''m1'', sc_Transliterate = False, sc_DeliveryReport = False, sc_DefaultPrefix = []\<rparr>
     flt None (Some (NewTracker 0 True)) (Some (NewAssembler 1000 [])) True"

definition demo_request :: "gostring \<Rightarrow> SendSMSRequest" where
  "demo_request dest = \<lparr>rq_To = dest, rq_Text = ''Hi'', rq_Message = [], rq_DeliveryReport = True\<rparr>"

lemma country_prefix_7: "country_prefix ''+7''"
proof -
  have "digit_string ''7''" by code_simp
  then show ?thesis by (auto simp: country_prefix_def)
qed

theorem Send_gates_witness:
  "pdus_of (fst (snd (Send (\<lambda>r. False) id (\<lambda>i n h. Inr 5) (\<lambda>i. 0) (demo_request ''+79001234567'') (demo_service None)))) \<noteq> []
   \<and> checkFilter (\<lambda>r. False) id ''+79001234567'' (demo_service None) = None
   \<and> (\<exists>norm pdus rc. NormalizePhoneNumber ''+79001234567'' ''+7'' = Inr norm \<and> dialable norm
        \<and> EncodeSMS 7 norm ''Hi'' EncodingAuto True = (Inr pdus, rc))"
proof -
  define r where "r = Send (\<lambda>r. False) id (\<lambda>i n h. Inr 5) (\<lambda>i. 0) (demo_request ''+79001234567'') (demo_service None)"
  have e: "Send (\<lambda>r. False) id (\<lambda>i n h. Inr 5) (\<lambda>i. 0) (demo_request ''+79001234567'') (demo_service None)
      = (fst r, fst (snd r), snd (snd r))" by (simp add: r_def)
  have p: "pdus_of (fst (snd r)) \<noteq> []" unfolding r_def by code_simp
  have c: "country_prefix (sc_DefaultPrefix (svc_cfg (demo_service None)))"
    by (simp add: demo_service_def NewSMSService_def country_prefix_7)
  have d: "sc_DefaultPrefix (svc_cfg (demo_service None)) = ''+7''" "svc_refCounter (demo_service None) = 7"
    "rq_To (demo_request ''+79001234567'') = ''+79001234567''" "wants_report (demo_request ''+79001234567'') (demo_service None) = True"
    "outgoing_text (demo_request ''+79001234567'') (demo_service None) = ''Hi''"
    by (simp_all add: demo_service_def NewSMSService_def demo_request_def wants_report_def outgoing_text_def)
  from Send_gates [OF e disjI1 [OF p] c, of undefined]
  show ?thesis using p unfolding r_def d by blast
qed

section \<open>Spellings and the number filter\<close>

lemma normalizeNumber_digits:
  assumes "digit_string d"
  shows "normalizeNumber lt up d = d" "normalizeNumber lt up (CHR ''+'' # d) = CHR ''+'' # d"
proof -
  note r = runes_digit_string [OF assms]
  have nf: "filter (\<lambda>r. \<not> is_number_filler r) (map of_char d) = map of_char d"
    "\<not> list_ex (IsLetter lt) (map of_char d)"
    using r(3) by (auto simp: filter_id_conv list_all_iff list_ex_iff is_digit_def is_number_filler_def IsLetter_def)
  have s: "string_of_runes (map of_char d) = d" using digit_string_facts(4,6) [OF assms] by simp
  then show "normalizeNumber lt up d = d" using nf by (simp add: normalizeNumber_def r(1) o_def)
  have "char_of (43 :: nat) = CHR ''+''" by code_simp
  with s have "string_of_runes (43 # map of_char d) = CHR ''+'' # d" by simp
  then show "normalizeNumber lt up (CHR ''+'' # d) = CHR ''+'' # d"
    using nf by (simp add: normalizeNumber_def r(2) is_number_filler_def IsLetter_def o_def)
qed

lemma no_control_digits: "digit_string d \<Longrightarrow> \<not> ContainsAny_ascii d [CHR 0x00, CHR 0x0D, CHR 0x0A]"
  by (auto simp: digit_string_def ContainsAny_ascii_def list_all_iff list_ex_iff is_digit_char_def is_digit_def)

lemma NormalizePhoneNumber_8:
  assumes "digit_string d" "length d = 10"
  shows "NormalizePhoneNumber (CHR ''8'' # d) pfx = Inr (''+7'' @ d)"
proof -
  have e: "digit_string (CHR ''8'' # d)" using assms(1) by (simp add: digit_string_def is_digit_char_def is_digit_def)
  note r = runes_digit_string [OF e]
  have s: "string_of_runes (map of_char d) = d" using digit_string_facts(4,6) [OF assms(1)] by simp
  show ?thesis
    using assms(2) scan_phone_all_digits [OF r(3)]
    by (simp add: NormalizePhoneNumber_def digit_string_facts(1) [OF e] r(1) s)
qed

lemma EncodeSMS_succeeds:
  assumes "TrimSpace recipient \<noteq> []" "text \<noteq> []"
  obtains pdus rc' where "EncodeSMS rc recipient text enc srr = (Inr pdus, rc')"
proof -
  have "\<exists>pdus rc'. EncodeSMS rc recipient text enc srr = (Inr pdus, rc')" using assms by (simp add: EncodeSMS_def Let_def)
  with that show ?thesis by blast
qed

lemma dispatchPDUs_all_accepted:
  assumes "\<And>i n h. \<exists>ref. sender i n h = Inr ref"
  obtains refs where "snd (snd (dispatchPDUs sender clk num rr n i ps s)) = Inr refs"
proof -
  obtain s' effs res where d: "dispatchPDUs sender clk num rr n i ps s = (s', effs, res)" by (metis prod_cases3)
  have "res \<noteq> Inl err" for err
    using dispatchPDUs_exact [OF d] assms by (metis Inl_Inr_False)
  then show ?thesis using that d by (cases res) auto
qed

text \<open>The filter compares spellings, not numbers: the service checks the recipient as it was
  written and converts the national form with 8 only afterwards. A number on the blacklist in the
  form with +7 is refused in that spelling, but the same number written with 8 passes, and the
  message goes to the blocked number.
\<close>

theorem blacklist_spelling_bypass:
  assumes "digit_string d" "length d = 10"
    and "svc_filter s = Some (NewFilter lt up lo ''blacklist'' [] [''+7'' @ d])" "svc_limiter s = None"
    and "ValidateMessageText (rq_Text req) = None" "outgoing_text req s \<noteq> []" "\<And>i n h. \<exists>ref. sender i n h = Inr ref"
  shows "snd (snd (Send lt up sender clk (req\<lparr>rq_To := ''+7'' @ d\<rparr>) s)) = Inl (SvcPolicy ErrNumberBlocked)
    \<and> (\<exists>s' effs refs pdus rc. Send lt up sender clk (req\<lparr>rq_To := ''8'' @ d\<rparr>) s = (s', effs, Inr refs)
        \<and> EncodeSMS (svc_refCounter s) (''+7'' @ d) (outgoing_text req s) EncodingAuto (wants_report req s) = (Inr pdus, rc)
        \<and> pdus_of effs = map frame_of pdus)"
proof -
  have d7: "digit_string (CHR ''7'' # d)" and d8: "digit_string (CHR ''8'' # d)"
    using assms(1) by (simp_all add: digit_string_def is_digit_char_def is_digit_def)
  note n = normalizeNumber_digits [OF d7, of lt up] normalizeNumber_digits [OF d8, of lt up]
  note t = digit_string_facts(1,2) [OF d7] digit_string_facts(1,2) [OF d8]
  have "strings_ToLower lo (TrimSpace ''blacklist'') = ''blacklist''" by code_simp
  then have f: "NewFilter lt up lo ''blacklist'' [] [CHR ''+'' # CHR ''7'' # d]
      = \<lparr>flt_mode = ''blacklist'', flt_whitelist = {}, flt_blacklist = {CHR ''+'' # CHR ''7'' # d}\<rparr>"
    using n by (simp add: NewFilter_def)
  have "\<not> ContainsAny_ascii (CHR ''+'' # CHR ''7'' # d) [CHR 0x00, CHR 0x0D, CHR 0x0A]"
    using no_control_digits [OF d7] by (simp add: ContainsAny_ascii_def)
  then have blocked: "checkFilter lt up (''+7'' @ d) s = Some ErrNumberBlocked"
    using n t by (simp add: checkFilter_def assms(3) f FilterCheck_def Let_def)
  have pass: "checkFilter lt up (''8'' @ d) s = None"
    using n t no_control_digits [OF d8] by (simp add: checkFilter_def assms(3) f FilterCheck_def Let_def)
  obtain pdus rc where enc: "EncodeSMS (svc_refCounter s) (''+7'' @ d) (outgoing_text req s) EncodingAuto (wants_report req s) = (Inr pdus, rc)"
    using t assms(6) by (rule_tac EncodeSMS_succeeds [of "''+7'' @ d" "outgoing_text req s" "svc_refCounter s" EncodingAuto "wants_report req s"]) auto
  obtain s' effs res where disp: "dispatchPDUs sender clk (''+7'' @ d) (wants_report req s) (length pdus) 0 pdus
      (s\<lparr>svc_refCounter := rc\<rparr>) = (s', effs, res)" by (metis prod_cases3)
  obtain refs where "snd (snd (dispatchPDUs sender clk (''+7'' @ d) (wants_report req s) (length pdus) 0 pdus
      (s\<lparr>svc_refCounter := rc\<rparr>))) = Inr refs" by (rule dispatchPDUs_all_accepted [OF assms(7)])
  then have res: "res = Inr refs" by (simp only: disp snd_conv)
  have "pdus_of effs = map frame_of pdus"
    using dispatchPDUs_exact [OF disp] res by (metis take_all_iff order_refl)
  moreover have "Send lt up sender clk (req\<lparr>rq_To := ''8'' @ d\<rparr>) s = (s', effs, Inr refs)"
    using pass enc disp res NormalizePhoneNumber_8 [OF assms(1,2)] assms(4,5)
    by (simp add: Send_def checkLimiter_def)
  ultimately show ?thesis using blocked enc by (simp add: Send_def)
qed

theorem blacklist_spelling_bypass_witness:
  "snd (snd (Send (\<lambda>r. False) id (\<lambda>i n h. Inr 5) (\<lambda>i. 0) (demo_request []\<lparr>rq_To := ''+7'' @ ''9001234567''\<rparr>)
      (demo_service (Some (NewFilter (\<lambda>r. False) id id ''blacklist'' [] [''+7'' @ ''9001234567'']))))) = Inl (SvcPolicy ErrNumberBlocked)"
proof -
  have h: "digit_string ''9001234567''" "length ''9001234567'' = 10"
    "ValidateMessageText (rq_Text (demo_request [])) = None" by code_simp+
  have m: "svc_filter (demo_service flt) = flt" "svc_limiter (demo_service flt) = None"
    "outgoing_text (demo_request []) (demo_service flt) \<noteq> []" for flt
    by (simp_all add: demo_service_def NewSMSService_def demo_request_def outgoing_text_def)
  show ?thesis
    by (rule blacklist_spelling_bypass [OF h(1,2) m(1,2) h(3) m(3), THEN conjunct1]) simp
qed

section \<open>From gateway to gateway\<close>

lemma dialable_digits: "dialable n \<Longrightarrow> length (address_digits n) < 256"
proof -
  assume "dialable n"
  then obtain d where d: "digit_string d" "length d \<le> 15" "n = d \<or> n = CHR ''+'' # d" by (auto simp: dialable_def)
  show ?thesis using phone_number_address [OF d(1)] d(2,3) by (auto simp: address_digits_def)
qed

lemma hex_rune_no_space: "is_hex_rune r \<Longrightarrow> \<not> IsSpace r \<and> r \<noteq> 43"
  by (auto simp: is_hex_rune_def IsSpace_def is_digit_def)

lemma hexString_line:
  assumes "5 \<le> length bs"
  shows "TrimSpace (hexString bs) = hexString bs" "isHexPDU (hexString bs)"
    "\<not> HasPrefix (hexString bs) (CHR ''+'' # p)"
proof -
  have c: "is_hex_rune (of_char c)" if "c \<in> set (hexString bs)" for c
    using hexString_char [OF that] by (auto simp: is_hex_rune_def)
  note a = hexString_ascii [of bs]
  have "hexString bs \<noteq> []" using assms by (auto simp flip: length_greater_0_conv)
  then have h: "hd (hexString bs) \<in> set (hexString bs)" "last (hexString bs) \<in> set (hexString bs)" by simp_all
  then show "TrimSpace (hexString bs) = hexString bs"
    using a c hex_rune_no_space by (intro TrimSpace_id) blast+
  show "isHexPDU (hexString bs)"
    using assms c a by (simp add: isHexPDU_def runes_ascii list_all_iff)
  have "hd (hexString bs) \<noteq> CHR ''+''" using c [OF h(1)] hex_rune_no_space by fastforce
  then show "\<not> HasPrefix (hexString bs) (CHR ''+'' # p)"
    by (cases "hexString bs") (simp_all add: HasPrefix_def)
qed

lemma length_deliver_frame: "length scts = 7 \<Longrightarrow> 5 \<le> length (deliver_frame sca fo originator pid dcs scts udl ud)"
  by (simp add: deliver_frame_def split: prod.splits)

lemma relay_hex:
  assumes "relay sca originator scts h = Some hex" "length scts = 7"
  obtains bs where "hex = hexString bs" "5 \<le> length bs"
proof -
  obtain fo pid dcs udl ud where "hex = hexString (deliver_frame sca fo originator pid dcs scts udl ud)"
    using assms(1) unfolding relay_def by (auto simp del: hexString_simps split: option.splits list.splits)
  then show ?thesis using that length_deliver_frame [OF assms(2)] by blast
qed

text \<open>The lines \<^verbatim>\<open>+CMT: ...\<close> that announce a PDU on the next line.\<close>

definition cmt_header :: "gostring \<Rightarrow> bool" where
  "cmt_header hdr \<longleftrightarrow> HasPrefix (TrimSpace hdr) ''+CMT:'' \<and> \<not> isHexPDU (extractLastHexToken (TrimSpace hdr))"

abbreviation urc_run :: "gotime \<Rightarrow> (instant \<times> gostring) list \<Rightarrow> SMSService \<Rightarrow> SMSService \<times> effect list list" where
  "urc_run gnow \<equiv> run (\<lambda>(now, urc). HandleURC gnow now urc)"

definition cmt_lines :: "gostring \<Rightarrow> (nat \<Rightarrow> instant) \<Rightarrow> (nat \<Rightarrow> gostring) \<Rightarrow> nat list \<Rightarrow> (instant \<times> gostring) list" where
  "cmt_lines hdr time hex order = concat (map (\<lambda>k. [(time k, hdr), (time k, hex k)]) order)"

lemma cmt_pair:
  assumes "cmt_header hdr" "5 \<le> length bs" "svc_assembler s = Some a" "DecodeSMS gnow (hexString bs) = Inr d"
  shows "urc_run gnow [(t, hdr), (t, hexString bs)] s =
    (let (s1, effs) = deliverPart t d (s\<lparr>expectingCMT := False, expectingCDS := False\<rparr>) in (s1, [[], effs]))"
proof -
  have "\<not> HasPrefix (TrimSpace hdr) ''+CMTI:''"
    using assms(1) by (auto simp: cmt_header_def HasPrefix_conv_prefix dest: prefix_same_cases)
  then have "HandleURC gnow t hdr s = (s\<lparr>expectingCMT := True\<rparr>, [])"
    using assms(1) by (simp add: HandleURC_def handleIncomingSMSURC_def cmt_header_def Let_def)
  then show ?thesis
    using assms(3,4) hexString_line [OF assms(2)]
    by (simp add: HandleURC_def handleContinuedURC_def decodeAndDispatchPDU_def Let_def split: prod.splits)
qed

definition published :: "AssembledSMS option list \<Rightarrow> AssembledSMS list" where
  "published outs = concat (map (\<lambda>out. case out of Some m \<Rightarrow> [m] | None \<Rightarrow> []) outs)"

lemma published_replicate: "published (replicate n None @ outs) = published outs"
  by (induction n) (simp_all add: published_def)

lemma published_Some [simp]: "published [Some m] = [m]"
  by (simp add: published_def)

lemma cmt_lines_run:
  assumes "cmt_header hdr" "\<And>k. k \<in> set order \<Longrightarrow> \<exists>bs. hex k = hexString bs \<and> 5 \<le> length bs \<and> DecodeSMS gnow (hex k) = Inr (d k)"
    and "svc_assembler s = Some a" "svc_onReceived s"
  shows "concat (snd (urc_run gnow (cmt_lines hdr time hex order) s)) =
    map Received (published (snd (run asm_step (map (\<lambda>k. EvAddPart (time k) (incoming_part (d k))) order) a)))"
  using assms(2-)
proof (induction order arbitrary: s a)
  case (Cons k order)
  obtain bs where bs: "hex k = hexString bs" "5 \<le> length bs" "DecodeSMS gnow (hexString bs) = Inr (d k)"
    using Cons.prems(1) [of k] by auto
  obtain a1 out where ap: "AddPart (time k) (incoming_part (d k)) a = (a1, out)" by fastforce
  define s1 where "s1 = s\<lparr>expectingCMT := False, expectingCDS := False, svc_assembler := Some a1\<rparr>"
  define evs where "evs = (case out of Some m \<Rightarrow> [Received m] | None \<Rightarrow> [])"
  have p: "urc_run gnow [(time k, hdr), (time k, hex k)] s = (s1, [[], evs])"
    using cmt_pair [OF assms(1) bs(2) Cons.prems(2) bs(3)] Cons.prems(2,3) ap
    by (simp add: bs(1) deliverPart_def s1_def evs_def split: option.split)
  have IH: "concat (snd (urc_run gnow (cmt_lines hdr time hex order) s1)) =
    map Received (published (snd (run asm_step (map (\<lambda>k. EvAddPart (time k) (incoming_part (d k))) order) a1)))"
    using Cons.prems by (intro Cons.IH) (auto simp: s1_def)
  have l: "cmt_lines hdr time hex (k # order) = [(time k, hdr), (time k, hex k)] @ cmt_lines hdr time hex order"
    by (simp add: cmt_lines_def)
  show ?case
    unfolding l run_append p using IH ap
    by (cases out) (simp_all add: evs_def split_beta Let_def published_def)
qed (simp add: cmt_lines_def published_def)

lemma outputs_all:
  "list_all (touches key) es \<Longrightarrow> outputs_of key es a = snd (run asm_step es a)"
  by (induction es arbitrary: a) (simp_all add: Let_def split_beta)

text \<open>The messages of one SMS, added in any order, give one complete message.\<close>

lemma assemble_delivered:
  assumes ts: "ts \<noteq> []" "length ts \<le> 20" and order: "distinct order" "set order = {..<length ts}"
    and d: "\<And>k. d k = delivered gnow originator sel scts ref ts k"
    and t: "\<And>k. k \<in> set order \<Longrightarrow> t0 \<le> time k \<and> time k \<le> t0 + asm_ttl a"
    and fresh: "asm_pending a (key_fmt (address_text originator) ref) = None" "asm_flushed a (key_fmt (address_text originator) ref) = None"
  shows "\<exists>m. published (snd (run asm_step (map (\<lambda>k. EvAddPart (time k) (incoming_part (d k))) order) a)) = [m]
    \<and> As_Text m = concat ts \<and> As_From m = address_text originator \<and> As_Segments m = int (length ts) \<and> IsComplete m \<and> \<not> IsUpdate m"
proof (cases "length ts = 1")
  case True
  have "set order = {0}" using order(2) True by (auto simp: lessThan_Suc)
  with order(1) have "order = [0]" by (cases order) (auto dest!: subset_singletonD)
  moreover obtain t where "ts = [t]" using True by (auto simp: length_Suc_conv)
  ultimately show ?thesis
    by (simp add: AddPart_def incoming_part_def d delivered_def deliver_result_def published_def)
next
  case False
  let ?from = "address_text originator" and ?n = "int (length ts)"
  define part where "part = (\<lambda>i. incoming_part (d (nat (i - 1))))"
  define es where "es = map (\<lambda>k. EvAddPart (time k) (incoming_part (d k))) order"
  define iorder where "iorder = map (\<lambda>k. int k + 1) order"
  have n: "1 < length ts" using False ts(1) by (cases ts) auto
  have p: "In_From (part i) = ?from" "In_Reference (part i) = ref" "IsMultipart (part i)" "In_TotalParts (part i) = ?n" for i
    using n by (simp_all add: part_def incoming_part_def d delivered_def deliver_result_def Let_def)
  have parts: "parts_of ?from ref ?n part"
    using n ts(2) p by (auto simp: parts_of_def) (auto simp: part_def incoming_part_def d delivered_def Let_def)
  have es: "es = map (\<lambda>i. EvAddPart (time (nat (i - 1))) (part i)) iorder" by (simp add: es_def iorder_def part_def)
  have "x \<in> (\<lambda>k. int k + 1) ` {..<length ts}" if "1 \<le> x" "x \<le> ?n" for x
    using that by (intro image_eqI [of _ _ "nat (x - 1)"]) auto
  then have "set iorder = {1..?n}" by (auto simp: iorder_def order(2))
  moreover have "distinct iorder" using order(1) by (simp add: iorder_def distinct_map inj_on_def)
  moreover have "list_all (touches (key_fmt ?from ref)) es" by (auto simp: es p list_all_iff)
  moreover have "list_all (in_window t0 (asm_ttl a)) es" using t by (auto simp: es_def list_all_iff)
  moreover have "building (key_fmt ?from ref) (asm_ttl a) t0 ?n part [] a" using fresh by (simp add: building_def)
  ultimately have "snd (run asm_step es a) = replicate (length iorder - 1) None @ [Some (assembled_of ?n part (hd iorder) (text_of ?n part) False)]"
    using assemble_run [OF parts, of t0 "asm_ttl a" es "\<lambda>i. time (nat (i - 1))" iorder "[]" a] n
    by (auto simp: filter_id_conv list_all_iff outputs_all es)
  moreover have "text_of ?n part = concat ts"
  proof -
    have "map (\<lambda>i. In_Text (part i)) [1..?n] = ts"
      using n by (intro nth_equalityI) (auto simp: part_def incoming_part_def d delivered_def Let_def)
    then show ?thesis by (simp add: text_of_def)
  qed
  ultimately show ?thesis
    by (simp add: es_def published_replicate assembled_of_def p)
qed

text \<open>From request to received message, through every layer of the service: when the service of one gateway
  sends a text of up to 20 parts and the network delivers its PDUs to another gateway, announced
  by \<^verbatim>\<open>+CMT\<close> lines in any order of the parts and within the lifetime of a partial message, the
  receiving service publishes exactly one message: the text that was sent (transliterated when so
  configured), complete, with the originator's number and the number of parts.
\<close>

lemma sms_end_to_end:
  assumes send: "Send lt up sender clk req s = (s', effs, Inr refs)" and car: "carries EncodingAuto (outgoing_text req s)"
    and pfx: "country_prefix (sc_DefaultPrefix (svc_cfg s))"
    and net: "length (address_digits originator) < 256" "length sca < 256" "length scts = 7"
      "\<And>k. k < length refs \<Longrightarrow> relay sca originator scts (snd (pdus_of effs ! k)) = Some (hex k)"
    and parts: "length refs \<le> 20" "distinct order" "set order = {..<length refs}"
    and rcv: "svc_assembler r = Some a" "svc_onReceived r" "cmt_header hdr"
      "asm_pending a (key_fmt (address_text originator) (svc_refCounter s')) = None"
      "asm_flushed a (key_fmt (address_text originator) (svc_refCounter s')) = None"
      "\<And>k. k < length refs \<Longrightarrow> t0 \<le> time k \<and> time k \<le> t0 + asm_ttl a"
  shows "\<exists>m. concat (snd (urc_run gnow (cmt_lines hdr time hex order) r)) = [Received m]
    \<and> As_Text m = outgoing_text req s \<and> As_From m = address_text originator
    \<and> As_Segments m = int (length refs) \<and> IsComplete m"
proof -
  obtain lim norm pdus rc where d: "NormalizePhoneNumber (rq_To req) (sc_DefaultPrefix (svc_cfg s)) = Inr norm"
    "EncodeSMS (svc_refCounter s) norm (outgoing_text req s) EncodingAuto (wants_report req s) = (Inr pdus, rc)"
    "dispatchPDUs sender clk norm (wants_report req s) (length pdus) 0 pdus (s\<lparr>svc_limiter := lim, svc_refCounter := rc\<rparr>) = (s', effs, Inr refs)"
    using Send_dispatch [OF send disjI2 [OF refl]] .
  note x = dispatchPDUs_exact [OF d(3)]
  have frames: "pdus_of effs = map frame_of pdus" and len: "length refs = length pdus" and rc: "svc_refCounter s' = rc"
    using x by (metis take_all_iff order_refl, auto)
  have norm: "length (address_digits norm) < 256"
    by (rule dialable_digits [OF normalized_dialable [OF d(1) pfx]])
  have "length pdus < 256" using len parts(1) by simp
  then obtain ts where ts: "length ts = length pdus" "ts \<noteq> []" "concat ts = outgoing_text req s"
    "map (receive gnow sca originator scts) pdus
      = map (\<lambda>k. Some (Inr (delivered gnow originator (selectEncoding EncodingAuto (outgoing_text req s)) scts rc ts k))) [0..<length ts]"
    using EncodeSMS_messages [OF d(2) car norm net(1,2,3)] by blast
  define msg where "msg = delivered gnow originator (selectEncoding EncodingAuto (outgoing_text req s)) scts rc ts"
  have hex: "\<exists>bs. hex k = hexString bs \<and> 5 \<le> length bs \<and> DecodeSMS gnow (hex k) = Inr (msg k)" if "k < length refs" for k
  proof -
    have r: "relay sca originator scts (Hex (pdus ! k)) = Some (hex k)" using net(4) [OF that] that len by (simp add: frames)
    moreover have "receive gnow sca originator scts (pdus ! k) = Some (Inr (msg k))"
      using arg_cong [OF ts(4), of "\<lambda>xs. xs ! k"] that len ts(1) by (simp add: msg_def)
    ultimately have "DecodeSMS gnow (hex k) = Inr (msg k)" by (simp add: receive_def)
    with relay_hex [OF r net(3)] show ?thesis by metis
  qed
  have o: "set order = {..<length ts}" using parts(3) len ts(1) by simp
  have "concat (snd (urc_run gnow (cmt_lines hdr time hex order) r)) =
      map Received (published (snd (run asm_step (map (\<lambda>k. EvAddPart (time k) (incoming_part (msg k))) order) a)))"
    using hex parts(3) by (intro cmt_lines_run rcv(1,2,3)) auto
  moreover have "\<exists>m. published (snd (run asm_step (map (\<lambda>k. EvAddPart (time k) (incoming_part (msg k))) order) a)) = [m]
    \<and> As_Text m = concat ts \<and> As_From m = address_text originator \<and> As_Segments m = int (length ts) \<and> IsComplete m \<and> \<not> IsUpdate m"
    using parts(1,3) len ts(1) rcv(4,5,6) rc
    by (intro assemble_delivered [OF ts(2) _ parts(2) o, of msg, OF _ fun_cong [OF msg_def]]) auto
  ultimately show ?thesis using ts(1,3) len by auto
qed

definition demo_long :: SendSMSRequest where
  "demo_long = (demo_request ''+79001234567'')\<lparr>rq_Text := concat (replicate 71 [CHR 0xD0, CHR 0x90])\<rparr>"

abbreviation demo_sent :: "SMSService \<times> effect list \<times> (svc_error + byte list)" where
  "demo_sent \<equiv> Send (\<lambda>r. False) id (\<lambda>i n h. Inr 5) (\<lambda>i. 0) demo_long (demo_service None)"

abbreviation demo_relay :: "gostring \<Rightarrow> gostring option" where
  "demo_relay \<equiv> relay [0x91] ''+79005550000'' [0, 0, 0, 0, 0, 0, 0]"

abbreviation half_sender :: pdu_sender where
  "half_sender \<equiv> (\<lambda>i n h. if i = 0 then Inr 5 else Inl ''ERROR'')"

lemma demo_sent_facts:
  "case demo_sent of (_, effs, res) \<Rightarrow> res = Inr [5, 5] \<and> length (pdus_of effs) = 2
      \<and> list_all (\<lambda>p. demo_relay (snd p) \<noteq> None) (pdus_of effs)"
  by code_simp

lemma demo_half_facts:
  "case Send (\<lambda>r. False) id half_sender (\<lambda>i. 0) demo_long (demo_service None) of (_, effs, res) \<Rightarrow> isl res \<and> length (pdus_of effs) = 2"
  by code_simp

lemma demo_delivery_facts:
  "carries EncodingAuto (outgoing_text demo_long (demo_service None))" "length (address_digits ''+79005550000'') < 256"
  "cmt_header ''+CMT: ,24''" "address_text ''+79005550000'' = ''+79005550000''"
  by code_simp+

end
