(* ===== verification/Call_Service.thy ===== *)
theory Call_Service
  imports Event_Machine
begin

text \<open>
  The voice call service (\<^verbatim>\<open>internal/services/call.go\<close>, \<^verbatim>\<open>call_urc.go\<close>). Every section of a method
  between taking and releasing the mutex is one function (\<open>Dial_begin\<close>, \<open>Dial_failed\<close>, ...) and the
  method composes them with the calls to the modem in between, whose results are
  arguments. Effects are the calls to the modem and the events published, in order. The auto-drop
  timer is the instant it is due, the monitor goroutine a flag; a timer callback or a tick that was
  already waiting for the mutex may still run after the timer was stopped, so both are events that may
  come at any time. The instant 0 is the zero time.
\<close>

section \<open>State\<close>

datatype CallState =
    CallStateIdle | CallStateDialing | CallStateRinging | CallStateAnswered
  | CallStateCompleted | CallStateBusy | CallStateFailed

record CallLogEntry =
  log_Time :: instant
  log_Message :: gostring

record CallStatus =
  cst_State :: CallState
  cst_Number :: gostring
  cst_Direction :: gostring
  cst_Message :: gostring
  cst_StartedAt :: instant
  cst_AnsweredAt :: instant
  cst_EndedAt :: instant
  cst_Logs :: "CallLogEntry list"

record CallEvent =
  ce_Type :: gostring
  ce_From :: gostring
  ce_Number :: gostring
  ce_Direction :: gostring
  ce_Status :: gostring
  ce_Digit :: gostring
  ce_ModemID :: gostring
  ce_Duration :: duration

record CallService =
  cs_modemID :: gostring
  cs_onEvent :: bool
  cs_checker :: bool
  cs_status :: CallStatus
  cs_autoDropTimeout :: duration
  cs_dropTimer :: "instant option"
  cs_monitorStop :: bool

datatype call_effect =
    CallEv CallEvent
  | ModemDial gostring
  | ModemAnswer
  | ModemHangup
  | ModemDTMF gostring
  | StartMonitor

datatype call_error = ErrEmptyNumber | ErrModem gostring

definition DefaultAutoDropTimeout :: duration where
  "DefaultAutoDropTimeout = 60 * 1000000000"

definition emptyStatus :: CallStatus where
  "emptyStatus = \<lparr>cst_State = CallStateIdle, cst_Number = [], cst_Direction = [], cst_Message = [], cst_StartedAt = 0,
     cst_AnsweredAt = 0, cst_EndedAt = 0, cst_Logs = []\<rparr>"

definition noEvent :: "CallService \<Rightarrow> CallEvent" where
  "noEvent s = \<lparr>ce_Type = [], ce_From = [], ce_Number = [], ce_Direction = [], ce_Status = [], ce_Digit = [],
     ce_ModemID = cs_modemID s, ce_Duration = 0\<rparr>"

definition NewCallService :: "gostring \<Rightarrow> bool \<Rightarrow> bool \<Rightarrow> CallService" where
  "NewCallService modemID checker onEvent = \<lparr>cs_modemID = modemID, cs_onEvent = onEvent, cs_checker = checker,
     cs_status = emptyStatus\<lparr>cst_Message := ''Idle''\<rparr>, cs_autoDropTimeout = DefaultAutoDropTimeout,
     cs_dropTimer = None, cs_monitorStop = False\<rparr>"

definition SetAutoDropTimeout :: "duration \<Rightarrow> CallService \<Rightarrow> CallService" where
  "SetAutoDropTimeout d s = s\<lparr>cs_autoDropTimeout := d\<rparr>"

section \<open>Helpers\<close>

definition set_status :: "(CallStatus \<Rightarrow> CallStatus) \<Rightarrow> CallService \<Rightarrow> CallService" where
  "set_status f s = s\<lparr>cs_status := f (cs_status s)\<rparr>"

definition addLogLocked :: "instant \<Rightarrow> gostring \<Rightarrow> CallService \<Rightarrow> CallService" where
  "addLogLocked now msg s =
     (let logs = cst_Logs (cs_status s) @ [\<lparr>log_Time = now, log_Message = msg\<rparr>]
      in set_status (\<lambda>st. st\<lparr>cst_Logs := (if 20 < length logs then drop (length logs - 20) logs else logs)\<rparr>) s)"

definition stopDropTimer :: "CallService \<Rightarrow> CallService" where
  "stopDropTimer s = s\<lparr>cs_dropTimer := None, cs_monitorStop := False\<rparr>"

definition notify_call :: "CallService \<Rightarrow> CallEvent \<Rightarrow> call_effect list" where
  "notify_call s ev = (if cs_onEvent s then [CallEv ev] else [])"

definition ended_event :: "CallService \<Rightarrow> gostring \<Rightarrow> gostring \<Rightarrow> gostring \<Rightarrow> duration \<Rightarrow> CallEvent" where
  "ended_event s num dir status d = (noEvent s)\<lparr>ce_Type := ''ended'', ce_Number := num, ce_From := num, ce_Direction := dir,
     ce_Status := status, ce_Duration := d\<rparr>"

definition answered_event :: "CallService \<Rightarrow> gostring \<Rightarrow> gostring \<Rightarrow> CallEvent" where
  "answered_event s num dir = (noEvent s)\<lparr>ce_Type := ''answered'', ce_Number := num, ce_From := num, ce_Direction := dir\<rparr>"

definition cleanVoiceNumber :: "gostring \<Rightarrow> gostring" where
  "cleanVoiceNumber raw =
     (case runes (TrimSpace raw) of
        [] \<Rightarrow> []
      | r # rs \<Rightarrow> string_of_runes ((if r = 43 \<or> is_digit r then [r] else []) @ filter is_digit rs))"

section \<open>Operations\<close>

definition onAutoDropTimeout :: "instant \<Rightarrow> CallService \<Rightarrow> CallService \<times> call_effect list" where
  "onAutoDropTimeout now s =
     (if cst_State (cs_status s) \<noteq> CallStateDialing \<and> cst_State (cs_status s) \<noteq> CallStateRinging then (s, [])
      else
        (let s1 = set_status (\<lambda>st. st\<lparr>cst_State := CallStateFailed, cst_Message := ''Call timed out (no answer)'', cst_EndedAt := now\<rparr>) s;
             s2 = (addLogLocked now ''Call timed out (no answer)'' s1)\<lparr>cs_monitorStop := False\<rparr>
         in (s2, ModemHangup # notify_call s
               (ended_event s (cst_Number (cs_status s)) (cst_Direction (cs_status s)) ''no_answer'' 0))))"

definition Dial_begin :: "instant \<Rightarrow> gostring \<Rightarrow> CallService \<Rightarrow> CallService" where
  "Dial_begin now clean s =
     (stopDropTimer s)\<lparr>cs_status := emptyStatus\<lparr>cst_State := CallStateDialing, cst_Number := clean, cst_Direction := ''outgoing'',
        cst_Message := ''Dialing '' @ clean @ ''...'', cst_StartedAt := now,
        cst_Logs := [\<lparr>log_Time = now, log_Message = ''Initiating outgoing call to '' @ clean @ ''...''\<rparr>]\<rparr>\<rparr>"

definition Dial_failed :: "instant \<Rightarrow> gostring \<Rightarrow> CallService \<Rightarrow> CallService" where
  "Dial_failed now err s = addLogLocked now (''Dial failed: '' @ err)
     (set_status (\<lambda>st. st\<lparr>cst_State := CallStateFailed, cst_Message := err, cst_EndedAt := now\<rparr>) s)"

definition startDialMonitoring :: "instant \<Rightarrow> gostring \<Rightarrow> CallService \<Rightarrow> CallService \<times> call_effect list" where
  "startDialMonitoring now clean s =
     (let s1 = addLogLocked now ''Modem accepted dial command, connecting network...''
            (set_status (\<lambda>st. st\<lparr>cst_State := CallStateRinging, cst_Message := ''Ringing '' @ clean @ ''...''\<rparr>) s);
          timeout = (if cs_autoDropTimeout s \<le> 0 then DefaultAutoDropTimeout else cs_autoDropTimeout s)
      in (s1\<lparr>cs_dropTimer := Some (now + timeout), cs_monitorStop := True\<rparr>, if cs_checker s then [StartMonitor] else []))"

definition Dial :: "instant \<Rightarrow> instant \<Rightarrow> gostring option \<Rightarrow> gostring \<Rightarrow> CallService
    \<Rightarrow> CallService \<times> call_effect list \<times> call_error option" where
  "Dial now1 now2 modemErr number s =
     (let clean = cleanVoiceNumber number
      in if clean = [] then (s, [], Some ErrEmptyNumber)
         else
           (let s1 = Dial_begin now1 clean s
            in case modemErr of
                 Some err \<Rightarrow> (Dial_failed now2 err s1, [ModemDial clean], Some (ErrModem err))
               | None \<Rightarrow> (let (s2, effs) = startDialMonitoring now2 clean s1 in (s2, ModemDial clean # effs, None))))"

definition Answer_end :: "instant \<Rightarrow> CallService \<Rightarrow> CallService \<times> call_effect list" where
  "Answer_end now s =
     (let s1 = addLogLocked now ''Call answered (active)''
            (set_status (\<lambda>st. st\<lparr>cst_State := CallStateAnswered, cst_Message := ''Call active'', cst_AnsweredAt := now\<rparr>) s)
      in (s1, notify_call s (answered_event s (cst_Number (cs_status s)) (cst_Direction (cs_status s)))))"

definition Answer :: "instant \<Rightarrow> gostring option \<Rightarrow> CallService \<Rightarrow> CallService \<times> call_effect list \<times> call_error option" where
  "Answer now modemErr s =
     (let s1 = stopDropTimer s
      in case modemErr of
           Some err \<Rightarrow> (s1, [ModemAnswer], Some (ErrModem err))
         | None \<Rightarrow> (let (s2, effs) = Answer_end now s1 in (s2, ModemAnswer # effs, None)))"

definition call_duration :: "instant \<Rightarrow> CallService \<Rightarrow> duration" where
  "call_duration now s =
     (if cst_State (cs_status s) = CallStateAnswered \<and> cst_AnsweredAt (cs_status s) \<noteq> 0
      then now - cst_AnsweredAt (cs_status s) else 0)"

definition Hangup_begin :: "instant \<Rightarrow> CallService \<Rightarrow> CallService \<times> CallEvent" where
  "Hangup_begin now s =
     (let st = cs_status s;
          statusStr = (if cst_State st = CallStateAnswered then ''completed''
                       else if cst_Direction st = ''incoming'' then ''rejected'' else ''cancelled'')
      in (addLogLocked now ''Call terminated by user'' (set_status (\<lambda>st. st\<lparr>cst_State := CallStateCompleted,
             cst_Message := ''Call terminated'', cst_EndedAt := now\<rparr>) (stopDropTimer s)),
          ended_event s (cst_Number st) (cst_Direction st) statusStr (call_duration now s)))"

definition Hangup :: "instant \<Rightarrow> gostring option \<Rightarrow> CallService \<Rightarrow> CallService \<times> call_effect list \<times> call_error option" where
  "Hangup now modemErr s =
     (let (s1, ev) = Hangup_begin now s
      in case modemErr of
           Some err \<Rightarrow> (s1, [ModemHangup], Some (ErrModem err))
         | None \<Rightarrow> (s1, ModemHangup # notify_call s1 ev, None))"

definition SendDTMF :: "gostring option \<Rightarrow> gostring \<Rightarrow> CallService \<Rightarrow> CallService \<times> call_effect list \<times> call_error option" where
  "SendDTMF modemErr digit s = (s, [ModemDTMF digit], map_option ErrModem modemErr)"

section \<open>Notifications of the modem\<close>

definition quote_chars :: gostring where "quote_chars = [CHR 0x22, CHR '' '']"

definition parseClipNumber :: "gostring \<Rightarrow> gostring" where
  "parseClipNumber urc =
     (let payload = TrimSpace (TrimPrefix urc ''+CLIP:'');
          fallback = Trim_ascii (hd (Split payload (CHR '',''))) quote_chars
      in case Index payload [CHR 0x22] of
           Some firstQuote \<Rightarrow> (case Index (drop (firstQuote + 1) payload) [CHR 0x22] of
               Some secondQuote \<Rightarrow> take secondQuote (drop (firstQuote + 1) payload)
             | None \<Rightarrow> fallback)
         | None \<Rightarrow> fallback)"

definition parseDTMFDigit :: "gostring \<Rightarrow> gostring" where
  "parseDTMFDigit urc = Trim_ascii (TrimSpace (TrimPrefix urc ''+DTMF:'')) quote_chars"

definition handleClipURC :: "instant \<Rightarrow> gostring \<Rightarrow> CallService \<Rightarrow> CallService \<times> call_effect list" where
  "handleClipURC now urc s =
     (let num = parseClipNumber urc; st = cs_status s;
          startedAt = (if cst_State st = CallStateRinging \<and> cst_StartedAt st \<noteq> 0 then cst_StartedAt st else now)
      in ((stopDropTimer s)\<lparr>cs_status := emptyStatus\<lparr>cst_State := CallStateRinging, cst_Number := num, cst_Direction := ''incoming'',
             cst_Message := ''Incoming call from '' @ num, cst_StartedAt := startedAt\<rparr>\<rparr>,
          notify_call s ((noEvent s)\<lparr>ce_Type := ''incoming'', ce_From := num, ce_Number := num, ce_Direction := ''incoming''\<rparr>)))"

definition answeredDrop_begin :: "instant \<Rightarrow> CallService \<Rightarrow> CallService" where
  "answeredDrop_begin now s = set_status (\<lambda>st. st\<lparr>cst_State := CallStateAnswered, cst_AnsweredAt := now,
     cst_Message := ''Answered! Auto-hanging up (call-drop)...''\<rparr>) (stopDropTimer s)"

definition answeredDrop_end :: "instant \<Rightarrow> gostring \<Rightarrow> gostring \<Rightarrow> CallService \<Rightarrow> CallService \<times> call_effect list" where
  "answeredDrop_end now num dir s =
     (let d = now - cst_AnsweredAt (cs_status s)
      in (addLogLocked now ''Call dropped successfully (call completed)'' (set_status (\<lambda>st. st\<lparr>cst_State := CallStateCompleted,
             cst_Message := ''Call answered and dropped successfully'', cst_EndedAt := now\<rparr>) s),
          notify_call s (ended_event s num dir ''completed'' d)))"

definition handleCallAnsweredDrop :: "instant \<Rightarrow> instant \<Rightarrow> CallService \<Rightarrow> CallService \<times> call_effect list" where
  "handleCallAnsweredDrop now1 now2 s =
     (let num = cst_Number (cs_status s); dir = cst_Direction (cs_status s);
          s1 = answeredDrop_begin now1 s;
          (s2, effs) = answeredDrop_end now2 num dir s1
      in (s2, notify_call s (answered_event s num dir) @ ModemHangup # effs))"

definition handleDTMFURC :: "gostring \<Rightarrow> CallService \<Rightarrow> CallService \<times> call_effect list" where
  "handleDTMFURC urc s = (s, notify_call s ((noEvent s)\<lparr>ce_Type := ''dtmf'', ce_Digit := parseDTMFDigit urc\<rparr>))"

definition handleNoCarrierURC :: "instant \<Rightarrow> CallService \<Rightarrow> CallService \<times> call_effect list" where
  "handleNoCarrierURC now s =
     (let st = cs_status s; wasAnswered = (cst_State st = CallStateAnswered);
          statusStr = (if wasAnswered then ''completed'' else if cst_Direction st = ''incoming'' then ''missed'' else ''failed'');
          s0 = stopDropTimer s;
          s1 = (if wasAnswered
                then addLogLocked now ''Call finished (NO CARRIER)''
                       (set_status (\<lambda>st. st\<lparr>cst_State := CallStateCompleted, cst_Message := ''Call finished''\<rparr>) s0)
                else addLogLocked now ''Call ended: NO CARRIER (no answer / disconnected)''
                       (set_status (\<lambda>st. st\<lparr>cst_State := CallStateFailed, cst_Message := ''Call ended (no answer / disconnected)''\<rparr>) s0))
      in (set_status (\<lambda>st. st\<lparr>cst_EndedAt := now\<rparr>) s1,
          notify_call s (ended_event s (cst_Number st) (cst_Direction st) statusStr (call_duration now s))))"

definition handleBusyURC :: "instant \<Rightarrow> CallService \<Rightarrow> CallService \<times> call_effect list" where
  "handleBusyURC now s =
     (let st = cs_status s
      in (addLogLocked now ''Line busy / Call rejected (BUSY)'' (set_status (\<lambda>st. st\<lparr>cst_State := CallStateBusy,
             cst_Message := ''Line busy / Rejected'', cst_EndedAt := now\<rparr>) (stopDropTimer s)),
          notify_call s (ended_event s (cst_Number st) (cst_Direction st)
            (if cst_Direction st = ''incoming'' then ''rejected'' else ''busy'') 0)))"

definition CallHandleURC :: "instant \<Rightarrow> instant \<Rightarrow> gostring \<Rightarrow> CallService \<Rightarrow> CallService \<times> call_effect list" where
  "CallHandleURC now1 now2 urc s =
     (let trimmed = TrimSpace urc
      in if HasPrefix trimmed ''+CLIP:'' then handleClipURC now1 trimmed s
         else if HasPrefix trimmed ''+COLP:'' then handleCallAnsweredDrop now1 now2 s
         else if HasPrefix trimmed ''+DTMF:'' then handleDTMFURC trimmed s
         else if trimmed = ''NO CARRIER'' then handleNoCarrierURC now1 s
         else if trimmed = ''BUSY'' then handleBusyURC now1 s
         else (s, []))"

text \<open>One tick of \<^verbatim>\<open>monitorCall\<close>; the flag says whether the goroutine goes on.\<close>

definition monitorApply :: "instant \<Rightarrow> instant \<Rightarrow> gostring option \<Rightarrow> CallService \<Rightarrow> CallService \<times> call_effect list \<times> bool" where
  "monitorApply now1 now2 callState s = (case callState of
     None \<Rightarrow> (s, [], True)
   | Some cs \<Rightarrow>
       if cs = ''ringing'' then
         (if cst_State (cs_status s) = CallStateDialing
          then addLogLocked now1 ''Remote party is ringing (alerting)...''
                 (set_status (\<lambda>st. st\<lparr>cst_State := CallStateRinging, cst_Message := ''Ringing '' @ cst_Number st @ ''...''\<rparr>) s)
          else s, [], True)
       else if cs = ''answered'' then (let (s1, effs) = handleCallAnsweredDrop now1 now2 s in (s1, effs, False))
       else if cs = ''idle'' then (s, [], False)
       else (s, [], True))"

definition monitorTick :: "instant \<Rightarrow> instant \<Rightarrow> gostring option \<Rightarrow> CallService \<Rightarrow> CallService \<times> call_effect list \<times> bool" where
  "monitorTick now1 now2 callState s =
     (if cst_State (cs_status s) \<noteq> CallStateDialing \<and> cst_State (cs_status s) \<noteq> CallStateRinging then (s, [], False)
      else monitorApply now1 now2 callState s)"

section \<open>Every interleaving of the sections\<close>

datatype call_section =
    SecDialBegin instant gostring
  | SecDialFailed instant gostring
  | SecDialAccepted instant gostring
  | SecAnswerBegin
  | SecAnswerEnd instant
  | SecHangup instant
  | SecClip instant gostring
  | SecDropBegin instant
  | SecDropEnd instant gostring gostring
  | SecNoCarrier instant
  | SecBusy instant
  | SecTimeout instant
  | SecMonitorRinging instant
  | SecSetTimeout duration

fun call_section_step :: "call_section \<Rightarrow> CallService \<Rightarrow> CallService \<times> unit" where
  "call_section_step (SecDialBegin now clean) s = (Dial_begin now clean s, ())"
| "call_section_step (SecDialFailed now err) s = (Dial_failed now err s, ())"
| "call_section_step (SecDialAccepted now clean) s = (fst (startDialMonitoring now clean s), ())"
| "call_section_step SecAnswerBegin s = (stopDropTimer s, ())"
| "call_section_step (SecAnswerEnd now) s = (fst (Answer_end now s), ())"
| "call_section_step (SecHangup now) s = (fst (Hangup_begin now s), ())"
| "call_section_step (SecClip now urc) s = (fst (handleClipURC now urc s), ())"
| "call_section_step (SecDropBegin now) s = (answeredDrop_begin now s, ())"
| "call_section_step (SecDropEnd now num dir) s = (fst (answeredDrop_end now num dir s), ())"
| "call_section_step (SecNoCarrier now) s = (fst (handleNoCarrierURC now s), ())"
| "call_section_step (SecBusy now) s = (fst (handleBusyURC now s), ())"
| "call_section_step (SecTimeout now) s = (fst (onAutoDropTimeout now s), ())"
| "call_section_step (SecMonitorRinging now) s = (fst (monitorApply now now (Some ''ringing'') s), ())"
| "call_section_step (SecSetTimeout d) s = (SetAutoDropTimeout d s, ())"

definition call_inv :: "CallService \<Rightarrow> bool" where
  "call_inv s \<longleftrightarrow> length (cst_Logs (cs_status s)) \<le> 20 \<and> (cs_monitorStop s \<longrightarrow> cs_dropTimer s \<noteq> None)
     \<and> (cst_State (cs_status s) = CallStateDialing \<longrightarrow> cst_Direction (cs_status s) = ''outgoing'' \<and> cs_dropTimer s = None)
     \<and> (cst_State (cs_status s) = CallStateIdle \<longrightarrow> cs_dropTimer s = None)"

lemmas call_defs = Dial_begin_def Dial_failed_def startDialMonitoring_def Answer_end_def Hangup_begin_def handleClipURC_def
  answeredDrop_begin_def answeredDrop_end_def handleNoCarrierURC_def handleBusyURC_def onAutoDropTimeout_def
  monitorApply_def SetAutoDropTimeout_def addLogLocked_def set_status_def stopDropTimer_def emptyStatus_def Let_def

lemma call_section_inv: "call_inv s \<Longrightarrow> call_inv (fst (call_section_step e s))"
  by (cases e) (auto simp: call_inv_def call_defs)

interpretation calls: event_machine call_section_step call_inv
  by unfold_locales (rule call_section_inv)

text \<open>Property C22. In every interleaving of the sections that hold the mutex (dialling, answering, hanging
  up, notifications, timer callbacks and monitor ticks in any order) the log keeps at most 20 entries,
  a monitor channel is open only while the auto-drop timer is armed, no timer is armed for a call that is
  still being dialled or before the first call, and a call being dialled is an outgoing one.
\<close>

theorem call_service_reachable:
  assumes "s = fst (run call_section_step es (NewCallService modemID checker onEvent))"
  shows "length (cst_Logs (cs_status s)) \<le> 20 \<and> (cs_monitorStop s \<longrightarrow> cs_dropTimer s \<noteq> None)
    \<and> (cst_State (cs_status s) = CallStateDialing \<longrightarrow> cst_Direction (cs_status s) = ''outgoing'' \<and> cs_dropTimer s = None)
    \<and> (cst_State (cs_status s) = CallStateIdle \<longrightarrow> cs_dropTimer s = None)"
proof -
  have "call_inv (NewCallService modemID checker onEvent)"
    by (simp add: call_inv_def NewCallService_def emptyStatus_def)
  then have "call_inv s" unfolding assms by (rule calls.run_inv)
  then show ?thesis by (simp add: call_inv_def)
qed

theorem call_service_reachable_witness:
  "\<exists>s. s = fst (run call_section_step (SecDialBegin 1 ''1'' # replicate 25 (SecBusy 2)) (NewCallService ''m'' True True))
     \<and> cst_State (cs_status s) = CallStateBusy \<and> length (cst_Logs (cs_status s)) \<le> 20"
proof -
  define s where "s = fst (run call_section_step (SecDialBegin 1 ''1'' # replicate 25 (SecBusy 2)) (NewCallService ''m'' True True))"
  have "cst_State (cs_status s) = CallStateBusy" unfolding s_def by code_simp
  with call_service_reachable [OF s_def] show ?thesis unfolding s_def by blast
qed

section \<open>The outcome of a call\<close>

datatype call_op =
    OpTimeout instant
  | OpURC instant instant gostring
  | OpTick instant instant "gostring option"
  | OpHangup instant

fun call_step :: "call_op \<Rightarrow> CallService \<Rightarrow> CallService \<times> call_effect list" where
  "call_step (OpTimeout now) s = onAutoDropTimeout now s"
| "call_step (OpURC now1 now2 urc) s = CallHandleURC now1 now2 urc s"
| "call_step (OpTick now1 now2 cs) s = (let (s1, effs, _) = monitorTick now1 now2 cs s in (s1, effs))"
| "call_step (OpHangup now) s = (let (s1, effs, _) = Hangup now None s in (s1, effs))"

text \<open>The status an operation gives a call that is not yet answered; \<open>None\<close> when it leaves the
  call as it is.\<close>

fun outcome :: "call_op \<Rightarrow> gostring option" where
  "outcome (OpTimeout now) = Some ''no_answer''"
| "outcome (OpURC now1 now2 urc) =
     (let t = TrimSpace urc
      in if HasPrefix t ''+CLIP:'' then None
         else if HasPrefix t ''+COLP:'' then Some ''completed''
         else if t = ''NO CARRIER'' then Some ''failed'' else if t = ''BUSY'' then Some ''busy'' else None)"
| "outcome (OpTick now1 now2 cs) = (if cs = Some ''answered'' then Some ''completed'' else None)"
| "outcome (OpHangup now) = Some ''cancelled''"

fun incoming_call :: "call_op \<Rightarrow> bool" where
  "incoming_call (OpURC now1 now2 urc) = HasPrefix (TrimSpace urc) ''+CLIP:''"
| "incoming_call op = False"

definition ended_of :: "call_effect list \<Rightarrow> CallEvent list" where
  "ended_of effs = concat (map (\<lambda>e. case e of CallEv ev \<Rightarrow> if ce_Type ev = ''ended'' then [ev] else [] | _ \<Rightarrow> []) effs)"

definition ringing_out :: "gostring \<Rightarrow> CallService \<Rightarrow> bool" where
  "ringing_out num s \<longleftrightarrow> cs_onEvent s \<and> cst_State (cs_status s) = CallStateRinging \<and> cst_Number (cs_status s) = num
     \<and> cst_Direction (cs_status s) = ''outgoing''"

lemmas call_op_defs = CallHandleURC_def handleDTMFURC_def handleCallAnsweredDrop_def monitorTick_def Hangup_def
  ended_of_def notify_call_def ended_event_def answered_event_def noEvent_def call_duration_def call_defs

lemma quiet_step:
  assumes "ringing_out num s" "outcome op = None" "\<not> incoming_call op"
  shows "ringing_out num (fst (call_step op s)) \<and> ended_of (snd (call_step op s)) = [] \<and> cs_modemID (fst (call_step op s)) = cs_modemID s"
  using assms by (cases op) (auto simp: ringing_out_def call_op_defs split: option.splits if_splits)

lemma final_step:
  assumes "ringing_out num s" "outcome op = Some status"
  shows "\<exists>d. ended_of (snd (call_step op s)) = [ended_event s num ''outgoing'' status d]
    \<and> cst_State (cs_status (fst (call_step op s))) \<in> {CallStateFailed, CallStateCompleted, CallStateBusy}
    \<and> cs_dropTimer (fst (call_step op s)) = (case op of OpTimeout _ \<Rightarrow> cs_dropTimer s | _ \<Rightarrow> None)
    \<and> \<not> cs_monitorStop (fst (call_step op s))"
  using assms by (cases op) (auto simp: ringing_out_def call_op_defs HasPrefix_def split: option.splits if_splits)

lemma quiet_run:
  assumes "ringing_out num s" "\<forall>op\<in>set ops. outcome op = None \<and> \<not> incoming_call op"
  shows "ringing_out num (fst (run call_step ops s)) \<and> ended_of (concat (snd (run call_step ops s))) = []
    \<and> cs_modemID (fst (run call_step ops s)) = cs_modemID s"
  using assms
proof (induction ops arbitrary: s)
  case (Cons op ops)
  note q = quiet_step [OF Cons.prems(1), of op]
  from Cons.IH [of "fst (call_step op s)"] q Cons.prems show ?case
    by (simp add: Let_def split_beta) (simp add: ended_of_def)
qed (simp add: ended_of_def)

lemma dial_rings:
  assumes "Dial t1 t2 None number s = (s1, effs, None)" "cs_onEvent s"
  shows "ringing_out (cleanVoiceNumber number) s1 \<and> cs_modemID s1 = cs_modemID s \<and> effs \<noteq> [] \<and> hd effs = ModemDial (cleanVoiceNumber number)"
  using assms by (auto simp: Dial_def ringing_out_def call_defs split: if_splits)



text \<open>
  A \<^verbatim>\<open>NO CARRIER\<close> line is not checked against a call in progress: after a call has ended (for
  example by a hangup, whose event was published), the line publishes a second ended event for the same
  number, with the status failed or missed, and turns the state from completed to failed.
\<close>

theorem no_carrier_after_hangup:
  assumes "cs_onEvent s" "Hangup now None s = (s1, effs1, None)" "CallHandleURC now2 now3 ''NO CARRIER'' s1 = (s2, effs2)"
  shows "(\<exists>ev1 ev2. ended_of effs1 = [ev1] \<and> ended_of effs2 = [ev2] \<and> ce_Number ev1 = ce_Number ev2
      \<and> ce_Status ev2 = (if cst_Direction (cs_status s) = ''incoming'' then ''missed'' else ''failed''))
    \<and> cst_State (cs_status s1) = CallStateCompleted \<and> cst_State (cs_status s2) = CallStateFailed"
proof -
  have t: "TrimSpace ''NO CARRIER'' = ''NO CARRIER''" by code_simp
  show ?thesis
    using assms by (auto simp: t call_op_defs HasPrefix_def)
qed

theorem no_carrier_after_hangup_witness:
  "\<exists>s1 s2. s1 = fst (Hangup 5 None (fst (Answer 2 None (fst (handleClipURC 1 ''+CLIP: \"+7900\",145'' (NewCallService ''m'' True True))))))
    \<and> s2 = fst (CallHandleURC 6 6 ''NO CARRIER'' s1)
    \<and> cst_State (cs_status s1) = CallStateCompleted \<and> cst_State (cs_status s2) = CallStateFailed"
proof -
  define s where "s = fst (Answer 2 None (fst (handleClipURC 1 ''+CLIP: \"+7900\",145'' (NewCallService ''m'' True True))))"
  have e: "cs_onEvent s" unfolding s_def by code_simp
  have h: "Hangup 5 None s = (fst (Hangup 5 None s), fst (snd (Hangup 5 None s)), None)"
    by (simp add: Hangup_def split_beta Let_def)
  show ?thesis
    using no_carrier_after_hangup [OF e h surjective_pairing [of "CallHandleURC 6 6 ''NO CARRIER'' (fst (Hangup 5 None s))"]]
    unfolding s_def by blast
qed

end
