(* ===== verification/USSD.thy ===== *)
theory USSD
  imports Event_Machine PDU_Network
begin

text \<open>
  USSD codes and responses (\<^verbatim>\<open>internal/ussd\<close>: types.go, errors.go, parser.go) and the USSD service
  (\<^verbatim>\<open>internal/services/ussd.go\<close>). The service is split where \<^verbatim>\<open>Send\<close> waits: \<open>USSDSend_begin\<close> registers the
  response channel, \<open>USSDSend_reply\<close> handles what the modem returned for the command, \<open>USSDSend_wait\<close> one outcome of
  the select statement. A channel of capacity 1 is its buffer, under a number.
\<close>

section \<open>Parser\<close>

datatype ussd_error =
    ErrEmptyUSSDCode
  | ErrInvalidUSSDFormat
  | ErrUSSDTimeout
  | ErrUSSDTerminated
  | ErrUSSDNotSupported
  | ErrMalformedUSSDResponse
  | ErrSender gostring
  | ErrContext
  | USSDPanic

record USSDResponse =
  ur_Status :: int
  ur_Message :: gostring
  ur_DCS :: int
  ur_ActionRequired :: bool

definition ussd_rune :: "rune \<Rightarrow> bool" where
  "ussd_rune r \<longleftrightarrow> is_digit r \<or> r = 42 \<or> r = 35"

definition ValidateCode :: "gostring \<Rightarrow> ussd_error option" where
  "ValidateCode code =
     (let trimmed = TrimSpace code
      in if trimmed = [] then Some ErrEmptyUSSDCode
         else if length trimmed < 3 then Some ErrInvalidUSSDFormat
         else if (\<not> HasPrefix trimmed ''*'' \<and> \<not> HasPrefix trimmed ''#'') \<or> \<not> HasSuffix trimmed ''#'' then Some ErrInvalidUSSDFormat
         else if list_all ussd_rune (runes trimmed) then None else Some ErrInvalidUSSDFormat)"

definition isPrintable :: "gostring \<Rightarrow> bool" where
  "isPrintable s \<longleftrightarrow> list_all (\<lambda>r. \<not> (r < 32 \<and> r \<noteq> 10 \<and> r \<noteq> 13 \<and> r \<noteq> 9)) (runes s)"

definition isHex :: "gostring \<Rightarrow> bool" where
  "isHex s \<longleftrightarrow> s \<noteq> [] \<and> list_all (\<lambda>r. is_digit r \<or> (97 \<le> r \<and> r \<le> 102) \<or> (65 \<le> r \<and> r \<le> 70)) (runes s)"

text \<open>\<^verbatim>\<open>strings.ReplaceAll\<close> for a pattern of two bytes.\<close>

fun ReplaceAll2 :: "char \<Rightarrow> char \<Rightarrow> char \<Rightarrow> gostring \<Rightarrow> gostring" where
  "ReplaceAll2 a b c (x # y # s) = (if x = a \<and> y = b then c # ReplaceAll2 a b c s else x # ReplaceAll2 a b c (y # s))"
| "ReplaceAll2 a b c s = s"

text \<open>The quoted message and the coding scheme after it.\<close>

definition parse_rest :: "gostring \<Rightarrow> gostring \<times> int" where
  "parse_rest rest =
     (case IndexByte rest (CHR 0x22) of
        None \<Rightarrow> ([], 15)
      | Some startQuote \<Rightarrow> (case LastIndexByte rest (CHR 0x22) of
          None \<Rightarrow> ([], 15)
        | Some endQuote \<Rightarrow>
            if startQuote < endQuote then
              (let message = take (endQuote - (startQuote + 1)) (drop (startQuote + 1) rest);
                   afterQuote = TrimSpace (drop (endQuote + 1) rest)
               in (message,
                   if HasPrefix afterQuote '','' then
                     (case Atoi (TrimSpace (TrimPrefix afterQuote '','')) of Some parsedDCS \<Rightarrow> parsedDCS | None \<Rightarrow> 15)
                   else 15))
            else ([], 15)))"

definition decode_message :: "gostring \<Rightarrow> int \<Rightarrow> gostring" where
  "decode_message message dcs =
     (if (dcs = 72 \<or> length message mod 4 = 0) \<and> 4 \<le> length message \<and> isHex message then
        (case hex_DecodeString message of
           Some rawBytes \<Rightarrow>
             (let decoded = DecodeUCS2 rawBytes in if decoded \<noteq> [] \<and> isPrintable decoded then decoded else message)
         | None \<Rightarrow> message)
      else ReplaceAll2 (CHR 0x5C) (CHR ''r'') (CHR 0x0D) (ReplaceAll2 (CHR 0x5C) (CHR ''n'') (CHR 0x0A) message))"

definition status_error :: "int \<Rightarrow> gostring \<Rightarrow> ussd_error option" where
  "status_error statusCode rest =
     (if statusCode = 2 then (if \<not> Contains rest [CHR 0x22] then Some ErrUSSDTerminated else None)
      else if statusCode = 4 then Some ErrUSSDNotSupported
      else if statusCode = 5 then Some ErrUSSDTimeout
      else if statusCode = 0 \<or> statusCode = 1 \<or> statusCode = 3 then None
      else Some ErrMalformedUSSDResponse)"

definition ParseResponse :: "gostring \<Rightarrow> ussd_error + USSDResponse" where
  "ParseResponse urc =
     (let trimmed = TrimSpace urc
      in if \<not> HasPrefix trimmed ''+CUSD:'' then Inl ErrMalformedUSSDResponse
         else
           (let body = TrimSpace (TrimPrefix trimmed ''+CUSD:'')
            in if body = [] then Inl ErrMalformedUSSDResponse
               else
                 (let (statusRaw, rest) = (case IndexByte body (CHR '','') of
                        Some idx \<Rightarrow> (TrimSpace (take idx body), TrimSpace (drop (idx + 1) body))
                      | None \<Rightarrow> (body, []))
                  in case Atoi statusRaw of
                       None \<Rightarrow> Inl ErrMalformedUSSDResponse
                     | Some statusCode \<Rightarrow>
                         (case status_error statusCode rest of
                            Some err \<Rightarrow> Inl err
                          | None \<Rightarrow>
                              (let (message, dcs) = parse_rest rest
                               in Inr \<lparr>ur_Status = statusCode, ur_Message = decode_message message dcs, ur_DCS = dcs,
                                       ur_ActionRequired = (statusCode = 1)\<rparr>)))))"

section \<open>Service\<close>

record USSDService =
  us_onResponse :: bool
  us_pending :: "nat option"
  us_chan :: "nat \<Rightarrow> USSDResponse option"
  us_next :: nat

definition NewUSSDService :: "bool \<Rightarrow> USSDService" where
  "NewUSSDService onResponse = \<lparr>us_onResponse = onResponse, us_pending = None, us_chan = (\<lambda>_. None), us_next = 0\<rparr>"

definition clearPending :: "USSDService \<Rightarrow> USSDService" where
  "clearPending s = s\<lparr>us_pending := None\<rparr>"

definition parseInlineCUSD :: "gostring \<Rightarrow> ussd_error + USSDResponse" where
  "parseInlineCUSD out = (case Index out ''+CUSD:'' of
     None \<Rightarrow> Inl USSDPanic
   | Some idx \<Rightarrow>
       (let line = drop idx out
        in ParseResponse (TrimSpace (case IndexByte line (CHR 0x0A) of Some stop \<Rightarrow> take stop line | None \<Rightarrow> line))))"

definition USSDSend_begin :: "gostring \<Rightarrow> USSDService \<Rightarrow> ussd_error + (nat \<times> USSDService)" where
  "USSDSend_begin code s = (case ValidateCode code of
     Some err \<Rightarrow> Inl err
   | None \<Rightarrow> Inr (us_next s, s\<lparr>us_pending := Some (us_next s), us_chan := (us_chan s)(us_next s := None), us_next := us_next s + 1\<rparr>))"

text \<open>\<open>Inr None\<close> means that the call goes on to wait; the list holds the responses handed to the
  callback.\<close>

definition USSDSend_reply :: "gostring + gostring \<Rightarrow> USSDService \<Rightarrow> USSDService \<times> USSDResponse list \<times> (ussd_error + USSDResponse option)" where
  "USSDSend_reply reply s = (case reply of
     Inl err \<Rightarrow> (clearPending s, [], Inl (ErrSender err))
   | Inr out \<Rightarrow>
       if Contains out ''+CUSD:'' then
         (case parseInlineCUSD out of
            Inl err \<Rightarrow> (clearPending s, [], Inl err)
          | Inr resp \<Rightarrow> (clearPending s, if us_onResponse s then [resp] else [], Inr (Some resp)))
       else (s, [], Inr None))"

datatype ussd_wait = WaitResp | WaitCtx | WaitTimeout

definition USSDSend_wait :: "ussd_wait \<Rightarrow> nat \<Rightarrow> USSDService \<Rightarrow> USSDService \<times> (ussd_error + USSDResponse) option" where
  "USSDSend_wait w ch s = (case w of
     WaitResp \<Rightarrow> (case us_chan s ch of
         Some resp \<Rightarrow> (s\<lparr>us_chan := (us_chan s)(ch := None)\<rparr>, Some (Inr resp))
       | None \<Rightarrow> (s, None))
   | WaitCtx \<Rightarrow> (clearPending s, Some (Inl ErrContext))
   | WaitTimeout \<Rightarrow> (clearPending s, Some (Inl ErrUSSDTimeout)))"

definition USSDHandleURC :: "gostring \<Rightarrow> USSDService \<Rightarrow> USSDService \<times> USSDResponse list" where
  "USSDHandleURC urc s =
     (let trimmed = TrimSpace urc
      in if \<not> HasPrefix trimmed ''+CUSD:'' then (s, [])
         else case ParseResponse trimmed of
           Inl _ \<Rightarrow> (s, [])
         | Inr resp \<Rightarrow>
             (let s1 = s\<lparr>us_pending := None\<rparr>;
                  s2 = (case us_pending s of
                          Some ch \<Rightarrow> (if us_chan s ch = None then s1\<lparr>us_chan := (us_chan s)(ch \<mapsto> resp)\<rparr> else s1)
                        | None \<Rightarrow> s1)
              in (s2, if us_onResponse s then [resp] else [])))"

section \<open>Responses read back\<close>

lemma LastIndexByte_append:
  "LastIndexByte (xs @ ys) c = (case LastIndexByte ys c of Some i \<Rightarrow> Some (length xs + i) | None \<Rightarrow> LastIndexByte xs c)"
  by (induction xs) (auto split: option.split)

lemma LastIndexByte_None: "c \<notin> set xs \<Longrightarrow> LastIndexByte xs c = None"
  by (induction xs) auto

text \<open>The line a modem prints for a response with status \<open>st\<close>, message \<open>m\<close> and coding scheme \<open>ds\<close>.\<close>

definition cusd_line :: "char \<Rightarrow> gostring \<Rightarrow> gostring \<Rightarrow> gostring" where
  "cusd_line st m ds = ''+CUSD: '' @ [st] @ '','' @ [CHR 0x22] @ m @ [CHR 0x22] @ '','' @ ds"

lemma digit_char_facts:
  assumes "is_digit_char c"
  shows "of_char c < (0x80 :: nat)" "\<not> IsSpace (of_char c)" "c \<noteq> CHR '',''" "c \<noteq> CHR 0x22" "c \<noteq> CHR ''-''" "c \<noteq> CHR ''+''"
  using assms by (auto simp: is_digit_char_def is_digit_def IsSpace_def)

lemma TrimSpace_ends:
  "is_ascii (x # xs) \<Longrightarrow> \<not> IsSpace (of_char x) \<Longrightarrow> \<not> IsSpace (of_char (last (x # xs))) \<Longrightarrow> TrimSpace (x # xs) = x # xs"
  by (intro TrimSpace_id) auto

lemma TrimSpace_blank: "is_ascii s \<Longrightarrow> TrimSpace (CHR '' '' # s) = TrimSpace s"
  by (subst (1 2) TrimSpace_ascii) (simp_all add: trim_by_def IsSpace_def)

lemma parse_rest_quoted:
  assumes "is_ascii ds" "digit_string ds" "CHR 0x22 \<notin> set m" "Atoi ds = Some dcs"
  shows "parse_rest (CHR 0x22 # m @ CHR 0x22 # CHR '','' # ds) = (m, dcs)"
proof -
  have d: "CHR 0x22 \<notin> set ds" using assms(2) digit_char_facts(4) by (auto simp: digit_string_def list_all_iff)
  have l: "LastIndexByte (m @ CHR 0x22 # CHR '','' # ds) (CHR 0x22) = Some (length m)"
    using d by (simp add: LastIndexByte_append LastIndexByte_None)
  have t: "TrimSpace (CHR '','' # ds) = CHR '','' # ds"
  proof (rule TrimSpace_ends)
    have "last ds \<in> set ds" "ds \<noteq> []" using assms(2) by (auto simp: digit_string_def)
    then show "\<not> IsSpace (of_char (last (CHR '','' # ds)))"
      using assms(2) digit_char_facts(2) by (auto simp: digit_string_def list_all_iff)
  qed (use assms(1) in \<open>simp_all add: IsSpace_def\<close>)
  show ?thesis
    using assms(4) digit_string_facts(1) [OF assms(2)]
    by (simp add: parse_rest_def l t HasPrefix_def TrimPrefix_def Let_def)
qed

lemma ParseResponse_line:
  assumes "is_digit_char st" "is_ascii m" "CHR 0x22 \<notin> set m" "digit_string ds" "Atoi [st] = Some n" "Atoi ds = Some dcs"
    and "n \<in> {0, 1, 2, 3}"
  shows "ParseResponse (cusd_line st m ds) =
    Inr \<lparr>ur_Status = n, ur_Message = decode_message m dcs, ur_DCS = dcs, ur_ActionRequired = (n = 1)\<rparr>"
proof -
  define rest where "rest = m @ CHR 0x22 # CHR '','' # ds"
  note st = digit_char_facts [OF assms(1)]
  have dsa: "is_ascii ds" using assms(4) digit_char_facts(1) by (fastforce simp: digit_string_def is_ascii_def list_all_iff)
  have ra: "is_ascii rest" using assms(2) dsa by (simp add: rest_def)
  have ds: "last ds \<in> set ds" "ds \<noteq> []" using assms(4) by (auto simp: digit_string_def)
  then have "\<not> IsSpace (of_char (last ds))" using assms(4) digit_char_facts(2) by (auto simp: digit_string_def list_all_iff)
  with ds(2) have lst: "\<not> IsSpace (of_char (last rest))" "rest \<noteq> []" by (simp_all add: rest_def)
  have b: "TrimSpace (st # CHR '','' # CHR 0x22 # rest) = st # CHR '','' # CHR 0x22 # rest"
    using st ra lst by (intro TrimSpace_ends) simp_all
  have r: "TrimSpace (CHR 0x22 # rest) = CHR 0x22 # rest" using ra lst by (intro TrimSpace_ends) (simp_all add: IsSpace_def)
  have line: "cusd_line st m ds = CHR ''+'' # ''CUSD: '' @ st # CHR '','' # CHR 0x22 # rest" by (simp add: cusd_line_def rest_def)
  have t: "TrimSpace (cusd_line st m ds) = cusd_line st m ds"
    unfolding line using st ra lst by (intro TrimSpace_ends) (simp_all add: IsSpace_def)
  have body: "TrimSpace (TrimPrefix (cusd_line st m ds) ''+CUSD:'') = st # CHR '','' # CHR 0x22 # rest"
    unfolding line using st ra b by (simp add: TrimPrefix_def HasPrefix_def TrimSpace_blank)
  have "TrimSpace [st] = [st]" using st by (intro TrimSpace_ends) simp_all
  moreover have "status_error n (CHR 0x22 # rest) = None"
    using assms(7) by (auto simp: status_error_def Contains_def rest_def HasPrefix_def)
  moreover have "HasPrefix (cusd_line st m ds) ''+CUSD:''" by (simp add: line HasPrefix_def)
  ultimately show ?thesis
    using st r assms(5) parse_rest_quoted [OF dsa assms(4,3,6)]
    by (simp add: ParseResponse_def t body Let_def rest_def [symmetric])
qed

lemma hexString_plain: "isHex (hexString bs) \<longleftrightarrow> bs \<noteq> []" "CHR 0x22 \<notin> set (hexString bs)"
proof -
  show "CHR 0x22 \<notin> set (hexString bs)" using hexString_char [of "CHR 0x22" bs] by (auto simp: is_digit_def)
  have "hexString bs = [] \<longleftrightarrow> bs = []" by (simp flip: length_0_conv)
  then show "isHex (hexString bs) \<longleftrightarrow> bs \<noteq> []"
    using hexString_char [of _ bs] by (auto simp: isHex_def runes_ascii [OF hexString_ascii] list_all_iff)
qed

lemma decode_message_hex:
  assumes "2 \<le> length bs" "even (length bs) \<or> dcs = 72" "DecodeUCS2 bs \<noteq> []" "isPrintable (DecodeUCS2 bs)"
  shows "decode_message (hexString bs) dcs = DecodeUCS2 bs"
proof -
  have "bs \<noteq> []" using assms(1) by auto
  then show ?thesis using assms by (auto simp: decode_message_def hexString_plain Let_def)
qed

text \<open>A USSD text survives the UCS-2 coding of the network: when the response line carries the
  hexadecimal UCS-2 form of a printable text under coding scheme 72, the parser returns the text, the
  status and whether an answer is expected.
\<close>

theorem ussd_ucs2_roundtrip:
  assumes "valid_utf8 msg" "msg \<noteq> []" "isPrintable msg" "Atoi [st] = Some n" "is_digit_char st" "n \<in> {0, 1, 2, 3}"
  shows "ParseResponse (cusd_line st (hexString (EncodeUCS2 msg)) ''72'') =
    Inr \<lparr>ur_Status = n, ur_Message = msg, ur_DCS = 72, ur_ActionRequired = (n = 1)\<rparr>"
proof -
  have r: "string_of_runes (runes msg) = msg" using assms(1) by (simp add: valid_utf8_def)
  have d: "DecodeUCS2 (EncodeUCS2 msg) = msg" using ucs2_user_data [OF runes_valid, of msg] r by simp
  have "runes msg \<noteq> []" using assms(2) by simp
  then have "0 < sum_list (map rune_units (runes msg))" using rune_units_pos by (cases "runes msg") auto
  then have "2 \<le> length (EncodeUCS2 msg)" using length_EncodeUCS2_runes [OF runes_valid, of msg] r by simp
  then have "decode_message (hexString (EncodeUCS2 msg)) 72 = msg" using d assms(2,3) by (subst decode_message_hex) simp_all
  moreover have "digit_string ''72''" "Atoi ''72'' = Some 72" by code_simp+
  ultimately show ?thesis using assms(4-6) ParseResponse_line hexString_ascii hexString_plain(2) by metis
qed

theorem ussd_ucs2_roundtrip_witness:
  "ParseResponse (cusd_line (CHR ''1'') (hexString (EncodeUCS2 [CHR 0xD0, CHR 0x91, CHR ''1''])) ''72'') =
    Inr \<lparr>ur_Status = 1, ur_Message = [CHR 0xD0, CHR 0x91, CHR ''1''], ur_DCS = 72, ur_ActionRequired = (1 = (1 :: int))\<rparr>"
proof (rule ussd_ucs2_roundtrip)
  show "valid_utf8 [CHR 0xD0, CHR 0x91, CHR ''1'']" "isPrintable [CHR 0xD0, CHR 0x91, CHR ''1'']"
    "Atoi [CHR ''1''] = Some 1" "is_digit_char (CHR ''1'')" by code_simp+
qed simp_all

text \<open>
  The coding scheme does not protect a plain message: a message in the 7-bit alphabet that consists of
  hexadecimal characters in groups of four, such as the amount 1250, is taken for UCS-2 under every
  coding scheme and returned as other characters (here one character for each group of four).
\<close>

theorem ussd_plain_hex_garbled:
  assumes "bs \<noteq> []" "even (length bs)" "DecodeUCS2 bs \<noteq> []" "isPrintable (DecodeUCS2 bs)" "Atoi [st] = Some n" "is_digit_char st"
    and "n \<in> {0, 1, 2, 3}" "digit_string ds" "Atoi ds = Some dcs"
  shows "ParseResponse (cusd_line st (hexString bs) ds) =
    Inr \<lparr>ur_Status = n, ur_Message = DecodeUCS2 bs, ur_DCS = dcs, ur_ActionRequired = (n = 1)\<rparr>"
proof -
  have "2 \<le> length bs" using assms(1,2) by (cases bs; cases "tl bs") auto
  then have "decode_message (hexString bs) dcs = DecodeUCS2 bs" using assms(2-4) by (intro decode_message_hex) simp_all
  then show ?thesis using ParseResponse_line [OF assms(6) hexString_ascii hexString_plain(2) assms(8,5,9,7)] by simp
qed

theorem ussd_plain_hex_garbled_witness:
  "ParseResponse (cusd_line (CHR ''0'') (hexString [0x12, 0x50]) ''15'') =
    Inr \<lparr>ur_Status = 0, ur_Message = DecodeUCS2 [0x12, 0x50], ur_DCS = 15, ur_ActionRequired = (0 = (1 :: int))\<rparr>
   \<and> hexString [0x12, 0x50] = ''1250'' \<and> DecodeUCS2 [0x12, 0x50] \<noteq> ''1250''"
proof (intro conjI)
  show "ParseResponse (cusd_line (CHR ''0'') (hexString [0x12, 0x50]) ''15'') =
    Inr \<lparr>ur_Status = 0, ur_Message = DecodeUCS2 [0x12, 0x50], ur_DCS = 15, ur_ActionRequired = (0 = (1 :: int))\<rparr>"
    by (rule ussd_plain_hex_garbled) (code_simp | simp)+
qed code_simp+

section \<open>The exchange\<close>

definition response_of :: "gostring \<Rightarrow> USSDResponse option" where
  "response_of urc = (if HasPrefix (TrimSpace urc) ''+CUSD:''
     then (case ParseResponse (TrimSpace urc) of Inr r \<Rightarrow> Some r | Inl _ \<Rightarrow> None) else None)"

text \<open>The channel a request waits on is empty until the response is put there.\<close>

definition ussd_inv :: "USSDService \<Rightarrow> bool" where
  "ussd_inv s \<longleftrightarrow> (\<forall>ch. us_pending s = Some ch \<longrightarrow> us_chan s ch = None)"

lemma USSDHandleURC_cases:
  "response_of urc = None \<Longrightarrow> USSDHandleURC urc s = (s, [])"
  "response_of urc = Some r \<Longrightarrow> us_pending s = None \<Longrightarrow> fst (USSDHandleURC urc s) = s"
  "response_of urc = Some r \<Longrightarrow> us_pending s = Some ch \<Longrightarrow> us_chan s ch = None \<Longrightarrow>
     fst (USSDHandleURC urc s) = s\<lparr>us_pending := None, us_chan := (us_chan s)(ch \<mapsto> r)\<rparr>"
  by (auto simp: response_of_def USSDHandleURC_def Let_def split: if_splits sum.splits)

interpretation ussd: event_machine USSDHandleURC ussd_inv
proof
  fix s urc
  assume "ussd_inv s"
  then show "ussd_inv (fst (USSDHandleURC urc s))"
    by (cases "response_of urc"; cases "us_pending s") (auto simp: USSDHandleURC_cases ussd_inv_def)
qed

lemma no_pending_run: "us_pending s = None \<Longrightarrow> fst (run USSDHandleURC us s) = s"
proof (induction us arbitrary: s)
  case (Cons u us)
  then have "fst (USSDHandleURC u s) = s" using USSDHandleURC_cases(1,2) [of u] by (cases "response_of u") auto
  with Cons show ?case by (simp add: Let_def split_beta)
qed simp

lemma no_response_run: "\<forall>u\<in>set us. response_of u = None \<Longrightarrow> fst (run USSDHandleURC us s) = s"
  by (induction us arbitrary: s) (simp_all add: USSDHandleURC_cases(1) Let_def split_beta)

text \<open>Property C21. A USSD request gets the first response that follows it: after a valid code was submitted and the
  modem acknowledged it, whatever notifications come first, the first \<^verbatim>\<open>+CUSD\<close> notification that parses
  is what the waiting request receives, whatever notifications follow before it wakes up.
\<close>

theorem ussd_exchange:
  assumes "USSDSend_begin code s = Inr (ch, s1)" "USSDSend_reply (Inr out) s1 = (s2, resps, Inr None)"
    and "\<forall>u\<in>set before. response_of u = None" "response_of urc = Some r"
  shows "ValidateCode code = None
    \<and> snd (USSDSend_wait WaitResp ch (fst (run USSDHandleURC (before @ urc # after) s2))) = Some (Inr r)"
proof -
  have b: "ValidateCode code = None" "us_pending s1 = Some ch" "us_chan s1 ch = None"
    using assms(1) by (auto simp: USSDSend_begin_def split: option.splits)
  have "s2 = s1" using assms(2) by (auto simp: USSDSend_reply_def split: if_splits sum.splits)
  then have "fst (run USSDHandleURC (before @ urc # after) s2) = s1\<lparr>us_pending := None, us_chan := (us_chan s1)(ch \<mapsto> r)\<rparr>"
    using no_response_run [OF assms(3)] USSDHandleURC_cases(3) [OF assms(4) b(2,3)]
    by (simp add: run_append Let_def split_beta no_pending_run)
  then show ?thesis using b(1) by (simp add: USSDSend_wait_def)
qed

theorem ussd_exchange_witness:
  "\<exists>r. ValidateCode ''*100#'' = None \<and> ur_Message r = ''Balance 12''
    \<and> snd (USSDSend_wait WaitResp 0 (fst (run USSDHandleURC ([''RING''] @ ''+CUSD: 0,\"Balance 12\",15'' # [''+CUSD: 2''])
        (snd (projr (USSDSend_begin ''*100#'' (NewUSSDService True))))))) = Some (Inr r)"
proof -
  define s1 where "s1 = snd (projr (USSDSend_begin ''*100#'' (NewUSSDService True)))"
  define r where "r = the (response_of ''+CUSD: 0,\"Balance 12\",15'')"
  have "ValidateCode ''*100#'' = None" by code_simp
  then have h: "USSDSend_begin ''*100#'' (NewUSSDService True) = Inr (0, s1)"
    by (simp add: s1_def USSDSend_begin_def NewUSSDService_def)
  have "Contains ''OK'' ''+CUSD:'' = False" by code_simp
  then have w: "USSDSend_reply (Inr ''OK'') s1 = (s1, [], Inr None)" by (simp add: USSDSend_reply_def)
  have p: "\<forall>u\<in>set [''RING'']. response_of u = None" "response_of ''+CUSD: 0,\"Balance 12\",15'' = Some r"
    "ur_Message r = ''Balance 12''" unfolding r_def by code_simp+
  from ussd_exchange [OF h w p(1,2), of "[''+CUSD: 2'']"] p(3) show ?thesis unfolding s1_def by blast
qed

text \<open>A refusal by the network is lost: when the notification says that the session was terminated, is not
  supported or timed out (or cannot be parsed), the waiting request is not woken; it can only end by its own
  timeout, with the timeout error in place of the cause.
\<close>

theorem ussd_error_lost:
  assumes "ParseResponse (TrimSpace urc) = Inl err" "us_chan s ch = None"
  shows "USSDHandleURC urc s = (s, []) \<and> snd (USSDSend_wait WaitResp ch (fst (USSDHandleURC urc s))) = None
    \<and> snd (USSDSend_wait WaitTimeout ch (fst (USSDHandleURC urc s))) = Some (Inl ErrUSSDTimeout)"
  using assms by (simp add: USSDHandleURC_def USSDSend_wait_def Let_def)

theorem ussd_error_lost_witness:
  "ParseResponse (TrimSpace ''+CUSD: 4'') = Inl ErrUSSDNotSupported
   \<and> USSDHandleURC ''+CUSD: 4'' (NewUSSDService True) = (NewUSSDService True, [])"
proof -
  have p: "ParseResponse (TrimSpace ''+CUSD: 4'') = Inl ErrUSSDNotSupported" by code_simp
  then show ?thesis using ussd_error_lost [OF p, of "NewUSSDService True" 0] by (simp add: NewUSSDService_def)
qed

text \<open>Which codes are accepted.\<close>

lemma ValidateCode_iff:
  "ValidateCode code = None \<longleftrightarrow> 3 \<le> length (TrimSpace code) \<and> (HasPrefix (TrimSpace code) ''*'' \<or> HasPrefix (TrimSpace code) ''#'')
     \<and> HasSuffix (TrimSpace code) ''#'' \<and> list_all ussd_rune (runes (TrimSpace code))"
  by (auto simp: ValidateCode_def Let_def)

end
