(* ===== verification/Modem_Drivers.thy ===== *)
theory Modem_Drivers
  imports AT_Engine SMS_Service Call_Service USSD "HOL-Library.State_Monad"
begin

text \<open>
  The modem drivers (\<^verbatim>\<open>internal/modem/drivers\<close>), the detection of the modem type
  (\<^verbatim>\<open>internal/modem/detector.go\<close>) and the PDU sender of the gateway (\<^verbatim>\<open>gateway_pdu.go\<close>). The
  interface \<^verbatim>\<open>ATRunner\<close> is a parameter of every operation: an action of the state monad over the
  state of whatever answers the commands. An operation is the monadic program of the commands it sends.
  \<open>logged\<close> adds the list of the commands sent, and \<open>engine_runner\<close> is the runner the gateway uses, the AT
  engine in front of a modem. Timeouts are part of the runner's answer, log output and the delays
  between two commands are left out.
\<close>

section \<open>Runner\<close>

type_synonym 'm runner = "gostring \<Rightarrow> ('m, at_error + Response) state"

datatype drv_error =
    DrvAT at_error
  | DrvFailed gostring "gostring list"
  | DrvInvalid gostring
  | DrvUnsupported

definition logged :: "'m runner \<Rightarrow> ('m \<times> gostring list) runner" where
  "logged runner cmd = State (\<lambda>(m, log). case run_state (runner cmd) m of (r, m1) \<Rightarrow> (r, (m1, log @ [cmd])))"

definition queryClean :: "'m runner \<Rightarrow> gostring \<Rightarrow> ('m, gostring) state" where
  "queryClean runner cmd = do {
     r \<leftarrow> runner cmd;
     State_Monad.return (case r of
       Inl _ \<Rightarrow> []
     | Inr resp \<Rightarrow> if RespError resp \<or> Lines resp = [] then [] else TrimSpace (hd (Lines resp)))
   }"

definition execSimple :: "'m runner \<Rightarrow> gostring \<Rightarrow> ('m, drv_error option) state" where
  "execSimple runner cmd = do {
     r \<leftarrow> runner cmd;
     State_Monad.return (case r of
       Inl err \<Rightarrow> Some (DrvAT err)
     | Inr resp \<Rightarrow> if RespError resp then Some (DrvFailed cmd (Lines resp)) else None)
   }"

section \<open>Quoting: the format verbs q and 04X\<close>

definition lower_hex :: "nat \<Rightarrow> char" where
  "lower_hex n = (if n < 10 then char_of (48 + n) else char_of (87 + n))"

fun hex_digits :: "nat \<Rightarrow> nat \<Rightarrow> nat list" where
  "hex_digits 0 r = []"
| "hex_digits (Suc w) r = hex_digits w (r div 16) @ [r mod 16]"

definition quote_seg :: "(rune \<Rightarrow> bool) \<Rightarrow> rune \<times> nat list \<Rightarrow> gostring" where
  "quote_seg printable = (\<lambda>(r, bs).
     if r = RuneError \<and> length bs = 1 then [CHR 0x5C, CHR ''x''] @ map lower_hex (hex_digits 2 (hd bs))
     else if r = 0x22 \<or> r = 0x5C then [CHR 0x5C, char_of r]
     else if r < 0x80 then
       (if 0x20 \<le> r \<and> r < 0x7F then [char_of r]
        else if 7 \<le> r \<and> r \<le> 13 then [CHR 0x5C, ''abtnvfr'' ! (r - 7)]
        else [CHR 0x5C, CHR ''x''] @ map lower_hex (hex_digits 2 r))
     else if printable r then string_of_bytes bs
     else if r < 0x10000 then [CHR 0x5C, CHR ''u''] @ map lower_hex (hex_digits 4 r)
     else [CHR 0x5C, CHR ''U''] @ map lower_hex (hex_digits 8 r))"

definition Quote :: "(rune \<Rightarrow> bool) \<Rightarrow> gostring \<Rightarrow> gostring" where
  "Quote printable s = [CHR 0x22] @ concat (map (quote_seg printable) (segs (bytes_of s))) @ [CHR 0x22]"

definition hex04X :: "rune \<Rightarrow> gostring" where
  "hex04X r = map hex_char (hex_digits (if r < 0x10000 then 4 else if r < 0x100000 then 5 else 6) r)"

section \<open>Base driver\<close>

fun init_loop :: "'m runner \<Rightarrow> gostring list \<Rightarrow> ('m, drv_error option) state" where
  "init_loop runner [] = State_Monad.return None"
| "init_loop runner (cmd # cmds) = do {
     r \<leftarrow> runner cmd;
     case r of
       Inl err \<Rightarrow> State_Monad.return (Some (DrvAT err))
     | Inr resp \<Rightarrow> if RespError resp then State_Monad.return (Some (DrvFailed cmd (Lines resp)))
                  else init_loop runner cmds
   }"

definition baseInitCmds :: "gostring list" where
  "baseInitCmds = [''ATE0'', ''AT+CMEE=2'', ''AT+CMGF=0'', ''AT+CNMI=2,1,0,1,0'', ''AT+CLIP=1'']"

definition base_Init :: "'m runner \<Rightarrow> ('m, drv_error option) state" where
  "base_Init runner = init_loop runner baseInitCmds"

record Info =
  inf_Manufacturer :: gostring
  inf_Model :: gostring
  inf_Revision :: gostring
  inf_IMEI :: gostring
  inf_IMSI :: gostring

definition base_Identify :: "'m runner \<Rightarrow> ('m, Info) state" where
  "base_Identify runner = do {
     mfg \<leftarrow> queryClean runner ''AT+CGMI'';
     model \<leftarrow> queryClean runner ''AT+CGMM'';
     revn \<leftarrow> queryClean runner ''AT+CGMR'';
     imei \<leftarrow> queryClean runner ''AT+CGSN'';
     imsi \<leftarrow> queryClean runner ''AT+CIMI'';
     State_Monad.return \<lparr>inf_Manufacturer = mfg, inf_Model = model, inf_Revision = revn, inf_IMEI = imei, inf_IMSI = imsi\<rparr>
   }"

definition drv_Dial :: "'m runner \<Rightarrow> gostring \<Rightarrow> ('m, drv_error option) state" where
  "drv_Dial runner number = do {
     err \<leftarrow> execSimple runner (''ATD'' @ TrimSpace number @ '';'');
     case err of
       None \<Rightarrow> State_Monad.return None
     | Some e \<Rightarrow> do { _ \<leftarrow> execSimple runner ''ATH''; State_Monad.return (Some e) }
   }"

definition drv_Answer :: "'m runner \<Rightarrow> ('m, drv_error option) state" where
  "drv_Answer runner = execSimple runner ''ATA''"

definition drv_Hangup :: "'m runner \<Rightarrow> ('m, drv_error option) state" where
  "drv_Hangup runner = execSimple runner ''ATH''"

definition drv_SendDTMF :: "'m runner \<Rightarrow> gostring \<Rightarrow> ('m, drv_error option) state" where
  "drv_SendDTMF runner digit =
     (let trimmed = TrimSpace digit
      in if length trimmed \<noteq> 1 \<or> hd trimmed \<notin> set ''0123456789ABCDabcd*#,,''
         then State_Monad.return (Some (DrvInvalid digit))
         else execSimple runner (''AT+VTS='' @ strings_ToUpper id trimmed))"

fun parse_csq :: "gostring list \<Rightarrow> int option" where
  "parse_csq [] = None"
| "parse_csq (line # ls) =
     (case (if HasPrefix line ''+CSQ:'' then Atoi (TrimSpace (hd (Split (TrimPrefix line ''+CSQ:'') (CHR '','')))) else None) of
        Some rssi \<Rightarrow> Some rssi | None \<Rightarrow> parse_csq ls)"

definition SignalQuality :: "'m runner \<Rightarrow> ('m, drv_error + int) state" where
  "SignalQuality runner = do {
     r \<leftarrow> runner ''AT+CSQ'';
     State_Monad.return (case r of
       Inl err \<Rightarrow> Inl (DrvAT err)
     | Inr resp \<Rightarrow>
         if RespError resp \<or> Lines resp = [] then Inl (DrvFailed ''AT+CSQ'' (Lines resp))
         else case parse_csq (Lines resp) of Some rssi \<Rightarrow> Inr rssi | None \<Rightarrow> Inl (DrvFailed ''AT+CSQ'' (Lines resp)))
   }"

record NetworkStatus =
  net_Registered :: bool
  net_Roaming :: bool
  net_Technology :: gostring

fun parseRegLine :: "gostring list \<Rightarrow> gostring \<Rightarrow> gostring \<Rightarrow> NetworkStatus option" where
  "parseRegLine [] pre defaultTech = None"
| "parseRegLine (line # ls) pre defaultTech =
     (let trimmed = TrimSpace line;
          parts = Split (TrimSpace (TrimPrefix trimmed pre)) (CHR '','');
          statIdx = (if length parts = 1 then 0 else 1)
      in case (if HasPrefix trimmed pre \<and> statIdx < length parts then Atoi (TrimSpace (parts ! statIdx)) else None) of
           Some stat \<Rightarrow> Some \<lparr>net_Registered = (stat = 1 \<or> stat = 5), net_Roaming = (stat = 5), net_Technology = defaultTech\<rparr>
         | None \<Rightarrow> parseRegLine ls pre defaultTech)"

definition reg_of :: "at_error + Response \<Rightarrow> gostring \<Rightarrow> gostring \<Rightarrow> NetworkStatus option" where
  "reg_of r pre tech = (case r of
     Inl _ \<Rightarrow> None
   | Inr resp \<Rightarrow> if \<not> RespError resp \<and> Lines resp \<noteq> [] then parseRegLine (Lines resp) pre tech else None)"

definition NetworkRegistration :: "'m runner \<Rightarrow> ('m, drv_error + NetworkStatus) state" where
  "NetworkRegistration runner = do {
     r \<leftarrow> runner ''AT+CREG?'';
     case reg_of r ''+CREG:'' ''GSM'' of
       Some st \<Rightarrow> (if net_Registered st then State_Monad.return (Inr st) else do {
         rG \<leftarrow> runner ''AT+CGREG?'';
         case reg_of rG ''+CGREG:'' ''UMTS'' of
           Some stG \<Rightarrow> State_Monad.return (Inr (if net_Registered stG then stG else st))
         | None \<Rightarrow> State_Monad.return (Inr st) })
     | None \<Rightarrow> do {
         rG \<leftarrow> runner ''AT+CGREG?'';
         let fallback = (case r of
               Inr resp \<Rightarrow> (case parseRegLine (Lines resp) ''+CREG:'' ''GSM'' of
                   Some st \<Rightarrow> Inr st | None \<Rightarrow> Inl (DrvFailed ''AT+CREG?'' []))
             | Inl _ \<Rightarrow> Inl (DrvFailed ''AT+CREG?'' []));
         State_Monad.return (case reg_of rG ''+CGREG:'' ''UMTS'' of
             Some stG \<Rightarrow> if net_Registered stG then Inr stG else fallback
           | None \<Rightarrow> fallback) }
   }"

definition quoted_part :: "gostring \<Rightarrow> gostring option" where
  "quoted_part line = (case Index line [CHR 0x22] of
     Some firstQuote \<Rightarrow> (case Index (drop (firstQuote + 1) line) [CHR 0x22] of
         Some secondQuote \<Rightarrow> Some (take secondQuote (drop (firstQuote + 1) line))
       | None \<Rightarrow> None)
   | None \<Rightarrow> None)"

fun parse_cops :: "gostring list \<Rightarrow> gostring option" where
  "parse_cops [] = None"
| "parse_cops (line # ls) =
     (case (if HasPrefix line ''+COPS:'' then quoted_part line else None) of Some op \<Rightarrow> Some op | None \<Rightarrow> parse_cops ls)"

definition OperatorName :: "'m runner \<Rightarrow> ('m, drv_error + gostring) state" where
  "OperatorName runner = do {
     r \<leftarrow> runner ''AT+COPS?'';
     State_Monad.return (case r of
       Inl err \<Rightarrow> Inl (DrvAT err)
     | Inr resp \<Rightarrow> (case parse_cops (Lines resp) of Some op \<Rightarrow> Inr op | None \<Rightarrow> Inl (DrvFailed ''AT+COPS?'' (Lines resp))))
   }"

text \<open>\<^verbatim>\<open>SIMState\<close> is a string; the values the switch of \<^verbatim>\<open>SIMStatus\<close> names are the strings the modem reports.\<close>

fun parse_cpin :: "gostring list \<Rightarrow> gostring option" where
  "parse_cpin [] = None"
| "parse_cpin (line # ls) =
     (if HasPrefix line ''+CPIN:'' then Some (TrimSpace (TrimPrefix line ''+CPIN:'')) else parse_cpin ls)"

definition SIMStatus :: "'m runner \<Rightarrow> ('m, gostring \<times> drv_error option) state" where
  "SIMStatus runner = do {
     r \<leftarrow> runner ''AT+CPIN?'';
     State_Monad.return (case r of
       Inl err \<Rightarrow> (''ERROR'', Some (DrvAT err))
     | Inr resp \<Rightarrow> (case parse_cpin (Lines resp) of
         Some st \<Rightarrow> (st, None) | None \<Rightarrow> (''ERROR'', Some (DrvFailed ''AT+CPIN?'' (Lines resp)))))
   }"

definition drv_SendUSSD :: "(rune \<Rightarrow> bool) \<Rightarrow> 'm runner \<Rightarrow> gostring \<Rightarrow> ('m, drv_error + gostring) state" where
  "drv_SendUSSD printable runner code = do {
     let cmd = ''AT+CUSD=1,'' @ Quote printable code @ '',15'';
     r \<leftarrow> runner cmd;
     State_Monad.return (case r of
       Inl err \<Rightarrow> Inl (DrvAT err)
     | Inr resp \<Rightarrow> if RespError resp then Inl (DrvFailed cmd (Lines resp)) else Inr (Join (Lines resp) [CHR 0x0A]))
   }"

definition drv_SendRawAT :: "'m runner \<Rightarrow> gostring \<Rightarrow> ('m, drv_error + gostring) state" where
  "drv_SendRawAT runner cmd = do {
     r \<leftarrow> runner cmd;
     State_Monad.return (case r of Inl err \<Rightarrow> Inl (DrvAT err) | Inr resp \<Rightarrow> Inr (Join (Lines resp) [CHR 0x0A]))
   }"

section \<open>Message storage\<close>

definition parseCPMSLine :: "gostring \<Rightarrow> gostring \<Rightarrow> StorageStatus option" where
  "parseCPMSLine line fallbackName =
     (let trimmed = TrimSpace line;
          parts = Split (TrimSpace (TrimPrefix trimmed ''+CPMS:'')) (CHR '','');
          name1 = Trim_ascii (TrimSpace (hd parts)) [CHR 0x22];
          (name, usedIdx) = (if Atoi name1 = None then (name1, 1) else (fallbackName, 0));
          num = (\<lambda>p. case Atoi (TrimSpace p) of Some n \<Rightarrow> n | None \<Rightarrow> 0)
      in if \<not> HasPrefix trimmed ''+CPMS:'' \<or> length parts < 2 \<or> length parts \<le> usedIdx + 1 then None
         else Some \<lparr>sst_Name = name, sst_Used = num (parts ! usedIdx), sst_Total = num (parts ! (usedIdx + 1))\<rparr>)"

fun first_cpms :: "gostring \<Rightarrow> gostring list \<Rightarrow> StorageStatus option" where
  "first_cpms mem [] = None"
| "first_cpms mem (line # ls) = (case parseCPMSLine line mem of Some st \<Rightarrow> Some st | None \<Rightarrow> first_cpms mem ls)"

definition drv_SelectStorage :: "(rune \<Rightarrow> bool) \<Rightarrow> 'm runner \<Rightarrow> gostring \<Rightarrow> ('m, drv_error + StorageStatus) state" where
  "drv_SelectStorage printable runner mem = do {
     let q = Quote printable mem;
     let cmd = ''AT+CPMS='' @ q @ '','' @ q @ '','' @ q;
     r \<leftarrow> runner cmd;
     State_Monad.return (case r of
       Inl err \<Rightarrow> Inl (DrvAT err)
     | Inr resp \<Rightarrow>
         if RespError resp then Inl (DrvFailed cmd (Lines resp))
         else Inr (case first_cpms mem (Lines resp) of
                     Some st \<Rightarrow> st | None \<Rightarrow> \<lparr>sst_Name = mem, sst_Used = 0, sst_Total = 0\<rparr>))
   }"

definition StorageCapacity :: "'m runner \<Rightarrow> ('m, drv_error + StorageStatus) state" where
  "StorageCapacity runner = do {
     r \<leftarrow> runner ''AT+CPMS?'';
     State_Monad.return (case r of
       Inl err \<Rightarrow> Inl (DrvAT err)
     | Inr resp \<Rightarrow>
         if RespError resp then Inl (DrvFailed ''AT+CPMS?'' (Lines resp))
         else case first_cpms [] (Lines resp) of
                Some st \<Rightarrow> Inr st | None \<Rightarrow> Inl (DrvFailed ''AT+CPMS?'' (Lines resp)))
   }"

definition parseCMGLLine :: "gostring \<Rightarrow> int \<times> int" where
  "parseCMGLLine line =
     (let parts = Split (TrimSpace (TrimPrefix line ''+CMGL:'')) (CHR '','')
      in if length parts < 2 then (-1, -1)
         else case (Atoi (TrimSpace (parts ! 0)), Atoi (TrimSpace (parts ! 1))) of
                (Some idx, Some stat) \<Rightarrow> (idx, stat)
              | _ \<Rightarrow> (-1, -1))"

fun parse_cmgl :: "gostring list \<Rightarrow> StoredMessage list" where
  "parse_cmgl [] = []"
| "parse_cmgl [l] = []"
| "parse_cmgl (l # p # ls) =
     (let line = TrimSpace l; (idx, stat) = parseCMGLLine line
      in if HasPrefix line ''+CMGL:'' \<and> 0 \<le> idx
         then \<lparr>stm_Index = idx, stm_Status = stat, stm_PDUHex = TrimSpace p\<rparr> # parse_cmgl ls
         else parse_cmgl (p # ls))"

definition drv_ListMessages :: "'m runner \<Rightarrow> ('m, drv_error + StoredMessage list) state" where
  "drv_ListMessages runner = do {
     r \<leftarrow> runner ''AT+CMGL=4'';
     State_Monad.return (case r of
       Inl err \<Rightarrow> Inl (DrvAT err)
     | Inr resp \<Rightarrow> if RespError resp then Inl (DrvFailed ''AT+CMGL=4'' (Lines resp)) else Inr (parse_cmgl (Lines resp)))
   }"

definition drv_DeleteMessage :: "'m runner \<Rightarrow> int \<Rightarrow> ('m, drv_error option) state" where
  "drv_DeleteMessage runner index = execSimple runner (''AT+CMGD='' @ itoa index)"

section \<open>Siemens\<close>

fun siemens_sync :: "nat \<Rightarrow> 'm runner \<Rightarrow> ('m, unit) state" where
  "siemens_sync 0 runner = State_Monad.return ()"
| "siemens_sync (Suc n) runner = do {
     r \<leftarrow> runner ''AT'';
     case r of
       Inr resp \<Rightarrow> (if RespOK resp then State_Monad.return () else siemens_sync n runner)
     | Inl _ \<Rightarrow> siemens_sync n runner
   }"

text \<open>The result is the error the loop remembers: \<open>None\<close> for a candidate that was accepted and also
  when the last answer was a rejection, since \<^verbatim>\<open>cnmiErr\<close> is the transport error only.\<close>

fun siemens_cnmi :: "'m runner \<Rightarrow> at_error option \<Rightarrow> gostring list \<Rightarrow> ('m, at_error option) state" where
  "siemens_cnmi runner cnmiErr [] = State_Monad.return cnmiErr"
| "siemens_cnmi runner cnmiErr (cnmi # rest) = do {
     r \<leftarrow> runner cnmi;
     case r of
       Inr resp \<Rightarrow> (if \<not> RespError resp then State_Monad.return None else siemens_cnmi runner None rest)
     | Inl err \<Rightarrow> siemens_cnmi runner (Some err) rest
   }"

definition siemens_cmds :: "gostring list" where
  "siemens_cmds = [''ATE0'', ''AT+CMEE=2'', ''AT+CMGF=0'', ''AT+CLIP=1'', ''AT+CRC=1'']"

definition siemens_candidates :: "gostring list" where
  "siemens_candidates = [''AT+CNMI=2,1,0,2,1'', ''AT+CNMI=2,1,0,0,1'', ''AT+CNMI=1,1,0,0,1'']"

definition siemens_Init :: "'m runner \<Rightarrow> ('m, drv_error option) state" where
  "siemens_Init runner = do {
     _ \<leftarrow> siemens_sync 3 runner;
     err \<leftarrow> init_loop runner siemens_cmds;
     case err of
       Some e \<Rightarrow> State_Monad.return (Some e)
     | None \<Rightarrow> do {
         cnmiErr \<leftarrow> siemens_cnmi runner None siemens_candidates;
         case cnmiErr of
           Some e \<Rightarrow> State_Monad.return (Some (DrvAT e))
         | None \<Rightarrow> do {
             _ \<leftarrow> runner ''AT+CPMS=\"SM\",\"SM\",\"SM\"'';
             _ \<leftarrow> runner ''AT+CSCA?'';
             State_Monad.return None } }
   }"

fun ati_fill :: "gostring list \<Rightarrow> gostring \<times> gostring \<times> gostring \<Rightarrow> gostring \<times> gostring \<times> gostring" where
  "ati_fill [] acc = acc"
| "ati_fill (line # ls) (mfg, model, revn) =
     (let clean = TrimSpace line
      in if clean = [] \<or> clean = ''OK'' then ati_fill ls (mfg, model, revn)
         else if mfg = [] then ati_fill ls (clean, model, revn)
         else if model = [] then ati_fill ls (mfg, clean, revn)
         else if revn = [] then ati_fill ls (mfg, model, clean)
         else ati_fill ls (mfg, model, revn))"

definition query_if_empty :: "'m runner \<Rightarrow> gostring \<Rightarrow> gostring \<Rightarrow> ('m, gostring) state" where
  "query_if_empty runner v cmd = (if v = [] then queryClean runner cmd else State_Monad.return v)"

definition siemens_Identify :: "'m runner \<Rightarrow> ('m, Info) state" where
  "siemens_Identify runner = do {
     r \<leftarrow> runner ''ATI'';
     let (mfg0, model0, revn0) = (case r of
           Inr resp \<Rightarrow> (if RespError resp then ([], [], []) else ati_fill (Lines resp) ([], [], []))
         | Inl _ \<Rightarrow> ([], [], []));
     mfg \<leftarrow> query_if_empty runner mfg0 ''AT+CGMI'';
     model \<leftarrow> query_if_empty runner model0 ''AT+CGMM'';
     revn \<leftarrow> query_if_empty runner revn0 ''AT+CGMR'';
     imei \<leftarrow> queryClean runner ''AT+CGSN'';
     imsi \<leftarrow> queryClean runner ''AT+CIMI'';
     State_Monad.return \<lparr>inf_Manufacturer = mfg, inf_Model = model, inf_Revision = revn, inf_IMEI = imei, inf_IMSI = imsi\<rparr>
   }"

section \<open>SIMCom, Huawei and Neoway\<close>

fun send_all :: "'m runner \<Rightarrow> gostring list \<Rightarrow> ('m, unit) state" where
  "send_all runner [] = State_Monad.return ()"
| "send_all runner (cmd # cmds) = do { _ \<leftarrow> runner cmd; send_all runner cmds }"

definition simcom_Init :: "'m runner \<Rightarrow> ('m, drv_error option) state" where
  "simcom_Init runner = do {
     _ \<leftarrow> send_all runner [''AT'', ''AT+CSCLK=0'', ''AT+CFUN=1''];
     base_Init runner
   }"

definition SetVolume :: "'m runner \<Rightarrow> int \<Rightarrow> ('m, drv_error option) state" where
  "SetVolume runner level = (if level < 0 \<or> 100 < level then State_Monad.return (Some (DrvInvalid (itoa level)))
     else execSimple runner (''AT+CLVL='' @ itoa level))"

definition SetMicGain :: "'m runner \<Rightarrow> int \<Rightarrow> ('m, drv_error option) state" where
  "SetMicGain runner gain = (if gain < 0 \<or> 15 < gain then State_Monad.return (Some (DrvInvalid (itoa gain)))
     else execSimple runner (''AT+CMIC=0,'' @ itoa gain))"

fun first_accepted :: "'m runner \<Rightarrow> gostring list \<Rightarrow> ('m, unit) state" where
  "first_accepted runner [] = State_Monad.return ()"
| "first_accepted runner (cmd # cmds) = do {
     r \<leftarrow> runner cmd;
     case r of
       Inr resp \<Rightarrow> (if \<not> RespError resp then State_Monad.return () else first_accepted runner cmds)
     | Inl _ \<Rightarrow> first_accepted runner cmds
   }"

definition huawei_Init :: "'m runner \<Rightarrow> ('m, drv_error option) state" where
  "huawei_Init runner = do {
     _ \<leftarrow> send_all runner [''ATE0'', ''AT+CMEE=2'', ''AT+CSCS=\"GSM\"'', ''AT+CMGF=0''];
     _ \<leftarrow> first_accepted runner [''AT+CNMI=2,1,0,0,0'', ''AT+CNMI=1,1,0,0,0'', ''AT+CNMI=2,1,0,1,0''];
     _ \<leftarrow> send_all runner [''AT^CURC=1'', ''AT+CLIP=1'', ''AT^CVOICE=0'', ''AT+COLP=1''];
     State_Monad.return None
   }"

text \<open>The attempts of \<^verbatim>\<open>SendUSSD\<close>: the first that is accepted gives the text, the last one the error.\<close>

fun try_ussd :: "'m runner \<Rightarrow> drv_error \<Rightarrow> gostring list \<Rightarrow> ('m, drv_error + gostring) state" where
  "try_ussd runner lastErr [] = State_Monad.return (Inl lastErr)"
| "try_ussd runner lastErr (cmd # cmds) = do {
     r \<leftarrow> runner cmd;
     case r of
       Inr resp \<Rightarrow> (if \<not> RespError resp then State_Monad.return (Inr (Join (Lines resp) [CHR 0x0A]))
                   else try_ussd runner (DrvFailed cmd (Lines resp)) cmds)
     | Inl err \<Rightarrow> try_ussd runner (DrvAT err) cmds
   }"

definition huawei_SendUSSD :: "(rune \<Rightarrow> bool) \<Rightarrow> 'm runner \<Rightarrow> gostring \<Rightarrow> ('m, drv_error + gostring) state" where
  "huawei_SendUSSD printable runner code = do {
     _ \<leftarrow> runner ''AT+CUSD=2'';
     let pduHex = hexString (PackSeptets (EncodeGSM7 code) 0);
     try_ussd runner DrvUnsupported
       [''AT+CUSD=1,'' @ Quote printable pduHex @ '',15'', ''AT+CUSD=1,'' @ Quote printable pduHex,
        ''AT+CUSD=1,'' @ Quote printable code @ '',15'', ''AT+CUSD=1,'' @ Quote printable code]
   }"

definition huawei_Dial :: "'m runner \<Rightarrow> gostring \<Rightarrow> ('m, drv_error option) state" where
  "huawei_Dial runner number = do {
     r \<leftarrow> runner ''AT^CVOICE?'';
     case r of
       Inr resp \<Rightarrow>
         (if \<not> RespError resp \<and> (let line = Join (Lines resp) '' '' in Contains line ''^CVOICE:1'' \<or> Contains line ''^CVOICE:(1)'')
          then State_Monad.return (Some DrvUnsupported) else drv_Dial runner number)
     | Inl _ \<Rightarrow> drv_Dial runner number
   }"

fun neoway_loop :: "'m runner \<Rightarrow> gostring list \<Rightarrow> ('m, drv_error option) state" where
  "neoway_loop runner [] = State_Monad.return None"
| "neoway_loop runner (cmd # cmds) = do {
     r \<leftarrow> runner cmd;
     case r of
       Inl err \<Rightarrow> State_Monad.return (Some (DrvAT err))
     | Inr resp \<Rightarrow>
         if \<not> RespError resp then neoway_loop runner cmds
         else if cmd = ''AT+CNMI=2,1,0,1,0'' then do {
           fb \<leftarrow> runner ''AT+CNMI=2,1,0,0,0'';
           case fb of
             Inr fr \<Rightarrow> (if \<not> RespError fr then neoway_loop runner cmds
                       else State_Monad.return (Some (DrvFailed cmd (Lines resp))))
           | Inl _ \<Rightarrow> State_Monad.return (Some (DrvFailed cmd (Lines resp))) }
         else State_Monad.return (Some (DrvFailed cmd (Lines resp)))
   }"

definition neoway_cmds :: "gostring list" where
  "neoway_cmds = [''ATE0'', ''AT+CMEE=2'', ''AT+CPMS=\"SM\",\"SM\",\"SM\"'', ''AT+CMGF=0'', ''AT+CNMI=2,1,0,1,0'',
     ''AT+CLIP=1'', ''AT+CSCS=\"IRA\"'']"

definition neoway_Init :: "'m runner \<Rightarrow> ('m, drv_error option) state" where
  "neoway_Init runner = do { _ \<leftarrow> runner ''AT''; neoway_loop runner neoway_cmds }"

definition neoway_Dial :: "'m runner \<Rightarrow> gostring \<Rightarrow> ('m, drv_error option) state" where
  "neoway_Dial runner number = do {
     err \<leftarrow> execSimple runner (''ATD'' @ TrimSpace number @ '';'');
     case err of
       Some e \<Rightarrow> do { _ \<leftarrow> execSimple runner ''ATH''; State_Monad.return (Some e) }
     | None \<Rightarrow> State_Monad.return None
   }"

definition neoway_Hangup :: "'m runner \<Rightarrow> ('m, drv_error option) state" where
  "neoway_Hangup runner = execSimple runner ''ATH''"

definition neoway_SendUSSD :: "(rune \<Rightarrow> bool) \<Rightarrow> 'm runner \<Rightarrow> gostring \<Rightarrow> ('m, drv_error + gostring) state" where
  "neoway_SendUSSD printable runner code = do {
     _ \<leftarrow> runner ''AT+CUSD=2'';
     _ \<leftarrow> runner ''AT+CSCS=\"UCS2\"'';
     let hexCode = concat (map hex04X (runes code));
     r \<leftarrow> runner (''AT+CUSD=1,'' @ Quote printable hexCode @ '',15'');
     res \<leftarrow> (case r of
         Inr resp \<Rightarrow> if \<not> RespError resp \<and> Lines resp \<noteq> [] then State_Monad.return (Some (Join (Lines resp) [CHR 0x0A]))
                    else State_Monad.return None
       | Inl _ \<Rightarrow> State_Monad.return None);
     out \<leftarrow> (case res of
         Some t \<Rightarrow> State_Monad.return (Inr t)
       | None \<Rightarrow> do { _ \<leftarrow> runner ''AT+CSCS=\"IRA\"''; drv_SendUSSD printable runner code });
     _ \<leftarrow> runner ''AT+CSCS=\"IRA\"'';
     State_Monad.return out
   }"

fun parse_clcc :: "gostring list \<Rightarrow> gostring" where
  "parse_clcc [] = ''idle''"
| "parse_clcc (line # ls) =
     (let parts = Split line (CHR '',''); stat = (if 3 \<le> length parts then TrimSpace (parts ! 2) else [])
      in if \<not> HasPrefix line ''+CLCC:'' \<or> length parts < 3 then parse_clcc ls
         else if stat = ''0'' then ''answered'' else if stat = ''2'' then ''dialing''
         else if stat = ''3'' then ''ringing'' else parse_clcc ls)"

definition CheckCallState :: "'m runner \<Rightarrow> ('m, drv_error + gostring) state" where
  "CheckCallState runner = do {
     r \<leftarrow> runner ''AT+CLCC'';
     State_Monad.return (case r of
       Inl err \<Rightarrow> Inl (DrvAT err)
     | Inr resp \<Rightarrow> if RespError resp then Inl (DrvFailed ''AT+CLCC'' (Lines resp)) else Inr (parse_clcc (Lines resp)))
   }"

definition neoway_SelectStorage :: "(rune \<Rightarrow> bool) \<Rightarrow> 'm runner \<Rightarrow> gostring \<Rightarrow> ('m, drv_error + StorageStatus) state" where
  "neoway_SelectStorage printable runner mem =
     (if mem \<in> {''ME'', ''Me'', ''mE'', ''me''} then State_Monad.return (Inl DrvUnsupported) else drv_SelectStorage printable runner mem)"

section \<open>Detection and PDU sender\<close>

datatype modem_type = TypeGeneric | TypeSiemens | TypeSIMCom | TypeHuawei | TypeQuectel | TypeNeoway

definition containsAny :: "gostring \<Rightarrow> gostring list \<Rightarrow> bool" where
  "containsAny s keywords = list_ex (Contains s) keywords"

definition classifyModem :: "(rune \<Rightarrow> rune) \<Rightarrow> gostring \<Rightarrow> modem_type" where
  "classifyModem up t =
     (let upper = strings_ToUpper up t
      in if containsAny upper [''SIEMENS'', ''CINTERION'', ''TC35'', ''MC55'', ''TC65'', ''MC35''] then TypeSiemens
         else if containsAny upper [''SIMCOM'', ''SIM800'', ''SIM900'', ''SIM7000'', ''SIM7600'', ''SIM5320''] then TypeSIMCom
         else if containsAny upper [''HUAWEI'', ''E3372'', ''E3531'', ''E173'', ''E1550'', ''E1750''] then TypeHuawei
         else if containsAny upper [''QUECTEL'', ''EC25'', ''EC21'', ''M95'', ''BG96'', ''MC60''] then TypeQuectel
         else if containsAny upper [''NEOWAY'', ''M590'', ''M590E'', ''M580''] then TypeNeoway
         else TypeGeneric)"

definition Detect :: "(rune \<Rightarrow> rune) \<Rightarrow> 'm runner \<Rightarrow> ('m, modem_type) state" where
  "Detect up runner = do {
     rs \<leftarrow> State_Monad.traverse_list runner [''ATI'', ''AT+CGMI'', ''AT+CGMM''];
     State_Monad.return (classifyModem up (concat (map (\<lambda>r. case SendCommand_result r of
         (out, None) \<Rightarrow> '' '' @ out | (_, Some _) \<Rightarrow> []) rs)))
   }"

fun cmgs_ref :: "gostring list \<Rightarrow> byte" where
  "cmgs_ref [] = 0"
| "cmgs_ref (line # ls) =
     (case (if HasPrefix line ''+CMGS:'' then (let parts = Fields line in if 1 < length parts then Atoi (parts ! 1) else None) else None) of
        Some ref \<Rightarrow> word_of_int ref
      | None \<Rightarrow> cmgs_ref ls)"

definition atSendPDU :: "at_error + Response \<Rightarrow> drv_error + byte" where
  "atSendPDU r = (case r of
     Inl err \<Rightarrow> Inl (DrvAT err)
   | Inr resp \<Rightarrow> if RespError resp then Inl (DrvFailed ''AT+CMGS'' (Lines resp)) else Inr (cmgs_ref (Lines resp)))"

section \<open>The runner of the gateway: the AT engine in front of a modem\<close>

text \<open>\<open>answer x cmd\<close> are the lines the modem sends for a command line, with its next state.\<close>

definition engine_runner :: "(rune \<Rightarrow> rune) \<Rightarrow> ('x \<Rightarrow> gostring \<Rightarrow> 'x \<times> gostring list) \<Rightarrow> (Engine \<times> 'x) runner" where
  "engine_runner up answer cmd = State (\<lambda>(e, x).
     let e1 = fst (Send_begin True cmd e); (x1, ls) = answer x (TrimSpace cmd)
     in case feed up (concat (map (\<lambda>l. l @ CRLF) ls)) e1 of
          Inl err \<Rightarrow> (Inl err, (e1, x1))
        | Inr e2 \<Rightarrow> (case Send_end False e2 of (e3, r) \<Rightarrow> (r, (e3, x1))))"

text \<open>What the drivers rely on of a runner: a command that the modem answers with lines and \<^verbatim>\<open>OK\<close> returns
  exactly those lines, and the runner is ready again.\<close>

locale at_runner =
  fixes runner :: "'m runner" and ready :: "'m \<Rightarrow> bool" and replies :: "'m \<Rightarrow> gostring \<Rightarrow> gostring list \<Rightarrow> bool"
  assumes reply: "ready m \<Longrightarrow> replies m cmd ls \<Longrightarrow>
    \<exists>m'. run_state (runner cmd) m = (Inr \<lparr>Lines = ls, RespOK = True, RespError = False\<rparr>, m') \<and> ready m'"
begin

lemma ListMessages_reply:
  assumes "ready m" "replies m ''AT+CMGL=4'' ls"
  shows "fst (run_state (drv_ListMessages runner) m) = Inr (parse_cmgl ls)"
  using reply [OF assms] by (auto simp: drv_ListMessages_def)

lemma SignalQuality_reply:
  assumes "ready m" "replies m ''AT+CSQ'' ls" "parse_csq ls = Some rssi"
  shows "fst (run_state (SignalQuality runner) m) = Inr rssi"
  using reply [OF assms(1,2)] assms(3) by (auto simp: SignalQuality_def)

lemma SIMStatus_reply:
  assumes "ready m" "replies m ''AT+CPIN?'' ls" "parse_cpin ls = Some st"
  shows "fst (run_state (SIMStatus runner) m) = (st, None)"
  using reply [OF assms(1,2)] assms(3) by (auto simp: SIMStatus_def)

lemma execSimple_reply:
  assumes "ready m" "replies m cmd ls"
  shows "fst (run_state (execSimple runner cmd) m) = None"
  using reply [OF assms] by (auto simp: execSimple_def)

end

definition engine_ready :: "Engine \<times> 'x \<Rightarrow> bool" where
  "engine_ready m \<longleftrightarrow> eng_inv (fst m) \<and> eng_lineBuf (fst m) = []"

definition engine_replies :: "(rune \<Rightarrow> rune) \<Rightarrow> ('x \<Rightarrow> gostring \<Rightarrow> 'x \<times> gostring list) \<Rightarrow> Engine \<times> 'x \<Rightarrow> gostring \<Rightarrow> gostring list \<Rightarrow> bool" where
  "engine_replies up answer m cmd ls \<longleftrightarrow> (\<exists>raw. snd (answer (snd m) (TrimSpace cmd)) = raw @ [''OK''] \<and> list_all plain_line raw
     \<and> (\<forall>l\<in>set raw. \<not> final_line up (TrimSpace cmd) l) \<and> TrimSpace cmd \<noteq> ''OK'' \<and> ls = filter (routes_body up (TrimSpace cmd)) raw)"

lemma engine_runner_reply:
  assumes "engine_ready (e, x)" "answer x (TrimSpace cmd) = (x', raw @ [''OK''])" "list_all plain_line raw"
    and "\<forall>l\<in>set raw. \<not> final_line up (TrimSpace cmd) l" "TrimSpace cmd \<noteq> ''OK''"
  shows "\<exists>e'. run_state (engine_runner up answer cmd) (e, x)
      = (Inr \<lparr>Lines = filter (routes_body up (TrimSpace cmd)) raw, RespOK = True, RespError = False\<rparr>, (e', x'))
    \<and> engine_ready (e', x') \<and> eng_urcChan e' = take 100 (eng_urcChan e @ filter (routes_urc up (TrimSpace cmd)) raw)"
proof -
  have p: "plain_line ''OK''" by code_simp
  obtain e1 where e1: "feed up (concat (map (\<lambda>l. l @ CRLF) (raw @ [''OK'']))) (fst (Send_begin True cmd e)) = Inr e1"
    "eng_urcChan e1 = take 100 (eng_urcChan e @ filter (routes_urc up (TrimSpace cmd)) raw)"
    "eng_inv (fst (Send_end False e1))" "eng_lineBuf e1 = []"
    "snd (Send_end False e1) = Inr \<lparr>Lines = filter (routes_body up (TrimSpace cmd)) raw, RespOK = True, RespError = False\<rparr>"
    using assms p by (auto elim!: send_cycle [of e raw "''OK''" up cmd] simp: engine_ready_def final_line_def response_of_lines_def)
  have k: "eng_urcChan (fst (Send_end False e1)) = eng_urcChan e1" "eng_lineBuf (fst (Send_end False e1)) = eng_lineBuf e1"
    by (simp_all add: Send_end_def clearInFlight_def split: option.split)
  obtain e2 r where e2: "Send_end False e1 = (e2, r)" by fastforce
  show ?thesis
    using e1 k by (auto simp: engine_runner_def engine_ready_def assms(2) e2)
qed

interpretation engine: at_runner "engine_runner up answer" engine_ready "engine_replies up answer"
  for up :: "rune \<Rightarrow> rune" and answer :: "'x \<Rightarrow> gostring \<Rightarrow> 'x \<times> gostring list"
proof
  fix m :: "Engine \<times> 'x" and cmd ls
  assume a: "engine_ready m" "engine_replies up answer m cmd ls"
  obtain e x where m: "m = (e, x)" by fastforce
  from a(2) obtain raw x' where "answer x (TrimSpace cmd) = (x', raw @ [''OK''])" "list_all plain_line raw"
    "\<forall>l\<in>set raw. \<not> final_line up (TrimSpace cmd) l" "TrimSpace cmd \<noteq> ''OK''" "ls = filter (routes_body up (TrimSpace cmd)) raw"
    by (auto simp: engine_replies_def m prod_eq_iff)
  with engine_runner_reply [OF a(1) [unfolded m]] m
  show "\<exists>m'. run_state (engine_runner up answer cmd) m = (Inr \<lparr>Lines = ls, RespOK = True, RespError = False\<rparr>, m') \<and> engine_ready m'"
    by blast
qed

section \<open>Listing the stored messages\<close>

lemma trim_by_Cons: "P x \<Longrightarrow> trim_by P (x # xs) = trim_by P xs"
  by (simp add: trim_by_def)

text \<open>The lines of a stored message: header with index, status and further fields, then the PDU.\<close>

definition cmgl_header :: "(StoredMessage \<Rightarrow> gostring) \<Rightarrow> StoredMessage \<Rightarrow> gostring" where
  "cmgl_header flds m = ''+CMGL: '' @ itoa (stm_Index m) @ '','' @ itoa (stm_Status m) @ '','' @ flds m"

definition hex_alphabet :: gostring where "hex_alphabet = ''0123456789ABCDEF''"

definition stored_ok :: "StoredMessage \<Rightarrow> bool" where
  "stored_ok m \<longleftrightarrow> 0 \<le> stm_Index m \<and> stm_Index m < 2 ^ 63 \<and> 0 \<le> stm_Status m \<and> stm_Status m < 2 ^ 63
     \<and> stm_PDUHex m \<noteq> [] \<and> list_all (\<lambda>c. c \<in> set hex_alphabet) (stm_PDUHex m)"

lemma cmgl_header_parse:
  assumes "stored_ok m" "is_ascii (flds m)" "TrimSpace (cmgl_header flds m) = cmgl_header flds m"
  shows "parseCMGLLine (cmgl_header flds m) = (stm_Index m, stm_Status m)"
proof -
  let ?b = "itoa (stm_Index m) @ CHR '','' # itoa (stm_Status m) @ CHR '','' # flds m"
  have a: "is_ascii ?b" using assms(2) itoa_ascii by simp
  have h: "is_ascii (cmgl_header flds m)" using a by (simp add: cmgl_header_def)
  have "\<not> IsSpace (of_char (last (cmgl_header flds m)))"
    using trim_by_ends(2) [of "\<lambda>c. IsSpace (of_char c)" "cmgl_header flds m"] assms(3) TrimSpace_ascii [OF h]
    by (simp add: cmgl_header_def)
  then have "\<not> IsSpace (of_char (last ?b))" by (simp add: cmgl_header_def split: if_splits)
  then have "trim_by (\<lambda>c. IsSpace (of_char c)) ?b = ?b" using itoa_ends(1) by (intro trim_by_id) simp
  then have "TrimSpace (CHR '' '' # ?b) = ?b"
    using a by (subst TrimSpace_ascii) (simp_all add: trim_by_Cons IsSpace_def)
  moreover have "TrimPrefix (cmgl_header flds m) ''+CMGL:'' = CHR '' '' # ?b"
    by (simp add: cmgl_header_def TrimPrefix_def HasPrefix_def)
  moreover have "Split ?b (CHR '','') = itoa (stm_Index m) # itoa (stm_Status m) # Split (flds m) (CHR '','')"
    by (simp add: Split_append comma_notin_itoa)
  ultimately show ?thesis
    using assms(1) by (simp add: parseCMGLLine_def Atoi_itoa stored_ok_def)
qed

lemma parse_cmgl_entries:
  assumes "\<And>m. m \<in> set ms \<Longrightarrow> stored_ok m \<and> is_ascii (flds m) \<and> TrimSpace (cmgl_header flds m) = cmgl_header flds m
    \<and> TrimSpace (stm_PDUHex m) = stm_PDUHex m"
  shows "parse_cmgl (concat (map (\<lambda>m. [cmgl_header flds m, stm_PDUHex m]) ms)) = ms"
  using assms
proof (induction ms)
  case (Cons m ms)
  have "HasPrefix (cmgl_header flds m) ''+CMGL:''" by (simp add: cmgl_header_def HasPrefix_def)
  with Cons cmgl_header_parse [of m flds] show ?case by (simp add: stored_ok_def)
qed simp

lemma hex_alphabet_facts:
  assumes "c \<in> set hex_alphabet"
  shows "\<not> IsSpace (of_char c)" "of_char c < (128 :: nat)" "c \<noteq> CHR ''+''" "c \<noteq> CHR ''O''" "c \<noteq> CHR ''R''" "c \<noteq> CHR ''T''"
proof -
  have "list_all (\<lambda>c. \<not> IsSpace (of_char c) \<and> of_char c < (128 :: nat) \<and> c \<noteq> CHR ''+'' \<and> c \<noteq> CHR ''O'' \<and> c \<noteq> CHR ''R'' \<and> c \<noteq> CHR ''T'')
    hex_alphabet" by code_simp
  with assms show "\<not> IsSpace (of_char c)" "of_char c < (128 :: nat)" "c \<noteq> CHR ''+''" "c \<noteq> CHR ''O''" "c \<noteq> CHR ''R''" "c \<noteq> CHR ''T''"
    by (simp_all add: list_all_iff)
qed

lemma hex_line:
  assumes "stored_ok m"
  shows "TrimSpace (stm_PDUHex m) = stm_PDUHex m" "\<not> isURC (stm_PDUHex m)"
    "stm_PDUHex m \<noteq> ''OK'' \<and> stm_PDUHex m \<noteq> ''ERROR'' \<and> stm_PDUHex m \<noteq> ''AT+CMGL=4''"
    "\<not> HasPrefix (stm_PDUHex m) (CHR ''+'' # p)"
proof -
  let ?h = "stm_PDUHex m"
  have c: "c \<in> set hex_alphabet" if "c \<in> set ?h" for c using assms that by (auto simp: stored_ok_def list_all_iff)
  note k = hex_alphabet_facts [OF c]
  have ne: "?h \<noteq> []" using assms by (simp add: stored_ok_def)
  show "TrimSpace ?h = ?h"
    by (rule TrimSpace_id) (use k hd_in_set [OF ne] last_in_set [OF ne] in \<open>simp_all add: is_ascii_def list_all_iff\<close>)
  have "list_all (\<lambda>p. list_ex (\<lambda>x. x \<notin> set hex_alphabet) p) urcPrefixes" by code_simp
  then show "\<not> isURC ?h"
    using c by (fastforce simp: isURC_def list_all_iff list_ex_iff elim!: HasPrefixE)
  show "?h \<noteq> ''OK'' \<and> ?h \<noteq> ''ERROR'' \<and> ?h \<noteq> ''AT+CMGL=4''" using k(4-6) by (metis list.set_intros)
  show "\<not> HasPrefix ?h (CHR ''+'' # p)" using k(3) [of "CHR ''+''"] by (auto elim!: HasPrefixE)
qed

lemma cmgl_header_line:
  "\<not> isURC (cmgl_header flds m)" "cmgl_header flds m \<noteq> ''AT+CMGL=4''"
  "\<not> final_line up ''AT+CMGL=4'' (cmgl_header flds m)"
proof -
  let ?h = "cmgl_header flds m"
  have p: "HasPrefix ?h ''+CMGL:''" by (simp add: cmgl_header_def HasPrefix_def)
  have "list_all (\<lambda>q. \<not> HasPrefix ''+CMGL:'' q \<and> \<not> HasPrefix q ''+CMGL:'') (urcPrefixes @ [''+CME ERROR:'', ''+CMS ERROR:''])" by code_simp
  from prefixes_apart [OF p this]
  show "\<not> isURC ?h" "\<not> final_line up ''AT+CMGL=4'' ?h"
    by (auto simp: isURC_def final_line_def isCallTerminationResponse_def cmgl_header_def)
  show "?h \<noteq> ''AT+CMGL=4''" by (simp add: cmgl_header_def)
qed

lemma strings_ToUpper_id:
  assumes "list_all (\<lambda>c. of_char c < (128 :: nat) \<and> \<not> (97 \<le> (of_char c :: nat) \<and> of_char c \<le> (122 :: nat))) s"
  shows "strings_ToUpper up s = s"
proof -
  have a: "is_ascii s" using assms by (auto simp: is_ascii_def list_all_iff)
  have "map (ToUpper_rune up) (map of_char s) = map of_char s" using assms by (auto simp: list_all_iff ToUpper_rune_def)
  then have "strings_ToUpper up s = string_of_runes (map of_char s)" by (simp only: strings_ToUpper_def runes_ascii [OF a])
  then show ?thesis using a by (simp add: string_of_runes_ascii is_ascii_def list_all_iff o_def)
qed

lemma cmgl_not_call: "\<not> isCallTerminationResponse up ''AT+CMGL=4'' l"
proof -
  have "TrimSpace ''AT+CMGL=4'' = ''AT+CMGL=4''" by code_simp
  moreover have "strings_ToUpper up ''AT+CMGL=4'' = ''AT+CMGL=4''" by (rule strings_ToUpper_id) code_simp
  ultimately show ?thesis by (simp add: isCallTerminationResponse_def HasPrefix_def)
qed

lemma listed_line:
  assumes "l \<in> set (concat (map (\<lambda>m. [cmgl_header flds m, stm_PDUHex m]) ms))" "list_all stored_ok ms"
  shows "routes_body up ''AT+CMGL=4'' l" "\<not> final_line up ''AT+CMGL=4'' l"
proof -
  from assms(1) obtain m where m: "m \<in> set ms" "l = cmgl_header flds m \<or> l = stm_PDUHex m" by auto
  then have ok: "stored_ok m" using assms(2) by (auto simp: list_all_iff)
  show "routes_body up ''AT+CMGL=4'' l" "\<not> final_line up ''AT+CMGL=4'' l"
    using m(2) cmgl_header_line hex_line [OF ok] cmgl_not_call by (auto simp: routes_body_def final_line_def)
qed

text \<open>Reading the message storage through engine and driver: when the modem answers \<^verbatim>\<open>AT+CMGL=4\<close> with
  the lines of its stored messages (header with index and status, whatever further fields, and the PDU in
  hexadecimal digits) in front of \<^verbatim>\<open>OK\<close>, the driver returns exactly those messages in their order,
  also when unsolicited lines of the network come between the lines, a header and its PDU included.
\<close>

theorem stored_messages_listed:
  assumes "eng_inv e" "eng_lineBuf e = []" "answer x ''AT+CMGL=4'' = (x', raw @ [''OK''])" "list_all plain_line raw"
    and "filter (\<lambda>l. \<not> routes_urc up ''AT+CMGL=4'' l) raw = concat (map (\<lambda>m. [cmgl_header flds m, stm_PDUHex m]) ms)"
    and "list_all stored_ok ms" "\<forall>m\<in>set ms. is_ascii (flds m)"
  shows "fst (run_state (drv_ListMessages (engine_runner up answer)) (e, x)) = Inr ms"
proof -
  let ?ls = "concat (map (\<lambda>m. [cmgl_header flds m, stm_PDUHex m]) ms)"
  have t: "TrimSpace ''AT+CMGL=4'' = ''AT+CMGL=4''" by code_simp
  have raw: "l \<in> set ?ls \<or> routes_urc up ''AT+CMGL=4'' l" if "l \<in> set raw" for l
    using that unfolding assms(5) [symmetric] by auto
  have sub: "set ?ls \<subseteq> set raw" unfolding assms(5) [symmetric] by auto
  have "routes_urc up ''AT+CMGL=4'' l \<Longrightarrow> \<not> final_line up ''AT+CMGL=4'' l" for l
    using error_lines_not_URC [of l] cmgl_not_call by (auto simp: routes_urc_def final_line_def)
  then have fin: "\<forall>l\<in>set raw. \<not> final_line up ''AT+CMGL=4'' l" using raw listed_line(2) assms(6) by blast
  have "filter (routes_body up ''AT+CMGL=4'') raw = filter (\<lambda>l. \<not> routes_urc up ''AT+CMGL=4'' l) raw"
  proof (rule filter_cong [OF refl])
    fix l assume l: "l \<in> set raw"
    show "routes_body up ''AT+CMGL=4'' l = (\<not> routes_urc up ''AT+CMGL=4'' l)"
      using raw [OF l] listed_line(1) [OF _ assms(6), of l flds up] by (auto simp: routes_body_def routes_urc_def)
  qed
  then have "engine_replies up answer (e, x) ''AT+CMGL=4'' ?ls"
    using assms(3,4,5) fin unfolding engine_replies_def t by (intro exI [of _ raw]) simp
  moreover have "engine_ready (e, x)" using assms(1,2) by (simp add: engine_ready_def)
  ultimately have "fst (run_state (drv_ListMessages (engine_runner up answer)) (e, x)) = Inr (parse_cmgl ?ls)"
    by (intro engine.ListMessages_reply)
  also have "parse_cmgl ?ls = ms"
  proof (rule parse_cmgl_entries)
    fix m assume m: "m \<in> set ms"
    then have "cmgl_header flds m \<in> set raw" using sub by auto
    then have "TrimSpace (cmgl_header flds m) = cmgl_header flds m" using assms(4) by (auto simp: list_all_iff plain_line_def)
    with m assms(6,7) hex_line(1) [of m]
    show "stored_ok m \<and> is_ascii (flds m) \<and> TrimSpace (cmgl_header flds m) = cmgl_header flds m
      \<and> TrimSpace (stm_PDUHex m) = stm_PDUHex m" by (auto simp: list_all_iff)
  qed
  finally show ?thesis .
qed

theorem stored_messages_listed_witness:
  "fst (run_state (drv_ListMessages (engine_runner id (\<lambda>x cmd. (x, [''+CMGL: 3,1,,24'', ''RING'', ''0791AB'', ''+CMGL: 4,0,,24'', ''0791CD''] @ [''OK''])))) (NewEngine, ()))
   = Inr [\<lparr>stm_Index = 3, stm_Status = 1, stm_PDUHex = ''0791AB''\<rparr>, \<lparr>stm_Index = 4, stm_Status = 0, stm_PDUHex = ''0791CD''\<rparr>]"
proof -
  have h: "eng_inv NewEngine" "eng_lineBuf NewEngine = []"
    "list_all plain_line [''+CMGL: 3,1,,24'', ''RING'', ''0791AB'', ''+CMGL: 4,0,,24'', ''0791CD'']"
    "filter (\<lambda>l. \<not> routes_urc id ''AT+CMGL=4'' l) [''+CMGL: 3,1,,24'', ''RING'', ''0791AB'', ''+CMGL: 4,0,,24'', ''0791CD'']
      = concat (map (\<lambda>m. [cmgl_header (\<lambda>m. '',24'') m, stm_PDUHex m]) [\<lparr>stm_Index = 3, stm_Status = 1, stm_PDUHex = ''0791AB''\<rparr>, \<lparr>stm_Index = 4, stm_Status = 0, stm_PDUHex = ''0791CD''\<rparr>])"
    "list_all stored_ok [\<lparr>stm_Index = 3, stm_Status = 1, stm_PDUHex = ''0791AB''\<rparr>, \<lparr>stm_Index = 4, stm_Status = 0, stm_PDUHex = ''0791CD''\<rparr>]"
    by code_simp+
  show ?thesis
    by (rule stored_messages_listed [OF h(1,2) _ h(3,4,5), of _ "()" "()"]) simp_all
qed

section \<open>Commands built from user input\<close>

lemma run_logged [simp]:
  "run_state (logged runner cmd) (m, log) = (case run_state (runner cmd) m of (r, m1) \<Rightarrow> (r, (m1, log @ [cmd])))"
  by (simp add: logged_def)

definition commands :: "(('m \<times> gostring list) runner \<Rightarrow> ('m \<times> gostring list, 'a) state) \<Rightarrow> 'm runner \<Rightarrow> 'm \<Rightarrow> gostring list" where
  "commands action runner m = snd (snd (run_state (action (logged runner)) (m, [])))"

lemma ascii_runes_string:
  assumes "list_all (\<lambda>r. r < 0x80) (runes s)"
  shows "is_ascii s" "runes s = map of_char s"
proof -
  have "RuneError \<notin> set (runes s)" using assms by (auto simp: list_all_iff RuneError_def)
  then have "s = map char_of (runes s)" using string_of_runes_runes string_of_runes_ascii [OF assms] by metis
  then show "is_ascii s" using is_ascii_map_char_of [OF assms] by simp
  then show "runes s = map of_char s" by (rule runes_ascii)
qed

lemma cleanVoiceNumber_shape:
  "\<exists>d. list_all is_digit_char d \<and> (cleanVoiceNumber raw = d \<or> cleanVoiceNumber raw = CHR ''+'' # d)"
proof (cases "runes (TrimSpace raw)")
  case (Cons r rs)
  have dig: "list_all is_digit_char (map char_of (filter is_digit xs))" for xs
    by (auto simp: list_all_iff is_digit_char_def is_digit_def)
  have small: "list_all (\<lambda>r. r < 0x80) (filter is_digit xs)" for xs by (auto simp: list_all_iff is_digit_def)
  have plus: "char_of (43 :: nat) = CHR ''+''" by code_simp
  show ?thesis
  proof (cases "is_digit r")
    case True
    then have "cleanVoiceNumber raw = map char_of (filter is_digit (r # rs))"
      using Cons small [of rs] by (simp add: cleanVoiceNumber_def string_of_runes_ascii is_digit_def)
    with dig show ?thesis by blast
  next
    case False
    then have "cleanVoiceNumber raw = (if r = 43 then ''+'' else []) @ map char_of (filter is_digit rs)"
      using Cons small [of rs] by (simp add: cleanVoiceNumber_def string_of_runes_ascii plus)
    with dig [of rs] show ?thesis by (auto split: if_splits)
  qed
qed (auto simp: cleanVoiceNumber_def intro!: exI [of _ "[]"])

lemma TrimSpace_voice:
  assumes "list_all is_digit_char d" "c = d \<or> c = CHR ''+'' # d"
  shows "TrimSpace c = c"
proof (cases "d = []")
  case True
  have "TrimSpace ''+'' = ''+''" by code_simp
  with True assms(2) show ?thesis by auto
next
  case False
  with assms digit_string_facts(1,2) [of d] show ?thesis by (auto simp: digit_string_def)
qed

lemma Quote_plain:
  assumes "list_all (\<lambda>c. 0x20 \<le> (of_char c :: nat) \<and> of_char c < (0x7F :: nat) \<and> of_char c \<noteq> (0x22 :: nat) \<and> of_char c \<noteq> (0x5C :: nat)) s"
  shows "Quote printable s = [CHR 0x22] @ s @ [CHR 0x22]"
proof -
  have "is_ascii s" using assms by (auto simp: is_ascii_def list_all_iff)
  then have "segs (bytes_of s) = map (\<lambda>c. (of_char c, [of_char c])) s" by (rule segs_ascii)
  moreover have "map (quote_seg printable) (map (\<lambda>c. (of_char c, [of_char c])) s) = map (\<lambda>c. [c]) s"
    using assms by (auto simp: quote_seg_def list_all_iff RuneError_def)
  ultimately show ?thesis by (simp only: Quote_def) simp
qed

lemma valid_code_chars:
  assumes "ValidateCode code = None"
  shows "list_all (\<lambda>c. is_digit_char c \<or> c = CHR ''*'' \<or> c = CHR ''#'') (TrimSpace code)"
proof -
  have r: "list_all ussd_rune (runes (TrimSpace code))" using assms by (simp add: ValidateCode_def Let_def split: if_splits)
  then have "list_all (\<lambda>r. r < 0x80) (runes (TrimSpace code))" by (auto simp: list_all_iff ussd_rune_def is_digit_def)
  from ascii_runes_string(2) [OF this] r
  have "list_all (\<lambda>c. ussd_rune (of_char c)) (TrimSpace code)" by (simp add: list_all_iff)
  moreover have "of_char c = (42 :: nat) \<Longrightarrow> c = CHR ''*''" "of_char c = (35 :: nat) \<Longrightarrow> c = CHR ''#''" for c
    using of_char_eq_iff [where 'a = nat, of c "CHR ''*''"] of_char_eq_iff [where 'a = nat, of c "CHR ''#''"] by simp_all
  ultimately show ?thesis by (auto simp: list_all_iff ussd_rune_def is_digit_char_def)
qed

lemma dtmf_command:
  "commands (\<lambda>r. drv_SendDTMF r digit) runner m = []
    \<or> (\<exists>t\<in>set ''0123456789ABCD*#,''. commands (\<lambda>r. drv_SendDTMF r digit) runner m = [''AT+VTS='' @ [t]])"
proof -
  have up: "strings_ToUpper id [t] = (if t \<in> set ''abcd'' then [char_of (of_char t - 32 :: nat)] else [t])"
    if "t \<in> set ''0123456789ABCDabcd*#,,''" for t
  proof -
    have "list_all (\<lambda>t. strings_ToUpper id [t] = (if t \<in> set ''abcd'' then [char_of (of_char t - 32 :: nat)] else [t]))
      ''0123456789ABCDabcd*#,,''" by code_simp
    with that show ?thesis by (simp only: list_all_iff)
  qed
  have sub: "list_all (\<lambda>t. (if t \<in> set ''abcd'' then char_of (of_char t - 32 :: nat) else t) \<in> set ''0123456789ABCD*#,'') ''0123456789ABCDabcd*#,,''"
    by code_simp
  show ?thesis
  proof (cases "length (TrimSpace digit) \<noteq> 1 \<or> hd (TrimSpace digit) \<notin> set ''0123456789ABCDabcd*#,,''")
    case True
    then show ?thesis by (simp add: commands_def drv_SendDTMF_def)
  next
    case False
    then obtain t where t: "TrimSpace digit = [t]" "t \<in> set ''0123456789ABCDabcd*#,,''"
      by (auto simp: length_Suc_conv)
    define u where "u = (if t \<in> set ''abcd'' then char_of (of_char t - 32 :: nat) else t)"
    have "u \<in> set ''0123456789ABCD*#,''" unfolding u_def using sub t(2) by (simp only: list_all_iff)
    moreover have "commands (\<lambda>r. drv_SendDTMF r digit) runner m = [''AT+VTS='' @ [u]]"
      using False t(1) up [OF t(2)] by (simp add: commands_def drv_SendDTMF_def execSimple_def u_def split: prod.splits)
    ultimately show ?thesis by blast
  qed
qed

text \<open>What a user supplies cannot put a second command on the line: a number that the call service
  dials consists of digits with at most a leading plus, and dialling sends the one command with it and
  possibly the hangup that clears a failed attempt; a tone is a single symbol of its alphabet or nothing is
  sent; a USSD code that passes validation (and has no blanks around it) is sent between quotes as it is,
  made of digits, stars and hashes.
\<close>

theorem user_commands:
  "(ModemDial c \<in> set (fst (snd (Call_Service.Dial t1 t2 modemErr number s))) \<longrightarrow>
      (\<exists>d. list_all is_digit_char d \<and> (c = d \<or> c = CHR ''+'' # d))
      \<and> commands (\<lambda>r. drv_Dial r c) runner m \<in> {[''ATD'' @ c @ '';''], [''ATD'' @ c @ '';'', ''ATH'']})
   \<and> (commands (\<lambda>r. drv_SendDTMF r digit) runner m = []
      \<or> (\<exists>t\<in>set ''0123456789ABCD*#,''. commands (\<lambda>r. drv_SendDTMF r digit) runner m = [''AT+VTS='' @ [t]]))
   \<and> (ValidateCode code = None \<and> TrimSpace code = code \<longrightarrow>
      list_all (\<lambda>c. is_digit_char c \<or> c = CHR ''*'' \<or> c = CHR ''#'') code
      \<and> commands (\<lambda>r. drv_SendUSSD printable r code) runner m = [''AT+CUSD=1,\"'' @ code @ ''\",15''])"
proof (intro conjI impI)
  assume a: "ModemDial c \<in> set (fst (snd (Call_Service.Dial t1 t2 modemErr number s)))"
  then have c: "c = cleanVoiceNumber number"
    by (auto simp: Call_Service.Dial_def startDialMonitoring_def Let_def split: if_splits option.splits)
  then show d: "\<exists>d. list_all is_digit_char d \<and> (c = d \<or> c = CHR ''+'' # d)" using cleanVoiceNumber_shape by simp
  then have "TrimSpace c = c" using TrimSpace_voice by blast
  then show "commands (\<lambda>r. drv_Dial r c) runner m \<in> {[''ATD'' @ c @ '';''], [''ATD'' @ c @ '';'', ''ATH'']}"
    by (auto simp: commands_def drv_Dial_def execSimple_def split: prod.splits option.splits)
next
  show "commands (\<lambda>r. drv_SendDTMF r digit) runner m = []
      \<or> (\<exists>t\<in>set ''0123456789ABCD*#,''. commands (\<lambda>r. drv_SendDTMF r digit) runner m = [''AT+VTS='' @ [t]])"
    by (rule dtmf_command)
next
  assume a: "ValidateCode code = None \<and> TrimSpace code = code"
  then show c: "list_all (\<lambda>c. is_digit_char c \<or> c = CHR ''*'' \<or> c = CHR ''#'') code" using valid_code_chars [of code] by simp
  then have "Quote printable code = [CHR 0x22] @ code @ [CHR 0x22]"
    by (intro Quote_plain) (auto simp: list_all_iff is_digit_char_def is_digit_def)
  then show "commands (\<lambda>r. drv_SendUSSD printable r code) runner m = [''AT+CUSD=1,\"'' @ code @ ''\",15'']"
    by (simp add: commands_def drv_SendUSSD_def Let_def split: prod.splits)
qed

definition demo_runner :: "unit runner" where
  "demo_runner cmd = State_Monad.return (Inr \<lparr>Lines = [], RespOK = True, RespError = False\<rparr>)"

theorem user_commands_witness:
  "commands (\<lambda>r. drv_Dial r ''+79001234567'') demo_runner () \<in> {[''ATD+79001234567;''], [''ATD+79001234567;'', ''ATH'']}
   \<and> commands (\<lambda>r. drv_SendUSSD (\<lambda>_. False) r ''*100#'') demo_runner () = [''AT+CUSD=1,\"*100#\",15'']"
proof -
  have h: "ModemDial ''+79001234567'' \<in> set (fst (snd (Call_Service.Dial 0 0 None ''+7 900 123-45-67'' (NewCallService ''m'' False True))))"
    "ValidateCode ''*100#'' = None \<and> TrimSpace ''*100#'' = ''*100#''" by code_simp+
  note t = user_commands [of "''+79001234567''" 0 0 None "''+7 900 123-45-67''" "NewCallService ''m'' False True" demo_runner "()" "''5''" "''*100#''" "\<lambda>_. False"]
  show ?thesis using t h by auto
qed

section \<open>Transmission of a PDU\<close>

lemma Fields_two:
  assumes "is_ascii a" "is_ascii b" "a \<noteq> []" "b \<noteq> []" "list_all (\<lambda>c. \<not> IsSpace (of_char c)) (a @ b)"
  shows "Fields (a @ CHR '' '' # b) = [a, b]"
proof -
  have f: "fields_of (map (\<lambda>c. (of_char c, [of_char c])) x @ ys) acc = fields_of ys (acc @ map of_char x)"
    if "list_all (\<lambda>c. \<not> IsSpace (of_char c)) x" for x acc ys
    using that by (induction x arbitrary: acc) simp_all
  have "fields_of (segs (bytes_of (a @ CHR '' '' # b))) [] = [map of_char a, map of_char b]"
    using assms f [of a] f [of b "[]"] by (simp add: segs_ascii IsSpace_def [of 32])
  then show ?thesis by (simp add: Fields_def string_of_bytes_def o_def)
qed

lemma cmgs_ref_line: "n < 256 \<Longrightarrow> cmgs_ref ((''+CMGS: '' @ nat_dec n) # ls) = word_of_nat n"
proof -
  assume n: "n < 256"
  have i: "nat_dec n = itoa (int n)" by (simp add: itoa_def)
  have "list_all (\<lambda>c. \<not> IsSpace (of_char c)) ''+CMGS:''" "is_ascii ''+CMGS:''" by code_simp+
  then have "Fields (''+CMGS:'' @ CHR '' '' # nat_dec n) = [''+CMGS:'', nat_dec n]"
    using itoa_ascii [of "int n"] itoa_no_space [of _ "int n"] by (intro Fields_two) (simp_all add: i list_all_iff)
  then show ?thesis using n by (simp add: HasPrefix_def Atoi_itoa i)
qed

lemma cmgs_line:
  assumes "l = ''+CMGS: '' @ nat_dec ref"
  shows "routes_body up ''AT+CMGS'' l" "\<not> final_line up ''AT+CMGS'' l"
proof -
  have p: "HasPrefix l ''+CMGS:''" by (simp add: assms HasPrefix_def)
  have "list_all (\<lambda>q. \<not> HasPrefix ''+CMGS:'' q \<and> \<not> HasPrefix q ''+CMGS:'') (urcPrefixes @ [''+CME ERROR:'', ''+CMS ERROR:''])" by code_simp
  from prefixes_apart [OF p this] show "routes_body up ''AT+CMGS'' l" "\<not> final_line up ''AT+CMGS'' l"
    by (auto simp: routes_body_def isURC_def final_line_def isCallTerminationResponse_def Let_def assms)
qed

lemma cmgs_not_call: "\<not> isCallTerminationResponse up ''AT+CMGS'' l"
proof -
  have "TrimSpace ''AT+CMGS'' = ''AT+CMGS''" by code_simp
  moreover have "strings_ToUpper up ''AT+CMGS'' = ''AT+CMGS''" by (rule strings_ToUpper_id) code_simp
  ultimately show ?thesis by (simp add: isCallTerminationResponse_def HasPrefix_def)
qed

lemma feed_prompt:
  assumes "eng_lineBuf e = []" "eng_promptChan e = Some p"
  shows "feed up (CRLF @ ''> '') e = Inr (e\<lparr>eng_promptChan := Some True, eng_lineBuf := '' ''\<rparr>)"
  using assms by (simp add: CRLF_def feed_byte_def)

lemma feed_after_prompt: "eng_lineBuf e = '' '' \<Longrightarrow> feed up (CRLF @ bs) e = feed up bs (e\<lparr>eng_lineBuf := []\<rparr>)"
proof -
  have "TrimSpace '' '' = []" by code_simp
  then show "eng_lineBuf e = '' '' \<Longrightarrow> feed up (CRLF @ bs) e = feed up bs (e\<lparr>eng_lineBuf := []\<rparr>)"
    by (simp add: CRLF_def feed_byte_def)
qed

text \<open>Property C25. The transmission of a PDU: the engine writes the length command, waits for the prompt, writes the PDU
  with Ctrl-Z and collects the answer; when the modem prompts and then answers with its \<^verbatim>\<open>+CMGS\<close> reference and
  \<^verbatim>\<open>OK\<close>, also with unsolicited lines before or after the reference, the sender returns that reference, nothing
  else was written to the port, the unsolicited lines are queued in order and the engine is ready for
  the next command.
\<close>

theorem pdu_transmission:
  assumes "eng_inv e" "eng_lineBuf e = []" "ref < 256"
    and "SendPDU_begin True n pduHex e = (e1, ph1)" "feed up (CRLF @ ''> '') e1 = Inr e2"
    and "pdu_step PPrompt ph1 e2 = (e3, ph3)" "pdu_step (PDelayOver True) ph3 e3 = (e4, ph4)"
    and "list_all plain_line raw" "filter (\<lambda>l. \<not> routes_urc up ''AT+CMGS'' l) raw = [''+CMGS: '' @ nat_dec ref]"
    and "feed up (CRLF @ concat (map (\<lambda>l. l @ CRLF) (raw @ [''OK'']))) e4 = Inr e5" "pdu_step PResp ph4 e5 = (e6, ph6)"
  shows "\<exists>r. ph6 = PduDone r \<and> atSendPDU r = Inr (word_of_nat ref)
    \<and> eng_written e6 = eng_written e @ ''AT+CMGS='' @ nat_dec n @ [CHR 0x0D] @ pduHex @ [CHR 0x1A]
    \<and> eng_urcChan e6 = take 100 (eng_urcChan e @ filter (routes_urc up ''AT+CMGS'') raw)
    \<and> \<not> eng_inFlight e6 \<and> eng_inv e6 \<and> eng_lineBuf e6 = []"
proof -
  let ?l = "''+CMGS: '' @ nat_dec ref"
  have e1: "e1 = e\<lparr>eng_inFlight := True, eng_respChan := None, eng_promptChan := Some False, eng_currentResp := Some emptyResponse,
      eng_activeCmd := ''AT+CMGS'', eng_written := eng_written e @ ''AT+CMGS='' @ nat_dec n @ [CHR 0x0D]\<rparr>" and ph1: "ph1 = WaitPrompt pduHex"
    using assms(4) by (auto simp: SendPDU_begin_def port_Write_def Let_def)
  have "e2 = e1\<lparr>eng_promptChan := Some True, eng_lineBuf := '' ''\<rparr>" using assms(2,5) feed_prompt [of e1 False up] by (simp add: e1)
  then have "e3 = e1\<lparr>eng_promptChan := Some False, eng_lineBuf := '' ''\<rparr>" and "ph3 = PromptDelay pduHex"
    using assms(6) by (auto simp: ph1 pdu_step_def)
  then have e4: "e4 = e1\<lparr>eng_lineBuf := '' '', eng_written := eng_written e1 @ pduHex @ [CHR 0x1A]\<rparr>" and ph4: "ph4 = WaitFinal"
    using assms(7) by (auto simp: pdu_step_def port_Write_def e1)
  define b where "b = e4\<lparr>eng_lineBuf := []\<rparr>"
  have b: "eng_inv b" "eng_lineBuf b = []" "eng_inFlight b" "eng_currentResp b = Some emptyResponse" "eng_activeCmd b = ''AT+CMGS''"
    using assms(1,2) by (simp_all add: b_def e4 e1 eng_inv_def)
  have l: "l = ?l \<or> routes_urc up ''AT+CMGS'' l" if "l \<in> set raw" for l
    using that arg_cong [OF assms(9), of set] by auto
  have "routes_urc up ''AT+CMGS'' l \<Longrightarrow> \<not> final_line up ''AT+CMGS'' l" for l
    using error_lines_not_URC [of l] cmgs_not_call by (auto simp: routes_urc_def final_line_def)
  then have fin: "\<forall>l\<in>set raw. \<not> final_line up ''AT+CMGS'' l" using l cmgs_line(2) by blast
  have "filter (routes_body up ''AT+CMGS'') raw = filter (\<lambda>l. \<not> routes_urc up ''AT+CMGS'' l) raw"
    using l cmgs_line(1) by (intro filter_cong) (auto simp: routes_body_def routes_urc_def)
  then have r: "response_of_lines up ''AT+CMGS'' raw ''OK'' = \<lparr>Lines = [?l], RespOK = True, RespError = False\<rparr>"
    using assms(9) by (simp add: response_of_lines_def)
  have "plain_line ''OK''" by code_simp
  then have "feed up (CRLF @ concat (map (\<lambda>l. l @ CRLF) (raw @ [''OK'']))) e4 = Inr (b\<lparr>eng_currentResp := Some (response_of_lines up ''AT+CMGS'' raw ''OK''),
      eng_respChan := Some (response_of_lines up ''AT+CMGS'' raw ''OK''), eng_inFlight := False,
      eng_urcChan := take 100 (eng_urcChan b @ filter (routes_urc up ''AT+CMGS'') raw)\<rparr>)"
    using feed_after_prompt [of e4] response_cycle [OF b(1-4), of raw "''OK''" up] assms(8) fin
    by (simp add: b_def e4 e1 final_line_def)
  then show ?thesis
    using assms(1,2,3,10,11) cmgs_ref_line [of ref "[]"]
    by (auto simp: ph4 pdu_step_def r atSendPDU_def clearInFlight_def b_def e4 e1 eng_inv_def simp del: take_append)
qed

theorem pdu_transmission_witness:
  "\<exists>e1 ph1 e2 e3 ph3 e4 ph4 e5 e6 ph6. SendPDU_begin True 24 ''0011'' NewEngine = (e1, ph1) \<and> feed id (CRLF @ ''> '') e1 = Inr e2
    \<and> pdu_step PPrompt ph1 e2 = (e3, ph3) \<and> pdu_step (PDelayOver True) ph3 e3 = (e4, ph4)
    \<and> feed id (CRLF @ concat (map (\<lambda>l. l @ CRLF) ([''RING'', ''+CMGS: 17''] @ [''OK'']))) e4 = Inr e5 \<and> pdu_step PResp ph4 e5 = (e6, ph6)
    \<and> (\<exists>r. ph6 = PduDone r \<and> atSendPDU r = Inr 17) \<and> eng_urcChan e6 = [''RING'']"
proof -
  define e1 where "e1 = fst (SendPDU_begin True 24 ''0011'' NewEngine)"
  define e2 where "e2 = e1\<lparr>eng_promptChan := Some True, eng_lineBuf := '' ''\<rparr>"
  define e3 where "e3 = fst (pdu_step PPrompt (WaitPrompt ''0011'') e2)"
  define e4 where "e4 = fst (pdu_step (PDelayOver True) (PromptDelay ''0011'') e3)"
  define e5 where "e5 = projr (feed id (CRLF @ concat (map (\<lambda>l. l @ CRLF) ([''RING'', ''+CMGS: 17''] @ [''OK'']))) e4)"
  have s1: "SendPDU_begin True 24 ''0011'' NewEngine = (e1, WaitPrompt ''0011'')" unfolding e1_def by code_simp
  have s2: "feed id (CRLF @ ''> '') e1 = Inr e2" unfolding e2_def e1_def by code_simp
  have s3: "pdu_step PPrompt (WaitPrompt ''0011'') e2 = (e3, PromptDelay ''0011'')" unfolding e3_def e2_def e1_def by code_simp
  have s4: "pdu_step (PDelayOver True) (PromptDelay ''0011'') e3 = (e4, WaitFinal)" unfolding e4_def e3_def e2_def e1_def by code_simp
  have s5: "feed id (CRLF @ concat (map (\<lambda>l. l @ CRLF) ([''RING'', ''+CMGS: 17''] @ [''OK'']))) e4 = Inr e5"
    unfolding e5_def e4_def e3_def e2_def e1_def by code_simp
  have h: "eng_inv NewEngine" "eng_lineBuf NewEngine = []" "list_all plain_line [''RING'', ''+CMGS: 17'']"
    "filter (\<lambda>l. \<not> routes_urc id ''AT+CMGS'' l) [''RING'', ''+CMGS: 17''] = [''+CMGS: '' @ nat_dec 17]"
    "filter (routes_urc id ''AT+CMGS'') [''RING'', ''+CMGS: 17''] = [''RING'']" "eng_urcChan NewEngine = []" by code_simp+
  obtain e6 ph6 where s6: "pdu_step PResp WaitFinal e5 = (e6, ph6)" by fastforce
  have "(17 :: nat) < 256" by simp
  from pdu_transmission [OF h(1,2) this s1 s2 s3 s4 h(3,4) s5 s6]
  have "(\<exists>r. ph6 = PduDone r \<and> atSendPDU r = Inr 17) \<and> eng_urcChan e6 = [''RING'']" unfolding h(5,6) by auto
  with s1 s2 s3 s4 s5 s6 show ?thesis by blast
qed

section \<open>Initialisation\<close>

text \<open>A runner whose modem refuses exactly the notification settings.\<close>

definition refuses_cnmi :: "'m runner \<Rightarrow> bool" where
  "refuses_cnmi runner \<longleftrightarrow> (\<forall>cmd m. \<exists>ls m'. run_state (runner cmd) m =
     (Inr \<lparr>Lines = ls, RespOK = (\<not> HasPrefix cmd ''AT+CNMI''), RespError = HasPrefix cmd ''AT+CNMI''\<rparr>, m'))"

lemma refuses_cnmiE:
  assumes "refuses_cnmi runner"
  obtains ls m' where "run_state (runner cmd) m =
    (Inr \<lparr>Lines = ls, RespOK = (\<not> HasPrefix cmd ''AT+CNMI''), RespError = HasPrefix cmd ''AT+CNMI''\<rparr>, m')"
  using assms by (auto simp: refuses_cnmi_def) metis

lemma init_loop_ok:
  assumes "refuses_cnmi runner" "list_all (\<lambda>c. \<not> HasPrefix c ''AT+CNMI'') cmds"
  shows "\<exists>m'. run_state (init_loop runner cmds) m = (None, m')"
  using assms(2)
proof (induction cmds arbitrary: m)
  case (Cons cmd cmds)
  obtain ls m1 where "run_state (runner cmd) m =
    (Inr \<lparr>Lines = ls, RespOK = (\<not> HasPrefix cmd ''AT+CNMI''), RespError = HasPrefix cmd ''AT+CNMI''\<rparr>, m1)"
    using refuses_cnmiE [OF assms(1)] by blast
  with Cons show ?case by simp
qed simp

lemma siemens_cnmi_refused:
  assumes "refuses_cnmi runner" "list_all (\<lambda>c. HasPrefix c ''AT+CNMI'') cmds"
  shows "\<exists>m'. run_state (siemens_cnmi runner None cmds) m = (None, m')"
  using assms(2)
proof (induction cmds arbitrary: m)
  case (Cons cmd cmds)
  obtain ls m1 where "run_state (runner cmd) m =
    (Inr \<lparr>Lines = ls, RespOK = (\<not> HasPrefix cmd ''AT+CNMI''), RespError = HasPrefix cmd ''AT+CNMI''\<rparr>, m1)"
    using refuses_cnmiE [OF assms(1)] by blast
  with Cons show ?case by simp
qed simp

text \<open>The Siemens driver reports success although no notification setting was accepted: a modem that
  answers every other command and refuses each \<^verbatim>\<open>AT+CNMI\<close> candidate with an error leaves the remembered error
  nil, so the initialisation succeeds and new messages are never announced. The base driver fails on
  the same modem.
\<close>

theorem siemens_cnmi_rejected:
  assumes "refuses_cnmi runner"
  shows "fst (run_state (siemens_Init runner) m) = None
    \<and> (\<exists>ls. fst (run_state (base_Init runner) m) = Some (DrvFailed ''AT+CNMI=2,1,0,1,0'' ls))"
proof
  have l: "list_all (\<lambda>c. \<not> HasPrefix c ''AT+CNMI'') siemens_cmds" "list_all (\<lambda>c. HasPrefix c ''AT+CNMI'') siemens_candidates" by code_simp+
  obtain m1 where 1: "run_state (siemens_sync 3 runner) m = ((), m1)"
    by (cases "run_state (siemens_sync 3 runner) m") auto
  obtain m2 where 2: "run_state (init_loop runner siemens_cmds) m1 = (None, m2)" using init_loop_ok [OF assms l(1)] by blast
  obtain m3 where 3: "run_state (siemens_cnmi runner None siemens_candidates) m2 = (None, m3)"
    using siemens_cnmi_refused [OF assms l(2)] by blast
  show "fst (run_state (siemens_Init runner) m) = None"
    by (simp add: siemens_Init_def 1 2 3 split: prod.split)
  have p: "HasPrefix ''AT+CNMI=2,1,0,1,0'' ''AT+CNMI''" "\<not> HasPrefix ''ATE0'' ''AT+CNMI''" "\<not> HasPrefix ''AT+CMEE=2'' ''AT+CNMI''"
    "\<not> HasPrefix ''AT+CMGF=0'' ''AT+CNMI''" by code_simp+
  obtain a1 n1 where 4: "run_state (runner ''ATE0'') m = (Inr \<lparr>Lines = a1, RespOK = True, RespError = False\<rparr>, n1)"
    using refuses_cnmiE [OF assms, of "''ATE0''" m] p by auto
  obtain a2 n2 where 5: "run_state (runner ''AT+CMEE=2'') n1 = (Inr \<lparr>Lines = a2, RespOK = True, RespError = False\<rparr>, n2)"
    using refuses_cnmiE [OF assms, of "''AT+CMEE=2''" n1] p by auto
  obtain a3 n3 where 6: "run_state (runner ''AT+CMGF=0'') n2 = (Inr \<lparr>Lines = a3, RespOK = True, RespError = False\<rparr>, n3)"
    using refuses_cnmiE [OF assms, of "''AT+CMGF=0''" n2] p by auto
  obtain a4 n4 where 7: "run_state (runner ''AT+CNMI=2,1,0,1,0'') n3 = (Inr \<lparr>Lines = a4, RespOK = False, RespError = True\<rparr>, n4)"
    using refuses_cnmiE [OF assms, of "''AT+CNMI=2,1,0,1,0''" n3] p by auto
  show "\<exists>ls. fst (run_state (base_Init runner) m) = Some (DrvFailed ''AT+CNMI=2,1,0,1,0'' ls)"
    by (simp add: base_Init_def baseInitCmds_def 4 5 6 7)
qed

definition cnmi_refuser :: "unit runner" where
  "cnmi_refuser cmd = State_Monad.return (Inr \<lparr>Lines = [], RespOK = (\<not> HasPrefix cmd ''AT+CNMI''), RespError = HasPrefix cmd ''AT+CNMI''\<rparr>)"

theorem siemens_cnmi_rejected_witness:
  "fst (run_state (siemens_Init cnmi_refuser) ()) = None
    \<and> (\<exists>ls. fst (run_state (base_Init cnmi_refuser) ()) = Some (DrvFailed ''AT+CNMI=2,1,0,1,0'' ls))"
  by (rule siemens_cnmi_rejected) (simp add: refuses_cnmi_def cnmi_refuser_def)

end
