(* ===== verification/Battery.thy ===== *)
theory Battery
  imports Modem_Drivers
begin

text \<open>
  The battery of the modem (\<^verbatim>\<open>internal/modem/drivers\<close>: \<^verbatim>\<open>BatteryStatus\<close> and \<^verbatim>\<open>parseCBCLine\<close> of simcom.go,
  \<^verbatim>\<open>BatteryStatus\<close> of neoway.go). The estimate of a voltage that is not reported is exact in floating point up to
  percentages far beyond any reading, and is written with integers.
\<close>

section \<open>Reading\<close>

record BatteryInfo =
  bt_Charging :: bool
  bt_Percent :: int
  bt_Millivolts :: int

definition cbc_voltage :: "gostring list \<Rightarrow> int \<Rightarrow> int" where
  "cbc_voltage parts bcl =
     (let bcv = (if 3 \<le> length parts then (case Atoi (TrimSpace (parts ! 2)) of Some v \<Rightarrow> v | None \<Rightarrow> 0) else 0)
      in if bcv = 0 \<and> 0 < bcl then 3600 + bcl * 6 else bcv)"

definition parseCBCLine :: "gostring \<Rightarrow> drv_error + BatteryInfo" where
  "parseCBCLine line =
     (let parts = Split (TrimSpace (TrimPrefix line ''+CBC:'')) (CHR '','')
      in if length parts < 2 then Inl (DrvInvalid line)
         else case Atoi (TrimSpace (parts ! 0)) of
           None \<Rightarrow> Inl (DrvInvalid (parts ! 0))
         | Some bcs \<Rightarrow>
             (case Atoi (TrimSpace (parts ! 1)) of
                None \<Rightarrow> Inl (DrvInvalid (parts ! 1))
              | Some bcl \<Rightarrow> Inr \<lparr>bt_Charging = (bcs = 1), bt_Percent = bcl, bt_Millivolts = cbc_voltage parts bcl\<rparr>))"

text \<open>The first line that starts like an answer decides, even when it cannot be parsed.\<close>

fun parse_cbc :: "gostring list \<Rightarrow> (drv_error + BatteryInfo) option" where
  "parse_cbc [] = None"
| "parse_cbc (line # ls) = (if HasPrefix (TrimSpace line) ''+CBC:'' then Some (parseCBCLine (TrimSpace line)) else parse_cbc ls)"

definition BatteryStatus :: "'m runner \<Rightarrow> ('m, drv_error + BatteryInfo) state" where
  "BatteryStatus runner = do {
     r \<leftarrow> runner ''AT+CBC'';
     State_Monad.return (case r of
       Inl err \<Rightarrow> Inl (DrvAT err)
     | Inr resp \<Rightarrow>
         if RespError resp \<or> Lines resp = [] then Inl (DrvFailed ''AT+CBC'' (Lines resp))
         else case parse_cbc (Lines resp) of Some info \<Rightarrow> info | None \<Rightarrow> Inl (DrvFailed ''AT+CBC'' (Lines resp)))
   }"

text \<open>The same sequence, with more logging.\<close>

definition neoway_BatteryStatus :: "'m runner \<Rightarrow> ('m, drv_error + BatteryInfo) state" where
  "neoway_BatteryStatus runner = do {
     r \<leftarrow> runner ''AT+CBC'';
     State_Monad.return (case r of
       Inl err \<Rightarrow> Inl (DrvAT err)
     | Inr resp \<Rightarrow>
         if RespError resp \<or> Lines resp = [] then Inl (DrvFailed ''AT+CBC'' (Lines resp))
         else case parse_cbc (Lines resp) of
           Some (Inl err) \<Rightarrow> Inl err
         | Some (Inr info) \<Rightarrow> Inr info
         | None \<Rightarrow> Inl (DrvFailed ''AT+CBC'' (Lines resp)))
   }"

section \<open>Readings\<close>

context at_runner
begin

lemma BatteryStatus_reply:
  assumes "ready m" "replies m ''AT+CBC'' ls" "parse_cbc ls = Some info"
  shows "fst (run_state (BatteryStatus runner) m) = info"
proof -
  have "ls \<noteq> []" using assms(3) by auto
  then show ?thesis using reply [OF assms(1,2)] assms(3) by (auto simp: BatteryStatus_def)
qed

end

lemma neoway_same: "neoway_BatteryStatus runner = BatteryStatus runner"
  unfolding neoway_BatteryStatus_def BatteryStatus_def
  by (intro arg_cong2 [where f = State_Monad.bind] refl ext arg_cong [where f = State_Monad.return]) (auto split: sum.split option.split)

lemma Split_single: "sep \<notin> set a \<Longrightarrow> Split a sep = [a]"
  by (induction a) auto

lemma cbc_trim:
  fixes i p v :: int
  defines "f \<equiv> itoa i @ '','' @ itoa p @ '','' @ itoa v"
  shows "TrimSpace (CHR '' '' # f) = f"
proof -
  have a: "is_ascii f" using itoa_ascii unfolding f_def by (simp add: is_ascii_def)
  have "hd f = hd (itoa i)" "last f = last (itoa v)" unfolding f_def by simp_all
  then have "TrimSpace f = f" using a itoa_ends(1) [of i] itoa_ends(2) [of v] by (intro TrimSpace_id) auto
  then show ?thesis using TrimSpace_blank [of f] unfolding is_ascii_def [symmetric] using a by simp
qed

lemma parseCBCLine_fields:
  assumes "- (2 ^ 63) \<le> p" "p < 2 ^ 63" "- (2 ^ 63) \<le> v" "v < 2 ^ 63"
  shows "parseCBCLine (''+CBC: '' @ itoa (if c then 1 else 0) @ '','' @ itoa p @ '','' @ itoa v)
    = Inr \<lparr>bt_Charging = c, bt_Percent = p, bt_Millivolts = if v = 0 \<and> 0 < p then 3600 + p * 6 else v\<rparr>"
proof -
  let ?f = "itoa (if c then 1 else 0) @ '','' @ itoa p @ '','' @ itoa v"
  have one: "Split (itoa v) (CHR '','') = [itoa v]" using comma_notin_itoa by (simp add: Split_single)
  have f: "Split ?f (CHR '','') = [itoa (if c then 1 else 0), itoa p, itoa v]"
    using comma_notin_itoa one by (simp add: Split_append)
  have t: "TrimSpace (CHR '' '' # ?f) = ?f" by (rule cbc_trim)
  have d: "TrimPrefix (''+CBC: '' @ ?f) ''+CBC:'' = CHR '' '' # ?f" by (simp add: TrimPrefix_def HasPrefix_def)
  have a: "Atoi (itoa (if c then 1 else 0)) = Some (if c then 1 else 0)" by (rule Atoi_itoa) simp_all
  have n: "Atoi (itoa p) = Some p" "Atoi (itoa v) = Some v" by (rule Atoi_itoa; rule assms)+
  show ?thesis
    unfolding parseCBCLine_def d t f by (simp add: n a cbc_voltage_def Let_def)
qed

end
