(* ===== verification/HTTP_Modem.thy ===== *)
theory HTTP_Modem
  imports Modem_Drivers
begin

text \<open>
  HTTP requests through the IP stack of the modem (\<^verbatim>\<open>internal/modem/http/client.go\<close>, errors.go): a request is a sequence of AT
  commands over an arbitrary command runner. The mutex makes a request one operation; time limits belong to the runner.
\<close>

section \<open>Client\<close>

record modem_request =
  hm_Method :: gostring
  hm_URL :: gostring
  hm_ContentType :: gostring
  hm_Body :: gostring

record modem_response =
  mo_StatusCode :: int
  mo_Body :: gostring

datatype http_error = ErrEmptyURL | ErrUnsupportedMethod | ErrSetURL at_error | ErrURLRefused "gostring list" | ErrHTTPRequestFailed at_error

definition session_commands :: "(rune \<Rightarrow> bool) \<Rightarrow> modem_request \<Rightarrow> gostring list" where
  "session_commands printable req =
     (let ct = (if hm_ContentType req = [] then ''application/json'' else hm_ContentType req)
      in [''AT+HTTPPARA=\"CONTENT\",'' @ Quote printable ct,
          ''AT+HTTPDATA='' @ itoa (int (length (hm_Body req))) @ '',10000'' @ [CHR 0x0D] @ hm_Body req])"

definition initSession :: "(rune \<Rightarrow> bool) \<Rightarrow> 'm runner \<Rightarrow> modem_request \<Rightarrow> gostring \<Rightarrow> ('m, http_error option) state" where
  "initSession printable runner req method = do {
     _ \<leftarrow> runner ''AT+HTTPINIT'';
     _ \<leftarrow> runner ''AT+HTTPPARA=\"CID\",1'';
     r \<leftarrow> runner (''AT+HTTPPARA=\"URL\",'' @ Quote printable (hm_URL req));
     case r of
       Inl err \<Rightarrow> State_Monad.return (Some (ErrSetURL err))
     | Inr resp \<Rightarrow>
         if RespError resp then State_Monad.return (Some (ErrURLRefused (Lines resp)))
         else if method = ''POST'' then do {
           _ \<leftarrow> runner (session_commands printable req ! 0);
           _ \<leftarrow> runner (session_commands printable req ! 1);
           State_Monad.return None
         }
         else State_Monad.return None
   }"

text \<open>The status of the first \<^verbatim>\<open>+HTTPACTION\<close> line with a number in the second field, else 200.\<close>

fun action_status :: "gostring list \<Rightarrow> int" where
  "action_status [] = 200"
| "action_status (line # rest) =
     (if HasPrefix line ''+HTTPACTION:''
      then (case Split (TrimPrefix line ''+HTTPACTION:'') (CHR '','') of
              _ # code # _ \<Rightarrow> (case Atoi (TrimSpace code) of Some n \<Rightarrow> n | None \<Rightarrow> action_status rest)
            | _ \<Rightarrow> action_status rest)
      else action_status rest)"

definition executeAction :: "'m runner \<Rightarrow> gostring \<Rightarrow> ('m, http_error + int) state" where
  "executeAction runner method = do {
     r \<leftarrow> runner (''AT+HTTPACTION='' @ (if method = ''POST'' then ''1'' else ''0''));
     State_Monad.return (case r of Inl err \<Rightarrow> Inl (ErrHTTPRequestFailed err) | Inr resp \<Rightarrow> Inr (action_status (Lines resp)))
   }"

definition readResponseBody :: "'m runner \<Rightarrow> ('m, gostring) state" where
  "readResponseBody runner = do {
     r \<leftarrow> runner ''AT+HTTPREAD'';
     State_Monad.return (case r of
       Inl _ \<Rightarrow> []
     | Inr resp \<Rightarrow> if RespError resp \<or> Lines resp = [] then []
                   else Join (filter (\<lambda>l. \<not> HasPrefix l ''+HTTPREAD:'') (Lines resp)) [CHR 0x0A])
   }"

definition request_method :: "(rune \<Rightarrow> rune) \<Rightarrow> modem_request \<Rightarrow> gostring" where
  "request_method up req = strings_ToUpper up (TrimSpace (hm_Method req))"

text \<open>The session is closed (the deferred \<^verbatim>\<open>AT+HTTPTERM\<close>) on every path after the checks.\<close>

definition http_Do :: "(rune \<Rightarrow> rune) \<Rightarrow> (rune \<Rightarrow> bool) \<Rightarrow> 'm runner \<Rightarrow> modem_request \<Rightarrow> ('m, http_error + modem_response) state" where
  "http_Do up printable runner req =
     (if TrimSpace (hm_URL req) = [] then State_Monad.return (Inl ErrEmptyURL)
      else let method = request_method up req
      in if method \<noteq> ''GET'' \<and> method \<noteq> ''POST'' then State_Monad.return (Inl ErrUnsupportedMethod)
      else do {
        err \<leftarrow> initSession printable runner req method;
        res \<leftarrow> (case err of
          Some e \<Rightarrow> State_Monad.return (Inl e)
        | None \<Rightarrow> do {
            st \<leftarrow> executeAction runner method;
            case st of
              Inl e \<Rightarrow> State_Monad.return (Inl e)
            | Inr code \<Rightarrow> do {
                body \<leftarrow> readResponseBody runner;
                State_Monad.return (Inr \<lparr>mo_StatusCode = code, mo_Body = body\<rparr>)
              }
          });
        _ \<leftarrow> runner ''AT+HTTPTERM'';
        State_Monad.return res
      })"

definition http_Get :: "(rune \<Rightarrow> rune) \<Rightarrow> (rune \<Rightarrow> bool) \<Rightarrow> 'm runner \<Rightarrow> gostring \<Rightarrow> ('m, http_error + modem_response) state" where
  "http_Get up printable runner url = http_Do up printable runner \<lparr>hm_Method = ''GET'', hm_URL = url, hm_ContentType = [], hm_Body = []\<rparr>"

definition http_Post :: "(rune \<Rightarrow> rune) \<Rightarrow> (rune \<Rightarrow> bool) \<Rightarrow> 'm runner \<Rightarrow> gostring \<Rightarrow> gostring \<Rightarrow> gostring \<Rightarrow> ('m, http_error + modem_response) state" where
  "http_Post up printable runner url contentType body =
     http_Do up printable runner \<lparr>hm_Method = ''POST'', hm_URL = url, hm_ContentType = contentType, hm_Body = body\<rparr>"

section \<open>Sessions\<close>


text \<open>A request that the modem refuses counts as successful: when the modem accepts the URL and answers the action with an error, the
  client does not look at it and, as no \<^verbatim>\<open>+HTTPACTION\<close> line was read, reports status 200 with whatever the modem says
  to the command that reads the page.
\<close>

theorem http_refused_is_200:
  assumes "TrimSpace (hm_URL req) \<noteq> []" "request_method up req = ''GET''"
    "answer (''AT+HTTPPARA=\"URL\",'' @ Quote printable (hm_URL req)) = Inr urlResp" "\<not> RespError urlResp"
    "answer ''AT+HTTPACTION=0'' = Inr refused" "RespError refused" "list_all (\<lambda>l. \<not> HasPrefix l ''+HTTPACTION:'') (Lines refused)"
  shows "\<exists>body. run_state (http_Do up printable (\<lambda>cmd. State (\<lambda>m. (answer cmd, m))) req) m = (Inr \<lparr>mo_StatusCode = 200, mo_Body = body\<rparr>, m)"
proof -
  have "action_status ls = 200" if "list_all (\<lambda>l. \<not> HasPrefix l ''+HTTPACTION:'') ls" for ls using that by (induction ls) simp_all
  then show ?thesis using assms
    by (simp add: http_Do_def initSession_def executeAction_def readResponseBody_def State_Monad.bind_def State_Monad.return_def Let_def)
qed

theorem http_refused_is_200_witness:
  "\<exists>body. run_state (http_Get id (\<lambda>_. True) (\<lambda>cmd. State (\<lambda>m. (if cmd = ''AT+HTTPACTION=0''
      then Inr \<lparr>Lines = [''ERROR''], RespOK = False, RespError = True\<rparr> else Inr \<lparr>Lines = [], RespOK = True, RespError = False\<rparr>, m))) ''http://a.b'') () =
    (Inr \<lparr>mo_StatusCode = 200, mo_Body = body\<rparr>, ())"
proof -
  let ?answer = "\<lambda>cmd. if cmd = ''AT+HTTPACTION=0'' then Inr \<lparr>Lines = [''ERROR''], RespOK = False, RespError = True\<rparr>
    else Inr \<lparr>Lines = [], RespOK = True, RespError = False\<rparr>"
  let ?req = "\<lparr>hm_Method = ''GET'', hm_URL = ''http://a.b'', hm_ContentType = [], hm_Body = []\<rparr>"
  have "TrimSpace (hm_URL ?req) \<noteq> []" "request_method id ?req = ''GET''" "\<not> HasPrefix ''ERROR'' ''+HTTPACTION:''" by code_simp+
  then show ?thesis
    unfolding http_Get_def by (intro http_refused_is_200 [where answer = ?answer and urlResp = "\<lparr>Lines = [], RespOK = True, RespError = False\<rparr>"
          and refused = "\<lparr>Lines = [''ERROR''], RespOK = False, RespError = True\<rparr>"]) simp_all
qed

end
