(* ===== verification/Status_Service.thy ===== *)
theory Status_Service
  imports Modem_Drivers Tariff
begin

text \<open>
  Status polling (\<^verbatim>\<open>internal/services/status.go\<close>) and the diagnosis after a failure
  (\<^verbatim>\<open>internal/services/diagnostic.go\<close>). One poll is the function \<open>Poll\<close> of the four answers of the
  status provider; its callbacks are the effects, in order. The polling loop of \<^verbatim>\<open>Start\<close> is a sequence of
  polls (\<^verbatim>\<open>run\<close>), its timing is not modelled.
\<close>

section \<open>State\<close>

text \<open>What the four queries of a provider return: the values with their error flags.\<close>

record provider_reply =
  pr_rssi :: int
  pr_rssiErr :: bool
  pr_reg :: "NetworkStatus option"
  pr_regErr :: bool
  pr_op :: gostring
  pr_sim :: gostring
  pr_simErr :: bool

record ModemHealth =
  mh_Status :: gostring
  mh_Signal :: int
  mh_SignalDBm :: int
  mh_Operator :: gostring
  mh_Network :: gostring
  mh_SIM :: gostring
  mh_ModemID :: gostring

record StatusService =
  ss_onSignal :: bool
  ss_onHealth :: bool
  ss_onDisconnect :: bool
  ss_failCount :: int
  ss_lastOperator :: gostring
  ss_lastRegistered :: bool
  ss_lastTechnology :: gostring
  ss_lastRoaming :: bool
  ss_lastRSSI :: int
  ss_lastSIM :: gostring

datatype status_effect = OnSignal int int | OnHealth ModemHealth | OnDisconnect

definition NewStatusService :: "bool \<Rightarrow> bool \<Rightarrow> StatusService" where
  "NewStatusService onSignal onHealth = \<lparr>ss_onSignal = onSignal, ss_onHealth = onHealth, ss_onDisconnect = False, ss_failCount = 0,
     ss_lastOperator = [], ss_lastRegistered = False, ss_lastTechnology = [], ss_lastRoaming = False, ss_lastRSSI = 0, ss_lastSIM = []\<rparr>"

definition SetOnDisconnect :: "bool \<Rightarrow> StatusService \<Rightarrow> StatusService" where
  "SetOnDisconnect fn s = s\<lparr>ss_onDisconnect := fn\<rparr>"

section \<open>Polling\<close>

definition calculateDBm :: "int \<Rightarrow> int" where
  "calculateDBm rssi = (if rssi = 0 then -113 else if 1 \<le> rssi \<and> rssi \<le> 31 then -113 + 2 * rssi else -999)"

definition determineStatus :: "gostring \<Rightarrow> bool \<Rightarrow> int \<Rightarrow> gostring" where
  "determineStatus sim registered rssi =
     (if sim \<noteq> ''READY'' \<and> sim \<noteq> [] then ''not_ready''
      else if \<not> registered \<or> rssi < 5 then ''degraded'' else ''ready'')"

definition updateFailCount :: "bool \<Rightarrow> bool \<Rightarrow> StatusService \<Rightarrow> StatusService \<times> status_effect list" where
  "updateFailCount errRssi errSim s =
     (if errRssi \<and> errSim
      then (let n = ss_failCount s + 1
            in (s\<lparr>ss_failCount := n\<rparr>, if 3 \<le> n \<and> ss_onDisconnect s then [OnDisconnect] else []))
      else (s\<lparr>ss_failCount := 0\<rparr>, []))"

definition resolveSignalAndSIM :: "bool \<Rightarrow> int \<Rightarrow> bool \<Rightarrow> gostring \<Rightarrow> StatusService \<Rightarrow> StatusService \<times> int \<times> gostring" where
  "resolveSignalAndSIM errRssi rssi errSim sim s =
     (let (s1, rssi1) = (if \<not> errRssi \<and> 0 < rssi \<and> rssi \<noteq> 99 then (s\<lparr>ss_lastRSSI := rssi\<rparr>, rssi)
                         else if errRssi \<and> 0 < ss_lastRSSI s then (s, ss_lastRSSI s) else (s, rssi));
          (s2, sim1) = (if \<not> errSim \<and> sim \<noteq> [] then (s1\<lparr>ss_lastSIM := sim\<rparr>, sim)
                        else if errSim \<and> ss_lastSIM s1 \<noteq> [] then (s1, ss_lastSIM s1) else (s1, sim))
      in (s2, rssi1, sim1))"

definition roaming_suffix :: "bool \<Rightarrow> gostring" where
  "roaming_suffix roaming = (if roaming then '' (roaming)'' else [])"

definition resolveRegistration :: "bool \<Rightarrow> NetworkStatus option \<Rightarrow> StatusService \<Rightarrow> StatusService \<times> bool \<times> gostring" where
  "resolveRegistration errReg reg s = (case (reg, errReg) of
     (Some st, False) \<Rightarrow>
       (s\<lparr>ss_lastRegistered := net_Registered st, ss_lastTechnology := net_Technology st, ss_lastRoaming := net_Roaming st\<rparr>,
        net_Registered st, net_Technology st @ roaming_suffix (net_Roaming st))
   | _ \<Rightarrow> if errReg \<and> ss_lastRegistered s
         then (s, True, ss_lastTechnology s @ roaming_suffix (ss_lastRoaming s)) else (s, False, ''unknown''))"

definition Poll :: "provider_reply \<Rightarrow> StatusService \<Rightarrow> StatusService \<times> status_effect list" where
  "Poll r s =
     (let op = (if pr_op r \<noteq> [] then pr_op r else ss_lastOperator s);
          s0 = s\<lparr>ss_lastOperator := op\<rparr>;
          (s1, effs) = updateFailCount (pr_rssiErr r) (pr_simErr r) s0;
          (s2, rssi, sim) = resolveSignalAndSIM (pr_rssiErr r) (pr_rssi r) (pr_simErr r) (pr_sim r) s1;
          (s3, registered, network) = resolveRegistration (pr_regErr r) (pr_reg r) s2;
          health = \<lparr>mh_Status = determineStatus sim registered rssi, mh_Signal = rssi, mh_SignalDBm = calculateDBm rssi,
            mh_Operator = op, mh_Network = network, mh_SIM = sim, mh_ModemID = []\<rparr>
      in (s3, effs @ (if ss_onSignal s \<and> 0 < rssi \<and> rssi \<noteq> 99 then [OnSignal rssi (calculateDBm rssi)] else [])
            @ (if ss_onHealth s then [OnHealth health] else [])))"

section \<open>Diagnosis\<close>

record DiagnosticReport =
  dr_ModemID :: gostring
  dr_Trigger :: gostring
  dr_SIMReady :: bool
  dr_SIMState :: gostring
  dr_NetworkOK :: bool
  dr_Network :: gostring
  dr_SignalOK :: bool
  dr_RSSI :: int
  dr_SignalDBm :: int
  dr_BalanceOK :: bool
  dr_Balance :: rat
  dr_Currency :: gostring
  dr_Issue :: gostring
  dr_Advice :: gostring

definition checkSIM :: "provider_reply \<Rightarrow> DiagnosticReport \<Rightarrow> DiagnosticReport" where
  "checkSIM r rep = rep\<lparr>dr_SIMState := pr_sim r, dr_SIMReady := (pr_sim r = ''READY'')\<rparr>"

definition checkNetwork :: "provider_reply \<Rightarrow> DiagnosticReport \<Rightarrow> DiagnosticReport" where
  "checkNetwork r rep = (case pr_reg r of
     Some st \<Rightarrow> rep\<lparr>dr_NetworkOK := net_Registered st, dr_Network := net_Technology st @ roaming_suffix (net_Roaming st)\<rparr>
   | None \<Rightarrow> rep\<lparr>dr_Network := ''none''\<rparr>)"

definition checkSignal :: "provider_reply \<Rightarrow> DiagnosticReport \<Rightarrow> DiagnosticReport" where
  "checkSignal r rep = rep\<lparr>dr_RSSI := pr_rssi r, dr_SignalDBm := calculateDBm (pr_rssi r),
     dr_SignalOK := (5 \<le> pr_rssi r \<and> pr_rssi r \<noteq> 99)\<rparr>"

text \<open>\<open>None\<close> for a missing query function, \<open>Some None\<close> for one that fails.\<close>

definition checkBalance :: "(rat \<times> gostring) option option \<Rightarrow> DiagnosticReport \<Rightarrow> DiagnosticReport" where
  "checkBalance query rep = (case query of
     Some (Some (bal, cur)) \<Rightarrow> rep\<lparr>dr_Balance := bal, dr_Currency := (if cur \<noteq> [] then cur else dr_Currency rep), dr_BalanceOK := (0 < bal)\<rparr>
   | _ \<Rightarrow> rep)"

definition synthesizeDiagnosis :: "(rat \<Rightarrow> gostring) \<Rightarrow> DiagnosticReport \<Rightarrow> DiagnosticReport" where
  "synthesizeDiagnosis fmt2 rep =
     (if \<not> dr_SIMReady rep then
        rep\<lparr>dr_Issue := ''SIM card inaccessible or locked ('' @ dr_SIMState rep @ '')'',
            dr_Advice := ''Check SIM card installation, inspect PIN/PUK requirements''\<rparr>
      else if \<not> dr_NetworkOK rep then
        rep\<lparr>dr_Issue := ''Modem not registered on cellular network'',
            dr_Advice := ''Check external antenna connection or verify carrier coverage''\<rparr>
      else if \<not> dr_SignalOK rep then
        rep\<lparr>dr_Issue := ''Cellular signal is too weak or noisy (RSSI '' @ itoa (dr_RSSI rep) @ '')'',
            dr_Advice := ''Reposition antenna or check for electromagnetic interference''\<rparr>
      else if \<not> dr_BalanceOK rep then
        rep\<lparr>dr_Issue := ''Account balance is exhausted or negative ('' @ fmt2 (dr_Balance rep) @ '' '' @ dr_Currency rep @ '')'',
            dr_Advice := ''Top up SIM card balance with the mobile network operator''\<rparr>
      else
        rep\<lparr>dr_Issue := ''Cellular network / SMSC service center issue'',
            dr_Advice := ''Modem hardware and connection appear healthy; carrier SMS center may be overloaded''\<rparr>)"

definition RunDiagnostic :: "(rat \<Rightarrow> gostring) \<Rightarrow> gostring \<Rightarrow> bool \<Rightarrow> (rat \<times> gostring) option option \<Rightarrow> provider_reply \<Rightarrow> gostring
    \<Rightarrow> DiagnosticReport \<times> gostring list" where
  "RunDiagnostic fmt2 modemID onAlert query r trigger =
     (let rep0 = \<lparr>dr_ModemID = modemID, dr_Trigger = trigger, dr_SIMReady = False, dr_SIMState = [], dr_NetworkOK = False, dr_Network = [],
            dr_SignalOK = False, dr_RSSI = 0, dr_SignalDBm = 0, dr_BalanceOK = True, dr_Balance = 0, dr_Currency = ''RUB'', dr_Issue = [], dr_Advice = []\<rparr>;
          rep = synthesizeDiagnosis fmt2 (checkBalance query (checkSignal r (checkNetwork r (checkSIM r rep0))))
      in (rep, if dr_Issue rep \<noteq> [] \<and> onAlert
               then [modemID @ '': '' @ dr_Issue rep @ '' ('' @ dr_Advice rep @ '')''] else []))"

section \<open>When the connection is given up\<close>

definition poll_failed :: "provider_reply \<Rightarrow> bool" where
  "poll_failed r \<longleftrightarrow> pr_rssiErr r \<and> pr_simErr r"

text \<open>The number of failed polls at the end of a sequence.\<close>

definition trailing_failures :: "provider_reply list \<Rightarrow> nat" where
  "trailing_failures rs = length (takeWhile poll_failed (rev rs))"

lemma resolve_keeps:
  "ss_failCount (fst (resolveSignalAndSIM e1 rssi e2 sim s)) = ss_failCount s"
  "ss_onDisconnect (fst (resolveSignalAndSIM e1 rssi e2 sim s)) = ss_onDisconnect s"
  "ss_failCount (fst (resolveRegistration e3 reg s)) = ss_failCount s"
  "ss_onDisconnect (fst (resolveRegistration e3 reg s)) = ss_onDisconnect s"
  by (auto simp: resolveSignalAndSIM_def resolveRegistration_def Let_def split: option.split bool.split)

lemma Poll_eq:
  obtains h sig s3 where "Poll r s = (s3, snd (updateFailCount (pr_rssiErr r) (pr_simErr r) s) @ sig @ h)" "OnDisconnect \<notin> set (sig @ h)"
    "ss_failCount s3 = ss_failCount (fst (updateFailCount (pr_rssiErr r) (pr_simErr r) s))" "ss_onDisconnect s3 = ss_onDisconnect s"
proof -
  let ?s0 = "s\<lparr>ss_lastOperator := (if pr_op r \<noteq> [] then pr_op r else ss_lastOperator s)\<rparr>"
  let ?u = "updateFailCount (pr_rssiErr r) (pr_simErr r) ?s0"
  obtain s2 rssi sim where 2: "resolveSignalAndSIM (pr_rssiErr r) (pr_rssi r) (pr_simErr r) (pr_sim r) (fst ?u) = (s2, rssi, sim)"
    by (metis prod_cases3)
  obtain s3 reg net where 3: "resolveRegistration (pr_regErr r) (pr_reg r) s2 = (s3, reg, net)" by (metis prod_cases3)
  have u: "snd ?u = snd (updateFailCount (pr_rssiErr r) (pr_simErr r) s)"
    "ss_failCount (fst ?u) = ss_failCount (fst (updateFailCount (pr_rssiErr r) (pr_simErr r) s))" "ss_onDisconnect (fst ?u) = ss_onDisconnect s"
    by (simp_all add: updateFailCount_def Let_def)
  have k: "ss_failCount s3 = ss_failCount (fst ?u)" "ss_onDisconnect s3 = ss_onDisconnect (fst ?u)"
    using resolve_keeps(1,2) [of "pr_rssiErr r" "pr_rssi r" "pr_simErr r" "pr_sim r" "fst ?u"] resolve_keeps(3,4) [of "pr_regErr r" "pr_reg r" s2]
    by (simp_all only: 2 3 fst_conv)
  obtain sig h where "Poll r s = (s3, snd ?u @ sig @ h)" "OnDisconnect \<notin> set (sig @ h)"
    using 2 3 by (fastforce simp: Poll_def Let_def split_beta)
  with k u show ?thesis by (intro that [of s3 sig h]) simp_all
qed

lemma Poll_facts:
  shows "ss_failCount (fst (Poll r s)) = (if poll_failed r then ss_failCount s + 1 else 0)"
    and "ss_onDisconnect (fst (Poll r s)) = ss_onDisconnect s"
    and "OnDisconnect \<in> set (snd (Poll r s)) \<longleftrightarrow> poll_failed r \<and> 3 \<le> ss_failCount s + 1 \<and> ss_onDisconnect s"
  by (rule Poll_eq [of r s]; auto simp: updateFailCount_def poll_failed_def Let_def)+

lemma failCount_trailing:
  "ss_failCount (fst (run Poll rs (SetOnDisconnect True (NewStatusService a b)))) = int (trailing_failures rs)
    \<and> ss_onDisconnect (fst (run Poll rs (SetOnDisconnect True (NewStatusService a b))))"
proof (induction rs rule: rev_induct)
  case Nil
  then show ?case by (simp add: NewStatusService_def SetOnDisconnect_def trailing_failures_def)
next
  case (snoc r rs)
  then show ?case by (simp add: run_append Let_def split_beta Poll_facts trailing_failures_def)
qed

text \<open>Property C33. The connection is given up exactly after three polls in a row that could read neither signal nor SIM:
  whatever the polls before returned, a poll calls the disconnect callback if and only if it and the two
  polls before it failed in this way; one good answer starts the count again.
\<close>

theorem disconnect_after_three:
  "OnDisconnect \<in> set (last (snd (run Poll (rs @ [r]) (SetOnDisconnect True (NewStatusService onSignal onHealth)))))
   \<longleftrightarrow> poll_failed r \<and> 2 \<le> length rs \<and> poll_failed (last rs) \<and> poll_failed (last (butlast rs))"
proof -
  have "2 \<le> trailing_failures rs \<longleftrightarrow> 2 \<le> length rs \<and> poll_failed (last rs) \<and> poll_failed (last (butlast rs))"
  proof (cases rs rule: rev_cases)
    case (snoc ys y)
    then show ?thesis by (cases ys rule: rev_cases) (auto simp: trailing_failures_def butlast_append)
  qed (simp add: trailing_failures_def)
  then show ?thesis
    using failCount_trailing [of rs onSignal onHealth]
    by (auto simp: run_append Let_def split_beta Poll_facts)
qed

text \<open>An unknown signal counts as a good one: when the modem reports 99 (not known or not detectable), the
  status of a registered modem with a ready SIM is ready, with a level of -999 dBm, while the
  diagnosis of the same answers blames the signal.
\<close>

theorem unknown_signal_ready:
  assumes "pr_rssi r = 99" "\<not> pr_rssiErr r" "pr_reg r = Some st" "net_Registered st" "\<not> pr_regErr r" "pr_sim r = ''READY''" "\<not> pr_simErr r" "ss_onHealth s"
  shows "(\<exists>h. snd (Poll r s) = [OnHealth h] \<and> mh_Status h = ''ready'' \<and> mh_SignalDBm h = -999)
    \<and> dr_Issue (fst (RunDiagnostic fmt2 modemID onAlert query r trigger)) = ''Cellular signal is too weak or noisy (RSSI '' @ itoa 99 @ '')''"
proof
  show "\<exists>h. snd (Poll r s) = [OnHealth h] \<and> mh_Status h = ''ready'' \<and> mh_SignalDBm h = -999"
    using assms by (simp add: Poll_def updateFailCount_def resolveSignalAndSIM_def resolveRegistration_def determineStatus_def calculateDBm_def Let_def)
  show "dr_Issue (fst (RunDiagnostic fmt2 modemID onAlert query r trigger)) = ''Cellular signal is too weak or noisy (RSSI '' @ itoa 99 @ '')''"
    using assms by (auto simp: RunDiagnostic_def checkBalance_def checkSignal_def checkNetwork_def checkSIM_def synthesizeDiagnosis_def Let_def
        split: option.split)
qed

definition demo_reply :: provider_reply where
  "demo_reply = \<lparr>pr_rssi = 99, pr_rssiErr = False, pr_reg = Some \<lparr>net_Registered = True, net_Roaming = False, net_Technology = ''GSM''\<rparr>, pr_regErr = False,
     pr_op = ''MTS'', pr_sim = ''READY'', pr_simErr = False\<rparr>"

theorem unknown_signal_ready_witness:
  "\<exists>h. snd (Poll demo_reply (NewStatusService True True)) = [OnHealth h] \<and> mh_Status h = ''ready'' \<and> mh_SignalDBm h = -999"
proof -
  define st where "st = \<lparr>net_Registered = True, net_Roaming = False, net_Technology = ''GSM''\<rparr>"
  have h: "pr_rssi demo_reply = 99" "\<not> pr_rssiErr demo_reply" "pr_reg demo_reply = Some st" "net_Registered st" "\<not> pr_regErr demo_reply"
    "pr_sim demo_reply = ''READY''" "\<not> pr_simErr demo_reply" "ss_onHealth (NewStatusService True True)"
    by (simp_all add: demo_reply_def st_def NewStatusService_def)
  show ?thesis using unknown_signal_ready [OF h] by blast
qed

lemma calculateDBm_range: "calculateDBm rssi = -999 \<or> -113 \<le> calculateDBm rssi \<and> calculateDBm rssi \<le> -51"
  by (simp add: calculateDBm_def)

end
