(* ===== verification/MQTT_Client.thy ===== *)
theory MQTT_Client
  imports Event_Machine
begin

text \<open>
  The built-in MQTT client (\<^verbatim>\<open>internal/mqtt/client_tcp.go\<close>), its configuration check
  (\<^verbatim>\<open>client.go\<close>) and the topics of a modem (\<^verbatim>\<open>topics.go\<close>). The packets of the external package
  \<^verbatim>\<open>packets\<close> are data (\<open>packet\<close>, with the fields the client sets or reads); dialling, writing and reading a packet
  are I/O, whose outcomes are arguments. A method is split at the points where it waits or releases its
  locks; the state machine at the end runs the sections in any order. \<open>tcp_pingers\<close> counts the running
  keep-alive goroutines, \<open>tcp_doneOpen\<close> says whether the channel \<^verbatim>\<open>doneCh\<close> is still open, a connection is
  a number, fresh for every connection made. Handlers are an arbitrary type; the subscriptions are kept in the
  order in which the topics were first seen, while Go iterates them in any order.
\<close>

section \<open>Data\<close>

type_synonym msgid = "16 word"

record ClientConfig =
  cc_Broker :: gostring
  cc_Port :: int
  cc_Username :: gostring
  cc_Password :: gostring
  cc_ClientID :: gostring
  cc_QoS :: byte
  cc_CleanSession :: bool
  cc_KeepAlive :: duration
  cc_ConnectTimeout :: duration
  cc_AutoReconnect :: bool
  cc_MaxReconnectInterval :: duration
  cc_LWTTopic :: gostring
  cc_LWTPayload :: gostring
  cc_LWTQoS :: byte
  cc_LWTRetained :: bool
  cc_TLSEnabled :: bool
  cc_InsecureTLS :: bool

record will =
  wl_Topic :: gostring
  wl_Message :: gostring
  wl_Qos :: byte
  wl_Retain :: bool

record connect_packet =
  cp_ProtocolName :: gostring
  cp_ProtocolVersion :: nat
  cp_CleanSession :: bool
  cp_ClientIdentifier :: gostring
  cp_Keepalive :: msgid
  cp_Username :: "gostring option"
  cp_Password :: "gostring option"
  cp_Will :: "will option"

datatype packet =
    PConnect connect_packet
  | PPublish gostring byte bool gostring msgid
  | PPuback msgid
  | PPubrec msgid
  | PPubrel msgid
  | PPubcomp msgid
  | PSubscribe msgid gostring byte
  | PSuback msgid
  | PPingreq
  | PPingresp
  | PDisconnect

record 'h TCPClient =
  tcp_cfg :: ClientConfig
  tcp_conn :: "nat option"
  tcp_connected :: bool
  tcp_closed :: bool
  tcp_subscribers :: "(gostring, 'h list) gomap"
  tcp_pubacks :: "msgid \<Rightarrow> bool option"
  tcp_subacks :: "msgid \<Rightarrow> bool option"
  tcp_nextID :: "32 word"
  tcp_doneOpen :: bool
  tcp_pingers :: nat
  tcp_conns :: nat

datatype 'h mqtt_effect = Wrote packet | StartHandler 'h gostring gostring | StartReconnect

datatype mqtt_error = ErrNotConnected | ErrConnect | ErrMqttTimeout | ErrConfig gostring | MqttPanic

definition ValidateConfig :: "ClientConfig \<Rightarrow> mqtt_error option" where
  "ValidateConfig c =
     (if TrimSpace (cc_Broker c) = [] then Some (ErrConfig ''broker address cannot be empty'')
      else if 2 < cc_QoS c then Some (ErrConfig ''invalid QoS'') else None)"

definition NewTCPClient :: "ClientConfig \<Rightarrow> mqtt_error + 'h TCPClient" where
  "NewTCPClient cfg = (case ValidateConfig cfg of
     Some err \<Rightarrow> Inl err
   | None \<Rightarrow> Inr \<lparr>tcp_cfg = cfg, tcp_conn = None, tcp_connected = False, tcp_closed = False, tcp_subscribers = [], tcp_pubacks = Map.empty,
       tcp_subacks = Map.empty, tcp_nextID = 0, tcp_doneOpen = True, tcp_pingers = 0, tcp_conns = 0\<rparr>)"

definition resolveBrokerAddress :: "ClientConfig \<Rightarrow> gostring" where
  "resolveBrokerAddress cfg =
     (let broker = fold (\<lambda>p s. TrimPrefix s p) [''tcp://'', ''ssl://'', ''tls://'', ''mqtt://''] (cc_Broker cfg)
      in if \<not> Contains broker '':'' then broker @ '':'' @ itoa (if cc_Port cfg \<le> 0 then 1883 else cc_Port cfg) else broker)"

section \<open>Packet identifiers\<close>

lemma ucast_Suc: "(ucast (n + 1) :: msgid) = ucast (n :: 32 word) + 1"
proof -
  have "(65536 :: int) dvd 4294967296" by simp
  then have c: "m mod 4294967296 mod 65536 = m mod (65536 :: int)" for m by (rule mod_mod_cancel)
  have r: "(m mod 4294967296 + 1) mod 65536 = (m + 1) mod (65536 :: int)" for m
    using mod_add_left_eq [of "m mod 4294967296" "65536 :: int" 1] mod_add_left_eq [of m "65536 :: int" 1] by (simp only: c)
  show ?thesis
    by transfer (simp add: take_bit_eq_mod mod_simps mod_mod_cancel, rule r [symmetric])
qed

lemma mask16: "(0xFFFF :: 32 word) = mask 16" by (simp add: mask_eq_exp_minus_1)

lemma low_half: "(ucast (x AND 0xFFFF) :: msgid) = ucast (x :: 32 word)"
  unfolding mask16 by (rule bit_word_eqI) (auto simp: bit_simps)

function nextMsgID :: "32 word \<Rightarrow> 32 word \<times> msgid" where
  "nextMsgID n = (let n1 = n + 1; val = (ucast (n1 AND 0xFFFF) :: msgid) in if val \<noteq> 0 then (n1, val) else nextMsgID n1)"
  by pat_completeness auto
termination
  by (relation "measure (\<lambda>n. if (ucast (n + 1) :: msgid) = 0 then 1 else 0)") (simp_all add: low_half ucast_Suc)

declare nextMsgID.simps [simp del]

lemma nextMsgID_eq: "nextMsgID n = (if (ucast n :: msgid) = - 1 then (n + 2, 1) else (n + 1, ucast n + 1))"
proof -
  have "(ucast n :: msgid) + 1 = 0 \<longleftrightarrow> (ucast n :: msgid) = - 1" by (metis add.inverse_inverse add_eq_0_iff2 )
  moreover have "(ucast (2 + n) :: msgid) = ucast n + 1 + 1" using ucast_Suc [of "n + 1"] ucast_Suc [of n] by (simp add: add.commute)
  ultimately show ?thesis
   by (subst nextMsgID.simps, subst nextMsgID.simps) (simp add: low_half ucast_Suc Let_def)
qed

section \<open>Topics\<close>

record Topics =
  tp_prefix :: gostring
  tp_modemID :: gostring

definition NewTopics :: "gostring \<Rightarrow> gostring \<Rightarrow> Topics" where
  "NewTopics pre modemID = \<lparr>tp_prefix = pre, tp_modemID = modemID\<rparr>"

definition modem_topic :: "Topics \<Rightarrow> gostring \<Rightarrow> gostring" where
  "modem_topic t suf = tp_prefix t @ ''/modem/'' @ tp_modemID t @ ''/'' @ suf"

definition tp_SMSSend :: "Topics \<Rightarrow> gostring" where
  "tp_SMSSend t = modem_topic t ''sms/send''"

definition tp_SMSStatus :: "Topics \<Rightarrow> gostring" where
  "tp_SMSStatus t = modem_topic t ''sms/status''"

definition tp_SMSReceived :: "Topics \<Rightarrow> gostring" where
  "tp_SMSReceived t = modem_topic t ''sms/received''"

definition tp_SMSLast :: "Topics \<Rightarrow> gostring" where
  "tp_SMSLast t = modem_topic t ''sms/last''"

definition tp_SMSHistory :: "Topics \<Rightarrow> gostring" where
  "tp_SMSHistory t = modem_topic t ''sms/history''"

definition tp_SMSHistoryClear :: "Topics \<Rightarrow> gostring" where
  "tp_SMSHistoryClear t = modem_topic t ''sms/history/clear''"

definition tp_CallDial :: "Topics \<Rightarrow> gostring" where
  "tp_CallDial t = modem_topic t ''call/dial''"

definition tp_CallHangup :: "Topics \<Rightarrow> gostring" where
  "tp_CallHangup t = modem_topic t ''call/hangup''"

definition tp_CallIncoming :: "Topics \<Rightarrow> gostring" where
  "tp_CallIncoming t = modem_topic t ''call/incoming''"

definition tp_CallHistory :: "Topics \<Rightarrow> gostring" where
  "tp_CallHistory t = modem_topic t ''call/history''"

definition tp_CallHistoryClear :: "Topics \<Rightarrow> gostring" where
  "tp_CallHistoryClear t = modem_topic t ''call/history/clear''"

definition tp_CallDTMF :: "Topics \<Rightarrow> gostring" where
  "tp_CallDTMF t = modem_topic t ''call/dtmf''"

definition tp_SignalStrength :: "Topics \<Rightarrow> gostring" where
  "tp_SignalStrength t = modem_topic t ''signal''"

definition tp_USSDSend :: "Topics \<Rightarrow> gostring" where
  "tp_USSDSend t = modem_topic t ''ussd/send''"

definition tp_USSDResponse :: "Topics \<Rightarrow> gostring" where
  "tp_USSDResponse t = modem_topic t ''ussd/response''"

definition tp_CommandRaw :: "Topics \<Rightarrow> gostring" where
  "tp_CommandRaw t = modem_topic t ''command/raw''"

definition tp_CommandResponse :: "Topics \<Rightarrow> gostring" where
  "tp_CommandResponse t = modem_topic t ''command/response''"

definition tp_Health :: "Topics \<Rightarrow> gostring" where
  "tp_Health t = modem_topic t ''health''"

definition tp_Alert :: "Topics \<Rightarrow> gostring" where
  "tp_Alert t = modem_topic t ''alert''"

definition tp_Event :: "Topics \<Rightarrow> gostring" where
  "tp_Event t = modem_topic t ''event''"

definition tp_Diagnostic :: "Topics \<Rightarrow> gostring" where
  "tp_Diagnostic t = modem_topic t ''diagnostic''"

definition tp_Balance :: "Topics \<Rightarrow> gostring" where
  "tp_Balance t = modem_topic t ''balance''"

definition tp_TariffSetPreset :: "Topics \<Rightarrow> gostring" where
  "tp_TariffSetPreset t = modem_topic t ''tariff/set_preset''"

definition tp_TariffSet :: "Topics \<Rightarrow> gostring" where
  "tp_TariffSet t = modem_topic t ''tariff/set''"

definition tp_TariffReset :: "Topics \<Rightarrow> gostring" where
  "tp_TariffReset t = modem_topic t ''tariff/reset''"

definition tp_AccountingStatus :: "Topics \<Rightarrow> gostring" where
  "tp_AccountingStatus t = modem_topic t ''accounting/status''"

definition tp_AccountingAlert :: "Topics \<Rightarrow> gostring" where
  "tp_AccountingAlert t = modem_topic t ''accounting/alert''"

definition tp_LWT :: "Topics \<Rightarrow> gostring" where
  "tp_LWT t = tp_prefix t @ ''/status''"

definition tp_PoolStatus :: "Topics \<Rightarrow> gostring" where
  "tp_PoolStatus t = tp_prefix t @ ''/pool/status''"

definition tp_PoolSMSSend :: "Topics \<Rightarrow> gostring" where
  "tp_PoolSMSSend t = tp_prefix t @ ''/sms/send''"

definition tp_PoolCallDial :: "Topics \<Rightarrow> gostring" where
  "tp_PoolCallDial t = tp_prefix t @ ''/call/dial''"

definition tp_PoolCallHangup :: "Topics \<Rightarrow> gostring" where
  "tp_PoolCallHangup t = tp_prefix t @ ''/call/hangup''"

definition tp_PoolUSSDSend :: "Topics \<Rightarrow> gostring" where
  "tp_PoolUSSDSend t = tp_prefix t @ ''/ussd/send''"

section \<open>Connection\<close>

definition keepalive_of :: "ClientConfig \<Rightarrow> duration" where
  "keepalive_of cfg = (if cc_KeepAlive cfg \<le> 0 then 60 * 1000000000 else cc_KeepAlive cfg)"

definition connect_packet_of :: "ClientConfig \<Rightarrow> connect_packet" where
  "connect_packet_of cfg = \<lparr>cp_ProtocolName = ''MQTT'', cp_ProtocolVersion = 4, cp_CleanSession = cc_CleanSession cfg,
     cp_ClientIdentifier = (if cc_ClientID cfg \<noteq> [] then cc_ClientID cfg else ''gsm2mqtt-gateway''),
     cp_Keepalive = word_of_int (keepalive_of cfg div 1000000000),
     cp_Username = (if cc_Username cfg \<noteq> [] then Some (cc_Username cfg) else None),
     cp_Password = (if cc_Username cfg \<noteq> [] \<and> cc_Password cfg \<noteq> [] then Some (cc_Password cfg) else None),
     cp_Will = (if cc_LWTTopic cfg \<noteq> []
       then Some \<lparr>wl_Topic = cc_LWTTopic cfg, wl_Message = cc_LWTPayload cfg,
         wl_Qos = (if cc_LWTQoS cfg = 0 \<and> cc_QoS cfg \<noteq> 0 then cc_QoS cfg else cc_LWTQoS cfg), wl_Retain = cc_LWTRetained cfg\<rparr>
       else None)\<rparr>"

datatype connect_outcome = DialFailed | WriteFailed | ReadFailed | NotConnack | Refused | Accepted

definition Connect :: "connect_outcome \<Rightarrow> 'h TCPClient \<Rightarrow> 'h TCPClient \<times> 'h mqtt_effect list \<times> mqtt_error option" where
  "Connect outcome c =
     (let wrote = (if outcome = DialFailed \<or> outcome = WriteFailed then [] else [Wrote (PConnect (connect_packet_of (tcp_cfg c)))])
      in if outcome = Accepted
         then (c\<lparr>tcp_conn := Some (tcp_conns c), tcp_connected := True, tcp_closed := False, tcp_doneOpen := True,
                 tcp_pingers := tcp_pingers c + 1, tcp_conns := tcp_conns c + 1\<rparr>, wrote, None)
         else (c, wrote, Some ErrConnect))"

definition writePacket :: "bool \<Rightarrow> packet \<Rightarrow> 'h TCPClient \<Rightarrow> 'h mqtt_effect list \<times> mqtt_error option" where
  "writePacket writeOK p c =
     (if \<not> tcp_connected c \<or> tcp_conn c = None then ([], Some ErrNotConnected)
      else if writeOK then ([Wrote p], None) else ([], Some ErrConnect))"

definition handleDisconnect :: "nat \<Rightarrow> 'h TCPClient \<Rightarrow> 'h TCPClient \<times> 'h mqtt_effect list" where
  "handleDisconnect deadConn c =
     (let c1 = (if tcp_conn c = Some deadConn then c\<lparr>tcp_conn := None, tcp_connected := False\<rparr> else c)
      in (c1, if \<not> tcp_closed c1 \<and> cc_AutoReconnect (tcp_cfg c1) then [StartReconnect] else []))"

definition read_error :: "nat \<Rightarrow> 'h TCPClient \<Rightarrow> 'h TCPClient \<times> 'h mqtt_effect list" where
  "read_error conn c = (if tcp_closed c then (c, []) else handleDisconnect conn c)"

fun resubscribe :: "bool \<Rightarrow> gostring list \<Rightarrow> 'h TCPClient \<Rightarrow> 'h TCPClient \<times> 'h mqtt_effect list" where
  "resubscribe writeOK [] c = (c, [])"
| "resubscribe writeOK (topic # topics) c =
     (let (n, msgID) = nextMsgID (tcp_nextID c); c1 = c\<lparr>tcp_nextID := n\<rparr>;
          effs = fst (writePacket writeOK (PSubscribe msgID topic (cc_QoS (tcp_cfg c))) c1);
          (c2, effs2) = resubscribe writeOK topics c1
      in (c2, effs @ effs2))"

definition resubscribeAll :: "bool \<Rightarrow> 'h TCPClient \<Rightarrow> 'h TCPClient \<times> 'h mqtt_effect list" where
  "resubscribeAll writeOK c = resubscribe writeOK (map fst (tcp_subscribers c)) c"

text \<open>The reconnect loop: the check before the sleep, the one after it, and the attempt with the next
  interval if it fails.\<close>

definition reconnect_done :: "'h TCPClient \<Rightarrow> bool" where
  "reconnect_done c \<longleftrightarrow> tcp_closed c \<or> tcp_connected c"

definition next_interval :: "ClientConfig \<Rightarrow> duration \<Rightarrow> duration" where
  "next_interval cfg interval =
     (let maxInterval = (if cc_MaxReconnectInterval cfg \<le> 0 then 60 * 1000000000 else cc_MaxReconnectInterval cfg)
      in if maxInterval < interval * 2 then maxInterval else interval * 2)"

definition reconnect_attempt :: "connect_outcome \<Rightarrow> bool \<Rightarrow> duration \<Rightarrow> 'h TCPClient
    \<Rightarrow> 'h TCPClient \<times> 'h mqtt_effect list \<times> duration option" where
  "reconnect_attempt outcome writeOK interval c =
     (case Connect outcome c of
        (c1, effs, None) \<Rightarrow> (let (c2, effs2) = resubscribeAll writeOK c1 in (c2, effs @ effs2, None))
      | (c1, effs, Some _) \<Rightarrow> (c1, effs, Some (next_interval (tcp_cfg c1) interval)))"

text \<open>\<^verbatim>\<open>Disconnect\<close> first swaps the flag \<^verbatim>\<open>closed\<close> (\<open>Disconnect_begin\<close>, \<open>False\<close> when it was set already), and
  only then takes the lock to drop the connection and close \<^verbatim>\<open>doneCh\<close> (\<open>Disconnect_end\<close>); closing a closed
  channel panics.\<close>

definition Disconnect_begin :: "'h TCPClient \<Rightarrow> 'h TCPClient \<times> bool" where
  "Disconnect_begin c = (if tcp_closed c then (c, False) else (c\<lparr>tcp_closed := True, tcp_connected := False\<rparr>, True))"

definition Disconnect_end :: "'h TCPClient \<Rightarrow> mqtt_error + ('h TCPClient \<times> 'h mqtt_effect list)" where
  "Disconnect_end c =
     (if \<not> tcp_doneOpen c then Inl MqttPanic
      else Inr (c\<lparr>tcp_conn := None, tcp_doneOpen := False\<rparr>, if tcp_conn c \<noteq> None then [Wrote PDisconnect] else []))"

definition Disconnect :: "'h TCPClient \<Rightarrow> mqtt_error + ('h TCPClient \<times> 'h mqtt_effect list)" where
  "Disconnect c = (case Disconnect_begin c of (c1, goOn) \<Rightarrow> if goOn then Disconnect_end c1 else Inr (c1, []))"

definition keepalive_tick :: "bool \<Rightarrow> 'h TCPClient \<Rightarrow> 'h TCPClient \<times> 'h mqtt_effect list" where
  "keepalive_tick writeOK c =
     (if tcp_pingers c = 0 then (c, [])
      else if \<not> tcp_doneOpen c \<or> \<not> tcp_connected c then (c\<lparr>tcp_pingers := tcp_pingers c - 1\<rparr>, [])
      else case writePacket writeOK PPingreq c of
             (effs, None) \<Rightarrow> (c, effs)
           | (effs, Some _) \<Rightarrow> (c\<lparr>tcp_pingers := tcp_pingers c - 1\<rparr>, effs))"

section \<open>Messages\<close>

fun match_parts :: "gostring list \<Rightarrow> gostring list \<Rightarrow> bool" where
  "match_parts [] ts = (ts = [])"
| "match_parts (p # ps) ts =
     (if p = ''#'' then True
      else case ts of [] \<Rightarrow> False | t # ts1 \<Rightarrow> if p \<noteq> ''+'' \<and> p \<noteq> t then False else match_parts ps ts1)"

definition matchTopic :: "gostring \<Rightarrow> gostring \<Rightarrow> bool" where
  "matchTopic pat topic \<longleftrightarrow> pat = topic \<or> pat = ''#'' \<or> match_parts (Split pat (CHR ''/'')) (Split topic (CHR ''/''))"

definition dispatch :: "gostring \<Rightarrow> gostring \<Rightarrow> 'h TCPClient \<Rightarrow> 'h mqtt_effect list" where
  "dispatch topic payload c =
     map (\<lambda>h. StartHandler h topic payload) (concat (map snd (filter (\<lambda>(pat, _). matchTopic pat topic) (tcp_subscribers c))))"

definition fill_ack :: "msgid \<Rightarrow> (msgid \<Rightarrow> bool option) \<Rightarrow> msgid \<Rightarrow> bool option" where
  "fill_ack i m = (if m i = None then m else m(i \<mapsto> True))"

definition on_packet :: "bool \<Rightarrow> packet \<Rightarrow> 'h TCPClient \<Rightarrow> 'h TCPClient \<times> 'h mqtt_effect list" where
  "on_packet writeOK p c = (case p of
     PPublish topic qos retain payload i \<Rightarrow>
       (c, (if qos = 1 then fst (writePacket writeOK (PPuback i) c)
            else if qos = 2 then fst (writePacket writeOK (PPubrec i) c) else []) @ dispatch topic payload c)
   | PPuback i \<Rightarrow> (c\<lparr>tcp_pubacks := fill_ack i (tcp_pubacks c)\<rparr>, [])
   | PPubrec i \<Rightarrow> (c, fst (writePacket writeOK (PPubrel i) c))
   | PPubrel i \<Rightarrow> (c, fst (writePacket writeOK (PPubcomp i) c))
   | PPubcomp i \<Rightarrow> (c\<lparr>tcp_pubacks := fill_ack i (tcp_pubacks c)\<rparr>, [])
   | PSuback i \<Rightarrow> (c\<lparr>tcp_subacks := fill_ack i (tcp_subacks c)\<rparr>, [])
   | _ \<Rightarrow> (c, []))"

text \<open>The result \<open>Inr (Some i)\<close> waits for the acknowledgement of \<open>i\<close>, \<open>Inr None\<close> is done.\<close>

definition Publish_begin :: "bool \<Rightarrow> gostring \<Rightarrow> byte \<Rightarrow> bool \<Rightarrow> gostring \<Rightarrow> 'h TCPClient
    \<Rightarrow> 'h TCPClient \<times> 'h mqtt_effect list \<times> (mqtt_error + msgid option)" where
  "Publish_begin writeOK topic qos retained payload c =
     (if \<not> tcp_connected c then (c, [], Inl ErrNotConnected)
      else if qos = 0 then
        (case writePacket writeOK (PPublish topic qos retained payload 0) c of
           (effs, None) \<Rightarrow> (c, effs, Inr None) | (effs, Some err) \<Rightarrow> (c, effs, Inl err))
      else
        (let (n, msgID) = nextMsgID (tcp_nextID c);
             c1 = c\<lparr>tcp_nextID := n, tcp_pubacks := (tcp_pubacks c)(msgID \<mapsto> False)\<rparr>
         in case writePacket writeOK (PPublish topic qos retained payload msgID) c1 of
              (effs, None) \<Rightarrow> (c1, effs, Inr (Some msgID))
            | (effs, Some err) \<Rightarrow> (c1\<lparr>tcp_pubacks := (tcp_pubacks c1)(msgID := None)\<rparr>, effs, Inl err)))"

definition Publish_end :: "bool \<Rightarrow> msgid \<Rightarrow> 'h TCPClient \<Rightarrow> 'h TCPClient \<times> mqtt_error option" where
  "Publish_end timedOut msgID c = (c\<lparr>tcp_pubacks := (tcp_pubacks c)(msgID := None)\<rparr>,
     if \<not> timedOut \<and> tcp_pubacks c msgID = Some True then None else Some ErrMqttTimeout)"

definition add_subscriber :: "gostring \<Rightarrow> 'h \<Rightarrow> (gostring, 'h list) gomap \<Rightarrow> (gostring, 'h list) gomap" where
  "add_subscriber topic h m = AList.update topic ((case map_of m topic of Some hs \<Rightarrow> hs | None \<Rightarrow> []) @ [h]) m"

definition Subscribe_begin :: "bool \<Rightarrow> gostring \<Rightarrow> byte \<Rightarrow> 'h \<Rightarrow> 'h TCPClient
    \<Rightarrow> 'h TCPClient \<times> 'h mqtt_effect list \<times> (mqtt_error + msgid option)" where
  "Subscribe_begin writeOK topic qos h c =
     (let c0 = c\<lparr>tcp_subscribers := add_subscriber topic h (tcp_subscribers c)\<rparr>
      in if \<not> tcp_connected c then (c0, [], Inr None)
         else
           (let (n, msgID) = nextMsgID (tcp_nextID c);
                c1 = c0\<lparr>tcp_nextID := n, tcp_subacks := (tcp_subacks c)(msgID \<mapsto> False)\<rparr>
            in case writePacket writeOK (PSubscribe msgID topic qos) c1 of
                 (effs, None) \<Rightarrow> (c1, effs, Inr (Some msgID))
               | (effs, Some err) \<Rightarrow> (c1\<lparr>tcp_subacks := (tcp_subacks c1)(msgID := None)\<rparr>, effs, Inl err)))"

definition Subscribe_end :: "bool \<Rightarrow> msgid \<Rightarrow> 'h TCPClient \<Rightarrow> 'h TCPClient \<times> mqtt_error option" where
  "Subscribe_end timedOut msgID c = (c\<lparr>tcp_subacks := (tcp_subacks c)(msgID := None)\<rparr>,
     if \<not> timedOut \<and> tcp_subacks c msgID = Some True then None else Some ErrMqttTimeout)"

section \<open>Executions\<close>

datatype 'h mqtt_event =
    EvConnect connect_outcome
  | EvReadError nat
  | EvPacket bool packet
  | EvReconnect connect_outcome bool duration
  | EvTick bool
  | EvDisconnect
  | EvPublish bool gostring byte bool gostring
  | EvPublishEnd bool msgid
  | EvSubscribe bool gostring byte 'h
  | EvSubscribeEnd bool msgid

type_synonym 'h mqtt_out = "'h mqtt_effect list \<times> mqtt_error option"

fun mqtt_step :: "'h mqtt_event \<Rightarrow> 'h TCPClient \<Rightarrow> 'h TCPClient \<times> 'h mqtt_out" where
  "mqtt_step (EvConnect outcome) c = Connect outcome c"
| "mqtt_step (EvReadError conn) c = (let (c1, effs) = read_error conn c in (c1, effs, None))"
| "mqtt_step (EvPacket w p) c = (let (c1, effs) = on_packet w p c in (c1, effs, None))"
| "mqtt_step (EvReconnect outcome w interval) c = (let (c1, effs, _) = reconnect_attempt outcome w interval c in (c1, effs, None))"
| "mqtt_step (EvTick w) c = (let (c1, effs) = keepalive_tick w c in (c1, effs, None))"
| "mqtt_step EvDisconnect c = (case Disconnect c of Inl err \<Rightarrow> (c, [], Some err) | Inr (c1, effs) \<Rightarrow> (c1, effs, None))"
| "mqtt_step (EvPublish w topic qos retained payload) c = (case Publish_begin w topic qos retained payload c of
     (c1, effs, Inl err) \<Rightarrow> (c1, effs, Some err) | (c1, effs, Inr _) \<Rightarrow> (c1, effs, None))"
| "mqtt_step (EvPublishEnd late i) c = (let (c1, err) = Publish_end late i c in (c1, [], err))"
| "mqtt_step (EvSubscribe w topic qos h) c = (case Subscribe_begin w topic qos h c of
     (c1, effs, Inl err) \<Rightarrow> (c1, effs, Some err) | (c1, effs, Inr _) \<Rightarrow> (c1, effs, None))"
| "mqtt_step (EvSubscribeEnd late i) c = (let (c1, err) = Subscribe_end late i c in (c1, [], err))"

definition mqtt_inv :: "'h TCPClient \<Rightarrow> bool" where
  "mqtt_inv c \<longleftrightarrow> (tcp_connected c \<longrightarrow> tcp_conn c \<noteq> None \<and> \<not> tcp_closed c) \<and> (\<not> tcp_closed c \<longrightarrow> tcp_doneOpen c)
     \<and> (\<forall>k. tcp_conn c = Some k \<longrightarrow> k < tcp_conns c) \<and> gomap_ok (tcp_subscribers c)
     \<and> list_all (\<lambda>(_, hs). hs \<noteq> []) (tcp_subscribers c)"

lemmas mqtt_defs = Connect_def writePacket_def handleDisconnect_def read_error_def resubscribeAll_def reconnect_attempt_def
  Disconnect_begin_def Disconnect_end_def Disconnect_def keepalive_tick_def on_packet_def Publish_begin_def Publish_end_def
  Subscribe_begin_def Subscribe_end_def

lemma resubscribe_state: "\<exists>n. fst (resubscribe w topics c) = c\<lparr>tcp_nextID := n\<rparr>"
proof (induction topics arbitrary: c)
  case Nil
  then show ?case by (auto intro: exI [of _ "tcp_nextID c"])
next
  case (Cons t ts)
  then show ?case by (auto simp: Let_def split: prod.splits) (metis (no_types, lifting) TCPClient.surjective TCPClient.update_convs(8) fst_conv)
qed

lemma mqtt_inv_nextID [simp]: "mqtt_inv (c\<lparr>tcp_nextID := n\<rparr>) = mqtt_inv c"
  by (simp add: mqtt_inv_def)

lemma mqtt_inv_Connect: "mqtt_inv c \<Longrightarrow> mqtt_inv (fst (Connect outcome c))"
  by (auto simp: mqtt_inv_def Connect_def Let_def)

lemma mqtt_inv_reconnect: "mqtt_inv c \<Longrightarrow> mqtt_inv (fst (reconnect_attempt outcome w interval c))"
  using mqtt_inv_Connect [of c outcome] resubscribe_state [of w "map fst (tcp_subscribers (fst (Connect outcome c)))" "fst (Connect outcome c)"]
  by (auto simp: reconnect_attempt_def resubscribeAll_def split: prod.splits option.splits)

lemma add_subscriber_inv:
  assumes "gomap_ok m" "list_all (\<lambda>(_, hs). hs \<noteq> []) m"
  shows "gomap_ok (add_subscriber topic h m)" "list_all (\<lambda>(_, hs). hs \<noteq> []) (add_subscriber topic h m)"
proof -
  have "list_all (\<lambda>(_, hs). hs \<noteq> []) (AList.update topic v m)" if "v \<noteq> []" for v
    using assms(2) that by (induction m) auto
  then show "list_all (\<lambda>(_, hs). hs \<noteq> []) (add_subscriber topic h m)" by (simp add: add_subscriber_def)
  show "gomap_ok (add_subscriber topic h m)" using assms(1) by (simp add: add_subscriber_def gomap_update)
qed

lemma mqtt_inv_step: "mqtt_inv c \<Longrightarrow> mqtt_inv (fst (mqtt_step e c)) \<and> snd (snd (mqtt_step e c)) \<noteq> Some MqttPanic"
proof (cases e)
  case (EvConnect outcome)
  moreover assume "mqtt_inv c"
  ultimately show ?thesis using mqtt_inv_Connect [of c outcome] by (simp add: Connect_def Let_def)
next
  case (EvReconnect outcome w interval)
  moreover assume "mqtt_inv c"
  ultimately show ?thesis using mqtt_inv_reconnect [of c outcome w interval] by (auto split: prod.splits)
next
  case (EvSubscribe w topic qos h)
  moreover assume "mqtt_inv c"
  ultimately show ?thesis using add_subscriber_inv [of "tcp_subscribers c" topic h]
    by (auto simp: mqtt_inv_def Subscribe_begin_def writePacket_def Let_def split: prod.splits)
next
  case (EvPacket w p)
  moreover assume "mqtt_inv c"
  ultimately show ?thesis by (cases p) (auto simp: mqtt_inv_def on_packet_def)
next
  case (EvPublish w topic qos retained payload)
  moreover assume "mqtt_inv c"
  ultimately show ?thesis by (auto simp: mqtt_inv_def Publish_begin_def writePacket_def Let_def split: prod.splits)
qed (auto simp: mqtt_inv_def mqtt_defs Let_def split: prod.splits option.splits)

interpretation mqtt: event_machine mqtt_step mqtt_inv
  by unfold_locales (use mqtt_inv_step in blast)


text \<open>The states of a new client are in the invariant, so is every state it reaches.\<close>

lemma NewTCPClient_inv: "NewTCPClient cfg = Inr c \<Longrightarrow> mqtt_inv c"
  by (auto simp: NewTCPClient_def mqtt_inv_def split: option.splits)


definition sample_cfg :: ClientConfig where
  "sample_cfg = \<lparr>cc_Broker = ''tcp://broker'', cc_Port = 0, cc_Username = ''u'', cc_Password = [], cc_ClientID = [], cc_QoS = 1,
     cc_CleanSession = True, cc_KeepAlive = 0, cc_ConnectTimeout = 0, cc_AutoReconnect = True, cc_MaxReconnectInterval = 0, cc_LWTTopic = ''gsm/status'',
     cc_LWTPayload = ''offline'', cc_LWTQoS = 0, cc_LWTRetained = True, cc_TLSEnabled = False, cc_InsecureTLS = False\<rparr>"

definition sample_client :: "nat TCPClient" where
  "sample_client = \<lparr>tcp_cfg = sample_cfg, tcp_conn = None, tcp_connected = False, tcp_closed = False, tcp_subscribers = [],
     tcp_pubacks = Map.empty, tcp_subacks = Map.empty, tcp_nextID = 0, tcp_doneOpen = True, tcp_pingers = 0, tcp_conns = 0\<rparr>"

lemma sample_client_new: "NewTCPClient sample_cfg = Inr sample_client"
proof -
  have "TrimSpace ''tcp://broker'' \<noteq> []" by (simp add: TrimSpace_eq_Nil) code_simp
  then show ?thesis by (simp add: NewTCPClient_def ValidateConfig_def sample_cfg_def sample_client_def)
qed


text \<open>Property C36. A disconnection does not stop a reconnect attempt that is already under way: when the broker
  accepts, the client is connected again and no longer closed, so that it keeps reconnecting. If the
  attempt succeeds while the disconnection waits for the lock, the client believes it is connected but has
  no connection, and the next disconnection closes \<^verbatim>\<open>doneCh\<close> twice, which panics.\<close>

theorem disconnect_undone:
  assumes "mqtt_inv c" "\<not> reconnect_done c"
  shows "(\<exists>c1 effs. Disconnect c = Inr (c1, effs) \<and> reconnect_done c1
      \<and> (let c2 = fst (reconnect_attempt Accepted w interval c1) in tcp_connected c2 \<and> \<not> tcp_closed c2))
    \<and> (\<exists>c3 effs. Disconnect_end (fst (Connect Accepted (fst (Disconnect_begin c)))) = Inr (c3, effs)
      \<and> tcp_connected c3 \<and> tcp_conn c3 = None \<and> Disconnect c3 = Inl MqttPanic)" (is "?undone \<and> ?race")
proof
  have c: "\<not> tcp_closed c" "\<not> tcp_connected c" "tcp_doneOpen c" using assms by (simp_all add: mqtt_inv_def reconnect_done_def)
  define c1 where "c1 = c\<lparr>tcp_closed := True, tcp_connected := False, tcp_conn := None, tcp_doneOpen := False\<rparr>"
  obtain n where n: "fst (resubscribe w (map fst (tcp_subscribers (fst (Connect Accepted c1)))) (fst (Connect Accepted c1)))
      = (fst (Connect Accepted c1))\<lparr>tcp_nextID := n\<rparr>" using resubscribe_state by blast
  have "tcp_connected (fst (Connect Accepted c1))" "\<not> tcp_closed (fst (Connect Accepted c1))"
    by (simp_all add: Connect_def Let_def)
  moreover have "fst (reconnect_attempt Accepted w interval c1)
      = fst (resubscribe w (map fst (tcp_subscribers (fst (Connect Accepted c1)))) (fst (Connect Accepted c1)))"
    by (simp add: reconnect_attempt_def Connect_def Let_def resubscribeAll_def split: prod.splits)
  ultimately have "tcp_connected (fst (reconnect_attempt Accepted w interval c1)) \<and> \<not> tcp_closed (fst (reconnect_attempt Accepted w interval c1))"
    using n by simp
  then show ?undone
    using c by (auto simp: Disconnect_def Disconnect_begin_def Disconnect_end_def reconnect_done_def c1_def Let_def)
next
  have "\<not> tcp_closed c" "\<not> tcp_connected c" "tcp_doneOpen c" using assms by (simp_all add: mqtt_inv_def reconnect_done_def)
  then show ?race by (simp add: Disconnect_def Disconnect_begin_def Disconnect_end_def Connect_def Let_def)
qed

theorem disconnect_undone_witness:
  "\<exists>c1 effs. Disconnect sample_client = Inr (c1, effs) \<and> reconnect_done c1
      \<and> (let c2 = fst (reconnect_attempt Accepted True 2000000000 c1) in tcp_connected c2 \<and> \<not> tcp_closed c2)"
  by (rule disconnect_undone [OF NewTCPClient_inv [OF sample_client_new], THEN conjunct1]) (simp add: sample_client_def reconnect_done_def)

section \<open>Identifiers do not repeat\<close>

fun msg_ids :: "nat \<Rightarrow> 32 word \<Rightarrow> msgid list" where
  "msg_ids 0 n = []"
| "msg_ids (Suc k) n = (let (n1, i) = nextMsgID n in i # msg_ids k n1)"

lemma msgid_less: "unat (v :: msgid) < 65536"
  using unsigned_less [where w = v and 'a = nat] by simp

lemma nextMsgID_cycle:
  assumes "nextMsgID n = (n1, i)"
  shows "ucast n1 = i" "unat i = unat (ucast n :: msgid) mod 65535 + 1"
proof -
  let ?v = "ucast n :: msgid"
  have m: "unat (- 1 :: msgid) = 65535" by (simp add: unsigned_minus_1_eq_mask mask_eq_exp_minus_1)
  have s: "unat (?v + 1) = unat ?v + 1" "unat ?v < 65535" if "?v \<noteq> - 1"
  proof -
    have "unat ?v \<noteq> 65535" using that m by (metis word_unat_eq_iff)
    then show l: "unat ?v < 65535" using msgid_less [of ?v] by linarith
    then show "unat (?v + 1) = unat ?v + 1" by (simp add: unat_word_ariths)
  qed
  have "(ucast (n + 2) :: msgid) = ?v + 1 + 1" using ucast_Suc [of "n + 1"] ucast_Suc [of n] by (simp add: add.assoc)
  then show "ucast n1 = i" using assms by (auto simp: nextMsgID_eq ucast_Suc split: if_splits)
  show "unat i = unat ?v mod 65535 + 1"
  proof (cases "?v = - 1")
    case True
    then show ?thesis using assms m by (simp add: nextMsgID_eq)
  next
    case False
    then show ?thesis using assms s [OF False] by (simp add: nextMsgID_eq)
  qed
qed

lemma msg_ids_nth:
  "j < k \<Longrightarrow> unat (msg_ids k n ! j) = (unat (ucast n :: msgid) + j) mod 65535 + 1"
proof (induction k arbitrary: n j)
  case (Suc k)
  obtain n1 i where ni: "nextMsgID n = (n1, i)" by fastforce
  note c = nextMsgID_cycle [OF ni]
  show ?case
  proof (cases j)
    case (Suc j')
    then have "unat (msg_ids k n1 ! j') = (unat (ucast n1 :: msgid) + j') mod 65535 + 1" using Suc.IH Suc.prems by simp
    also have "\<dots> = (unat (ucast n :: msgid) mod 65535 + 1 + j') mod 65535 + 1" using c by simp
    also have "\<dots> = (unat (ucast n :: msgid) + j) mod 65535 + 1"
      unfolding Suc using mod_add_left_eq [of "unat (ucast n :: msgid)" 65535 "Suc j'"] by simp
    finally show ?thesis using ni Suc by simp
  next
    case 0
    then show ?thesis using ni c(2) by simp
  qed
qed simp

lemma length_msg_ids [simp]: "length (msg_ids k n) = k"
  by (induction k arbitrary: n) (simp_all add: split_beta Let_def)

text \<open>Packet identifiers are never zero, whatever the counter (also when it wraps around), and
  65535 consecutive ones, as many as there are, are all different: a publication in flight shares its identifier
  with no other one until 65535 more have been made.\<close>

theorem msgids_distinct: "distinct (msg_ids 65535 n) \<and> 0 \<notin> set (msg_ids k n)"
proof
  let ?v = "unat (ucast n :: msgid)"
  have eq: "j = j'" if "j < 65535" "j' < 65535" "(?v + j) mod 65535 = (?v + j') mod 65535" for j j' :: nat
  proof -
    have le: "j = j'" if "j \<le> j'" "j < 65535" "j' < 65535" "(?v + j') mod 65535 = (?v + j) mod 65535" for j j' :: nat
      using that mod_eq_dvd_iff_nat [of "?v + j" "?v + j'" 65535] by (auto dest: dvd_imp_le)
    show ?thesis using that le [of j j'] le [of j' j] by (cases j j' rule: linorder_cases) simp_all
  qed
  show "distinct (msg_ids 65535 n)"
    unfolding distinct_conv_nth
    using eq msg_ids_nth [of _ 65535 n] by (metis add_right_cancel length_msg_ids)
  show "0 \<notin> set (msg_ids k n)"
    using msg_ids_nth [of _ k n] by (auto simp: in_set_conv_nth) (metis Zero_not_Suc add.commute plus_1_eq_Suc unsigned_0)
qed

section \<open>Topic filters and routing\<close>

text \<open>A filter's levels before the first \<^verbatim>\<open>#\<close> agree, one by one, with the levels of the topic, \<^verbatim>\<open>+\<close> with any of
  them; without \<^verbatim>\<open>#\<close> the topic has no more levels than the filter.\<close>

definition topic_matches :: "gostring list \<Rightarrow> gostring list \<Rightarrow> bool" where
  "topic_matches fs ts \<longleftrightarrow>
     (let pre = takeWhile (\<lambda>f. f \<noteq> ''#'') fs
      in length pre \<le> length ts \<and> (\<forall>i < length pre. pre ! i = ''+'' \<or> pre ! i = ts ! i) \<and> (''#'' \<notin> set fs \<longrightarrow> length fs = length ts))"

lemma match_parts_spec: "match_parts fs ts = topic_matches fs ts"
proof (induction fs ts rule: match_parts.induct)
  case (2 p ps ts)
  then show ?case
    by (cases ts) (auto simp: topic_matches_def Let_def All_less_Suc2)
qed (auto simp: topic_matches_def)

lemma topic_matches_refl: "topic_matches fs fs"
  by (auto simp: topic_matches_def Let_def length_takeWhile_le takeWhile_nth)

definition plain_topic :: "gostring \<Rightarrow> bool" where
  "plain_topic t \<longleftrightarrow> ''+'' \<notin> set (Split t (CHR ''/'')) \<and> ''#'' \<notin> set (Split t (CHR ''/''))"

lemma topic_matches_plain:
  assumes "''+'' \<notin> set fs" "''#'' \<notin> set fs"
  shows "topic_matches fs ts \<longleftrightarrow> fs = ts"
proof -
  have t: "takeWhile (\<lambda>f. f \<noteq> ''#'') fs = fs" using assms(2) by (auto simp: takeWhile_eq_all_conv)
  have p: "fs ! i \<noteq> ''+''" if "i < length fs" for i using assms(1) nth_mem [OF that] by metis
  have "topic_matches fs ts \<longleftrightarrow> length fs = length ts \<and> (\<forall>i < length fs. fs ! i = ts ! i)"
    unfolding topic_matches_def t Let_def using assms(2) p by auto
  then show ?thesis by (metis nth_equalityI)
qed

lemma matchTopic_levels: "matchTopic pat topic \<longleftrightarrow> topic_matches (Split pat (CHR ''/'')) (Split topic (CHR ''/''))"
proof -
  have "topic_matches (Split ''#'' (CHR ''/'')) ts" for ts by (simp add: topic_matches_def)
  then show ?thesis unfolding matchTopic_def match_parts_spec by (auto simp: topic_matches_refl)
qed

text \<open>Property C32. The matching of a topic with a subscription pattern, a loop over the levels with an early exit
  and two shortcuts, is the filter semantics of MQTT stated level by level.\<close>

theorem matchTopic_spec: "matchTopic pat topic \<longleftrightarrow> topic_matches (Split pat (CHR ''/'')) (Split topic (CHR ''/''))"
  by (rule matchTopic_levels)

lemma matchTopic_plain: "plain_topic pat \<Longrightarrow> matchTopic pat topic \<longleftrightarrow> pat = topic"
  by (simp add: matchTopic_levels plain_topic_def topic_matches_plain Split_inj)

lemma dispatch_plain:
  assumes "gomap_ok (tcp_subscribers c)" "list_all (\<lambda>(pat, _). plain_topic pat) (tcp_subscribers c)"
  shows "dispatch topic payload c
    = map (\<lambda>h. StartHandler h topic payload) (case map_of (tcp_subscribers c) topic of Some hs \<Rightarrow> hs | None \<Rightarrow> [])"
proof -
  have "concat (map snd (filter (\<lambda>(pat, _). matchTopic pat topic) m)) = (case map_of m topic of Some hs \<Rightarrow> hs | None \<Rightarrow> [])"
    if "distinct (map fst m)" "list_all (\<lambda>(pat, _). plain_topic pat) m" for m :: "(gostring \<times> 'a list) list"
    using that
  proof (induction m)
    case (Cons x m)
    have "map_of m (fst x) = None" using Cons.prems(1) by (simp add: map_of_eq_None_iff)
    then show ?case using Cons by (cases x) (auto simp: matchTopic_plain)
  qed simp
  then show ?thesis using assms by (simp add: dispatch_def gomap_ok_def)
qed

lemma map_of_add_subscriber:
  "map_of (add_subscriber topic h m) t
     = (if t = topic then Some ((case map_of m topic of Some hs \<Rightarrow> hs | None \<Rightarrow> []) @ [h]) else map_of m t)"
  by (simp add: add_subscriber_def update_conv)

lemma Subscribe_subscribers:
  "tcp_subscribers (fst (Subscribe_begin w topic qos h c)) = add_subscriber topic h (tcp_subscribers c)"
  by (simp add: Subscribe_begin_def Let_def split: prod.split option.split)

lemma fst_set_update: "fst ` set (AList.update k v m) = insert k (fst ` set m)"
  by (induction m) auto

lemma plain_add_subscriber:
  "list_all (\<lambda>(pat, _). plain_topic pat) (add_subscriber topic h m) \<longleftrightarrow> plain_topic topic \<and> list_all (\<lambda>(pat, _). plain_topic pat) m"
proof -
  have l: "list_all (\<lambda>(pat, _). plain_topic pat) m \<longleftrightarrow> Ball (fst ` set m) plain_topic" for m :: "(gostring \<times> 'a list) list"
    by (auto simp: list_all_iff)
  show ?thesis unfolding l add_subscriber_def fst_set_update by blast
qed

lemma Subscribe_dispatch:
  assumes "mqtt_inv c" "list_all (\<lambda>(pat, _). plain_topic pat) (tcp_subscribers c)" "plain_topic topic"
  shows "dispatch t payload (fst (Subscribe_begin w topic qos h c))
    = dispatch t payload c @ (if t = topic then [StartHandler h t payload] else [])"
proof -
  have "gomap_ok (tcp_subscribers c)" "gomap_ok (add_subscriber topic h (tcp_subscribers c))"
    using assms(1) add_subscriber_inv(1) [of "tcp_subscribers c"] by (auto simp: mqtt_inv_def)
  then show ?thesis using assms(2,3)
    by (simp add: dispatch_plain Subscribe_subscribers plain_add_subscriber map_of_add_subscriber split: option.split)
qed

lemma slash_split:
  assumes "CHR ''/'' \<notin> set a" "CHR ''/'' \<notin> set b"
  shows "a @ CHR ''/'' # x = b @ CHR ''/'' # y \<longleftrightarrow> a = b \<and> x = y"
proof
  assume "a @ CHR ''/'' # x = b @ CHR ''/'' # y"
  then have "Split (a @ CHR ''/'' # x) (CHR ''/'') = Split (b @ CHR ''/'' # y) (CHR ''/'')" by (rule arg_cong)
  then show "a = b \<and> x = y" unfolding Split_append [OF assms(1)] Split_append [OF assms(2)] by (simp add: Split_inj)
qed simp

lemma modem_topic_inj:
  assumes "CHR ''/'' \<notin> set a" "CHR ''/'' \<notin> set b"
  shows "modem_topic (NewTopics p a) s = modem_topic (NewTopics p b) s' \<longleftrightarrow> a = b \<and> s = s'"
  using assms by (simp add: modem_topic_def NewTopics_def slash_split)

text \<open>Property C31. Once a handler is subscribed to a topic of a modem, a message published on a topic of any modem
  starts the handlers it started before and that handler exactly when modem and topic are the ones of
  the subscription: a command for one modem never reaches the handlers of another. The same equation says that
  a handler subscribed again to its topic runs once more for every message.\<close>

theorem commands_reach_their_modem:
  assumes "mqtt_inv c" "list_all (\<lambda>(pat, _). plain_topic pat) (tcp_subscribers c)"
    "plain_topic (modem_topic (NewTopics p a) s)" "CHR ''/'' \<notin> set a" "CHR ''/'' \<notin> set b"
  shows "dispatch (modem_topic (NewTopics p b) s') payload (fst (Subscribe_begin w (modem_topic (NewTopics p a) s) qos h c))
    = dispatch (modem_topic (NewTopics p b) s') payload c
        @ (if b = a \<and> s' = s then [StartHandler h (modem_topic (NewTopics p b) s') payload] else [])"
  by (simp add: Subscribe_dispatch [OF assms(1-3)] modem_topic_inj [OF assms(5,4)])

theorem commands_reach_their_modem_witness:
  "dispatch ''gsm/modem/a/sms/send'' ''hi'' (fst (Subscribe_begin True ''gsm/modem/a/sms/send'' 1 7 sample_client))
     = [StartHandler 7 ''gsm/modem/a/sms/send'' ''hi'']"
  using commands_reach_their_modem [of sample_client "''gsm''" "''a''" "''sms/send''" "''a''" "''sms/send''" "''hi''" True 1 7]
    NewTCPClient_inv [OF sample_client_new]
  by (simp add: modem_topic_def NewTopics_def plain_topic_def sample_client_def dispatch_def)

end
