(* ===== verification/MQTT_Variants.thy ===== *)
theory MQTT_Variants
  imports MQTT_Client
begin

text \<open>
  The other clients behind the interface \<^verbatim>\<open>MQTTClient\<close>: the wrapper of the Paho library that the program uses unless it is built without
  TLS (\<^verbatim>\<open>internal/mqtt/client_paho.go\<close>) and the client in memory (\<^verbatim>\<open>MockClient\<close> in client.go). The library is an
  argument: whether it is connected, and what becomes of an operation that was handed to it (\<open>token\<close>). The interface is the
  locale \<open>mqtt_publisher\<close>, which all three clients provide.
\<close>

section \<open>The interface\<close>

text \<open>What the gateway relies on: a client that is not connected refuses to publish and does nothing, a connected one never answers that it
  is not connected.\<close>

locale mqtt_publisher =
  fixes ok :: "'s \<Rightarrow> bool" and connected :: "'s \<Rightarrow> bool"
    and publish :: "gostring \<Rightarrow> byte \<Rightarrow> bool \<Rightarrow> gostring \<Rightarrow> 's \<Rightarrow> 's \<times> 'eff list \<times> 'err option" and offline :: 'err
  assumes refuses: "\<not> connected s \<Longrightarrow> publish topic qos retained payload s = (s, [], Some offline)"
    and accepts: "ok s \<Longrightarrow> connected s \<Longrightarrow> snd (snd (publish topic qos retained payload s)) \<noteq> Some offline"
begin

lemma refused_iff: "ok s \<Longrightarrow> snd (snd (publish topic qos retained payload s)) = Some offline \<longleftrightarrow> \<not> connected s"
  using refuses accepts by (metis snd_conv)

lemma refused_silent:
  assumes "ok s" "publish topic qos retained payload s = (s', effs, Some offline)"
  shows "s' = s \<and> effs = []"
  using refuses [of s topic qos retained payload] refused_iff [of s topic qos retained payload] assms by simp

end

section \<open>The wrapper of Paho\<close>

record PahoOptions =
  po_Broker :: gostring
  po_ClientID :: gostring
  po_Username :: gostring
  po_Password :: gostring
  po_Will :: "will option"
  po_InsecureTLS :: "bool option"
  po_CleanSession :: bool
  po_AutoReconnect :: bool
  po_KeepAlive :: duration
  po_ConnectTimeout :: duration
  po_MaxReconnectInterval :: "duration option"

text \<open>\<open>None\<close> is what the library uses when an option is not set. \<open>ph_connected\<close> is the answer of the library.\<close>

record PahoClient =
  ph_opts :: PahoOptions
  ph_cfg :: ClientConfig
  ph_connected :: bool

datatype token = TimedOut | TokenError gostring | TokenOK

datatype paho_error = PahoError mqtt_error | PahoTokenError gostring

datatype paho_effect =
    PahoConnectCall duration
  | PahoDisconnectCall nat
  | PahoPublishCall gostring byte bool gostring duration
  | PahoSubscribeCall gostring byte duration

definition will_of :: "ClientConfig \<Rightarrow> will option" where
  "will_of cfg =
     (if cc_LWTTopic cfg = [] then None
      else let lwtQoS = (if cc_LWTQoS cfg = 0 \<and> cc_QoS cfg \<noteq> 0 then cc_QoS cfg else cc_LWTQoS cfg)
      in Some \<lparr>wl_Topic = cc_LWTTopic cfg, wl_Message = cc_LWTPayload cfg, wl_Qos = lwtQoS, wl_Retain = cc_LWTRetained cfg\<rparr>)"

definition NewPahoClient :: "ClientConfig \<Rightarrow> mqtt_error + PahoClient" where
  "NewPahoClient cfg = (case ValidateConfig cfg of
     Some err \<Rightarrow> Inl err
   | None \<Rightarrow> Inr \<lparr>ph_opts =
       \<lparr>po_Broker = cc_Broker cfg,
        po_ClientID = (if cc_ClientID cfg \<noteq> [] then cc_ClientID cfg else ''gsm2mqtt-gateway''),
        po_Username = (if cc_Username cfg \<noteq> [] then cc_Username cfg else []),
        po_Password = (if cc_Username cfg \<noteq> [] then cc_Password cfg else []),
        po_Will = will_of cfg,
        po_InsecureTLS = (if cc_TLSEnabled cfg then Some (cc_InsecureTLS cfg) else None),
        po_CleanSession = cc_CleanSession cfg, po_AutoReconnect = cc_AutoReconnect cfg,
        po_KeepAlive = (if 0 < cc_KeepAlive cfg then cc_KeepAlive cfg else 60 * 1000000000),
        po_ConnectTimeout = (if cc_ConnectTimeout cfg \<le> 0 then 10 * 1000000000 else cc_ConnectTimeout cfg),
        po_MaxReconnectInterval = (if 0 < cc_MaxReconnectInterval cfg then Some (cc_MaxReconnectInterval cfg) else None)\<rparr>,
       ph_cfg = cfg, ph_connected = False\<rparr>)"

definition token_result :: "token \<Rightarrow> paho_error option" where
  "token_result t = (case t of TimedOut \<Rightarrow> Some (PahoError ErrMqttTimeout) | TokenError e \<Rightarrow> Some (PahoTokenError e) | TokenOK \<Rightarrow> None)"

definition wait_time :: "PahoClient \<Rightarrow> duration" where
  "wait_time c = (if 0 < cc_ConnectTimeout (ph_cfg c) then cc_ConnectTimeout (ph_cfg c) else 10 * 1000000000)"

definition PahoConnect :: "token \<Rightarrow> PahoClient \<Rightarrow> paho_effect list \<times> paho_error option" where
  "PahoConnect t c = ([PahoConnectCall (10 * 1000000000)], token_result t)"

definition PahoDisconnect :: "nat \<Rightarrow> PahoClient \<Rightarrow> paho_effect list" where
  "PahoDisconnect quiesce c = [PahoDisconnectCall quiesce]"

definition PahoPublish :: "token \<Rightarrow> gostring \<Rightarrow> byte \<Rightarrow> bool \<Rightarrow> gostring \<Rightarrow> PahoClient \<Rightarrow> PahoClient \<times> paho_effect list \<times> paho_error option" where
  "PahoPublish t topic qos retained payload c =
     (if \<not> ph_connected c then (c, [], Some (PahoError ErrNotConnected))
      else (c, [PahoPublishCall topic qos retained payload (wait_time c)], token_result t))"

definition PahoSubscribe :: "token \<Rightarrow> gostring \<Rightarrow> byte \<Rightarrow> PahoClient \<Rightarrow> paho_effect list \<times> paho_error option" where
  "PahoSubscribe t topic qos c = ([PahoSubscribeCall topic qos (wait_time c)], token_result t)"

definition PahoIsConnected :: "PahoClient \<Rightarrow> bool" where
  "PahoIsConnected c = ph_connected c"

section \<open>The client in memory\<close>

record PublishedMessage =
  pm_Topic :: gostring
  pm_QoS :: byte
  pm_Retained :: bool
  pm_Payload :: gostring

record 'h MockClient =
  mk_connected :: bool
  mk_subscribers :: "(gostring, 'h list) gomap"
  mk_published :: "PublishedMessage list"
  mk_onConnect :: bool

datatype 'h mock_effect = MockOnConnect | MockHandler 'h gostring gostring

definition NewMockClient :: "'h MockClient" where
  "NewMockClient = \<lparr>mk_connected = False, mk_subscribers = [], mk_published = [], mk_onConnect = False\<rparr>"

definition MockSetOnConnect :: "bool \<Rightarrow> 'h MockClient \<Rightarrow> 'h MockClient" where
  "MockSetOnConnect fn m = m\<lparr>mk_onConnect := fn\<rparr>"

definition MockConnect :: "'h MockClient \<Rightarrow> 'h MockClient \<times> 'h mock_effect list" where
  "MockConnect m = (m\<lparr>mk_connected := True\<rparr>, if mk_onConnect m then [MockOnConnect] else [])"

definition MockDisconnect :: "'h MockClient \<Rightarrow> 'h MockClient" where
  "MockDisconnect m = m\<lparr>mk_connected := False\<rparr>"

definition MockPublish :: "gostring \<Rightarrow> byte \<Rightarrow> bool \<Rightarrow> gostring \<Rightarrow> 'h MockClient \<Rightarrow> 'h MockClient \<times> 'h mock_effect list \<times> mqtt_error option" where
  "MockPublish topic qos retained payload m =
     (if \<not> mk_connected m then (m, [], Some ErrNotConnected)
      else (m\<lparr>mk_published := mk_published m @ [\<lparr>pm_Topic = topic, pm_QoS = qos, pm_Retained = retained, pm_Payload = payload\<rparr>]\<rparr>,
            map (\<lambda>h. MockHandler h topic payload) (case map_of (mk_subscribers m) topic of Some hs \<Rightarrow> hs | None \<Rightarrow> []), None))"

definition MockSubscribe :: "gostring \<Rightarrow> byte \<Rightarrow> 'h \<Rightarrow> 'h MockClient \<Rightarrow> 'h MockClient" where
  "MockSubscribe topic qos h m = m\<lparr>mk_subscribers := add_subscriber topic h (mk_subscribers m)\<rparr>"

section \<open>Three clients, one interface\<close>

interpretation paho_publisher: mqtt_publisher "\<lambda>_. True" PahoIsConnected "PahoPublish t" "PahoError ErrNotConnected" for t
  by unfold_locales (auto simp: PahoPublish_def PahoIsConnected_def token_result_def split: token.splits)

interpretation mock_publisher: mqtt_publisher "\<lambda>_. True" mk_connected MockPublish ErrNotConnected
  by unfold_locales (auto simp: MockPublish_def)

text \<open>The built-in client, up to the wait for the acknowledgement.\<close>

definition publish_outcome :: "bool \<Rightarrow> gostring \<Rightarrow> byte \<Rightarrow> bool \<Rightarrow> gostring \<Rightarrow> 'h TCPClient \<Rightarrow> 'h TCPClient \<times> 'h mqtt_effect list \<times> mqtt_error option" where
  "publish_outcome writeOK topic qos retained payload c = (case Publish_begin writeOK topic qos retained payload c of
     (c1, effs, r) \<Rightarrow> (c1, effs, case r of Inl err \<Rightarrow> Some err | Inr _ \<Rightarrow> None))"

interpretation tcp_publisher: mqtt_publisher mqtt_inv tcp_connected "publish_outcome w" ErrNotConnected for w
  by unfold_locales
    (auto simp: publish_outcome_def Publish_begin_def writePacket_def mqtt_inv_def Let_def split: prod.splits if_splits option.splits)

section \<open>The same session\<close>

text \<open>The options as fields of the packet that opens a session.\<close>

definition session_packet :: "PahoOptions \<Rightarrow> connect_packet" where
  "session_packet opts =
     \<lparr>cp_ProtocolName = ''MQTT'', cp_ProtocolVersion = 4, cp_CleanSession = po_CleanSession opts, cp_ClientIdentifier = po_ClientID opts,
      cp_Keepalive = word_of_int (po_KeepAlive opts div 1000000000),
      cp_Username = (if po_Username opts = [] then None else Some (po_Username opts)),
      cp_Password = (if po_Password opts = [] then None else Some (po_Password opts)), cp_Will = po_Will opts\<rparr>"


text \<open>The scheme of a broker address does not reach the built-in client: it dials the same address for a broker that asks for TLS.\<close>

lemma scheme_dropped: "resolveBrokerAddress (cfg\<lparr>cc_Broker := ''ssl://host:8883''\<rparr>) = resolveBrokerAddress (cfg\<lparr>cc_Broker := ''tcp://host:8883''\<rparr>)"
  by (simp add: resolveBrokerAddress_def) code_simp

end
