(* ===== verification/Config.thy ===== *)
theory Config
  imports Complex_Main Event_Machine
begin

text \<open>
  Package \<^verbatim>\<open>internal/config\<close>: the configuration (config.go), the reading of \<^verbatim>\<open>.env\<close> files (dotenv.go), the
  overrides by the environment (overrides.go), defaults, loading and validation (loader.go).
  The operating system's environment is a function, the empty string standing for an unset variable as
  \<^verbatim>\<open>os.Getenv\<close> has it; the files are a map from paths to contents. The YAML decoder, a
  third-party package, and the number formats of \<^verbatim>\<open>time.ParseDuration\<close> and \<^verbatim>\<open>strconv.ParseFloat\<close>, whose
  results are floating-point numbers, are arguments; amounts are rationals. \<open>lo\<close> is the lower-case
  mapping of non-ASCII characters.
\<close>

section \<open>Data\<close>

record TLSConfig =
  tls_Enabled :: bool
  tls_CACert :: gostring
  tls_ClientCert :: gostring
  tls_ClientKey :: gostring
  tls_InsecureSkipVerify :: bool

record MQTTConfig =
  mq_Broker :: gostring
  mq_Port :: int
  mq_Username :: gostring
  mq_Password :: gostring
  mq_ClientID :: gostring
  mq_TopicPrefix :: gostring
  mq_QoS :: int
  mq_CleanSession :: bool
  mq_KeepAlive :: duration
  mq_ConnectTimeout :: duration
  mq_AutoReconnect :: bool
  mq_MaxReconnectInterval :: duration
  mq_Discovery :: bool
  mq_DiscoveryPrefix :: gostring
  mq_TLS :: TLSConfig

record ModemConfig =
  mc_ID :: gostring
  mc_Name :: gostring
  mc_Port :: gostring
  mc_BaudRate :: int
  mc_Type :: gostring
  mc_PIN :: gostring
  mc_DataBits :: int
  mc_StopBits :: int
  mc_Parity :: gostring
  mc_FlowControl :: gostring

record RateLimitConfig =
  rlc_Enabled :: bool
  rlc_MaxSMSPerMinute :: int
  rlc_MaxSMSPerHour :: int
  rlc_MaxSMSPerDay :: int
  rlc_MaxSMSPerNumberPerHour :: int
  rlc_CooldownMinutes :: int

record SecurityConfig =
  sec_IncomingFilter :: gostring
  sec_Whitelist :: "gostring list"
  sec_Blacklist :: "gostring list"
  sec_RateLimit :: RateLimitConfig
  sec_AllowRawAT :: bool
  sec_AllowedATCommands :: "gostring list"
  sec_BlockedATCommands :: "gostring list"
  sec_RecipientsFile :: gostring
  sec_FallbackCall :: bool

record DeliveryReportConfig =
  drc_Enabled :: bool
  drc_Timeout :: duration
  drc_PublishPending :: bool

record SMSConfig =
  smc_Encoding :: gostring
  smc_LongMessage :: gostring
  smc_MaxSegments :: int
  smc_AssemblyTimeout :: duration
  smc_ReportEncoding :: bool
  smc_DeliveryReport :: DeliveryReportConfig

record StatusConfig =
  stc_Interval :: duration
  stc_SignalInterval :: duration

record CfgTariff =
  ct_Enabled :: bool
  ct_OperatorPreset :: gostring
  ct_BalanceUSSD :: gostring
  ct_BalanceRegex :: gostring
  ct_AutoCheckOnError :: bool
  ct_CheckInterval :: duration
  ct_MinBalanceAlert :: rat
  ct_SMSLimit :: int
  ct_CallMinutesLimit :: rat
  ct_DataTrafficLimitMB :: int
  ct_ResetDayOfMonth :: int
  ct_StorageDir :: gostring

record APIConfig =
  api_Enabled :: bool
  api_Host :: gostring
  api_Port :: int
  api_Token :: gostring

record PoolConfig =
  poc_Enabled :: bool
  poc_Strategy :: gostring
  poc_DefaultModem :: gostring

record Config =
  cfg_LogLevel :: gostring
  cfg_Timezone :: gostring
  cfg_MQTT :: MQTTConfig
  cfg_Modems :: "ModemConfig list"
  cfg_Security :: SecurityConfig
  cfg_SMS :: SMSConfig
  cfg_Status :: StatusConfig
  cfg_Tariff :: CfgTariff
  cfg_API :: APIConfig
  cfg_Pool :: PoolConfig

datatype config_error = ErrRead | ErrYAML | ErrInvalid gostring

definition Defaults :: Config where
  "Defaults = \<lparr>cfg_LogLevel = ''info'', cfg_Timezone = ''auto'',
     cfg_MQTT = \<lparr>mq_Broker = ''localhost'', mq_Port = 1883, mq_Username = [], mq_Password = [], mq_ClientID = ''gsm2mqtt'',
       mq_TopicPrefix = ''gsm2mqtt'', mq_QoS = 1, mq_CleanSession = True, mq_KeepAlive = 60 * 1000000000,
       mq_ConnectTimeout = 10 * 1000000000, mq_AutoReconnect = True, mq_MaxReconnectInterval = 600 * 1000000000,
       mq_Discovery = True, mq_DiscoveryPrefix = ''homeassistant'',
       mq_TLS = \<lparr>tls_Enabled = False, tls_CACert = [], tls_ClientCert = [], tls_ClientKey = [], tls_InsecureSkipVerify = False\<rparr>\<rparr>,
     cfg_Modems = [],
     cfg_Security = \<lparr>sec_IncomingFilter = ''all'', sec_Whitelist = [], sec_Blacklist = [],
       sec_RateLimit = \<lparr>rlc_Enabled = True, rlc_MaxSMSPerMinute = 5, rlc_MaxSMSPerHour = 30, rlc_MaxSMSPerDay = 100,
         rlc_MaxSMSPerNumberPerHour = 3, rlc_CooldownMinutes = 10\<rparr>,
       sec_AllowRawAT = False,
       sec_AllowedATCommands = [''ATI'', ''AT+CSQ'', ''AT+CREG'', ''AT+CGREG'', ''AT+CEREG'', ''AT+COPS'', ''AT+CPIN?'', ''AT+CSCA'',
         ''AT+CMGF'', ''AT+CNMI'', ''AT+CMEE'', ''AT+CBC'', ''AT+CGMI'', ''AT+CGMM'', ''AT+CGMR'', ''AT+CGSN'', ''AT+CIMI'', ''AT+CCLK'',
         ''AT+CSMS'', ''AT+CPMS'', ''AT+CMGL'', ''AT+CMGR'', ''AT+CLCC'', ''AT+CLIP'', ''AT+COLP'', ''AT+CFUN?'', ''AT+CVOICE'',
         ''AT^CVOICE'', ''AT+CSCLK''],
       sec_BlockedATCommands = [], sec_RecipientsFile = ''data/recipients.json'', sec_FallbackCall = True\<rparr>,
     cfg_SMS = \<lparr>smc_Encoding = ''auto'', smc_LongMessage = ''split'', smc_MaxSegments = 4, smc_AssemblyTimeout = 30 * 1000000000,
       smc_ReportEncoding = True,
       smc_DeliveryReport = \<lparr>drc_Enabled = True, drc_Timeout = 300 * 1000000000, drc_PublishPending = True\<rparr>\<rparr>,
     cfg_Status = \<lparr>stc_Interval = 30 * 1000000000, stc_SignalInterval = 60 * 1000000000\<rparr>,
     cfg_Tariff = \<lparr>ct_Enabled = True, ct_OperatorPreset = ''generic'', ct_BalanceUSSD = ''*100#'', ct_BalanceRegex = [],
       ct_AutoCheckOnError = True, ct_CheckInterval = 86400 * 1000000000, ct_MinBalanceAlert = 50, ct_SMSLimit = 100,
       ct_CallMinutesLimit = 0, ct_DataTrafficLimitMB = 0, ct_ResetDayOfMonth = 1, ct_StorageDir = ''data''\<rparr>,
     cfg_API = \<lparr>api_Enabled = False, api_Host = ''127.0.0.1'', api_Port = 8080, api_Token = []\<rparr>,
     cfg_Pool = \<lparr>poc_Enabled = False, poc_Strategy = ''round-robin'', poc_DefaultModem = []\<rparr>\<rparr>"

section \<open>Files of variables\<close>

text \<open>\<^verbatim>\<open>bufio.Scanner\<close> with its default buffer: lines end with a newline, a carriage return before it is
  dropped, and the first line of 65536 bytes or more ends the scan.\<close>

definition drop_cr :: "gostring \<Rightarrow> gostring" where
  "drop_cr l = (if l \<noteq> [] \<and> last l = CHR 0x0D then butlast l else l)"

definition scan_lines :: "gostring \<Rightarrow> gostring list" where
  "scan_lines data =
     (let parts = Split data (CHR 0x0A);
          ls = (if last parts = [] then butlast parts else parts)
      in map drop_cr (takeWhile (\<lambda>l. length l < 65536) ls))"

definition unquote :: "gostring \<Rightarrow> gostring" where
  "unquote v =
     (if 2 \<le> length v \<and> (hd v = CHR 0x22 \<and> last v = CHR 0x22 \<or> hd v = CHR 0x27 \<and> last v = CHR 0x27) then butlast (tl v)
      else case IndexByte v (CHR ''#'') of Some i \<Rightarrow> TrimSpace (take i v) | None \<Rightarrow> v)"

definition parse_env_line :: "gostring \<Rightarrow> (gostring \<times> gostring) option" where
  "parse_env_line text =
     (let line = TrimSpace text;
          line1 = (if HasPrefix line ''export '' then TrimSpace (TrimPrefix line ''export'') else line)
      in if line = [] \<or> HasPrefix line ''#'' then None
         else case IndexByte line1 (CHR ''='') of
                Some (Suc i) \<Rightarrow> Some (TrimSpace (take (Suc i) line1), unquote (TrimSpace (drop (Suc (Suc i)) line1)))
              | _ \<Rightarrow> None)"

definition parseEnvFile :: "gostring \<Rightarrow> gostring \<rightharpoonup> gostring" where
  "parseEnvFile data = fold (\<lambda>text m. case parse_env_line text of Some (k, v) \<Rightarrow> m(k \<mapsto> v) | None \<Rightarrow> m) (scan_lines data) Map.empty"

text \<open>Paths: \<^verbatim>\<open>filepath.Clean\<close>, \<^verbatim>\<open>Join\<close>, \<^verbatim>\<open>Base\<close> and \<^verbatim>\<open>Dir\<close> with the separator of Unix.\<close>

fun clean_elems :: "bool \<Rightarrow> gostring list \<Rightarrow> gostring list \<Rightarrow> gostring list" where
  "clean_elems rooted acc [] = rev acc"
| "clean_elems rooted acc (e # es) =
     (if e = [] \<or> e = ''.'' then clean_elems rooted acc es
      else if e = ''..'' then
        (case acc of
           a # as \<Rightarrow> if a \<noteq> ''..'' then clean_elems rooted as es else clean_elems rooted (e # acc) es
         | [] \<Rightarrow> if rooted then clean_elems rooted [] es else clean_elems rooted [e] es)
      else clean_elems rooted (e # acc) es)"

definition Clean :: "gostring \<Rightarrow> gostring" where
  "Clean path =
     (let rooted = HasPrefix path ''/'';
          out = (if rooted then ''/'' else []) @ Join (clean_elems rooted [] (Split path (CHR ''/''))) ''/''
      in if out = [] then ''.'' else out)"

definition path_Join :: "gostring list \<Rightarrow> gostring" where
  "path_Join elems = (let es = filter (\<lambda>e. e \<noteq> []) elems in if es = [] then [] else Clean (Join es ''/''))"

definition path_Base :: "gostring \<Rightarrow> gostring" where
  "path_Base path =
     (let p = rev (dropWhile (\<lambda>c. c = CHR ''/'') (rev path))
      in if path = [] then ''.'' else if p = [] then ''/'' else last (Split p (CHR ''/'')))"

definition path_Dir :: "gostring \<Rightarrow> gostring" where
  "path_Dir path = Clean (case LastIndexByte path (CHR ''/'') of Some i \<Rightarrow> take (Suc i) path | None \<Rightarrow> [])"

definition dotenv_candidates :: "(gostring \<Rightarrow> gostring) \<Rightarrow> gostring list \<Rightarrow> gostring list" where
  "dotenv_candidates os dirs =
     filter (\<lambda>p. p \<noteq> []) (map os [''GSM2MQTT_ENV_FILE'', ''DOTENV_PATH'', ''ENV_FILE''])
     @ concat (map (\<lambda>d. if d \<noteq> [] \<and> d \<noteq> ''.'' then path_Join [d, ''.env''] #
           (if path_Base d = ''configs'' then [path_Join [d, ''..'', ''.env'']] else []) else []) dirs)
     @ [''.env'', ''configs/.env'']"

definition loadDotEnv :: "(gostring \<Rightarrow> gostring) \<Rightarrow> (gostring \<rightharpoonup> gostring) \<Rightarrow> gostring list \<Rightarrow> gostring \<rightharpoonup> gostring" where
  "loadDotEnv os files dirs =
     fold (\<lambda>c merged. case files c of Some data \<Rightarrow> parseEnvFile data ++ merged | None \<Rightarrow> merged)
       (dotenv_candidates os dirs) Map.empty"

fun first_nonempty :: "gostring list \<Rightarrow> gostring" where
  "first_nonempty [] = []"
| "first_nonempty (v # vs) = (if v \<noteq> [] then v else first_nonempty vs)"

definition getHierarchicalValue :: "(gostring \<Rightarrow> gostring) \<Rightarrow> (gostring \<rightharpoonup> gostring) \<Rightarrow> gostring list \<Rightarrow> gostring" where
  "getHierarchicalValue os dotEnv keys =
     first_nonempty (map os keys @ map (\<lambda>k. case dotEnv k of Some v \<Rightarrow> v | None \<Rightarrow> []) keys)"

section \<open>Overrides by the environment\<close>

text \<open>The converters keep the current value when the text is not a number, a duration or a truth value. A
  setting is the variants of its variable and the assignment; \<open>apply_setting\<close> is the conditional assignment
  the sources repeat, applied to the settings of each section in their order.\<close>

definition parseBool :: "(rune \<Rightarrow> rune) \<Rightarrow> gostring \<Rightarrow> bool \<Rightarrow> bool" where
  "parseBool lo s defaultVal =
     (let t = strings_ToLower lo (TrimSpace s)
      in if t \<in> {''true'', ''1'', ''yes'', ''on''} then True
         else if t \<in> {''false'', ''0'', ''no'', ''off''} then False else defaultVal)"

definition parseDuration :: "(gostring \<Rightarrow> duration option) \<Rightarrow> gostring \<Rightarrow> duration \<Rightarrow> duration" where
  "parseDuration pd s defaultVal =
     (case pd (TrimSpace s) of
        Some d \<Rightarrow> d
      | None \<Rightarrow> (case Atoi (TrimSpace s) of Some sec \<Rightarrow> wrap64 (sec * 1000000000) | None \<Rightarrow> defaultVal))"

definition parseFloat :: "(gostring \<Rightarrow> rat option) \<Rightarrow> gostring \<Rightarrow> rat \<Rightarrow> rat" where
  "parseFloat pf s defaultVal = (case pf (TrimSpace s) of Some f \<Rightarrow> f | None \<Rightarrow> defaultVal)"

definition parseInt64 :: "gostring \<Rightarrow> int \<Rightarrow> int" where
  "parseInt64 s defaultVal = (case Atoi (TrimSpace s) of Some i \<Rightarrow> i | None \<Rightarrow> defaultVal)"

definition atoi :: "gostring \<Rightarrow> int \<Rightarrow> int" where
  "atoi s defaultVal = (case Atoi (TrimSpace s) of Some v \<Rightarrow> v | None \<Rightarrow> defaultVal)"

type_synonym setting = "gostring list \<times> (gostring \<Rightarrow> Config \<Rightarrow> Config)"

definition apply_setting :: "(gostring list \<Rightarrow> gostring) \<Rightarrow> setting \<Rightarrow> Config \<Rightarrow> Config" where
  "apply_setting get s c = (let v = get (fst s) in if v \<noteq> [] then snd s v c else c)"

definition Service_settings :: "(rune \<Rightarrow> rune) \<Rightarrow> setting list" where
  "Service_settings lo =
     [([''GSM2MQTT_LOG_LEVEL'', ''LOG_LEVEL''], \<lambda>v. cfg_LogLevel_update (\<lambda>_. v)),
      ([''GSM2MQTT_TIMEZONE'', ''TIMEZONE''], \<lambda>v. cfg_Timezone_update (\<lambda>_. v)),
      ([''GSM2MQTT_API_ENABLED'', ''API_ENABLED''], \<lambda>v. cfg_API_update (api_Enabled_update (parseBool lo v))),
      ([''GSM2MQTT_API_HOST'', ''API_HOST''], \<lambda>v. cfg_API_update (api_Host_update (\<lambda>_. v))),
      ([''GSM2MQTT_API_PORT'', ''API_PORT''], \<lambda>v. cfg_API_update (api_Port_update (atoi v))),
      ([''GSM2MQTT_API_TOKEN'', ''API_TOKEN''], \<lambda>v. cfg_API_update (api_Token_update (\<lambda>_. v))),
      ([''GSM2MQTT_POOL_ENABLED'', ''POOL_ENABLED''], \<lambda>v. cfg_Pool_update (poc_Enabled_update (parseBool lo v))),
      ([''GSM2MQTT_POOL_STRATEGY'', ''POOL_STRATEGY''], \<lambda>v. cfg_Pool_update (poc_Strategy_update (\<lambda>_. v))),
      ([''GSM2MQTT_POOL_DEFAULT_MODEM'', ''POOL_DEFAULT_MODEM''], \<lambda>v. cfg_Pool_update (poc_DefaultModem_update (\<lambda>_. v)))]"

definition MQTT_settings :: "(rune \<Rightarrow> rune) \<Rightarrow> (gostring \<Rightarrow> duration option) \<Rightarrow> setting list" where
  "MQTT_settings lo pd =
     [([''GSM2MQTT_MQTT_BROKER'', ''MQTT_BROKER''], \<lambda>v. cfg_MQTT_update (mq_Broker_update (\<lambda>_. v))),
      ([''GSM2MQTT_MQTT_PORT'', ''MQTT_PORT''], \<lambda>v. cfg_MQTT_update (mq_Port_update (atoi v))),
      ([''GSM2MQTT_MQTT_USERNAME'', ''MQTT_USERNAME''], \<lambda>v. cfg_MQTT_update (mq_Username_update (\<lambda>_. v))),
      ([''GSM2MQTT_MQTT_PASSWORD'', ''MQTT_PASSWORD''], \<lambda>v. cfg_MQTT_update (mq_Password_update (\<lambda>_. v))),
      ([''GSM2MQTT_MQTT_CLIENT_ID'', ''MQTT_CLIENT_ID''], \<lambda>v. cfg_MQTT_update (mq_ClientID_update (\<lambda>_. v))),
      ([''GSM2MQTT_MQTT_TOPIC_PREFIX'', ''MQTT_TOPIC_PREFIX''], \<lambda>v. cfg_MQTT_update (mq_TopicPrefix_update (\<lambda>_. v))),
      ([''GSM2MQTT_MQTT_QOS'', ''MQTT_QOS''], \<lambda>v. cfg_MQTT_update (mq_QoS_update (atoi v))),
      ([''GSM2MQTT_MQTT_CLEAN_SESSION'', ''MQTT_CLEAN_SESSION''], \<lambda>v. cfg_MQTT_update (mq_CleanSession_update (parseBool lo v))),
      ([''GSM2MQTT_MQTT_KEEP_ALIVE'', ''MQTT_KEEP_ALIVE''], \<lambda>v. cfg_MQTT_update (mq_KeepAlive_update (parseDuration pd v))),
      ([''GSM2MQTT_MQTT_CONNECT_TIMEOUT'', ''MQTT_CONNECT_TIMEOUT''], \<lambda>v. cfg_MQTT_update (mq_ConnectTimeout_update (parseDuration pd v))),
      ([''GSM2MQTT_MQTT_AUTO_RECONNECT'', ''MQTT_AUTO_RECONNECT''], \<lambda>v. cfg_MQTT_update (mq_AutoReconnect_update (parseBool lo v))),
      ([''GSM2MQTT_MQTT_MAX_RECONNECT_INTERVAL'', ''MQTT_MAX_RECONNECT_INTERVAL''], \<lambda>v. cfg_MQTT_update (mq_MaxReconnectInterval_update (parseDuration pd v))),
      ([''GSM2MQTT_MQTT_DISCOVERY'', ''MQTT_DISCOVERY''], \<lambda>v. cfg_MQTT_update (mq_Discovery_update (parseBool lo v))),
      ([''GSM2MQTT_MQTT_DISCOVERY_PREFIX'', ''MQTT_DISCOVERY_PREFIX''], \<lambda>v. cfg_MQTT_update (mq_DiscoveryPrefix_update (\<lambda>_. v))),
      ([''GSM2MQTT_MQTT_TLS_ENABLED'', ''MQTT_TLS_ENABLED''], \<lambda>v. cfg_MQTT_update (mq_TLS_update (tls_Enabled_update (parseBool lo v)))),
      ([''GSM2MQTT_MQTT_TLS_CA_CERT'', ''MQTT_TLS_CA_CERT''], \<lambda>v. cfg_MQTT_update (mq_TLS_update (tls_CACert_update (\<lambda>_. v)))),
      ([''GSM2MQTT_MQTT_TLS_CLIENT_CERT'', ''MQTT_TLS_CLIENT_CERT''], \<lambda>v. cfg_MQTT_update (mq_TLS_update (tls_ClientCert_update (\<lambda>_. v)))),
      ([''GSM2MQTT_MQTT_TLS_CLIENT_KEY'', ''MQTT_TLS_CLIENT_KEY''], \<lambda>v. cfg_MQTT_update (mq_TLS_update (tls_ClientKey_update (\<lambda>_. v)))),
      ([''GSM2MQTT_MQTT_TLS_INSECURE_SKIP_VERIFY'', ''MQTT_TLS_INSECURE_SKIP_VERIFY''], \<lambda>v. cfg_MQTT_update (mq_TLS_update (tls_InsecureSkipVerify_update (parseBool lo v))))]"

definition Security_settings :: "(rune \<Rightarrow> rune) \<Rightarrow> setting list" where
  "Security_settings lo =
     [([''GSM2MQTT_SECURITY_INCOMING_FILTER'', ''SECURITY_INCOMING_FILTER''], \<lambda>v. cfg_Security_update (sec_IncomingFilter_update (\<lambda>_. v))),
      ([''GSM2MQTT_SECURITY_ALLOW_RAW_AT'', ''SECURITY_ALLOW_RAW_AT''], \<lambda>v. cfg_Security_update (sec_AllowRawAT_update (parseBool lo v))),
      ([''GSM2MQTT_SECURITY_RATE_LIMIT_ENABLED'', ''GSM2MQTT_RATE_LIMIT_ENABLED'', ''RATE_LIMIT_ENABLED''], \<lambda>v. cfg_Security_update (sec_RateLimit_update (rlc_Enabled_update (parseBool lo v)))),
      ([''GSM2MQTT_SECURITY_RATE_LIMIT_MAX_SMS_PER_MINUTE'', ''GSM2MQTT_MAX_SMS_PER_MINUTE'', ''MAX_SMS_PER_MINUTE''], \<lambda>v. cfg_Security_update (sec_RateLimit_update (rlc_MaxSMSPerMinute_update (atoi v)))),
      ([''GSM2MQTT_SECURITY_RATE_LIMIT_MAX_SMS_PER_HOUR'', ''GSM2MQTT_MAX_SMS_PER_HOUR'', ''MAX_SMS_PER_HOUR''], \<lambda>v. cfg_Security_update (sec_RateLimit_update (rlc_MaxSMSPerHour_update (atoi v)))),
      ([''GSM2MQTT_SECURITY_RATE_LIMIT_MAX_SMS_PER_DAY'', ''GSM2MQTT_MAX_SMS_PER_DAY'', ''MAX_SMS_PER_DAY''], \<lambda>v. cfg_Security_update (sec_RateLimit_update (rlc_MaxSMSPerDay_update (atoi v)))),
      ([''GSM2MQTT_SECURITY_RATE_LIMIT_MAX_SMS_PER_NUMBER_PER_HOUR'', ''GSM2MQTT_MAX_SMS_PER_NUMBER_PER_HOUR''], \<lambda>v. cfg_Security_update (sec_RateLimit_update (rlc_MaxSMSPerNumberPerHour_update (atoi v)))),
      ([''GSM2MQTT_SECURITY_RATE_LIMIT_COOLDOWN_MINUTES'', ''GSM2MQTT_RATE_LIMIT_COOLDOWN_MINUTES''], \<lambda>v. cfg_Security_update (sec_RateLimit_update (rlc_CooldownMinutes_update (atoi v))))]"

definition SMS_settings :: "(rune \<Rightarrow> rune) \<Rightarrow> (gostring \<Rightarrow> duration option) \<Rightarrow> setting list" where
  "SMS_settings lo pd =
     [([''GSM2MQTT_SMS_ENCODING'', ''SMS_ENCODING''], \<lambda>v. cfg_SMS_update (smc_Encoding_update (\<lambda>_. v))),
      ([''GSM2MQTT_SMS_LONG_MESSAGE'', ''SMS_LONG_MESSAGE''], \<lambda>v. cfg_SMS_update (smc_LongMessage_update (\<lambda>_. v))),
      ([''GSM2MQTT_SMS_MAX_SEGMENTS'', ''SMS_MAX_SEGMENTS''], \<lambda>v. cfg_SMS_update (smc_MaxSegments_update (atoi v))),
      ([''GSM2MQTT_SMS_REPORT_ENCODING'', ''SMS_REPORT_ENCODING''], \<lambda>v. cfg_SMS_update (smc_ReportEncoding_update (parseBool lo v))),
      ([''GSM2MQTT_SMS_DELIVERY_REPORT_ENABLED'', ''SMS_DELIVERY_REPORT_ENABLED''], \<lambda>v. cfg_SMS_update (smc_DeliveryReport_update (drc_Enabled_update (parseBool lo v)))),
      ([''GSM2MQTT_SMS_DELIVERY_REPORT_TIMEOUT'', ''SMS_DELIVERY_REPORT_TIMEOUT''], \<lambda>v. cfg_SMS_update (smc_DeliveryReport_update (drc_Timeout_update (parseDuration pd v)))),
      ([''GSM2MQTT_SMS_DELIVERY_REPORT_PUBLISH_PENDING'', ''SMS_DELIVERY_REPORT_PUBLISH_PENDING''], \<lambda>v. cfg_SMS_update (smc_DeliveryReport_update (drc_PublishPending_update (parseBool lo v))))]"

definition Status_settings :: "(gostring \<Rightarrow> duration option) \<Rightarrow> setting list" where
  "Status_settings pd =
     [([''GSM2MQTT_STATUS_INTERVAL'', ''STATUS_INTERVAL''], \<lambda>v. cfg_Status_update (stc_Interval_update (parseDuration pd v))),
      ([''GSM2MQTT_STATUS_SIGNAL_INTERVAL'', ''STATUS_SIGNAL_INTERVAL''], \<lambda>v. cfg_Status_update (stc_SignalInterval_update (parseDuration pd v)))]"

definition Tariff_settings :: "(rune \<Rightarrow> rune) \<Rightarrow> (gostring \<Rightarrow> duration option) \<Rightarrow> (gostring \<Rightarrow> rat option) \<Rightarrow> setting list" where
  "Tariff_settings lo pd pf =
     [([''GSM2MQTT_TARIFF_ENABLED'', ''TARIFF_ENABLED''], \<lambda>v. cfg_Tariff_update (ct_Enabled_update (parseBool lo v))),
      ([''GSM2MQTT_TARIFF_OPERATOR_PRESET'', ''TARIFF_OPERATOR_PRESET''], \<lambda>v. cfg_Tariff_update (ct_OperatorPreset_update (\<lambda>_. v))),
      ([''GSM2MQTT_TARIFF_BALANCE_USSD'', ''TARIFF_BALANCE_USSD''], \<lambda>v. cfg_Tariff_update (ct_BalanceUSSD_update (\<lambda>_. v))),
      ([''GSM2MQTT_TARIFF_BALANCE_REGEX'', ''TARIFF_BALANCE_REGEX''], \<lambda>v. cfg_Tariff_update (ct_BalanceRegex_update (\<lambda>_. v))),
      ([''GSM2MQTT_TARIFF_AUTO_CHECK_ON_ERROR'', ''TARIFF_AUTO_CHECK_ON_ERROR''], \<lambda>v. cfg_Tariff_update (ct_AutoCheckOnError_update (parseBool lo v))),
      ([''GSM2MQTT_TARIFF_CHECK_INTERVAL'', ''TARIFF_CHECK_INTERVAL''], \<lambda>v. cfg_Tariff_update (ct_CheckInterval_update (parseDuration pd v))),
      ([''GSM2MQTT_TARIFF_MIN_BALANCE_ALERT'', ''TARIFF_MIN_BALANCE_ALERT''], \<lambda>v. cfg_Tariff_update (ct_MinBalanceAlert_update (parseFloat pf v))),
      ([''GSM2MQTT_TARIFF_SMS_LIMIT'', ''TARIFF_SMS_LIMIT''], \<lambda>v. cfg_Tariff_update (ct_SMSLimit_update (atoi v))),
      ([''GSM2MQTT_TARIFF_CALL_MINUTES_LIMIT'', ''TARIFF_CALL_MINUTES_LIMIT''], \<lambda>v. cfg_Tariff_update (ct_CallMinutesLimit_update (parseFloat pf v))),
      ([''GSM2MQTT_TARIFF_DATA_TRAFFIC_LIMIT_MB'', ''TARIFF_DATA_TRAFFIC_LIMIT_MB''], \<lambda>v. cfg_Tariff_update (ct_DataTrafficLimitMB_update (parseInt64 v))),
      ([''GSM2MQTT_TARIFF_RESET_DAY_OF_MONTH'', ''TARIFF_RESET_DAY_OF_MONTH''], \<lambda>v. cfg_Tariff_update (ct_ResetDayOfMonth_update (atoi v))),
      ([''GSM2MQTT_TARIFF_STORAGE_DIR'', ''TARIFF_STORAGE_DIR''], \<lambda>v. cfg_Tariff_update (ct_StorageDir_update (\<lambda>_. v)))]"

definition ensureDefaultModem :: "Config \<Rightarrow> Config" where
  "ensureDefaultModem c = (if cfg_Modems c = []
     then c\<lparr>cfg_Modems := [\<lparr>mc_ID = ''modem1'', mc_Name = ''Default Modem'', mc_Port = [], mc_BaudRate = 9600, mc_Type = ''auto'',
       mc_PIN = [], mc_DataBits = 8, mc_StopBits = 1, mc_Parity = ''none'', mc_FlowControl = ''none''\<rparr>]\<rparr> else c)"

definition modem_settings :: "(gostring list \<times> (gostring \<Rightarrow> ModemConfig \<Rightarrow> ModemConfig)) list" where
  "modem_settings =
     [([''GSM2MQTT_MODEM_PORT'', ''MODEM_DEVICE'', ''MODEM_PORT''], \<lambda>v. mc_Port_update (\<lambda>_. v)),
      ([''GSM2MQTT_MODEM_ID'', ''MODEM_ID''], \<lambda>v. mc_ID_update (\<lambda>_. v)),
      ([''GSM2MQTT_MODEM_NAME'', ''MODEM_NAME''], \<lambda>v. mc_Name_update (\<lambda>_. v)),
      ([''GSM2MQTT_MODEM_TYPE'', ''MODEM_TYPE''], \<lambda>v. mc_Type_update (\<lambda>_. v)),
      ([''GSM2MQTT_MODEM_BAUD_RATE'', ''MODEM_BAUD_RATE''], \<lambda>v. mc_BaudRate_update (atoi v)),
      ([''GSM2MQTT_MODEM_PIN'', ''MODEM_PIN''], \<lambda>v. mc_PIN_update (\<lambda>_. v))]"

definition applyModemOverrides :: "(gostring list \<Rightarrow> gostring) \<Rightarrow> Config \<Rightarrow> Config" where
  "applyModemOverrides get c =
     (if list_all (\<lambda>(keys, _). get keys = []) modem_settings then c
      else (ensureDefaultModem c)\<lparr>cfg_Modems := (cfg_Modems (ensureDefaultModem c))
             [0 := fold (\<lambda>(keys, set) m. if get keys \<noteq> [] then set (get keys) m else m) modem_settings
                (hd (cfg_Modems (ensureDefaultModem c)))]\<rparr>)"

definition applyHierarchicalOverrides :: "(rune \<Rightarrow> rune) \<Rightarrow> (gostring \<Rightarrow> duration option) \<Rightarrow> (gostring \<Rightarrow> rat option)
    \<Rightarrow> (gostring list \<Rightarrow> gostring) \<Rightarrow> Config \<Rightarrow> Config" where
  "applyHierarchicalOverrides lo pd pf get c =
     fold (apply_setting get) (Security_settings lo @ SMS_settings lo pd @ Status_settings pd @ Tariff_settings lo pd pf)
       (applyModemOverrides get (fold (apply_setting get) (Service_settings lo @ MQTT_settings lo pd) c))"

section \<open>Loading\<close>

definition default_path :: gostring where
  "default_path = ''/etc/gsm2mqtt/gsm2mqtt.yaml''"

definition findDefaultConfig :: "(gostring \<Rightarrow> bool) \<Rightarrow> gostring" where
  "findDefaultConfig stat = (case filter stat [''configs/gsm2mqtt.yaml'', ''gsm2mqtt.yaml'', default_path] of c # _ \<Rightarrow> c | [] \<Rightarrow> [])"

text \<open>Reading a file gives its content, that it does not exist (\<open>Inr None\<close>), or another error.\<close>

function loadFromFile :: "(gostring \<Rightarrow> bool) \<Rightarrow> (gostring \<Rightarrow> unit + gostring option) \<Rightarrow> (gostring \<Rightarrow> Config \<Rightarrow> Config option)
    \<Rightarrow> gostring \<Rightarrow> Config \<Rightarrow> config_error + Config" where
  "loadFromFile stat readFile yaml path cfg = (case readFile path of
     Inl _ \<Rightarrow> Inl ErrRead
   | Inr None \<Rightarrow>
       (let alt = findDefaultConfig stat
        in if path = default_path \<and> alt \<noteq> [] \<and> alt \<noteq> path then loadFromFile stat readFile yaml alt cfg else Inr cfg)
   | Inr (Some data) \<Rightarrow> (case yaml data cfg of Some c \<Rightarrow> Inr c | None \<Rightarrow> Inl ErrYAML))"
  by pat_completeness auto
termination
  by (relation "measure (\<lambda>(_, _, _, path, _). if path = default_path then 1 else 0)") auto

declare loadFromFile.simps [simp del]

definition validate_modems :: "ModemConfig list \<Rightarrow> config_error option" where
  "validate_modems ms = (case filter (\<lambda>m. mc_ID m = [] \<or> mc_Port m = []) ms of
     [] \<Rightarrow> None | m # _ \<Rightarrow> Some (ErrInvalid (if mc_ID m = [] then ''modems.id'' else ''modems.port'')))"

definition validate :: "Config \<Rightarrow> config_error option" where
  "validate cfg =
     (let mq = cfg_MQTT cfg; sec = cfg_Security cfg; po = cfg_Pool cfg
      in if mq_Broker mq = [] then Some (ErrInvalid ''mqtt.broker'')
         else if mq_Port mq \<le> 0 \<or> 65535 < mq_Port mq then Some (ErrInvalid ''mqtt.port'')
         else if mq_TopicPrefix mq = [] then Some (ErrInvalid ''mqtt.topic_prefix'')
         else if mq_QoS mq < 0 \<or> 2 < mq_QoS mq then Some (ErrInvalid ''mqtt.qos'')
         else if mq_KeepAlive mq < 0 then Some (ErrInvalid ''mqtt.keep_alive'')
         else if mq_ConnectTimeout mq < 0 then Some (ErrInvalid ''mqtt.connect_timeout'')
         else if mq_MaxReconnectInterval mq < 0 then Some (ErrInvalid ''mqtt.max_reconnect_interval'')
         else if smc_Encoding (cfg_SMS cfg) \<notin> {''auto'', ''translit'', ''ucs2'', ''gsm7''} then Some (ErrInvalid ''sms.encoding'')
         else if smc_LongMessage (cfg_SMS cfg) \<notin> {''split'', ''truncate'', ''reject''} then Some (ErrInvalid ''sms.long_message'')
         else if sec_IncomingFilter sec \<notin> {''all'', ''whitelist'', ''blacklist''} then Some (ErrInvalid ''security.incoming_filter'')
         else if sec_BlockedATCommands sec \<noteq> [] then Some (ErrInvalid ''security.blocked_at_commands'')
         else case validate_modems (cfg_Modems cfg) of
                Some e \<Rightarrow> Some e
              | None \<Rightarrow>
                  if poc_Enabled po \<and> poc_Strategy po \<noteq> [] \<and> poc_Strategy po \<notin> {''round-robin'', ''failover'', ''best-signal'', ''operator-match''}
                  then Some (ErrInvalid ''pool.strategy'') else None)"

record world =
  w_env :: "gostring \<Rightarrow> gostring"
  w_stat :: "gostring \<Rightarrow> bool"
  w_read :: "gostring \<Rightarrow> unit + gostring option"
  w_yaml :: "gostring \<Rightarrow> Config \<Rightarrow> Config option"

definition Load :: "(rune \<Rightarrow> rune) \<Rightarrow> (gostring \<Rightarrow> duration option) \<Rightarrow> (gostring \<Rightarrow> rat option) \<Rightarrow> world \<Rightarrow> gostring
    \<Rightarrow> config_error + Config" where
  "Load lo pd pf w path =
     (let resolvedPath = (if path = [] then findDefaultConfig (w_stat w) else path);
          files = (\<lambda>p. case w_read w p of Inr (Some data) \<Rightarrow> Some data | _ \<Rightarrow> None)
      in bind_res (if resolvedPath \<noteq> [] then loadFromFile (w_stat w) (w_read w) (w_yaml w) resolvedPath Defaults else Inr Defaults)
           (\<lambda>cfg. let dotEnv = loadDotEnv (w_env w) files [path_Dir resolvedPath];
                     cfg1 = applyHierarchicalOverrides lo pd pf (getHierarchicalValue (w_env w) dotEnv) cfg
                 in case validate cfg1 of Some e \<Rightarrow> Inl e | None \<Rightarrow> Inr cfg1))"

section \<open>Reading back a file of variables\<close>

text \<open>A byte below 0x80 never belongs to a multi-byte sequence, so decoding starts anew at it.\<close>

lemma decode_rune_stop:
  assumes "bs \<noteq> []" "b < 0x80"
  shows "decode_rune (bs @ b # cs) = decode_rune bs"
proof -
  have b: "\<not> cont b" "\<not> 0x80 \<le> b" "\<not> 0x90 \<le> b" "\<not> 0xA0 \<le> b" using assms(2) by (auto simp: cont_def)
  consider a where "bs = [a]" | a1 a2 where "bs = [a1, a2]" | a1 a2 a3 where "bs = [a1, a2, a3]"
    | a1 a2 a3 a4 as where "bs = a1 # a2 # a3 # a4 # as"
    using assms(1) by (metis neq_Nil_conv)
  then show ?thesis
  proof cases
    case 1
    then show ?thesis using b by (cases cs; cases "tl cs") (simp_all add: decode_rune_def)
  next
    case 2
    then show ?thesis using b by (cases cs) (simp_all add: decode_rune_def)
  next
    case 3
    then show ?thesis using b by (simp add: decode_rune_def)
  next
    case 4
    then show ?thesis by (simp add: decode_rune_def)
  qed
qed

lemma segs_stop: "b < 0x80 \<Longrightarrow> segs (bs @ b # cs) = segs bs @ segs (b # cs)"
proof (induction bs rule: segs.induct)
  case (1 bs)
  show ?case
  proof (cases "bs = []")
    case False
    note d = decode_rune_stop [OF False "1.prems"] and w = decode_rune_width [OF False]
    show ?thesis using False w "1.IH" [OF False "1.prems"] by (simp add: segs_step d)
  qed simp
qed

lemma TrimSpace_ends_id:
  assumes "(of_char a :: nat) < 0x80" "(of_char z :: nat) < 0x80" "\<not> IsSpace (of_char a)" "\<not> IsSpace (of_char z)"
  shows "TrimSpace (a # s @ [z]) = a # s @ [z]"
proof -
  have "segs (bytes_of (a # s @ [z])) = (of_char a, [of_char a]) # segs (bytes_of s) @ [(of_char z, [of_char z])]"
    using assms(1,2) by (simp add: bytes_of_def segs_small segs_stop)
  moreover have "trim_by (\<lambda>(r, _). IsSpace r) ((of_char a, [of_char a]) # segs (bytes_of s) @ [(of_char z, [of_char z])])
      = (of_char a, [of_char a]) # segs (bytes_of s) @ [(of_char z, [of_char z])]"
    using assms(3,4) by (intro trim_by_id) simp
  ultimately show ?thesis by (simp add: TrimSpace_def segs_concat bytes_of_def string_of_bytes_def)
qed

definition env_line :: "gostring \<times> gostring \<Rightarrow> gostring" where
  "env_line kv = fst kv @ ''='' @ [CHR 0x22] @ snd kv @ [CHR 0x22]"

definition env_key_chars :: gostring where
  "env_key_chars = ''ABCDEFGHIJKLMNOPQRSTUVWXYZ_0123456789''"

definition env_entry :: "gostring \<times> gostring \<Rightarrow> bool" where
  "env_entry kv \<longleftrightarrow> fst kv \<noteq> [] \<and> set (fst kv) \<subseteq> set env_key_chars \<and> CHR 0x0A \<notin> set (snd kv)
     \<and> length (env_line kv) < 65536"

lemma env_key_char:
  assumes "c \<in> set env_key_chars"
  shows "(of_char c :: nat) < 0x80 \<and> \<not> IsSpace (of_char c) \<and> c \<noteq> CHR ''='' \<and> c \<noteq> CHR 0x0A \<and> c \<noteq> CHR ''#'' \<and> c \<noteq> CHR ''e'' \<and> c \<noteq> CHR 0x22"
  using assms unfolding env_key_chars_def by (auto simp: IsSpace_def)

lemma IndexByte_append: "c \<notin> set a \<Longrightarrow> IndexByte (a @ c # b) c = Some (length a)"
  by (induction a) auto

lemma parse_env_line_entry:
  assumes "env_entry kv"
  shows "parse_env_line (env_line kv) = Some kv"
proof -
  obtain k v where kv: "kv = (k, v)" by fastforce
  obtain a k' where k: "k = a # k'" using assms by (cases k) (auto simp: env_entry_def kv)
  have c: "\<And>c. c \<in> set k \<Longrightarrow> c \<in> set env_key_chars" using assms by (auto simp: env_entry_def kv)
  have a: "(of_char a :: nat) < 0x80" "\<not> IsSpace (of_char a)" "a \<noteq> CHR ''#''" "a \<noteq> CHR ''e''"
    using env_key_char [OF c, of a] k by auto
  have q: "(of_char (CHR 0x22) :: nat) < 0x80" "\<not> IsSpace (of_char (CHR 0x22))" by (simp_all add: IsSpace_def)
  define l where "l = env_line kv"
  have l: "l = a # (k' @ ''='' @ [CHR 0x22] @ v) @ [CHR 0x22]" by (simp add: l_def env_line_def kv k)
  have trim: "TrimSpace l = l" unfolding l by (rule TrimSpace_ends_id) (use a q in auto)
  have eq: "CHR ''='' \<notin> set k" using env_key_char [OF c] by blast
  have idx: "IndexByte l (CHR ''='') = Some (length k)"
    using IndexByte_append [OF eq, of "[CHR 0x22] @ v @ [CHR 0x22]"] by (simp add: l_def env_line_def kv)
  have not_export: "\<not> HasPrefix l ''export ''" "\<not> HasPrefix l ''#''" using a l by (auto simp: HasPrefix_def)
  have tv: "TrimSpace (CHR 0x22 # v @ [CHR 0x22]) = CHR 0x22 # v @ [CHR 0x22]"
    by (rule TrimSpace_ends_id) (use q in auto)
  have tk: "TrimSpace k = k"
  proof (rule TrimSpace_id)
    show "is_ascii k" using env_key_char [OF c] by (auto simp: is_ascii_def list_all_iff)
    show "k = [] \<or> \<not> IsSpace (of_char (hd k)) \<and> \<not> IsSpace (of_char (last k))"
      using env_key_char [OF c] k by (metis hd_in_set last_in_set)
  qed
  have "length k = Suc (length k')" "l \<noteq> []" by (simp_all add: k l)
  moreover have "take (length k) l = k" "drop (Suc (length k)) l = CHR 0x22 # v @ [CHR 0x22]"
    by (simp_all add: l_def env_line_def kv)
  moreover have "unquote (CHR 0x22 # v @ [CHR 0x22]) = v" by (simp add: unquote_def)
  ultimately show ?thesis
    unfolding parse_env_line_def l_def [symmetric] using trim idx not_export tv tk by (simp add: Let_def kv)
qed

lemma Split_lines:
  "list_all (\<lambda>l. CHR 0x0A \<notin> set l) ls \<Longrightarrow> Split (concat (map (\<lambda>l. l @ [CHR 0x0A]) ls)) (CHR 0x0A) = ls @ [[]]"
  by (induction ls) (simp_all add: Split_append)

lemma env_line_facts:
  assumes "env_entry kv"
  shows "CHR 0x0A \<notin> set (env_line kv)" "drop_cr (env_line kv) = env_line kv" "length (env_line kv) < 65536"
proof -
  have "CHR 0x0A \<notin> set (fst kv)" using assms env_key_char [of "CHR 0x0A"] by (auto simp: env_entry_def)
  then show "CHR 0x0A \<notin> set (env_line kv)" using assms by (auto simp: env_entry_def env_line_def)
  show "drop_cr (env_line kv) = env_line kv" by (simp add: drop_cr_def env_line_def)
  show "length (env_line kv) < 65536" using assms by (simp add: env_entry_def)
qed

text \<open>Property C29. Variables written to a file one per line, with their values in double quotes, are read back
  exactly, the last assignment of a variable deciding: the values may hold any bytes but a newline
  (spaces, quotes, \<^verbatim>\<open>#\<close> and characters outside ASCII included), the lines may be up to 65535 bytes long.\<close>

theorem dotenv_roundtrip:
  assumes "list_all env_entry kvs"
  shows "parseEnvFile (concat (map (\<lambda>kv. env_line kv @ [CHR 0x0A]) kvs)) = map_of (rev kvs)"
proof -
  have "Split (concat (map (\<lambda>l. l @ [CHR 0x0A]) (map env_line kvs))) (CHR 0x0A) = map env_line kvs @ [[]]"
    using assms by (intro Split_lines) (auto simp: list_all_iff env_line_facts)
  then have "scan_lines (concat (map (\<lambda>kv. env_line kv @ [CHR 0x0A]) kvs)) = map drop_cr (takeWhile (\<lambda>l. length l < 65536) (map env_line kvs))"
    by (simp add: scan_lines_def Let_def o_def)
  also have "takeWhile (\<lambda>l. length l < 65536) (map env_line kvs) = map env_line kvs"
    using assms by (auto simp: list_all_iff env_line_facts takeWhile_eq_all_conv)
  also have "map drop_cr (map env_line kvs) = map env_line kvs"
    using assms by (auto simp: list_all_iff env_line_facts)
  finally have lines: "scan_lines (concat (map (\<lambda>kv. env_line kv @ [CHR 0x0A]) kvs)) = map env_line kvs" .
  have "fold (\<lambda>text m. case parse_env_line text of Some (k, v) \<Rightarrow> m(k \<mapsto> v) | None \<Rightarrow> m) (map env_line kvs) m = m ++ map_of (rev kvs)" for m
    using assms
  proof (induction kvs arbitrary: m)
    case (Cons kv kvs)
    then show ?case by (cases kv) (simp add: parse_env_line_entry)
  qed simp
  then show ?thesis by (simp add: parseEnvFile_def lines)
qed

theorem dotenv_roundtrip_witness:
  "parseEnvFile (env_line (''MQTT_PASSWORD'', ''a # b'') @ [CHR 0x0A]) ''MQTT_PASSWORD'' = Some ''a # b''"
  using dotenv_roundtrip [of "[(''MQTT_PASSWORD'', ''a # b'')]"] by (simp add: env_entry_def env_line_def env_key_chars_def)

section \<open>What the environment can change\<close>

lemma apply_setting_keeps: "(\<And>v. sel (snd s v c) = sel c) \<Longrightarrow> sel (apply_setting get s c) = sel c"
  by (simp add: apply_setting_def Let_def)

lemma fold_settings_keep:
  assumes "list_all (\<lambda>s. \<forall>v c. sel (snd s v c) = sel c) ss"
  shows "sel (fold (apply_setting get) ss c) = sel c"
  using assms by (induction ss arbitrary: c) (simp_all add: apply_setting_keeps)

lemma fold_settings_one:
  assumes "i < length ss" "list_all (\<lambda>s. \<forall>v c. sel (snd s v c) = sel c) (take i ss @ drop (Suc i) ss)"
    "\<And>v c. sel (snd (ss ! i) v c) = f v (sel c)"
  shows "sel (fold (apply_setting get) ss c) = (if get (fst (ss ! i)) \<noteq> [] then f (get (fst (ss ! i))) (sel c) else sel c)"
proof -
  have t: "list_all (\<lambda>s. \<forall>v c. sel (snd s v c) = sel c) (take i ss)" and d: "list_all (\<lambda>s. \<forall>v c. sel (snd s v c) = sel c) (drop (Suc i) ss)"
    using assms(2) by simp_all
  have "fold (apply_setting get) ss c
      = fold (apply_setting get) (drop (Suc i) ss) (apply_setting get (ss ! i) (fold (apply_setting get) (take i ss) c))"
    using id_take_nth_drop [OF assms(1)] by (metis (no_types, lifting) comp_apply fold_append fold_simps(2))
  then show ?thesis
    by (simp add: fold_settings_keep [where sel = sel, OF t] fold_settings_keep [where sel = sel, OF d] apply_setting_def Let_def assms(3))
qed

lemmas settings_defs = Service_settings_def MQTT_settings_def Security_settings_def SMS_settings_def Status_settings_def Tariff_settings_def

lemma applyModemOverrides_keeps: "cfg_Security (applyModemOverrides get c) = cfg_Security c" "cfg_MQTT (applyModemOverrides get c) = cfg_MQTT c"
  by (simp_all add: applyModemOverrides_def ensureDefaultModem_def)

text \<open>The value in force: the first variable that is set, those of the operating system before those of the
  files, in the order of the variants; the value of the configuration file otherwise.\<close>

definition in_force :: "(gostring \<Rightarrow> gostring) \<Rightarrow> (gostring \<rightharpoonup> gostring) \<Rightarrow> gostring list \<Rightarrow> (gostring \<Rightarrow> 'a \<Rightarrow> 'a) \<Rightarrow> 'a \<Rightarrow> 'a" where
  "in_force os dotEnv keys f old =
     (case filter (\<lambda>v. v \<noteq> []) (map os keys @ map (\<lambda>k. case dotEnv k of Some v \<Rightarrow> v | None \<Rightarrow> []) keys) of
        v # _ \<Rightarrow> f v old | [] \<Rightarrow> old)"

lemma in_force_get:
  "in_force os dotEnv keys f old =
     (if getHierarchicalValue os dotEnv keys \<noteq> [] then f (getHierarchicalValue os dotEnv keys) old else old)"
proof -
  have "(case filter (\<lambda>v. v \<noteq> []) vs of v # _ \<Rightarrow> f v old | [] \<Rightarrow> old) = (if first_nonempty vs \<noteq> [] then f (first_nonempty vs) old else old)" for vs
    by (induction vs) auto
  then show ?thesis unfolding in_force_def getHierarchicalValue_def by blast
qed

text \<open>The environment never touches the lists that protect the gateway (whitelist, blacklist, the
  commands allowed and blocked, the file of recipients) nor the fallback call; the filter mode, the permission of raw
  commands and the limits on messages follow the variables of their own only: a variable of the operating system
  precedes one of a file, a file precedes the configuration, and a value that is not a number or a truth value leaves the
  configured one in force.\<close>

theorem overrides_security:
  "let s = cfg_Security c; r = cfg_Security (applyHierarchicalOverrides lo pd pf (getHierarchicalValue os dotEnv) c)
   in sec_Whitelist r = sec_Whitelist s \<and> sec_Blacklist r = sec_Blacklist s \<and> sec_AllowedATCommands r = sec_AllowedATCommands s
    \<and> sec_BlockedATCommands r = sec_BlockedATCommands s \<and> sec_RecipientsFile r = sec_RecipientsFile s \<and> sec_FallbackCall r = sec_FallbackCall s
    \<and> sec_IncomingFilter r = in_force os dotEnv [''GSM2MQTT_SECURITY_INCOMING_FILTER'', ''SECURITY_INCOMING_FILTER''] (\<lambda>v _. v) (sec_IncomingFilter s)
    \<and> sec_AllowRawAT r = in_force os dotEnv [''GSM2MQTT_SECURITY_ALLOW_RAW_AT'', ''SECURITY_ALLOW_RAW_AT''] (parseBool lo) (sec_AllowRawAT s)
    \<and> rlc_Enabled (sec_RateLimit r) = in_force os dotEnv [''GSM2MQTT_SECURITY_RATE_LIMIT_ENABLED'', ''GSM2MQTT_RATE_LIMIT_ENABLED'', ''RATE_LIMIT_ENABLED'']
        (parseBool lo) (rlc_Enabled (sec_RateLimit s))
    \<and> rlc_MaxSMSPerMinute (sec_RateLimit r) = in_force os dotEnv [''GSM2MQTT_SECURITY_RATE_LIMIT_MAX_SMS_PER_MINUTE'', ''GSM2MQTT_MAX_SMS_PER_MINUTE'', ''MAX_SMS_PER_MINUTE'']
        atoi (rlc_MaxSMSPerMinute (sec_RateLimit s))
    \<and> rlc_MaxSMSPerHour (sec_RateLimit r) = in_force os dotEnv [''GSM2MQTT_SECURITY_RATE_LIMIT_MAX_SMS_PER_HOUR'', ''GSM2MQTT_MAX_SMS_PER_HOUR'', ''MAX_SMS_PER_HOUR'']
        atoi (rlc_MaxSMSPerHour (sec_RateLimit s))
    \<and> rlc_MaxSMSPerDay (sec_RateLimit r) = in_force os dotEnv [''GSM2MQTT_SECURITY_RATE_LIMIT_MAX_SMS_PER_DAY'', ''GSM2MQTT_MAX_SMS_PER_DAY'', ''MAX_SMS_PER_DAY'']
        atoi (rlc_MaxSMSPerDay (sec_RateLimit s))"
proof -
  let ?get = "getHierarchicalValue os dotEnv"
  define c1 where "c1 = applyModemOverrides ?get (fold (apply_setting ?get) (Service_settings lo @ MQTT_settings lo pd) c)"
  define c2 where "c2 = fold (apply_setting ?get) (Security_settings lo) c1"
  have "cfg_Security (applyHierarchicalOverrides lo pd pf ?get c)
      = cfg_Security (fold (apply_setting ?get) (SMS_settings lo pd @ Status_settings pd @ Tariff_settings lo pd pf) c2)"
    by (simp add: applyHierarchicalOverrides_def c1_def c2_def)
  also have "\<dots> = cfg_Security c2" by (rule fold_settings_keep) (simp add: settings_defs)
  finally have r: "cfg_Security (applyHierarchicalOverrides lo pd pf ?get c) = cfg_Security c2" .
  have c1: "cfg_Security c = cfg_Security c1"
    unfolding c1_def applyModemOverrides_keeps by (rule sym, rule fold_settings_keep) (simp add: settings_defs)
  note one = fold_settings_one [where ss = "Security_settings lo" and get = ?get and c = c1, folded c2_def]
  note keep = fold_settings_keep [where ss = "Security_settings lo" and get = ?get and c = c1, folded c2_def]
  have kept: "sec_Whitelist (cfg_Security c2) = sec_Whitelist (cfg_Security c1)" "sec_Blacklist (cfg_Security c2) = sec_Blacklist (cfg_Security c1)" "sec_AllowedATCommands (cfg_Security c2) = sec_AllowedATCommands (cfg_Security c1)" "sec_BlockedATCommands (cfg_Security c2) = sec_BlockedATCommands (cfg_Security c1)" "sec_RecipientsFile (cfg_Security c2) = sec_RecipientsFile (cfg_Security c1)" "sec_FallbackCall (cfg_Security c2) = sec_FallbackCall (cfg_Security c1)"
    by (rule keep, simp add: settings_defs)+
  have set0: "sec_IncomingFilter (cfg_Security c2) = in_force os dotEnv [''GSM2MQTT_SECURITY_INCOMING_FILTER'', ''SECURITY_INCOMING_FILTER''] (\<lambda>v _. v) (sec_IncomingFilter (cfg_Security c1))"
    unfolding in_force_get using one [of 0 "\<lambda>c. sec_IncomingFilter (cfg_Security c)" "\<lambda>v _. v"] by (simp add: Security_settings_def)
  have set1: "sec_AllowRawAT (cfg_Security c2) = in_force os dotEnv [''GSM2MQTT_SECURITY_ALLOW_RAW_AT'', ''SECURITY_ALLOW_RAW_AT''] (parseBool lo) (sec_AllowRawAT (cfg_Security c1))"
    unfolding in_force_get using one [of 1 "\<lambda>c. sec_AllowRawAT (cfg_Security c)" "parseBool lo"] by (simp add: Security_settings_def)
  have set2: "rlc_Enabled (sec_RateLimit (cfg_Security c2)) = in_force os dotEnv [''GSM2MQTT_SECURITY_RATE_LIMIT_ENABLED'', ''GSM2MQTT_RATE_LIMIT_ENABLED'', ''RATE_LIMIT_ENABLED''] (parseBool lo) (rlc_Enabled (sec_RateLimit (cfg_Security c1)))"
    unfolding in_force_get using one [of 2 "\<lambda>c. rlc_Enabled (sec_RateLimit (cfg_Security c))" "parseBool lo"] by (simp add: Security_settings_def)
  have set3: "rlc_MaxSMSPerMinute (sec_RateLimit (cfg_Security c2)) = in_force os dotEnv [''GSM2MQTT_SECURITY_RATE_LIMIT_MAX_SMS_PER_MINUTE'', ''GSM2MQTT_MAX_SMS_PER_MINUTE'', ''MAX_SMS_PER_MINUTE''] (atoi) (rlc_MaxSMSPerMinute (sec_RateLimit (cfg_Security c1)))"
    unfolding in_force_get using one [of 3 "\<lambda>c. rlc_MaxSMSPerMinute (sec_RateLimit (cfg_Security c))" "atoi"] by (simp add: Security_settings_def)
  have set4: "rlc_MaxSMSPerHour (sec_RateLimit (cfg_Security c2)) = in_force os dotEnv [''GSM2MQTT_SECURITY_RATE_LIMIT_MAX_SMS_PER_HOUR'', ''GSM2MQTT_MAX_SMS_PER_HOUR'', ''MAX_SMS_PER_HOUR''] (atoi) (rlc_MaxSMSPerHour (sec_RateLimit (cfg_Security c1)))"
    unfolding in_force_get using one [of 4 "\<lambda>c. rlc_MaxSMSPerHour (sec_RateLimit (cfg_Security c))" "atoi"] by (simp add: Security_settings_def)
  have set5: "rlc_MaxSMSPerDay (sec_RateLimit (cfg_Security c2)) = in_force os dotEnv [''GSM2MQTT_SECURITY_RATE_LIMIT_MAX_SMS_PER_DAY'', ''GSM2MQTT_MAX_SMS_PER_DAY'', ''MAX_SMS_PER_DAY''] (atoi) (rlc_MaxSMSPerDay (sec_RateLimit (cfg_Security c1)))"
    unfolding in_force_get using one [of 5 "\<lambda>c. rlc_MaxSMSPerDay (sec_RateLimit (cfg_Security c))" "atoi"] by (simp add: Security_settings_def)
  show ?thesis unfolding r Let_def c1 kept by (intro conjI refl set0 set1 set2 set3 set4 set5)
qed

section \<open>Loaded configurations\<close>

lemma Defaults_valid: "validate Defaults = None"
  by (simp add: Defaults_def validate_def validate_modems_def Let_def)

definition config_ok :: "Config \<Rightarrow> bool" where
  "config_ok cfg \<longleftrightarrow> mq_Broker (cfg_MQTT cfg) \<noteq> [] \<and> mq_TopicPrefix (cfg_MQTT cfg) \<noteq> [] \<and> mq_Port (cfg_MQTT cfg) \<in> {1..65535}
     \<and> mq_QoS (cfg_MQTT cfg) \<in> {0..2} \<and> 0 \<le> mq_KeepAlive (cfg_MQTT cfg) \<and> 0 \<le> mq_ConnectTimeout (cfg_MQTT cfg)
     \<and> 0 \<le> mq_MaxReconnectInterval (cfg_MQTT cfg)
     \<and> smc_Encoding (cfg_SMS cfg) \<in> {''auto'', ''translit'', ''ucs2'', ''gsm7''} \<and> smc_LongMessage (cfg_SMS cfg) \<in> {''split'', ''truncate'', ''reject''}
     \<and> sec_IncomingFilter (cfg_Security cfg) \<in> {''all'', ''whitelist'', ''blacklist''} \<and> sec_BlockedATCommands (cfg_Security cfg) = []
     \<and> list_all (\<lambda>m. mc_ID m \<noteq> [] \<and> mc_Port m \<noteq> []) (cfg_Modems cfg)
     \<and> (poc_Enabled (cfg_Pool cfg) \<longrightarrow> poc_Strategy (cfg_Pool cfg) \<in> {[], ''round-robin'', ''failover'', ''best-signal'', ''operator-match''})"

lemma validate_iff: "validate cfg = None \<longleftrightarrow> config_ok cfg"
proof -
  have m: "validate_modems ms = None \<longleftrightarrow> list_all (\<lambda>m. mc_ID m \<noteq> [] \<and> mc_Port m \<noteq> []) ms" for ms
    by (induction ms) (auto simp: validate_modems_def split: list.splits)
  have opt: "(case o1 of Some e \<Rightarrow> Some e | None \<Rightarrow> if b then Some e2 else None) = None \<longleftrightarrow> o1 = None \<and> \<not> b"
    for o1 :: "config_error option" and b e2 by (cases o1) simp_all
  have ite: "(if b then Some e else r) = None \<longleftrightarrow> \<not> b \<and> r = None" for b and e :: config_error and r by simp
  show ?thesis unfolding validate_def Let_def config_ok_def ite opt m by (simp add: not_le not_less conj_assoc) linarith
qed

lemma apply_setting_unset: "get (fst s) = [] \<Longrightarrow> apply_setting get s c = c"
  by (simp add: apply_setting_def)

lemma overrides_unset:
  assumes "\<And>keys. get keys = []"
  shows "applyHierarchicalOverrides lo pd pf get c = c"
proof -
  have "fold (apply_setting get) ss c = c" for ss c by (induction ss arbitrary: c) (simp_all add: apply_setting_unset assms)
  moreover have "applyModemOverrides get c = c" for c by (simp add: applyModemOverrides_def assms list_all_iff split_beta)
  ultimately show ?thesis by (simp only: applyHierarchicalOverrides_def)
qed

lemma Load_no_files:
  assumes "w_env w = (\<lambda>_. [])" "w_stat w = (\<lambda>_. False)" "w_read w = (\<lambda>_. Inr None)"
  shows "Load lo pd pf w path = Inr Defaults"
proof -
  have find: "findDefaultConfig (w_stat w) = []" by (simp add: findDefaultConfig_def assms(2))
  have load: "loadFromFile (w_stat w) (w_read w) yaml p c = Inr c" for yaml p c
    by (subst loadFromFile.simps) (simp add: assms(3) find)
  have "fold (\<lambda>c m. m) cs m = m" for cs :: "gostring list" and m :: "gostring \<rightharpoonup> gostring"
    by (induction cs) simp_all
  then have "loadDotEnv (w_env w) (\<lambda>p. case w_read w p of Inr (Some data) \<Rightarrow> Some data | _ \<Rightarrow> None) dirs = Map.empty" for dirs
    by (simp add: loadDotEnv_def assms(3))
  moreover have "getHierarchicalValue (w_env w) Map.empty keys = []" for keys
  proof -
    have "first_nonempty (map (\<lambda>_. []) ks @ vs) = first_nonempty vs" for ks :: "gostring list" and vs by (induction ks) simp_all
    from this [of keys] this [of keys "[]"] show ?thesis by (simp add: getHierarchicalValue_def assms(1))
  qed
  ultimately show ?thesis by (simp add: Load_def find load overrides_unset Defaults_valid Let_def)
qed


end
