(* ===== verification/Operator.thy ===== *)
theory Operator
  imports Complex_Main Go_Prelude
begin

text \<open>
  Package \<^verbatim>\<open>internal/operator\<close>: presets of mobile operators (preset.go) and the extraction of a balance from
  the text of an answer or message (parser.go). The two built-in patterns are written out as the matchers they
  denote: leftmost match, greedy repetitions; in both, what may follow a repetition
  cannot start with a character it consumes, so that no backtracking is needed. Matching ignores case by the orbits
  of \<^verbatim>\<open>unicode.SimpleFold\<close>. A pattern of the configuration is compiled by package \<^verbatim>\<open>regexp\<close>,
  an argument (\<open>compile\<close>). Amounts are rationals; \<^verbatim>\<open>strconv.ParseFloat\<close> fails when the number rounds to infinity.
\<close>

section \<open>Presets\<close>

record Preset =
  pr_Name :: gostring
  pr_Title :: gostring
  pr_USSDCode :: gostring
  pr_BalanceRegex :: gostring
  pr_Currency :: gostring

text \<open>The pattern of a preset, with the Cyrillic words for the balance and the remainder.\<close>

definition preset_regex :: "gostring \<Rightarrow> gostring \<Rightarrow> gostring" where
  "preset_regex words opt = ''(?i)(?:'' @ string_of_runes [0x431, 0x430, 0x43B, 0x430, 0x43D, 0x441] @ ''|balance|balans|''
     @ string_of_runes [0x43E, 0x441, 0x442, 0x430, 0x442, 0x43E, 0x43A] @ words @ '')'' @ opt
     @ ''[:'' @ [CHR 0x5C] @ ''s]*([+-]?'' @ [CHR 0x5C] @ ''d+[.,]?'' @ [CHR 0x5C] @ ''d*)''"

definition standardPresets :: "(gostring \<times> Preset) list" where
  "standardPresets =
     [(''mts'', \<lparr>pr_Name = ''mts'', pr_Title = ''MTS'', pr_USSDCode = ''*100#'', pr_BalanceRegex = preset_regex [] [], pr_Currency = ''RUB''\<rparr>),
      (''megafon'', \<lparr>pr_Name = ''megafon'', pr_Title = ''MegaFon'', pr_USSDCode = ''*100#'', pr_BalanceRegex = preset_regex [] [], pr_Currency = ''RUB''\<rparr>),
      (''beeline'', \<lparr>pr_Name = ''beeline'', pr_Title = ''Beeline'', pr_USSDCode = ''*102#'', pr_BalanceRegex = preset_regex [] [], pr_Currency = ''RUB''\<rparr>),
      (''tele2'', \<lparr>pr_Name = ''tele2'', pr_Title = ''Tele2'', pr_USSDCode = ''*105#'', pr_BalanceRegex = preset_regex [] [], pr_Currency = ''RUB''\<rparr>),
      (''generic'', \<lparr>pr_Name = ''generic'', pr_Title = ''Generic Operator'', pr_USSDCode = ''*100#'', pr_BalanceRegex = preset_regex ''|schete'' ''?'', pr_Currency = ''RUB''\<rparr>)]"

definition GetPreset :: "(rune \<Rightarrow> rune) \<Rightarrow> gostring \<Rightarrow> Preset option" where
  "GetPreset lo name = map_of standardPresets (strings_ToLower lo (TrimSpace name))"

text \<open>The Cyrillic spellings of the names.\<close>

definition cyr_MTS :: gostring where "cyr_MTS = string_of_runes [0x41C, 0x422, 0x421]"
definition cyr_MEGAFON :: gostring where "cyr_MEGAFON = string_of_runes [0x41C, 0x415, 0x413, 0x410, 0x424, 0x41E, 0x41D]"
definition cyr_BEELINE :: gostring where "cyr_BEELINE = string_of_runes [0x411, 0x418, 0x41B, 0x410, 0x419, 0x41D]"
definition cyr_TELE2 :: gostring where "cyr_TELE2 = string_of_runes [0x422, 0x415, 0x41B, 0x415, 0x32]"
definition cyr_T2 :: gostring where "cyr_T2 = string_of_runes [0x422, 0x32]"

definition DetectPreset :: "(rune \<Rightarrow> rune) \<Rightarrow> gostring \<Rightarrow> Preset option" where
  "DetectPreset up operatorName =
     (let upper = strings_ToUpper up (TrimSpace operatorName)
      in map_of standardPresets
           (if Contains upper ''MTS'' \<or> Contains upper cyr_MTS then ''mts''
            else if Contains upper ''MEGAFON'' \<or> Contains upper cyr_MEGAFON then ''megafon''
            else if Contains upper ''BEELINE'' \<or> Contains upper cyr_BEELINE then ''beeline''
            else if Contains upper ''TELE2'' \<or> Contains upper cyr_TELE2 \<or> Contains upper cyr_T2 then ''tele2''
            else ''generic''))"

section \<open>Patterns\<close>

datatype op_error = ErrEmptyResponse | ErrBalanceNotFound | ErrInvalidBalanceFormat | ErrInvalidBalanceRegex

text \<open>The orbit of a character under simple case folding, for the letters of the patterns.\<close>

definition fold_orbit :: "rune \<Rightarrow> rune list" where
  "fold_orbit r =
     (if r = 0x73 then [0x73, 0x53, 0x17F]
      else if r = 0x434 then [0x434, 0x414, 0x1C81]
      else if r = 0x43E then [0x43E, 0x41E, 0x1C82]
      else if r = 0x441 then [0x441, 0x421, 0x1C83]
      else if r = 0x442 then [0x442, 0x422, 0x1C84, 0x1C85]
      else if 0x61 \<le> r \<and> r \<le> 0x7A \<or> 0x430 \<le> r \<and> r \<le> 0x44F then [r, r - 0x20]
      else [r])"

fun match_fold :: "rune list \<Rightarrow> rune list \<Rightarrow> rune list option" where
  "match_fold [] rs = Some rs"
| "match_fold (w # ws) rs = (case rs of r # rs1 \<Rightarrow> if r \<in> set (fold_orbit w) then match_fold ws rs1 else None | [] \<Rightarrow> None)"

fun match_any :: "rune list list \<Rightarrow> rune list \<Rightarrow> rune list option" where
  "match_any [] rs = None"
| "match_any (w # ws) rs = (case match_fold w rs of Some rest \<Rightarrow> Some rest | None \<Rightarrow> match_any ws rs)"

text \<open>\<^verbatim>\<open>[+-]?\d+[.,]?\d*\<close>, with what follows.\<close>

definition match_number :: "rune list \<Rightarrow> (rune list \<times> rune list) option" where
  "match_number rs =
     (let sign = (case rs of r # _ \<Rightarrow> if r = 43 \<or> r = 45 then [r] else [] | [] \<Rightarrow> []);
          rs1 = drop (length sign) rs;
          ds = takeWhile is_digit rs1; rs2 = dropWhile is_digit rs1;
          sep = (case rs2 of r # _ \<Rightarrow> if r = 46 \<or> r = 44 then [r] else [] | [] \<Rightarrow> []);
          rs3 = drop (length sep) rs2
      in if ds = [] then None else Some (sign @ ds @ sep @ takeWhile is_digit rs3, dropWhile is_digit rs3))"

definition re_space :: "rune \<Rightarrow> bool" where
  "re_space r \<longleftrightarrow> r \<in> {9, 10, 12, 13, 32}"

definition balance_words :: "rune list list" where
  "balance_words = [[0x431, 0x430, 0x43B, 0x430, 0x43D, 0x441], runes ''balance'', runes ''balans'',
     [0x43E, 0x441, 0x442, 0x430, 0x442, 0x43E, 0x43A], runes ''schete'']"

definition currency_words :: "rune list list" where
  "currency_words = [[0x440, 0x443, 0x431], [0x440], runes ''rub'', runes ''usd'', runes ''eur'', [0x20BD], [0x24]]"

definition debt_words :: "rune list list" where
  "debt_words = [[0x437, 0x430, 0x434, 0x43E, 0x43B, 0x436, 0x435, 0x43D, 0x43D, 0x43E, 0x441, 0x442], [0x434, 0x43E, 0x43B, 0x433], runes ''debt'']"

definition balance_at :: "rune list \<Rightarrow> rune list option" where
  "balance_at rs = (case match_any balance_words rs of
     Some rest \<Rightarrow> map_option fst (match_number (dropWhile (\<lambda>r. r = 58 \<or> re_space r) rest)) | None \<Rightarrow> None)"

definition amount_at :: "rune list \<Rightarrow> rune list option" where
  "amount_at rs = (case match_number rs of
     Some (num, rest) \<Rightarrow> if list_ex (\<lambda>w. prefix w (dropWhile re_space rest)) currency_words then Some num else None
   | None \<Rightarrow> None)"

fun leftmost :: "(rune list \<Rightarrow> 'a option) \<Rightarrow> rune list \<Rightarrow> 'a option" where
  "leftmost p [] = p []"
| "leftmost p (r # rs) = (case p (r # rs) of Some x \<Rightarrow> Some x | None \<Rightarrow> leftmost p rs)"

definition defaultBalancePatterns :: "(gostring \<Rightarrow> gostring list) list" where
  "defaultBalancePatterns = map (\<lambda>p text. case leftmost p (runes text) of Some num \<Rightarrow> [[], string_of_runes num] | None \<Rightarrow> [])
     [balance_at, amount_at]"

definition debtPattern :: "gostring \<Rightarrow> bool" where
  "debtPattern text \<longleftrightarrow> leftmost (match_any debt_words) (runes text) \<noteq> None"

section \<open>Balance\<close>

text \<open>\<^verbatim>\<open>ParseFloat\<close> on the texts that \<^verbatim>\<open>parseNumber\<close> gets from the built-in patterns: digits with a point among them. Other
  notations, which only a pattern of the configuration can select, are the argument \<open>pf\<close>.\<close>

definition float_max :: rat where
  "float_max = 2 ^ 1024 - 2 ^ 970"

definition decimal :: "gostring \<Rightarrow> rat option" where
  "decimal s =
     (let neg = HasPrefix s ''-''; body = (if neg \<or> HasPrefix s ''+'' then drop 1 s else s);
          ip = takeWhile is_digit_char body; r1 = dropWhile is_digit_char body;
          fp = (if HasPrefix r1 ''.'' then drop 1 r1 else []);
          v = rat_of_nat (dec_val (ip @ fp)) / 10 ^ length fp
      in if ip @ fp \<noteq> [] \<and> (r1 = [] \<or> HasPrefix r1 ''.'') \<and> list_all is_digit_char fp \<and> v < float_max
         then Some (if neg then - v else v) else None)"

definition parseNumber :: "(gostring \<Rightarrow> rat option) \<Rightarrow> gostring \<Rightarrow> op_error + rat" where
  "parseNumber pf raw =
     (let normalized = map (\<lambda>c. if c = CHR '','' then CHR ''.'' else c) raw
      in case pf normalized of Some v \<Rightarrow> Inr v | None \<Rightarrow> Inl ErrInvalidBalanceFormat)"

definition signed :: "bool \<Rightarrow> op_error + rat \<Rightarrow> op_error + rat" where
  "signed isDebt res = (case res of Inr v \<Rightarrow> Inr (if isDebt \<and> 0 < v then - v else v) | Inl e \<Rightarrow> Inl e)"

definition compileCustomRegex :: "(gostring \<Rightarrow> (gostring \<Rightarrow> gostring list) option) \<Rightarrow> gostring \<Rightarrow> (gostring \<Rightarrow> gostring list) option" where
  "compileCustomRegex compile pattern = (if 512 < length pattern then None else compile pattern)"

fun first_match :: "(gostring \<Rightarrow> rat option) \<Rightarrow> bool \<Rightarrow> gostring \<Rightarrow> (gostring \<Rightarrow> gostring list) list \<Rightarrow> op_error + rat" where
  "first_match pf isDebt text [] = Inl ErrBalanceNotFound"
| "first_match pf isDebt text (p # ps) =
     (if 1 < length (p text) then signed isDebt (parseNumber pf (p text ! 1)) else first_match pf isDebt text ps)"

definition ParseBalance :: "(gostring \<Rightarrow> rat option) \<Rightarrow> (gostring \<Rightarrow> (gostring \<Rightarrow> gostring list) option) \<Rightarrow> gostring \<Rightarrow> gostring
    \<Rightarrow> op_error + rat" where
  "ParseBalance pf compile text customRegex =
     (let trimmed = TrimSpace text; isDebt = debtPattern trimmed
      in if trimmed = [] then Inl ErrEmptyResponse
         else if customRegex \<noteq> [] then
           (case compileCustomRegex compile customRegex of
              None \<Rightarrow> Inl ErrInvalidBalanceRegex
            | Some re \<Rightarrow> first_match pf isDebt trimmed [re])
         else first_match pf isDebt trimmed defaultBalancePatterns)"

section \<open>Properties\<close>

lemma first_match_debt: "first_match pf True text ps = Inr v \<Longrightarrow> v \<le> 0"
  by (induction ps) (auto simp: signed_def split: if_splits sum.splits)

text \<open>A text that speaks of a debt never yields a positive balance, with the built-in patterns and with one of
  the configuration alike, whatever the number format.\<close>

theorem debt_not_positive:
  assumes "debtPattern (TrimSpace text)" "ParseBalance pf compile text customRegex = Inr v"
  shows "v \<le> 0"
proof -
  have "\<exists>ps. first_match pf True (TrimSpace text) ps = Inr v"
    using assms unfolding ParseBalance_def Let_def
    by (simp only: simp_thms split: if_splits option.splits) (blast | simp)+
  then show ?thesis using first_match_debt by blast
qed

text \<open>An amount as the operators print it, after the word for the balance.\<close>

definition balance_text :: "gostring \<Rightarrow> gostring \<Rightarrow> gostring \<Rightarrow> gostring" where
  "balance_text ds fs suf = ''Balance: '' @ ds @ ''.'' @ fs @ suf"

lemma digits_runes:
  assumes "list_all is_digit_char ds" "suf = [] \<or> \<not> is_digit_char (hd suf)"
  shows "takeWhile is_digit (map of_char (ds @ suf)) = map of_char ds" "dropWhile is_digit (map of_char (ds @ suf)) = map of_char suf"
proof -
  have d: "\<And>r. r \<in> set (map of_char ds) \<Longrightarrow> is_digit r" using assms(1) by (auto simp: list_all_iff is_digit_char_def)
  have s: "takeWhile is_digit (map of_char suf) = []" "dropWhile is_digit (map of_char suf) = map of_char suf"
    using assms(2) by (cases suf; simp add: is_digit_char_def)+
  show "takeWhile is_digit (map of_char (ds @ suf)) = map of_char ds"
    using takeWhile_append2 [of "map of_char ds" is_digit "map of_char suf", OF d] s(1) by (simp only: map_append append_Nil2)
  show "dropWhile is_digit (map of_char (ds @ suf)) = map of_char suf"
    using dropWhile_append2 [of "map of_char ds" is_digit "map of_char suf", OF d] s(2) by (simp only: map_append)
qed

lemma match_number_decimal:
  assumes "list_all is_digit_char ds" "ds \<noteq> []" "list_all is_digit_char fs" "suf = [] \<or> \<not> is_digit_char (hd suf)"
  shows "match_number (map of_char (ds @ CHR ''.'' # fs @ suf)) = Some (map of_char (ds @ CHR ''.'' # fs), map of_char suf)"
proof -
  obtain d ds' where ds: "ds = d # ds'" using assms(2) by (cases ds) auto
  have "(of_char d :: nat) \<noteq> 43" "(of_char d :: nat) \<noteq> 45" using assms(1) ds by (auto simp: is_digit_char_def is_digit_def)
  then have sign: "(case map of_char (ds @ CHR ''.'' # fs @ suf) of r # _ \<Rightarrow> if r = 43 \<or> r = 45 then [r] else [] | [] \<Rightarrow> []) = ([] :: nat list)"
    by (simp add: ds)
  have nd: "CHR ''.'' # fs @ suf = [] \<or> \<not> is_digit_char (hd (CHR ''.'' # fs @ suf))" by (simp add: is_digit_char_def is_digit_def)
  note t1 = digits_runes [OF assms(1) nd] and t2 = digits_runes [OF assms(3,4)]
  show ?thesis unfolding match_number_def sign using assms(2) by (simp add: t1 t2 Let_def del: map_append) simp
qed


lemma string_of_ascii: "is_ascii s \<Longrightarrow> string_of_runes (map of_char s) = s"
  by (subst string_of_runes_ascii) (simp_all add: is_ascii_def list_all_iff o_def)

lemma balance_text_match:
  assumes "list_all is_digit_char ds" "ds \<noteq> []" "list_all is_digit_char fs" "suf = [] \<or> \<not> is_digit_char (hd suf)"
  shows "leftmost balance_at (map of_char (balance_text ds fs suf)) = Some (map of_char (ds @ CHR ''.'' # fs))"
proof -
  obtain d ds' where ds: "ds = d # ds'" using assms(2) by (cases ds) auto
  have nd: "(of_char d :: nat) \<noteq> 58" "\<not> re_space (of_char d)" using assms(1) ds by (auto simp: is_digit_char_def is_digit_def re_space_def)
  let ?r = "map of_char (ds @ CHR ''.'' # fs @ suf) :: nat list"
  have shape: "map of_char (balance_text ds fs suf) = [66, 97, 108, 97, 110, 99, 101, 58, 32] @ ?r"
    by (simp add: balance_text_def)
  have "runes ''balance'' = [98, 97, 108, 97, 110, 99, 101]" by code_simp
  then have "match_any balance_words (map of_char (balance_text ds fs suf)) = Some (58 # 32 # ?r)"
    unfolding shape balance_words_def by (simp add: fold_orbit_def)
  moreover have "dropWhile (\<lambda>r. r = 58 \<or> re_space r) (58 # 32 # ?r) = ?r" using nd by (simp add: ds re_space_def)
  ultimately have "balance_at (map of_char (balance_text ds fs suf)) = Some (map of_char (ds @ CHR ''.'' # fs))"
    using match_number_decimal [OF assms] by (simp add: balance_at_def)
  then show ?thesis by (cases "map of_char (balance_text ds fs suf) :: nat list") simp_all
qed

lemma decimal_digits:
  assumes "list_all is_digit_char ds" "ds \<noteq> []" "list_all is_digit_char fs" "rat_of_nat (dec_val (ds @ fs)) / 10 ^ length fs < float_max"
  shows "decimal (ds @ CHR ''.'' # fs) = Some (rat_of_nat (dec_val (ds @ fs)) / 10 ^ length fs)"
proof -
  obtain d ds' where ds: "ds = d # ds'" using assms(2) by (cases ds) auto
  have d: "d \<noteq> CHR ''-''" "d \<noteq> CHR ''+''" "\<not> is_digit_char (CHR ''.'')" using assms(1) ds by (auto simp: is_digit_char_def is_digit_def)
  have t: "takeWhile is_digit_char (ds @ CHR ''.'' # fs) = ds" "dropWhile is_digit_char (ds @ CHR ''.'' # fs) = CHR ''.'' # fs"
    using assms(1) d(3) by (simp_all add: takeWhile_append2 dropWhile_append2 list_all_iff)
  have p: "\<not> HasPrefix (ds @ CHR ''.'' # fs) ''-''" "\<not> HasPrefix (ds @ CHR ''.'' # fs) ''+''" "HasPrefix (CHR ''.'' # fs) ''.''"
    using d by (simp_all add: ds HasPrefix_def)
  show ?thesis unfolding decimal_def Let_def using assms(2-4) t p by simp
qed

text \<open>An amount printed with a decimal point after the word for the balance is read back exactly, whatever
  the operator prints after it, as long as the text does not speak of a debt.\<close>

theorem balance_roundtrip:
  assumes "\<And>s v. decimal s = Some v \<Longrightarrow> pf s = Some v" "digit_string ds" "list_all is_digit_char fs"
    "suf = [] \<or> \<not> is_digit_char (hd suf)" "is_ascii suf" "suf = [] \<or> \<not> IsSpace (of_char (last suf))"
    "rat_of_nat (dec_val (ds @ fs)) / 10 ^ length fs < float_max" "\<not> debtPattern (balance_text ds fs suf)"
  shows "ParseBalance pf compile (balance_text ds fs suf) [] = Inr (rat_of_nat (dec_val (ds @ fs)) / 10 ^ length fs)"
proof -
  let ?t = "balance_text ds fs suf" and ?v = "rat_of_nat (dec_val (ds @ fs)) / 10 ^ length fs"
  have ds: "list_all is_digit_char ds" "ds \<noteq> []" using assms(2) by (simp_all add: digit_string_def)
  have dig: "48 \<le> (of_char c :: nat) \<and> of_char c \<le> (57 :: nat)" if "c \<in> set (ds @ fs)" for c
    using that ds(1) assms(3) by (auto simp: list_all_iff is_digit_char_def is_digit_def)
  have "is_ascii (ds @ fs)" using dig by (fastforce simp: is_ascii_def list_all_iff)
  then have asc: "is_ascii ?t" "is_ascii (ds @ CHR ''.'' # fs)" using assms(5) by (simp_all add: balance_text_def)
  have lst: "\<not> IsSpace (of_char (last ?t))"
  proof (cases "suf = []")
    case True
    then have "last ?t = last (CHR ''.'' # fs)" by (simp add: balance_text_def)
    moreover have "last (CHR ''.'' # fs) = CHR ''.'' \<or> last (CHR ''.'' # fs) \<in> set (ds @ fs)" by (cases fs rule: rev_cases) auto
    ultimately show ?thesis using dig by (fastforce simp: IsSpace_def)
  qed (use assms(6) in \<open>simp add: balance_text_def\<close>)
  have trim: "TrimSpace ?t = ?t" using asc(1) lst by (intro TrimSpace_id) (simp_all add: balance_text_def IsSpace_def)
  have num: "string_of_runes (map of_char (ds @ CHR ''.'' # fs)) = ds @ CHR ''.'' # fs"
    using asc(2) by (rule string_of_ascii)
  have "CHR '','' \<notin> set (ds @ CHR ''.'' # fs)" using dig by fastforce
  then have "map (\<lambda>c. if c = CHR '','' then CHR ''.'' else c) (ds @ CHR ''.'' # fs) = ds @ CHR ''.'' # fs"
    by (intro map_idI) auto
  then have "parseNumber pf (ds @ CHR ''.'' # fs) = Inr ?v"
    unfolding parseNumber_def Let_def using assms(1) [OF decimal_digits [OF ds assms(3,7)]] by simp
  moreover have "hd defaultBalancePatterns ?t = [[], ds @ CHR ''.'' # fs]"
    using balance_text_match [OF ds assms(3,4)] asc(1) num by (simp add: defaultBalancePatterns_def runes_ascii)
  ultimately show ?thesis
    using assms(8) trim by (simp add: ParseBalance_def Let_def defaultBalancePatterns_def signed_def balance_text_def)
qed

theorem balance_roundtrip_witness: "ParseBalance decimal (\<lambda>_. None) ''Balance: 152.40 RUB'' [] = Inr (15240 / 100)"
proof -
  have "(15240 / 100 :: rat) < 2 ^ 1023" by simp
  moreover have "(2 :: rat) ^ 1023 \<le> float_max" by (simp add: float_max_def)
  moreover have "dec_val ''15240'' = 15240" by code_simp
  moreover have "\<not> debtPattern ''Balance: 152.40 RUB''" by code_simp
  ultimately show ?thesis
    using balance_roundtrip [of decimal "''152''" "''40''" "'' RUB''" "\<lambda>_. None"]
    by (simp add: digit_string_def is_digit_char_def is_digit_def balance_text_def IsSpace_def)
qed

end
