(* ===== verification/Transport.thy ===== *)
theory Transport
  imports Config AT_Engine
begin

text \<open>
  The serial port (\<^verbatim>\<open>internal/transport/serial.go\<close>, errors.go) and the connector of a modem
  (\<^verbatim>\<open>internal/modem/connector.go\<close>): the check of a port configuration, its translation into the mode of
  the serial library, and the opening of a port, whose outcomes are arguments. \<open>lo\<close> is the case folding outside ASCII.
\<close>

section \<open>Configuration of a port\<close>

record PortConfig =
  pc_Device :: gostring
  pc_BaudRate :: int
  pc_DataBits :: int
  pc_StopBits :: int
  pc_Parity :: gostring
  pc_FlowControl :: gostring

datatype port_error =
    ErrEmptyDevice
  | ErrInvalidBaudRate
  | ErrInvalidDataBits
  | ErrInvalidStopBits
  | ErrInvalidParity
  | ErrInvalidFlowControl
  | ErrOpen gostring
  | ErrTimeout gostring

datatype serial_parity = NoParity | OddParity | EvenParity | MarkParity | SpaceParity
datatype serial_stop = OneStopBit | OnePointFiveStopBits | TwoStopBits

record SerialMode =
  sm_BaudRate :: int
  sm_DataBits :: int
  sm_StopBits :: serial_stop
  sm_Parity :: serial_parity
  sm_InitialStatusBits :: "(bool \<times> bool) option"

definition parseParity :: "(rune \<Rightarrow> rune) \<Rightarrow> gostring \<Rightarrow> port_error + serial_parity" where
  "parseParity lo p0 =
     (let p = strings_ToLower lo (TrimSpace p0)
      in if p = [] \<or> p = ''none'' then Inr NoParity else if p = ''odd'' then Inr OddParity else if p = ''even'' then Inr EvenParity
         else if p = ''mark'' then Inr MarkParity else if p = ''space'' then Inr SpaceParity else Inl ErrInvalidParity)"

definition validateParity :: "(rune \<Rightarrow> rune) \<Rightarrow> gostring \<Rightarrow> port_error option" where
  "validateParity lo p =
     (if strings_ToLower lo (TrimSpace p) \<in> {[], ''none'', ''odd'', ''even'', ''mark'', ''space''} then None else Some ErrInvalidParity)"

definition validateFlowControl :: "(rune \<Rightarrow> rune) \<Rightarrow> gostring \<Rightarrow> port_error option" where
  "validateFlowControl lo fc =
     (if strings_ToLower lo (TrimSpace fc) \<in> {[], ''none'', ''hardware'', ''software''} then None else Some ErrInvalidFlowControl)"

definition data_bits :: "PortConfig \<Rightarrow> int" where
  "data_bits c = (if pc_DataBits c = 0 then 8 else pc_DataBits c)"

definition PortValidate :: "(rune \<Rightarrow> rune) \<Rightarrow> PortConfig \<Rightarrow> port_error option" where
  "PortValidate lo c =
     (if TrimSpace (pc_Device c) = [] then Some ErrEmptyDevice
      else if pc_BaudRate c \<le> 0 then Some ErrInvalidBaudRate
      else if data_bits c < 5 \<or> 8 < data_bits c then Some ErrInvalidDataBits
      else if pc_StopBits c \<notin> {0, 1, 2, 15} then Some ErrInvalidStopBits
      else case validateParity lo (pc_Parity c) of Some e \<Rightarrow> Some e | None \<Rightarrow> validateFlowControl lo (pc_FlowControl c))"

definition ToSerialMode :: "(rune \<Rightarrow> rune) \<Rightarrow> PortConfig \<Rightarrow> port_error + SerialMode" where
  "ToSerialMode lo c = (case PortValidate lo c of
     Some e \<Rightarrow> Inl e
   | None \<Rightarrow> Inr \<lparr>sm_BaudRate = pc_BaudRate c, sm_DataBits = data_bits c,
       sm_StopBits = (if pc_StopBits c = 2 then TwoStopBits else if pc_StopBits c = 15 then OnePointFiveStopBits else OneStopBit),
       sm_Parity = (case parseParity lo (pc_Parity c) of Inr p \<Rightarrow> p | Inl _ \<Rightarrow> NoParity),
       sm_InitialStatusBits = (if strings_ToLower lo (TrimSpace (pc_FlowControl c)) = ''hardware'' then Some (True, True) else None)\<rparr>)"

datatype port_effect = PortOpened gostring SerialMode | PortClosed gostring

definition OpenPort :: "(rune \<Rightarrow> rune) \<Rightarrow> gostring option \<Rightarrow> gostring option \<Rightarrow> PortConfig \<Rightarrow> port_effect list \<times> (port_error + SerialMode)" where
  "OpenPort lo openErr timeoutErr c = (case ToSerialMode lo c of
     Inl e \<Rightarrow> ([], Inl e)
   | Inr mode \<Rightarrow>
       (case openErr of
          Some e \<Rightarrow> ([], Inl (ErrOpen e))
        | None \<Rightarrow>
            (case timeoutErr of
               Some e \<Rightarrow> ([PortOpened (pc_Device c) mode, PortClosed (pc_Device c)], Inl (ErrTimeout e))
             | None \<Rightarrow> ([PortOpened (pc_Device c) mode], Inr mode))))"

text \<open>The connector puts a new AT engine in front of the port; the port itself is what the caller has to close.\<close>

definition ConnectorOpen :: "(rune \<Rightarrow> rune) \<Rightarrow> gostring option \<Rightarrow> gostring option \<Rightarrow> PortConfig \<Rightarrow> port_effect list \<times> (port_error + Engine \<times> port_effect)" where
  "ConnectorOpen lo openErr timeoutErr c = (case OpenPort lo openErr timeoutErr c of
     (effs, Inl err) \<Rightarrow> (effs, Inl err)
   | (effs, Inr mode) \<Rightarrow> (effs, Inr (NewEngine, PortClosed (pc_Device c))))"

text \<open>What a runner passes on of the configuration of its modem.\<close>

definition port_of :: "ModemConfig \<Rightarrow> PortConfig" where
  "port_of m = \<lparr>pc_Device = mc_Port m, pc_BaudRate = mc_BaudRate m, pc_DataBits = mc_DataBits m, pc_StopBits = mc_StopBits m,
     pc_Parity = mc_Parity m, pc_FlowControl = mc_FlowControl m\<rparr>"

section \<open>Ports\<close>

lemma parity_checked: "validateParity lo p = None \<longleftrightarrow> \<not> isl (parseParity lo p)"
  by (simp add: validateParity_def parseParity_def Let_def)

text \<open>A port that is not returned is not left open.\<close>

lemma OpenPort_closes: "isl (snd (OpenPort lo e1 e2 c)) \<longleftrightarrow> fst (OpenPort lo e1 e2 c) = [] \<or> PortClosed (pc_Device c) \<in> set (fst (OpenPort lo e1 e2 c))"
  by (simp add: OpenPort_def split: sum.split option.split)

lemma ConnectorOpen_ready:
  "snd (ConnectorOpen lo e1 e2 c) = Inr (e, closer) \<Longrightarrow> eng_inv e \<and> eng_lineBuf e = [] \<and> PortClosed (pc_Device c) \<notin> set (fst (ConnectorOpen lo e1 e2 c))"
  using OpenPort_closes [of lo e1 e2 c]
  by (auto simp: ConnectorOpen_def eng_inv_def NewEngine_def OpenPort_def split: prod.splits sum.splits option.splits)

lemma ToSerialMode_sound:
  "ToSerialMode lo c = Inr m \<Longrightarrow> 0 < sm_BaudRate m \<and> 5 \<le> sm_DataBits m \<and> sm_DataBits m \<le> 8 \<and> parseParity lo (pc_Parity c) = Inr (sm_Parity m)"
  using parity_checked [of lo "pc_Parity c"]
  by (auto simp: ToSerialMode_def PortValidate_def split: option.splits if_splits sum.splits)

end
