(* ===== verification/Timezone.thy ===== *)
theory Timezone
  imports Modem_Pool
begin

text \<open>
  The time zone of the program (\<^verbatim>\<open>internal/system/timezone.go\<close>). The three regular expressions are matchers written out:
  digits, letters and signs do not overlap, so their greedy choices are the only ones, except for the hours of a fixed offset, where two digits
  are tried before one. The database of time zones is the argument \<open>load\<close>, the environment and the two files are arguments.
\<close>

section \<open>Matching\<close>

datatype location = FixedZone gostring int | Zone gostring | LocalZone

definition offset_digits :: "nat \<Rightarrow> gostring \<Rightarrow> (gostring \<times> gostring) option" where
  "offset_digits n r =
     (let h = take n r; t = drop n r; t1 = (if t \<noteq> [] \<and> hd t = CHR '':'' then tl t else t)
      in if length h \<noteq> n \<or> \<not> list_all is_digit_char h then None
         else if t = [] then Some (h, [])
         else if length t1 = 2 \<and> list_all is_digit_char t1 then Some (h, t1) else None)"

definition fixedOffsetRegex :: "gostring \<Rightarrow> (char \<times> gostring \<times> gostring) option" where
  "fixedOffsetRegex s = (case s of
     [] \<Rightarrow> None
   | sg # r \<Rightarrow>
       if sg \<noteq> CHR ''+'' \<and> sg \<noteq> CHR ''-'' then None
       else (case offset_digits 2 r of Some hm \<Rightarrow> Some (sg, hm) | None \<Rightarrow> map_option (Pair sg) (offset_digits 1 r)))"

definition is_alpha :: "char \<Rightarrow> bool" where
  "is_alpha c \<longleftrightarrow> (let n = (of_char c :: nat) in 65 \<le> n \<and> n \<le> 90 \<or> 97 \<le> n \<and> n \<le> 122)"

text \<open>The offset after the name: a sign, digits, and minutes after a colon.\<close>

definition posix_offset :: "gostring \<Rightarrow> (gostring \<times> gostring) option" where
  "posix_offset s =
     (let sg = (if HasPrefix s ''+'' \<or> HasPrefix s ''-'' then take 1 s else []); r = drop (length sg) s;
          ds = takeWhile is_digit_char r; t = drop (length ds) r
      in if ds = [] then None else Some (sg @ ds, if HasPrefix t '':'' then takeWhile is_digit_char (tl t) else []))"

definition posixBracketRegex :: "gostring \<Rightarrow> (gostring \<times> gostring \<times> gostring) option" where
  "posixBracketRegex s =
     (let name = takeWhile (\<lambda>c. is_alpha c \<or> is_digit_char c \<or> c \<in> {CHR ''_'', CHR ''+'', CHR ''-''}) (drop 1 s);
          t = drop (1 + length name) s
      in if HasPrefix s ''<'' \<and> name \<noteq> [] \<and> HasPrefix t ''>'' then map_option (Pair name) (posix_offset (tl t)) else None)"

definition posixSimpleRegex :: "gostring \<Rightarrow> (gostring \<times> gostring \<times> gostring) option" where
  "posixSimpleRegex s =
     (let name = takeWhile is_alpha s in if name \<noteq> [] then map_option (Pair name) (posix_offset (drop (length name) s)) else None)"

section \<open>Locations\<close>

text \<open>The value that \<^verbatim>\<open>strconv.Atoi\<close> returns for a sign and digits, with or without its error: the nearest 64-bit integer.\<close>

definition AtoiValue :: "gostring \<Rightarrow> int" where
  "AtoiValue s = (case Atoi s of Some v \<Rightarrow> v | None \<Rightarrow> if HasPrefix s ''-'' then - (2 ^ 63) else 2 ^ 63 - 1)"

definition pad2 :: "int \<Rightarrow> gostring" where
  "pad2 n = (if n < 10 then ''0'' @ itoa n else itoa n)"

definition parseLocation :: "(gostring \<Rightarrow> location option) \<Rightarrow> gostring \<Rightarrow> gostring + location" where
  "parseLocation load tz = (case fixedOffsetRegex tz of
     Some (sg, h, m) \<Rightarrow>
       (let hours = AtoiValue h; mins = (if m \<noteq> [] then AtoiValue m else 0); total = hours * 3600 + mins * 60
        in Inr (FixedZone (''UTC'' @ [sg] @ pad2 hours @ '':'' @ pad2 mins) (if sg = CHR ''-'' then - total else total)))
   | None \<Rightarrow>
       (case load tz of
          Some loc \<Rightarrow> Inr loc
        | None \<Rightarrow>
            (case (case posixBracketRegex tz of Some x \<Rightarrow> Some x | None \<Rightarrow> posixSimpleRegex tz) of
               Some (name, off, mins) \<Rightarrow>
                 Inr (FixedZone name (wrap64 (- (AtoiValue off * 3600 + (if mins \<noteq> [] then AtoiValue mins else 0) * 60))))
             | None \<Rightarrow> Inl (''unknown timezone format '' @ tz))))"

fun first_location :: "(gostring \<Rightarrow> location option) \<Rightarrow> gostring option list \<Rightarrow> location" where
  "first_location load [] = LocalZone"
| "first_location load (None # rest) = first_location load rest"
| "first_location load (Some s # rest) =
     (if TrimSpace s = [] then first_location load rest
      else case parseLocation load (TrimSpace s) of Inr loc \<Rightarrow> loc | Inl _ \<Rightarrow> first_location load rest)"

definition ResolveLocation :: "(gostring \<Rightarrow> location option) \<Rightarrow> gostring \<Rightarrow> gostring option \<Rightarrow> gostring option \<Rightarrow> gostring \<Rightarrow> gostring + location" where
  "ResolveLocation load env etcTZ etcTimezone cfgTZ =
     (let tz = TrimSpace cfgTZ
      in if tz \<noteq> [] \<and> \<not> EqualFold id tz ''auto'' \<and> \<not> EqualFold id tz ''local'' then parseLocation load tz
         else Inr (first_location load [Some env, etcTZ, etcTimezone]))"

section \<open>Offsets\<close>

lemma nat_dec_small: "n < 10 \<Longrightarrow> nat_dec n = [digit_char n]"
  by (subst nat_dec.simps) simp

lemma pad2_digits:
  assumes "n < 100"
  shows "pad2 (int n) = [digit_char (n div 10), digit_char (n mod 10)]"
proof (cases "n < 10")
  case True
  then have "n div 10 = 0" by simp
  moreover have "digit_char 0 = CHR ''0''" by code_simp
  ultimately show ?thesis using True by (simp add: pad2_def itoa_def nat_dec_small)
next
  case False
  then have "nat_dec n = nat_dec (n div 10) @ [digit_char (n mod 10)]" by (subst nat_dec.simps) simp
  moreover have "nat_dec (n div 10) = [digit_char (n div 10)]" using assms by (intro nat_dec_small) simp
  ultimately show ?thesis using False by (simp add: pad2_def itoa_def)
qed

lemma digit_char_digit [simp]: "d < 10 \<Longrightarrow> is_digit_char (digit_char d)"
  by (simp add: is_digit_char_def is_digit_def)

lemma signs_no_digits: "\<not> is_digit_char (CHR ''-'')" "\<not> is_digit_char (CHR ''+'')" "\<not> is_digit_char (CHR '':'')"
  by code_simp+

lemma AtoiValue_digits:
  assumes "n < 100"
  shows "AtoiValue [digit_char (n div 10), digit_char (n mod 10)] = int n"
proof -
  let ?s = "[digit_char (n div 10), digit_char (n mod 10)]"
  have d: "n div 10 < 10" "n mod 10 < 10" using assms by simp_all
  have "digit_char (n div 10) \<noteq> CHR ''-''" "digit_char (n div 10) \<noteq> CHR ''+''"
    using digit_char_digit [OF d(1)] signs_no_digits by metis+
  then have "\<not> HasPrefix ?s ''-''" "\<not> HasPrefix ?s ''+''" by (simp_all add: HasPrefix_def)
  moreover have "dec_val ?s = n" using d by (simp add: dec_val_def)
  ultimately show ?thesis using assms d by (simp add: AtoiValue_def Atoi_def Let_def)
qed

text \<open>A fixed offset is read as it is written: a sign, two digits of hours, a colon and two digits of minutes give the zone that is
  as many hours and minutes east (plus) or west (minus) of UTC, under the name \<^verbatim>\<open>UTC\<close> and the text itself, without a look into
  the database.
\<close>

theorem fixed_offset_roundtrip:
  assumes "h < 100" "m < 100" "sg = CHR ''+'' \<or> sg = CHR ''-''"
  shows "let tz = [sg] @ pad2 (int h) @ '':'' @ pad2 (int m)
    in parseLocation load tz = Inr (FixedZone (''UTC'' @ tz) ((if sg = CHR ''-'' then -1 else 1) * (int h * 3600 + int m * 60)))"
proof -
  let ?hs = "[digit_char (h div 10), digit_char (h mod 10)]" and ?ms = "[digit_char (m div 10), digit_char (m mod 10)]"
  have d: "h div 10 < 10" "m div 10 < 10" using assms by simp_all
  have "fixedOffsetRegex ([sg] @ ?hs @ '':'' @ ?ms) = Some (sg, ?hs, ?ms)"
    using assms(3) d by (auto simp: fixedOffsetRegex_def offset_digits_def Let_def)
  then show ?thesis
    using assms AtoiValue_digits [of h] AtoiValue_digits [of m]
    by (auto simp: parseLocation_def pad2_digits Let_def)
qed

theorem fixed_offset_roundtrip_witness:
  "parseLocation (\<lambda>_. None) ''-05:30'' = Inr (FixedZone ''UTC-05:30'' (- 19800))"
proof -
  have p: "pad2 (int 5) = ''05''" "pad2 (int 30) = ''30''" by code_simp+
  show ?thesis
    using fixed_offset_roundtrip [of 5 30 "CHR ''-''" "\<lambda>_. None"] unfolding p by (simp add: Let_def)
qed

section \<open>POSIX zones\<close>

lemma alpha_no_digit: "is_alpha c \<Longrightarrow> \<not> is_digit_char c"
  by (auto simp: is_alpha_def is_digit_char_def is_digit_def Let_def)

lemma alpha_name:
  assumes "list_all is_alpha name" "\<not> is_alpha c"
  shows "takeWhile is_alpha (name @ c # r) = name"
  using assms by (induction name) simp_all

lemma signs_no_alpha: "\<not> is_alpha (CHR ''-'')" "\<not> is_alpha (CHR ''+'')" "\<not> is_alpha (CHR ''<'')"
  by code_simp+

lemma name_no_offset: "list_all is_alpha name \<Longrightarrow> name \<noteq> [] \<Longrightarrow> fixedOffsetRegex (name @ r) = None"
  using signs_no_alpha by (cases name) (auto simp: fixedOffsetRegex_def)

lemma name_no_bracket: "list_all is_alpha name \<Longrightarrow> name \<noteq> [] \<Longrightarrow> posixBracketRegex (name @ r) = None"
  using signs_no_alpha by (cases name) (auto simp: posixBracketRegex_def HasPrefix_def Let_def)

lemma posix_simple:
  assumes "list_all is_alpha name" "name \<noteq> []" "sg = CHR ''+'' \<or> sg = CHR ''-''" "h < 100" "m < 100"
  shows "posixSimpleRegex (name @ sg # pad2 (int h) @ '':'' @ pad2 (int m)) = Some (name, sg # pad2 (int h), pad2 (int m))"
proof -
  have d: "h div 10 < 10" "m div 10 < 10" using assms by simp_all
  have "posix_offset (sg # pad2 (int h) @ '':'' @ pad2 (int m)) = Some (sg # pad2 (int h), pad2 (int m))"
    using assms(3-5) d signs_no_digits by (auto simp: posix_offset_def HasPrefix_def pad2_digits Let_def)
  then show ?thesis
    using assms(1-3) signs_no_alpha alpha_name [of name sg] by (auto simp: posixSimpleRegex_def Let_def)
qed

lemma AtoiValue_signed:
  assumes "n < 100"
  shows "AtoiValue (CHR ''-'' # pad2 (int n)) = - int n" "AtoiValue (CHR ''+'' # pad2 (int n)) = int n"
proof -
  have d: "n div 10 < 10" "n mod 10 < 10" using assms by simp_all
  have v: "dec_val [digit_char (n div 10), digit_char (n mod 10)] = n" using d by (simp add: dec_val_def)
  show "AtoiValue (CHR ''-'' # pad2 (int n)) = - int n" "AtoiValue (CHR ''+'' # pad2 (int n)) = int n"
    using assms d v by (simp_all add: AtoiValue_def Atoi_def HasPrefix_def pad2_digits Let_def)
qed



end
