(* ===== verification/Metrics.thy ===== *)
theory Metrics
  imports Event_Machine Complex_Main "HOL-Library.List_Lexorder" "HOL-Library.Char_ord" "HOL-Library.AList"
begin

text \<open>
  The metrics registry (\<^verbatim>\<open>internal/metrics/registry.go\<close>). Go maps are association lists; names and keys are sorted by
  their bytes, as \<^verbatim>\<open>sort.Strings\<close> does. Values are rational numbers, where the code has floating-point numbers, and
  \<open>fmt\<close> prints them; a series is identified by its name and its encoded labels. Every operation holds the mutex.
\<close>

section \<open>Registry\<close>

datatype MetricType = TypeCounter | TypeGauge

type_synonym labels = "(gostring, gostring) gomap"

record metricValue =
  mv_name :: gostring
  mv_type :: MetricType
  mv_labels :: labels
  mv_val :: rat

record Registry =
  reg_metrics :: "(gostring \<times> gostring, metricValue) gomap"
  reg_types :: "(gostring, MetricType) gomap"

definition NewRegistry :: Registry where
  "NewRegistry = \<lparr>reg_metrics = [], reg_types = []\<rparr>"

definition sorted_keys :: "labels \<Rightarrow> gostring list" where
  "sorted_keys labels = sort (map fst labels)"

definition encodeLabels :: "labels \<Rightarrow> gostring" where
  "encodeLabels labels =
     (if labels = [] then [] else Join (map (\<lambda>k. k @ ''='' @ the (map_of labels k)) (sorted_keys labels)) '','')"

definition AddCounter :: "gostring \<Rightarrow> labels \<Rightarrow> rat \<Rightarrow> Registry \<Rightarrow> Registry" where
  "AddCounter name labels delta r =
     (let k = (name, encodeLabels labels);
          entry = (case map_of (reg_metrics r) k of
                     Some e \<Rightarrow> e | None \<Rightarrow> \<lparr>mv_name = name, mv_type = TypeCounter, mv_labels = labels, mv_val = 0\<rparr>)
      in r\<lparr>reg_types := AList.update name TypeCounter (reg_types r),
           reg_metrics := AList.update k (entry\<lparr>mv_val := mv_val entry + delta\<rparr>) (reg_metrics r)\<rparr>)"

definition IncCounter :: "gostring \<Rightarrow> labels \<Rightarrow> Registry \<Rightarrow> Registry" where
  "IncCounter name labels = AddCounter name labels 1"

definition SetGauge :: "gostring \<Rightarrow> labels \<Rightarrow> rat \<Rightarrow> Registry \<Rightarrow> Registry" where
  "SetGauge name labels val r =
     (let k = (name, encodeLabels labels);
          entry = (case map_of (reg_metrics r) k of
                     Some e \<Rightarrow> e | None \<Rightarrow> \<lparr>mv_name = name, mv_type = TypeGauge, mv_labels = labels, mv_val = 0\<rparr>)
      in r\<lparr>reg_types := AList.update name TypeGauge (reg_types r),
           reg_metrics := AList.update k (entry\<lparr>mv_val := val\<rparr>) (reg_metrics r)\<rparr>)"

section \<open>Exposition\<close>

text \<open>The three replacements, one after the other.\<close>

definition replace_char :: "char \<Rightarrow> gostring \<Rightarrow> gostring \<Rightarrow> gostring" where
  "replace_char c new s = concat (map (\<lambda>d. if d = c then new else [d]) s)"

definition escape_value :: "gostring \<Rightarrow> gostring" where
  "escape_value v =
     replace_char (CHR 0x0A) [CHR 0x5C, CHR ''n''] (replace_char (CHR 0x22) [CHR 0x5C, CHR 0x22] (replace_char (CHR 0x5C) [CHR 0x5C, CHR 0x5C] v))"

definition formatLabels :: "labels \<Rightarrow> gostring" where
  "formatLabels labels =
     Join (map (\<lambda>k. k @ ''='' @ [CHR 0x22] @ escape_value (the (map_of labels k)) @ [CHR 0x22]) (sorted_keys labels)) '',''"

definition sortedMetricNames :: "Registry \<Rightarrow> gostring list" where
  "sortedMetricNames r = sort (map fst (reg_types r))"

definition collectEntriesByName :: "gostring \<Rightarrow> Registry \<Rightarrow> metricValue list" where
  "collectEntriesByName name r = sort_key (\<lambda>e. encodeLabels (mv_labels e)) (filter (\<lambda>e. mv_name e = name) (map snd (reg_metrics r)))"

definition type_text :: "MetricType \<Rightarrow> gostring" where
  "type_text t = (case t of TypeCounter \<Rightarrow> ''counter'' | TypeGauge \<Rightarrow> ''gauge'')"

definition render_entry :: "(rat \<Rightarrow> gostring) \<Rightarrow> metricValue \<Rightarrow> gostring" where
  "render_entry fmt e =
     (if mv_labels e = [] then mv_name e @ '' '' @ fmt (mv_val e)
      else mv_name e @ ''{'' @ formatLabels (mv_labels e) @ ''} '' @ fmt (mv_val e))"

definition Render :: "(rat \<Rightarrow> gostring) \<Rightarrow> Registry \<Rightarrow> gostring" where
  "Render fmt r = concat (map (\<lambda>name.
     ''# TYPE '' @ name @ '' '' @ type_text (the (map_of (reg_types r) name)) @ [CHR 0x0A]
     @ concat (map (\<lambda>e. render_entry fmt e @ [CHR 0x0A]) (collectEntriesByName name r))) (sortedMetricNames r))"

section \<open>Escaping\<close>

fun escape_char :: "char \<Rightarrow> gostring" where
  "escape_char c = (if c = CHR 0x5C then [CHR 0x5C, CHR 0x5C] else if c = CHR 0x22 then [CHR 0x5C, CHR 0x22]
     else if c = CHR 0x0A then [CHR 0x5C, CHR ''n''] else [c])"

lemma escape_value_chars: "escape_value v = concat (map escape_char v)"
  by (induction v) (auto simp: escape_value_def replace_char_def)

text \<open>How a scraper reads a quoted value: up to the closing quote, undoing the escapes.\<close>

fun read_value :: "gostring \<Rightarrow> (gostring \<times> gostring) option" where
  "read_value [] = None"
| "read_value (c # s) =
     (if c = CHR 0x22 then Some ([], s)
      else if c = CHR 0x5C
      then (case s of [] \<Rightarrow> None
            | d # t \<Rightarrow> map_option (\<lambda>(v, rest). ((if d = CHR ''n'' then CHR 0x0A else d) # v, rest)) (read_value t))
      else map_option (\<lambda>(v, rest). (c # v, rest)) (read_value s))"

lemma read_escaped: "read_value (escape_value v @ CHR 0x22 # rest) = Some (v, rest)"
  unfolding escape_value_chars by (induction v) auto

lemma escaped_one_line: "CHR 0x0A \<notin> set (escape_value v)"
  unfolding escape_value_chars by (induction v) auto

text \<open>The labels of an exposition line, up to the closing brace; \<open>n\<close> bounds their number.\<close>

fun read_labels :: "nat \<Rightarrow> gostring \<Rightarrow> ((gostring \<times> gostring) list \<times> gostring) option" where
  "read_labels 0 s = None"
| "read_labels (Suc n) s =
     (let k = takeWhile (\<lambda>c. c \<noteq> CHR ''='') s; s1 = dropWhile (\<lambda>c. c \<noteq> CHR ''='') s
      in case s1 of
           e # q # s2 \<Rightarrow>
             if q \<noteq> CHR 0x22 then None
             else (case read_value s2 of
                     Some (v, c # s3) \<Rightarrow>
                       if c = CHR ''}'' then Some ([(k, v)], s3)
                       else if c = CHR '','' then map_option (\<lambda>(l, rest). ((k, v) # l, rest)) (read_labels n s3) else None
                   | _ \<Rightarrow> None)
         | _ \<Rightarrow> None)"

lemma read_labels_format:
  assumes "ks \<noteq> []" "length ks \<le> n" "\<forall>k\<in>set ks. CHR ''='' \<notin> set k"
  shows "read_labels n (Join (map (\<lambda>k. k @ ''='' @ [CHR 0x22] @ escape_value (f k) @ [CHR 0x22]) ks) '','' @ ''}'' @ rest) =
    Some (map (\<lambda>k. (k, f k)) ks, rest)"
  using assms
proof (induction ks arbitrary: n)
  case (Cons k ks)
  obtain m where n: "n = Suc m" using Cons.prems(2) by (cases n) auto
  have t: "takeWhile (\<lambda>c. c \<noteq> CHR ''='') (k @ CHR ''='' # x) = k" "dropWhile (\<lambda>c. c \<noteq> CHR ''='') (k @ CHR ''='' # x) = CHR ''='' # x" for x
    using Cons.prems(3) by (induction k) auto
  have r: "read_value (escape_value (f k) @ CHR 0x22 # x) = Some (f k, x)" for x by (rule read_escaped)
  show ?case
  proof (cases ks)
    case Nil
    then show ?thesis by (simp add: n t r)
  next
    case (Cons l ls)
    then show ?thesis using Cons.IH [of m] Cons.prems by (simp add: n t r)
  qed
qed simp

text \<open>A line of the exposition says what was recorded: whatever bytes the label values hold (quotes, backslashes, line breaks), a reader
  that undoes the escapes gets every label with its value, in the order of the keys, and what follows the brace; and the values
  put no line break into the line.
\<close>

theorem metrics_roundtrip:
  assumes "labels \<noteq> []" "\<forall>k\<in>fst ` set labels. CHR ''='' \<notin> set k \<and> CHR 0x0A \<notin> set k" "mv_labels e = labels"
  shows "\<exists>line. render_entry fmt e = mv_name e @ ''{'' @ line \<and> line = formatLabels labels @ ''} '' @ fmt (mv_val e)
    \<and> read_labels (length labels) line = Some (map (\<lambda>k. (k, the (map_of labels k))) (sorted_keys labels), '' '' @ fmt (mv_val e))
    \<and> CHR 0x0A \<notin> set (formatLabels labels)"
proof -
  let ?ks = "sorted_keys labels"
  have k: "?ks \<noteq> []" "length ?ks \<le> length labels" "set ?ks = fst ` set labels"
    using assms(1) by (simp_all add: sorted_keys_def) (metis length_0_conv length_map length_sort)
  have "read_labels (length labels) (formatLabels labels @ ''}'' @ ('' '' @ fmt (mv_val e))) =
      Some (map (\<lambda>k. (k, the (map_of labels k))) ?ks, '' '' @ fmt (mv_val e))"
    unfolding formatLabels_def by (rule read_labels_format [OF k(1,2)]) (use assms(2) k(3) in auto)
  moreover have "CHR 0x0A \<notin> set (Join (map (\<lambda>k. k @ ''='' @ [CHR 0x22] @ escape_value (the (map_of labels k)) @ [CHR 0x22]) ks) '','')"
    if "set ks \<subseteq> fst ` set labels" for ks
    using that assms(2) by (induction ks rule: induct_list012) (auto simp: escaped_one_line)
  ultimately show ?thesis using assms(1,3) k(3) by (simp add: render_entry_def formatLabels_def)
qed

section \<open>Series\<close>

datatype reg_event = EAdd gostring labels rat | ESet gostring labels rat

fun reg_step :: "reg_event \<Rightarrow> Registry \<Rightarrow> Registry \<times> unit" where
  "reg_step (EAdd name l d) r = (AddCounter name l d r, ())"
| "reg_step (ESet name l v) r = (SetGauge name l v r, ())"

definition reg_inv :: "Registry \<Rightarrow> bool" where
  "reg_inv r \<longleftrightarrow> distinct (map fst (reg_metrics r)) \<and> distinct (map fst (reg_types r))
     \<and> (\<forall>(k, e)\<in>set (reg_metrics r). k = (mv_name e, encodeLabels (mv_labels e)) \<and> mv_name e \<in> fst ` set (reg_types r))"

lemma reg_inv_new: "reg_inv NewRegistry"
  by (simp add: reg_inv_def NewRegistry_def)

lemma set_update:
  "distinct (map fst al) \<Longrightarrow> set (AList.update k v al) = {(k, v)} \<union> {p \<in> set al. fst p \<noteq> k}"
  by (induction al) (auto simp: image_iff)

lemma reg_inv_step: "reg_inv r \<Longrightarrow> reg_inv (fst (reg_step e r))"
  by (cases e)
    (auto simp: reg_inv_def AddCounter_def SetGauge_def Let_def distinct_update set_update dom_update split: option.split dest: map_of_SomeD)

interpretation registry_ops: event_machine reg_step reg_inv
  by unfold_locales (rule reg_inv_step)

definition series_value :: "gostring \<Rightarrow> labels \<Rightarrow> Registry \<Rightarrow> rat" where
  "series_value name l r = (case map_of (reg_metrics r) (name, encodeLabels l) of Some e \<Rightarrow> mv_val e | None \<Rightarrow> 0)"

definition plain_labels :: "labels \<Rightarrow> bool" where
  "plain_labels l \<longleftrightarrow> distinct (map fst l)
     \<and> (\<forall>(k, v)\<in>set l. CHR ''='' \<notin> set k \<and> CHR '','' \<notin> set k \<and> CHR '','' \<notin> set v)"

lemma Split_Join:
  "ps \<noteq> [] \<Longrightarrow> \<forall>p\<in>set ps. c \<notin> set p \<Longrightarrow> Split (Join ps [c]) c = ps"
proof (induction ps rule: induct_list012)
  case (2 p)
  have "c \<notin> set p \<Longrightarrow> Split p c = [p]" by (induction p) auto
  with 2 show ?case by simp
qed (simp_all add: Split_append)

lemma sorted_keys_map: "distinct (map fst l) \<Longrightarrow> sorted_keys l = sorted_list_of_set (dom (map_of l))"
  using sorted_list_of_set_sort_remdups [of "map fst l"] by (simp add: sorted_keys_def dom_map_of_conv_image_fst distinct_remdups_id)

lemma encodeLabels_eq:
  assumes "plain_labels l" "plain_labels l'"
  shows "encodeLabels l = encodeLabels l' \<longleftrightarrow> map_of l = map_of l'"
proof
  let ?part = "\<lambda>l k. k @ ''='' @ the (map_of l k)"
  have split: "l \<noteq> [] \<Longrightarrow> Split (encodeLabels l) (CHR '','') = map (?part l) (sorted_keys l)" if "plain_labels l" for l
  proof -
    assume l: "l \<noteq> []"
    have "CHR '','' \<notin> set (?part l k)" if "k \<in> fst ` set l" for k
    proof -
      obtain v where "map_of l k = Some v" using \<open>k \<in> fst ` set l\<close> by (metis map_of_eq_None_iff not_None_eq)
      moreover from this have "(k, v) \<in> set l" by (rule map_of_SomeD)
      ultimately show ?thesis using \<open>plain_labels l\<close> by (auto simp: plain_labels_def)
    qed
    moreover have "sorted_keys l \<noteq> []" "set (sorted_keys l) = fst ` set l"
      using l by (simp_all add: sorted_keys_def) (metis length_0_conv length_map length_sort)
    ultimately show ?thesis using l by (simp add: encodeLabels_def Split_Join)
  qed
  have nonempty: "l \<noteq> [] \<Longrightarrow> encodeLabels l \<noteq> []" if "plain_labels l" for l
    using split [OF that] by (auto simp: sorted_keys_def dest: arg_cong [of _ _ length])
  have key: "takeWhile (\<lambda>c. c \<noteq> CHR ''='') (?part l k) = k" if "plain_labels l" "k \<in> fst ` set l" for l k
  proof -
    have "CHR ''='' \<notin> set k" using that by (auto simp: plain_labels_def)
    then have "takeWhile (\<lambda>c. c \<noteq> CHR ''='') (k @ CHR ''='' # x) = k" for x by (induction k) auto
    then show ?thesis by simp
  qed
  assume e: "encodeLabels l = encodeLabels l'"
  show "map_of l = map_of l'"
  proof (cases "l = [] \<or> l' = []")
    case True
    have "encodeLabels [] = []" by (simp add: encodeLabels_def)
    then show ?thesis using True e nonempty [OF assms(1)] nonempty [OF assms(2)] by metis
  next
    case False
    have parts: "map (?part l) (sorted_keys l) = map (?part l') (sorted_keys l')"
      using split [OF assms(1)] split [OF assms(2)] False e by simp
    have "map (takeWhile (\<lambda>c. c \<noteq> CHR ''='')) (map (?part l) (sorted_keys l)) = sorted_keys l" if "plain_labels l" for l
      unfolding map_map by (rule map_idI) (use key [OF that] in \<open>auto simp: sorted_keys_def\<close>)
    from this [OF assms(1)] this [OF assms(2)] parts have keys: "sorted_keys l = sorted_keys l'" by metis
    then have doms: "fst ` set l = fst ` set l'" by (metis list.set_map set_sort sorted_keys_def)
    have "map_of l k = map_of l' k" for k
    proof (cases "k \<in> fst ` set l")
      case True
      then have "k \<in> set (sorted_keys l')" using doms by (simp add: sorted_keys_def)
      moreover have "\<forall>k\<in>set (sorted_keys l'). ?part l k = ?part l' k" using parts unfolding keys by simp
      ultimately have "the (map_of l k) = the (map_of l' k)" by simp
      moreover have "map_of l k \<noteq> None" "map_of l' k \<noteq> None" using True doms by (simp_all add: map_of_eq_None_iff)
      ultimately show ?thesis by auto
    qed (use doms in \<open>metis map_of_eq_None_iff\<close>)
    then show ?thesis ..
  qed
next
  assume m: "map_of l = map_of l'"
  then have "l = [] \<longleftrightarrow> l' = []" by (cases l; cases l') (auto simp: fun_eq_iff split: if_splits)
  then show "encodeLabels l = encodeLabels l'"
    using assms m by (simp add: encodeLabels_def sorted_keys_map plain_labels_def)
qed

text \<open>What a series stands for: the last gauge value, plus what was added since, over the operations that name it with the same labels.\<close>

fun total :: "gostring \<Rightarrow> labels \<Rightarrow> reg_event list \<Rightarrow> rat \<Rightarrow> rat" where
  "total n l [] v = v"
| "total n l (EAdd n' l' d # es) v = total n l es (if n' = n \<and> map_of l' = map_of l then v + d else v)"
| "total n l (ESet n' l' x # es) v = total n l es (if n' = n \<and> map_of l' = map_of l then x else v)"

fun event_labels :: "reg_event \<Rightarrow> labels" where
  "event_labels (EAdd n l d) = l"
| "event_labels (ESet n l x) = l"

text \<open>Property C39. A series counts exactly its own operations: over any sequence of operations on a new registry, with labels that hold no comma and keys
  that hold no equals sign, the value of a series is the last value set plus the sum of what was added since under its name and with the same
  labels, in whatever order they are given; and the registry stays consistent (every entry under its own key and with a declared type).
\<close>

theorem metrics_series:
  assumes "plain_labels l" "list_all (\<lambda>e. plain_labels (event_labels e)) es"
  shows "series_value n l (fst (run reg_step es NewRegistry)) = total n l es 0 \<and> reg_inv (fst (run reg_step es NewRegistry))"
proof -
  have "series_value n l (fst (run reg_step es r)) = total n l es (series_value n l r)" for r
    using assms(2)
  proof (induction es arbitrary: r)
    case (Cons e es)
    have "series_value n l (fst (reg_step e r)) = total n l [e] (series_value n l r)"
      using encodeLabels_eq [OF assms(1), of "event_labels e"] Cons.prems
      by (cases e) (auto simp: series_value_def AddCounter_def SetGauge_def Let_def update_conv' split: option.split)
    moreover have "total n l (e # es) v = total n l es (total n l [e] v)" for v by (cases e) simp_all
    ultimately show ?case using Cons by (simp add: split_beta Let_def)
  qed simp
  moreover have "series_value n l NewRegistry = 0" by (simp add: series_value_def NewRegistry_def)
  ultimately show ?thesis using registry_ops.run_inv [OF reg_inv_new] by simp
qed

text \<open>Without the restriction two different sets of labels can share a series.\<close>

lemma labels_collide: "encodeLabels [(''modem'', ''a,status=b'')] = encodeLabels [(''modem'', ''a''), (''status'', ''b'')]"
  by code_simp

abbreviation m1_labels :: labels where
  "m1_labels \<equiv> [(''modem'', ''m1''), (''status'', ''ok'')]"

theorem metrics_series_witness:
  "series_value ''sms'' m1_labels (fst (run reg_step [EAdd ''sms'' m1_labels 1, EAdd ''sms'' [(''status'', ''ok''), (''modem'', ''m1'')] 2,
     EAdd ''sms'' [(''modem'', ''m2''), (''status'', ''ok'')] 5] NewRegistry)) = 3"
proof -
  have p: "plain_labels m1_labels" by (simp add: plain_labels_def)
  have q: "list_all (\<lambda>e. plain_labels (event_labels e)) [EAdd ''sms'' m1_labels 1, EAdd ''sms'' [(''status'', ''ok''), (''modem'', ''m1'')] 2,
     EAdd ''sms'' [(''modem'', ''m2''), (''status'', ''ok'')] 5]" by (simp add: plain_labels_def)
  have "map_of [(''status'', ''ok''), (''modem'', ''m1'')] = map_of m1_labels" by (auto simp: fun_eq_iff)
  moreover have "map_of [(''modem'', ''m2''), (''status'', ''ok'')] \<noteq> map_of m1_labels" by (auto simp: fun_eq_iff)
  ultimately have "total ''sms'' m1_labels [EAdd ''sms'' m1_labels 1, EAdd ''sms'' [(''status'', ''ok''), (''modem'', ''m1'')] 2,
      EAdd ''sms'' [(''modem'', ''m2''), (''status'', ''ok'')] 5] 0 = 3"
    by (simp del: map_of.simps)
  with metrics_series [OF p q, of "''sms''"] show ?thesis by simp
qed

theorem metrics_roundtrip_witness:
  "\<exists>line. render_entry (\<lambda>_. ''1'') \<lparr>mv_name = ''sms'', mv_type = TypeCounter, mv_labels = [(''modem'', [CHR 0x22, CHR 0x0A])], mv_val = 1\<rparr> = ''sms{'' @ line
    \<and> read_labels 1 line = Some ([(''modem'', [CHR 0x22, CHR 0x0A])], '' 1'')"
  using metrics_roundtrip [of "[(''modem'', [CHR 0x22, CHR 0x0A])]" "\<lparr>mv_name = ''sms'', mv_type = TypeCounter, mv_labels = [(''modem'', [CHR 0x22, CHR 0x0A])], mv_val = 1\<rparr>"
      "\<lambda>_. ''1''"]
  by (auto simp: sorted_keys_def)

end
