(* ===== verification/Gateway.thy ===== *)
theory Gateway
  imports Modem_Drivers Status_Service MQTT_Client Config Operator Recipients Tariff
begin

text \<open>
  The gateway of one modem (\<^verbatim>\<open>internal/services\<close>: gateway.go, gateway_ops.go, gateway_handlers.go,
  gateway_subscriptions.go, gateway_tariff.go, inbox.go, call_history.go, event.go): the state of \<^verbatim>\<open>ModemRunner\<close> with the services it owns,
  the callbacks that turn their events into publications and records, and the handlers of the MQTT commands.
  An operation returns the new state and its effects in order: calls of the client's \<^verbatim>\<open>Publish\<close> (topic, retained
  flag, payload), actions on the modem, goroutines started. What \<^verbatim>\<open>encoding/json\<close> writes is
  represented by the value it is given, what it reads by the decoded value (\<open>None\<close> when decoding fails). The record
  \<open>gw_env\<close> holds the clock, formatted times and numbers, the outcome of file writes and the connection state of the client at the moment
  of the operation. Metrics and logs are left out. The file of a history is part of the state.
\<close>

section \<open>Data\<close>

record ReceivedSMS =
  rx_ID :: gostring
  rx_ModemID :: gostring
  rx_Sender :: gostring
  rx_From :: gostring
  rx_Timestamp :: gostring
  rx_Text :: gostring

record CallRecord =
  cr_ID :: gostring
  cr_ModemID :: gostring
  cr_Number :: gostring
  cr_Direction :: gostring
  cr_Status :: gostring
  cr_Duration :: int
  cr_Timestamp :: gostring

datatype jval = JStr gostring | JNum rat

record EventPayload =
  ep_EventType :: gostring
  ep_Event :: gostring
  ep_Category :: gostring
  ep_Level :: gostring
  ep_Message :: gostring
  ep_Timestamp :: gostring
  ep_ModemID :: gostring
  ep_Data :: "(gostring \<times> jval) list"

datatype gw_payload =
    Raw gostring
  | JHistory "ReceivedSMS list"
  | JCalls "CallRecord list"
  | JSms AssembledSMS
  | JHealth ModemHealth
  | JUsage UsageStatus
  | JEvent EventPayload
  | JAlert AlertEvent
  | JDelivery DeliveryEvent
  | JUssd USSDResponse
  | JCall CallEvent
  | JReport DiagnosticReport
  | JModems nat gostring ModemConfig gostring
  | JLast gostring gostring gostring

datatype gw_effect =
    Pub gostring bool gw_payload
  | SmsEff effect
  | CallEff call_effect
  | SpawnDial gostring

record gw_env =
  ge_conn :: bool
  ge_now :: instant
  ge_local :: gostring
  ge_format :: "gotime \<Rightarrow> gostring"
  ge_writeOK :: bool
  ge_tariff :: Env
  ge_fmt :: "nat \<Rightarrow> rat \<Rightarrow> gostring"
  ge_errText :: "svc_error \<Rightarrow> gostring"
  ge_pf :: "gostring \<Rightarrow> rat option"
  ge_compile :: "gostring \<Rightarrow> (gostring \<Rightarrow> gostring list) option"
  ge_lt :: "rune \<Rightarrow> bool"
  ge_up :: "rune \<Rightarrow> rune"
  ge_lo :: "rune \<Rightarrow> rune"

record ModemRunner =
  rn_mCfg :: ModemConfig
  rn_cfg :: Config
  rn_topics :: Topics
  rn_lastHealth :: ModemHealth
  rn_lastBalance :: rat
  rn_lastCurrency :: gostring
  rn_lastBalanceCheck :: instant
  rn_driver :: bool
  rn_sms :: "SMSService option"
  rn_ussd :: "USSDService option"
  rn_call :: "CallService option"
  rn_tariff :: "Manager option"
  rn_received :: "ReceivedSMS list"
  rn_calls :: "CallRecord list"
  rn_slot :: int
  rn_recipients :: "RecipientsManager option"
  rn_sanitizer :: Sanitizer
  rn_inboxFile :: "ReceivedSMS list option"
  rn_callsFile :: "CallRecord list option"

datatype gw_error = ErrNotInitialized | GwSMS svc_error | GwCall call_error | GwUSSD ussd_error | GwPolicy sec_error

definition emptyHealth :: ModemHealth where
  "emptyHealth = \<lparr>mh_Status = [], mh_Signal = 0, mh_SignalDBm = 0, mh_Operator = [], mh_Network = [], mh_SIM = [], mh_ModemID = []\<rparr>"

text \<open>One operation after the other, with their effects.\<close>

definition then_do :: "('s \<Rightarrow> 's \<times> 'e list) \<Rightarrow> ('s \<Rightarrow> 's \<times> 'e list) \<Rightarrow> 's \<Rightarrow> 's \<times> 'e list" where
  "then_do f g s = (let (s1, e1) = f s; (s2, e2) = g s1 in (s2, e1 @ e2))"

section \<open>Histories\<close>

definition safe_modem_id :: "gostring \<Rightarrow> gostring" where
  "safe_modem_id s =
     (let clean = concat (map (\<lambda>r. if safe_char r then string_of_runes [r] else ''_'') (runes s))
      in if clean = [] then ''default'' else clean)"

definition storage_dir :: "ModemRunner \<Rightarrow> gostring" where
  "storage_dir r = (let d = ct_StorageDir (cfg_Tariff (rn_cfg r)) in if d \<noteq> [] then d else ''data'')"

definition inboxFilePath :: "ModemRunner \<Rightarrow> gostring" where
  "inboxFilePath r = path_Join [storage_dir r, ''inbox_'' @ safe_modem_id (mc_ID (rn_mCfg r)) @ ''.json'']"

definition callHistoryFilePath :: "ModemRunner \<Rightarrow> gostring" where
  "callHistoryFilePath r = path_Join [storage_dir r, ''calls_'' @ safe_modem_id (mc_ID (rn_mCfg r)) @ ''.json'']"

definition keep_last :: "nat \<Rightarrow> 'a list \<Rightarrow> 'a list" where
  "keep_last n xs = (if n < length xs then drop (length xs - n) xs else xs)"

definition maxInboxMessages :: nat where
  "maxInboxMessages = 100"

definition maxCallHistory :: nat where
  "maxCallHistory = 100"

definition loadInbox :: "ModemRunner \<Rightarrow> ModemRunner" where
  "loadInbox r = (case rn_inboxFile r of Some msgs \<Rightarrow> r\<lparr>rn_received := msgs\<rparr> | None \<Rightarrow> r)"

definition saveInboxLocked :: "gw_env \<Rightarrow> ModemRunner \<Rightarrow> ModemRunner" where
  "saveInboxLocked env r = (if ge_writeOK env then r\<lparr>rn_inboxFile := Some (rn_received r)\<rparr> else r)"

definition publishSMSHistory :: "gw_env \<Rightarrow> ModemRunner \<Rightarrow> gw_effect list" where
  "publishSMSHistory env r = (if ge_conn env then [Pub (tp_SMSHistory (rn_topics r)) True (JHistory (rn_received r))] else [])"

definition recordIncomingSMS :: "gw_env \<Rightarrow> AssembledSMS \<Rightarrow> ModemRunner \<Rightarrow> ModemRunner \<times> gw_effect list" where
  "recordIncomingSMS env msg r =
     (let tsStr = ge_format env (As_Timestamp msg)
      in if list_ex (\<lambda>e. rx_Sender e = As_From msg \<and> rx_Text e = As_Text msg \<and> rx_Timestamp e = tsStr) (rn_received r) then (r, [])
         else
           (let entry = \<lparr>rx_ID = mc_ID (rn_mCfg r) @ ''-'' @ itoa (ge_now env), rx_ModemID = mc_ID (rn_mCfg r), rx_Sender = As_From msg,
                  rx_From = As_From msg, rx_Timestamp = tsStr, rx_Text = As_Text msg\<rparr>;
                r1 = saveInboxLocked env (r\<lparr>rn_received := keep_last maxInboxMessages (rn_received r @ [entry])\<rparr>)
            in (r1, publishSMSHistory env r1)))"

definition GetReceivedSMS :: "ModemRunner \<Rightarrow> ReceivedSMS list" where
  "GetReceivedSMS r = rn_received r"

definition ClearReceivedSMS :: "gw_env \<Rightarrow> ModemRunner \<Rightarrow> ModemRunner \<times> gw_effect list" where
  "ClearReceivedSMS env r =
     (let r1 = saveInboxLocked env (r\<lparr>rn_received := []\<rparr>)
      in (r1, publishSMSHistory env r1 @
         (if ge_conn env then [Pub (tp_SMSLast (rn_topics r)) True (Raw ''{\"text\":\"\",\"from\":\"\",\"timestamp\":\"\"}'')] else [])))"

definition loadCallHistory :: "ModemRunner \<Rightarrow> ModemRunner" where
  "loadCallHistory r = (case rn_callsFile r of Some calls \<Rightarrow> r\<lparr>rn_calls := calls\<rparr> | None \<Rightarrow> r)"

definition saveCallHistoryLocked :: "gw_env \<Rightarrow> ModemRunner \<Rightarrow> ModemRunner" where
  "saveCallHistoryLocked env r = (if ge_writeOK env then r\<lparr>rn_callsFile := Some (rn_calls r)\<rparr> else r)"

definition publishCallHistory :: "gw_env \<Rightarrow> ModemRunner \<Rightarrow> gw_effect list" where
  "publishCallHistory env r = (if ge_conn env then [Pub (tp_CallHistory (rn_topics r)) True (JCalls (rn_calls r))] else [])"

definition recordCall :: "gw_env \<Rightarrow> CallRecord \<Rightarrow> ModemRunner \<Rightarrow> ModemRunner \<times> gw_effect list" where
  "recordCall env rec0 r =
     (let rec1 = rec0\<lparr>cr_ID := (if cr_ID rec0 = [] then mc_ID (rn_mCfg r) @ ''-call-'' @ itoa (ge_now env) else cr_ID rec0),
            cr_ModemID := (if cr_ModemID rec0 = [] then mc_ID (rn_mCfg r) else cr_ModemID rec0),
            cr_Timestamp := (if cr_Timestamp rec0 = [] then ge_local env else cr_Timestamp rec0)\<rparr>;
          r1 = saveCallHistoryLocked env (r\<lparr>rn_calls := keep_last maxCallHistory (rn_calls r @ [rec1])\<rparr>)
      in (r1, publishCallHistory env r1))"

definition GetCallHistory :: "ModemRunner \<Rightarrow> CallRecord list" where
  "GetCallHistory r = rn_calls r"

definition ClearCallHistory :: "gw_env \<Rightarrow> ModemRunner \<Rightarrow> ModemRunner \<times> gw_effect list" where
  "ClearCallHistory env r = (let r1 = saveCallHistoryLocked env (r\<lparr>rn_calls := []\<rparr>) in (r1, publishCallHistory env r1))"

section \<open>Events and health\<close>

definition NewEvent :: "gw_env \<Rightarrow> gostring \<Rightarrow> gostring \<Rightarrow> gostring \<Rightarrow> gostring \<Rightarrow> gostring \<Rightarrow> (gostring \<times> jval) list \<Rightarrow> EventPayload" where
  "NewEvent env modemID eventType category level message data =
     \<lparr>ep_EventType = eventType, ep_Event = eventType, ep_Category = category, ep_Level = level, ep_Message = message,
      ep_Timestamp = ge_local env, ep_ModemID = modemID, ep_Data = data\<rparr>"

text \<open>The event types that the discovery message of the modem's event entity announces.\<close>

definition EventTypes :: "gostring list" where
  "EventTypes = [''low_balance'', ''sms_limit_warning'', ''sms_limit_exceeded'', ''call_minutes_warning'', ''call_minutes_exceeded'',
     ''data_limit_warning'', ''data_limit_exceeded'', ''modem_disconnected'', ''modem_degraded'', ''modem_ready'', ''modem_error'', ''sms_send_failed'']"

definition publishEvent :: "gw_env \<Rightarrow> EventPayload \<Rightarrow> ModemRunner \<Rightarrow> gw_effect list" where
  "publishEvent env ev r =
     (if \<not> ge_conn env then []
      else [Pub (tp_Event (rn_topics r)) False
              (JEvent (ev\<lparr>ep_ModemID := (if ep_ModemID ev = [] then mc_ID (rn_mCfg r) else ep_ModemID ev),
                          ep_Timestamp := (if ep_Timestamp ev = [] then ge_local env else ep_Timestamp ev)\<rparr>))])"

definition updateHealth :: "ModemHealth \<Rightarrow> ModemRunner \<Rightarrow> ModemRunner" where
  "updateHealth h r =
     r\<lparr>rn_lastHealth := (if mh_Operator h = [] \<and> mh_Operator (rn_lastHealth r) \<noteq> []
                         then h\<lparr>mh_Operator := mh_Operator (rn_lastHealth r)\<rparr> else h)\<rparr>"

definition publishDisconnectedState :: "gw_env \<Rightarrow> gostring \<Rightarrow> ModemRunner \<Rightarrow> ModemRunner \<times> gw_effect list" where
  "publishDisconnectedState env status r =
     (let r1 = updateHealth (emptyHealth\<lparr>mh_Status := status, mh_SIM := ''DISCONNECTED''\<rparr>) r; mid = mc_ID (rn_mCfg r)
      in (r1, if \<not> ge_conn env then []
              else Pub (tp_Health (rn_topics r)) True
                     (JHealth (emptyHealth\<lparr>mh_Status := status, mh_SIM := ''DISCONNECTED'', mh_ModemID := mid, mh_SignalDBm := -999\<rparr>))
                   # publishEvent env (NewEvent env mid ''modem_disconnected'' ''hardware'' ''critical''
                       (''Modem '' @ mid @ '' disconnected: '' @ status) []) r1
                   @ [Pub (mq_TopicPrefix (cfg_MQTT (rn_cfg r)) @ ''/gateway/modems'') True (JModems 0 ''none'' (rn_mCfg r) status)]))"

record ModemSummary =
  su_ID :: gostring
  su_Type :: gostring
  su_Health :: ModemHealth
  su_Balance :: rat
  su_Currency :: gostring

definition Summary :: "ModemRunner \<Rightarrow> ModemSummary" where
  "Summary r =
     (let base = (rn_lastBalance r, if rn_lastCurrency r = [] then ''RUB'' else rn_lastCurrency r);
          (balance, currency) = (case rn_tariff r of
             Some tm \<Rightarrow> (let st = Status tm in if us_Balance st \<noteq> 0 \<or> rn_lastBalance r = 0 then (us_Balance st, us_Currency st) else base)
           | None \<Rightarrow> base)
      in \<lparr>su_ID = mc_ID (rn_mCfg r), su_Type = mc_Type (rn_mCfg r), su_Health = rn_lastHealth r, su_Balance = balance, su_Currency = currency\<rparr>)"

definition RunnerStatus :: "ModemRunner \<Rightarrow> gostring" where
  "RunnerStatus r = (if mh_Status (rn_lastHealth r) = [] then ''ready'' else mh_Status (rn_lastHealth r))"

definition RunnerSignal :: "ModemRunner \<Rightarrow> int" where
  "RunnerSignal r = mh_Signal (rn_lastHealth r)"

definition RunnerOperator :: "ModemRunner \<Rightarrow> gostring" where
  "RunnerOperator r = mh_Operator (rn_lastHealth r)"

definition SetSlotIndex :: "int \<Rightarrow> ModemRunner \<Rightarrow> ModemRunner" where
  "SetSlotIndex index r = r\<lparr>rn_slot := (if index \<le> 0 then 1 else index)\<rparr>"

definition SetRecipientsManager :: "RecipientsManager option \<Rightarrow> ModemRunner \<Rightarrow> ModemRunner" where
  "SetRecipientsManager mgr r = r\<lparr>rn_recipients := mgr\<rparr>"

definition GetCallStatus :: "ModemRunner \<Rightarrow> CallStatus" where
  "GetCallStatus r = (case rn_call r of Some svc \<Rightarrow> cs_status svc | None \<Rightarrow> emptyStatus\<lparr>cst_Message := ''Idle''\<rparr>)"

definition NewModemRunner :: "(rune \<Rightarrow> rune) \<Rightarrow> ReceivedSMS list option \<Rightarrow> CallRecord list option \<Rightarrow> ModemConfig \<Rightarrow> Config \<Rightarrow> ModemRunner" where
  "NewModemRunner up inbox calls mCfg cfg =
     loadCallHistory (loadInbox
       \<lparr>rn_mCfg = mCfg, rn_cfg = cfg, rn_topics = NewTopics (mq_TopicPrefix (cfg_MQTT cfg)) (mc_ID mCfg), rn_lastHealth = emptyHealth,
        rn_lastBalance = 0, rn_lastCurrency = ''RUB'', rn_lastBalanceCheck = 0, rn_driver = False, rn_sms = None, rn_ussd = None,
        rn_call = None, rn_tariff = None, rn_received = [], rn_calls = [], rn_slot = 1, rn_recipients = None,
        rn_sanitizer = NewSanitizer up (sec_AllowRawAT (cfg_Security cfg)) (sec_AllowedATCommands (cfg_Security cfg)),
        rn_inboxFile = inbox, rn_callsFile = calls\<rparr>)"

section \<open>Accounting\<close>

text \<open>What the callback of the tariff manager publishes for an alert.\<close>

definition onAlert :: "gw_env \<Rightarrow> ModemRunner \<Rightarrow> AlertEvent \<Rightarrow> gw_effect list" where
  "onAlert env r a =
     [Pub (tp_AccountingAlert (rn_topics r)) False (JAlert a), Pub (tp_Alert (rn_topics r)) False (Raw (al_Message a))]
     @ publishEvent env (NewEvent env (mc_ID (rn_mCfg r)) (al_Type a) ''tariff'' ''warning'' (al_Message a)
         [(''value'', JNum (al_Value a)), (''threshold'', JNum (ct_MinBalanceAlert (cfg_Tariff (rn_cfg r))))]) r"

definition publishAccountingStatus :: "gw_env \<Rightarrow> Manager \<Rightarrow> ModemRunner \<Rightarrow> gw_effect list" where
  "publishAccountingStatus env tm r = (if ge_conn env then [Pub (tp_AccountingStatus (rn_topics r)) True (JUsage (Status tm))] else [])"

text \<open>An operation of the tariff manager, with the publications of its alerts.\<close>

definition with_tariff :: "gw_env \<Rightarrow> (Manager \<Rightarrow> Manager \<times> AlertEvent list) \<Rightarrow> Manager \<Rightarrow> ModemRunner \<Rightarrow> ModemRunner \<times> gw_effect list" where
  "with_tariff env f tm r = (let (tm1, alerts) = f tm in (r\<lparr>rn_tariff := Some tm1\<rparr>, concat (map (onAlert env r) alerts)))"

definition applyParsedBalance :: "gw_env \<Rightarrow> gostring \<Rightarrow> ModemRunner \<Rightarrow> ModemRunner \<times> gw_effect list" where
  "applyParsedBalance env text r =
     (case ParseBalance (ge_pf env) (ge_compile env) text (ct_BalanceRegex (cfg_Tariff (rn_cfg r))) of
        Inl _ \<Rightarrow> (r, [])
      | Inr bal \<Rightarrow>
          (let currency = (if rn_lastCurrency r = [] then ''RUB'' else rn_lastCurrency r);
               r1 = r\<lparr>rn_lastBalance := bal, rn_lastCurrency := currency\<rparr>;
               bpub = Pub (tp_Balance (rn_topics r)) False (Raw (ge_fmt env 2 bal))
           in case rn_tariff r of
                None \<Rightarrow> (r1, if ge_conn env then [bpub] else [])
              | Some tm \<Rightarrow>
                  (let (r2, effs) = with_tariff env (UpdateBalance (ge_fmt env) (ge_tariff env) bal currency) tm r1
                   in (r2, effs @ (if ge_conn env
                       then [bpub, Pub (tp_AccountingStatus (rn_topics r)) False (JUsage (Status (the (rn_tariff r2))))] else [])))))"

definition UpdateTariffConfig :: "gw_env \<Rightarrow> TariffConfig \<Rightarrow> ModemRunner \<Rightarrow> ModemRunner \<times> gw_effect list \<times> gw_error option" where
  "UpdateTariffConfig env cfg r = (case rn_tariff r of
     None \<Rightarrow> (r, [], Some ErrNotInitialized)
   | Some tm \<Rightarrow> (let tm1 = UpdateConfig (ge_tariff env) cfg tm in (r\<lparr>rn_tariff := Some tm1\<rparr>, publishAccountingStatus env tm1 r, None)))"

definition SetTariffUsage :: "gw_env \<Rightarrow> UsageUpdate \<Rightarrow> ModemRunner \<Rightarrow> ModemRunner \<times> gw_effect list \<times> gw_error option" where
  "SetTariffUsage env u r = (case rn_tariff r of
     None \<Rightarrow> (r, [], Some ErrNotInitialized)
   | Some tm \<Rightarrow> (let tm1 = SetUsage (ge_fmt env) (ge_tariff env) u tm in (r\<lparr>rn_tariff := Some tm1\<rparr>, publishAccountingStatus env tm1 r, None)))"

definition ResetTariffQuotas :: "gw_env \<Rightarrow> ModemRunner \<Rightarrow> ModemRunner \<times> gw_effect list \<times> gw_error option" where
  "ResetTariffQuotas env r = (case rn_tariff r of
     None \<Rightarrow> (r, [], Some ErrNotInitialized)
   | Some tm \<Rightarrow> (let tm1 = ResetQuotas (ge_tariff env) tm in (r\<lparr>rn_tariff := Some tm1\<rparr>, publishAccountingStatus env tm1 r, None)))"

definition GetTariffStatus :: "ModemRunner \<Rightarrow> gw_error + UsageStatus" where
  "GetTariffStatus r = (case rn_tariff r of None \<Rightarrow> Inl ErrNotInitialized | Some tm \<Rightarrow> Inr (Status tm))"

text \<open>The request of the MQTT command that sets limits and counters: the fields that are present.\<close>

record tariff_request =
  tq_SMSLimit :: "int option"
  tq_CallMinutesLimit :: "rat option"
  tq_DataTrafficLimitMB :: "int option"
  tq_ResetDayOfMonth :: "int option"
  tq_MinBalanceAlert :: "rat option"
  tq_BalanceUSSD :: "gostring option"
  tq_OperatorPreset :: "gostring option"
  tq_usage :: UsageUpdate

definition given :: "'a option \<Rightarrow> 'a \<Rightarrow> 'a" where
  "given o1 old = (case o1 of Some v \<Rightarrow> v | None \<Rightarrow> old)"

definition tariffSetHandler :: "gw_env \<Rightarrow> tariff_request option \<Rightarrow> ModemRunner \<Rightarrow> ModemRunner \<times> gw_effect list" where
  "tariffSetHandler env decoded r = (case (decoded, rn_tariff r) of
     (Some q, Some tm) \<Rightarrow>
       (let c = GetConfig tm;
            c1 = c\<lparr>tc_SMSLimit := given (tq_SMSLimit q) (tc_SMSLimit c), tc_CallMinutesLimit := given (tq_CallMinutesLimit q) (tc_CallMinutesLimit c),
                   tc_DataTrafficLimitMB := given (tq_DataTrafficLimitMB q) (tc_DataTrafficLimitMB c),
                   tc_ResetDayOfMonth := given (tq_ResetDayOfMonth q) (tc_ResetDayOfMonth c),
                   tc_MinBalanceAlert := given (tq_MinBalanceAlert q) (tc_MinBalanceAlert c),
                   tc_BalanceUSSD := given (tq_BalanceUSSD q) (tc_BalanceUSSD c), tc_OperatorPreset := given (tq_OperatorPreset q) (tc_OperatorPreset c)\<rparr>;
            tm1 = UpdateConfig (ge_tariff env) c1 tm; u = tq_usage q;
            tm2 = (if uu_SMSMonthCount u \<noteq> None \<or> uu_SMSDayCount u \<noteq> None \<or> uu_CallMinutesUsed u \<noteq> None \<or> uu_DataBytesUsed u \<noteq> None
                   then SetUsage (ge_fmt env) (ge_tariff env) u tm1 else tm1)
        in (r\<lparr>rn_tariff := Some tm2\<rparr>, publishAccountingStatus env tm2 r))
   | _ \<Rightarrow> (r, []))"

definition tariffResetHandler :: "gw_env \<Rightarrow> ModemRunner \<Rightarrow> ModemRunner \<times> gw_effect list" where
  "tariffResetHandler env r = (case rn_tariff r of
     None \<Rightarrow> (r, [])
   | Some tm \<Rightarrow> (let tm1 = ResetQuotas (ge_tariff env) tm in (r\<lparr>rn_tariff := Some tm1\<rparr>, publishAccountingStatus env tm1 r)))"

section \<open>Callbacks of the services\<close>

definition onReceived :: "gw_env \<Rightarrow> AssembledSMS \<Rightarrow> ModemRunner \<Rightarrow> ModemRunner \<times> gw_effect list" where
  "onReceived env msg =
     then_do (recordIncomingSMS env msg)
       (then_do (\<lambda>r. (r, [Pub (tp_SMSReceived (rn_topics r)) False (JSms msg), Pub (tp_SMSLast (rn_topics r)) True (JSms msg)]))
          (applyParsedBalance env (As_Text msg)))"

fun sms_effects :: "gw_env \<Rightarrow> effect list \<Rightarrow> ModemRunner \<Rightarrow> ModemRunner \<times> gw_effect list" where
  "sms_effects env [] r = (r, [])"
| "sms_effects env (Received m # es) r = then_do (onReceived env m) (sms_effects env es) r"
| "sms_effects env (StatusEvent e # es) r =
     then_do (\<lambda>r. (r, [Pub (tp_SMSStatus (rn_topics r)) False (JDelivery e)])) (sms_effects env es) r"
| "sms_effects env (e # es) r = then_do (\<lambda>r. (r, [SmsEff e])) (sms_effects env es) r"

definition call_record :: "gw_env \<Rightarrow> CallEvent \<Rightarrow> ModemRunner \<Rightarrow> CallRecord" where
  "call_record env e r =
     (let num0 = (if ce_Number e = [] then ce_From e else ce_Number e)
      in \<lparr>cr_ID = mc_ID (rn_mCfg r) @ ''-call-'' @ itoa (ge_now env), cr_ModemID = mc_ID (rn_mCfg r),
          cr_Number = (if num0 = [] then ''Unknown'' else num0), cr_Direction = (if ce_Direction e = [] then ''incoming'' else ce_Direction e),
          cr_Status = (if ce_Status e = [] then ''completed'' else ce_Status e), cr_Duration = ce_Duration e div 1000000000,
          cr_Timestamp = ge_local env\<rparr>)"

definition call_minutes :: "duration \<Rightarrow> rat" where
  "call_minutes d = of_int \<lceil>rat_of_int d / 60000000000\<rceil>"

definition onCallEvent :: "gw_env \<Rightarrow> CallEvent \<Rightarrow> ModemRunner \<Rightarrow> ModemRunner \<times> gw_effect list" where
  "onCallEvent env e =
     then_do
       (\<lambda>r. case rn_tariff r of
          Some tm \<Rightarrow>
            if ce_Type e = ''ended'' \<and> 3 * 1000000000 < ce_Duration e
            then then_do (with_tariff env (RecordCallMinutes (ge_fmt env) (ge_tariff env) (call_minutes (ce_Duration e))) tm)
                   (\<lambda>r. (r, publishAccountingStatus env (the (rn_tariff r)) r)) r
            else (r, [])
        | None \<Rightarrow> (r, []))
       (then_do (\<lambda>r. if ce_Type e = ''ended'' then recordCall env (call_record env e r) r else (r, []))
          (\<lambda>r. (r, if ce_Type e \<in> {''incoming'', ''ended''} then [Pub (tp_CallIncoming (rn_topics r)) False (JCall e)]
                   else if ce_Type e = ''dtmf'' then [Pub (tp_CallDTMF (rn_topics r)) False (JCall e)] else [])))"

fun call_effects :: "gw_env \<Rightarrow> call_effect list \<Rightarrow> ModemRunner \<Rightarrow> ModemRunner \<times> gw_effect list" where
  "call_effects env [] r = (r, [])"
| "call_effects env (CallEv e # es) r = then_do (onCallEvent env e) (call_effects env es) r"
| "call_effects env (e # es) r = then_do (\<lambda>r. (r, [CallEff e])) (call_effects env es) r"

definition onUSSDResponse :: "ModemRunner \<Rightarrow> USSDResponse \<Rightarrow> gw_effect" where
  "onUSSDResponse r resp = Pub (tp_USSDResponse (rn_topics r)) False (JUssd resp)"

definition onSignal :: "int \<Rightarrow> int \<Rightarrow> ModemRunner \<Rightarrow> gw_effect" where
  "onSignal rssi dbm r =
     Pub (tp_SignalStrength (rn_topics r)) False (Raw (''{\"rssi\":'' @ itoa rssi @ '',\"dbm\":'' @ itoa dbm @ ''}''))"

definition health_event :: "gostring \<Rightarrow> gostring \<Rightarrow> (gostring \<times> gostring \<times> gostring) option" where
  "health_event mid status =
     (if status = ''ready'' then Some (''modem_ready'', ''info'', ''Modem '' @ mid @ '' is ready and operational'')
      else if status = ''degraded'' then Some (''modem_degraded'', ''warning'', ''Modem '' @ mid @ '' operational status degraded'')
      else if status = ''not_ready'' \<or> status = ''error'' then Some (''modem_error'', ''error'', ''Modem '' @ mid @ '' error status: '' @ status)
      else None)"

definition onHealth :: "gw_env \<Rightarrow> ModemHealth \<Rightarrow> ModemRunner \<Rightarrow> ModemRunner \<times> gw_effect list" where
  "onHealth env h0 r =
     (let mid = mc_ID (rn_mCfg r); h = h0\<lparr>mh_ModemID := mid\<rparr>; prevStatus = mh_Status (rn_lastHealth r); r1 = updateHealth h r
      in (r1, Pub (tp_Health (rn_topics r)) True (JHealth h) #
          (if prevStatus \<noteq> [] \<and> prevStatus \<noteq> mh_Status h
           then case health_event mid (mh_Status h) of
                  Some (typ, level, message) \<Rightarrow> publishEvent env (NewEvent env mid typ ''hardware'' level message []) r1
                | None \<Rightarrow> []
           else [])))"

fun status_effects :: "gw_env \<Rightarrow> status_effect list \<Rightarrow> ModemRunner \<Rightarrow> ModemRunner \<times> gw_effect list" where
  "status_effects env [] r = (r, [])"
| "status_effects env (OnSignal rssi dbm # es) r = then_do (\<lambda>r. (r, [onSignal rssi dbm r])) (status_effects env es) r"
| "status_effects env (OnHealth h # es) r = then_do (onHealth env h) (status_effects env es) r"
| "status_effects env (OnDisconnect # es) r = status_effects env es r"

text \<open>The loop over unsolicited lines hands each to the three services.\<close>

definition urcStep :: "gw_env \<Rightarrow> gotime \<Rightarrow> instant \<Rightarrow> gostring \<Rightarrow> ModemRunner \<Rightarrow> ModemRunner \<times> gw_effect list" where
  "urcStep env gnow now2 line =
     then_do (\<lambda>r. case rn_sms r of
         Some svc \<Rightarrow> (let (svc1, effs) = HandleURC gnow (ge_now env) line svc in sms_effects env effs (r\<lparr>rn_sms := Some svc1\<rparr>))
       | None \<Rightarrow> (r, []))
     (then_do (\<lambda>r. case rn_call r of
         Some svc \<Rightarrow> (let (svc1, effs) = CallHandleURC (ge_now env) now2 line svc in call_effects env effs (r\<lparr>rn_call := Some svc1\<rparr>))
       | None \<Rightarrow> (r, []))
     (\<lambda>r. case rn_ussd r of
         Some svc \<Rightarrow> (let (svc1, resps) = USSDHandleURC line svc in (r\<lparr>rn_ussd := Some svc1\<rparr>, map (onUSSDResponse r) resps))
       | None \<Rightarrow> (r, [])))"

section \<open>Commands\<close>

definition RunnerSendSMS :: "gw_env \<Rightarrow> pdu_sender \<Rightarrow> (nat \<Rightarrow> instant) \<Rightarrow> gostring \<Rightarrow> gostring \<Rightarrow> ModemRunner
    \<Rightarrow> ModemRunner \<times> gw_effect list \<times> (gw_error + byte list)" where
  "RunnerSendSMS env sender clk to msg r = (case rn_sms r of
     None \<Rightarrow> (r, [], Inl ErrNotInitialized)
   | Some svc \<Rightarrow>
       (let (svc1, effs, res) = Send (ge_lt env) (ge_up env) sender clk \<lparr>rq_To = to, rq_Text = msg, rq_Message = [], rq_DeliveryReport = False\<rparr> svc;
            (r1, out1) = sms_effects env effs (r\<lparr>rn_sms := Some svc1\<rparr>)
        in case res of
             Inl err \<Rightarrow> (r1, out1, Inl (GwSMS err))
           | Inr refs \<Rightarrow>
               (case rn_tariff r of
                  Some tm \<Rightarrow>
                    if refs \<noteq> []
                    then (let (r2, out2) = then_do (with_tariff env (RecordSMS (ge_tariff env) (int (length refs))) tm)
                                 (\<lambda>r. (r, publishAccountingStatus env (the (rn_tariff r)) r)) r1
                          in (r2, out1 @ out2, Inr refs))
                    else (r1, out1, Inr refs)
                | None \<Rightarrow> (r1, out1, Inr refs))))"

text \<open>The end of a USSD exchange, with what the service's \<^verbatim>\<open>Send\<close> returned.\<close>

definition RunnerSendUSSD :: "gw_env \<Rightarrow> ussd_error + USSDResponse \<Rightarrow> ModemRunner \<Rightarrow> ModemRunner \<times> gw_effect list \<times> (gw_error + gostring)" where
  "RunnerSendUSSD env res r = (case rn_ussd r of
     None \<Rightarrow> (r, [], Inl ErrNotInitialized)
   | Some _ \<Rightarrow> (case res of
       Inl err \<Rightarrow> (r, [], Inl (GwUSSD err))
     | Inr resp \<Rightarrow> (let (r1, effs) = applyParsedBalance env (ur_Message resp) r in (r1, effs, Inr (ur_Message resp)))))"

definition RunnerDial :: "gw_env \<Rightarrow> instant \<Rightarrow> gostring option \<Rightarrow> gostring \<Rightarrow> ModemRunner \<Rightarrow> ModemRunner \<times> gw_effect list \<times> gw_error option" where
  "RunnerDial env now2 modemErr number r = (case rn_call r of
     None \<Rightarrow> (r, [], Some ErrNotInitialized)
   | Some svc \<Rightarrow> (let (svc1, effs, err) = Dial (ge_now env) now2 modemErr number svc; (r1, out) = call_effects env effs (r\<lparr>rn_call := Some svc1\<rparr>)
                 in (r1, out, map_option GwCall err)))"

definition RunnerHangup :: "gw_env \<Rightarrow> gostring option \<Rightarrow> ModemRunner \<Rightarrow> ModemRunner \<times> gw_effect list \<times> gw_error option" where
  "RunnerHangup env modemErr r = (case rn_call r of
     None \<Rightarrow> (r, [], Some ErrNotInitialized)
   | Some svc \<Rightarrow> (let (svc1, effs, err) = Hangup (ge_now env) modemErr svc; (r1, out) = call_effects env effs (r\<lparr>rn_call := Some svc1\<rparr>)
                 in (r1, out, map_option GwCall err)))"

text \<open>Raw commands: the result is the error, or what the driver gives, over any runner of commands.\<close>

definition RunnerSendRawAT :: "(rune \<Rightarrow> rune) \<Rightarrow> 'm runner \<Rightarrow> gostring \<Rightarrow> ModemRunner \<Rightarrow> ('m, gw_error + (drv_error + gostring)) state" where
  "RunnerSendRawAT up run1 cmd r = (case SanitizerValidate up (rn_sanitizer r) cmd of
     Some err \<Rightarrow> State_Monad.return (Inl (GwPolicy err))
   | None \<Rightarrow> if \<not> rn_driver r then State_Monad.return (Inl ErrNotInitialized)
            else do { out \<leftarrow> drv_SendRawAT run1 cmd; State_Monad.return (Inr out) })"

text \<open>The handler of the MQTT command and its publication; \<open>secText\<close> and \<open>drvText\<close> print the errors.\<close>

definition rawATHandler :: "(rune \<Rightarrow> rune) \<Rightarrow> (sec_error \<Rightarrow> gostring) \<Rightarrow> (drv_error \<Rightarrow> gostring) \<Rightarrow> 'm runner \<Rightarrow> gostring \<Rightarrow> ModemRunner
    \<Rightarrow> ('m, gw_effect list) state" where
  "rawATHandler up secText drvText run1 payload r =
     (let cmd = TrimSpace payload; topic = tp_CommandResponse (rn_topics r)
      in case SanitizerValidate up (rn_sanitizer r) cmd of
           Some err \<Rightarrow> State_Monad.return [Pub topic False (Raw (''REJECTED: '' @ secText err))]
         | None \<Rightarrow> do {
             out \<leftarrow> drv_SendRawAT run1 cmd;
             State_Monad.return [Pub topic False (Raw (case out of Inl err \<Rightarrow> ''ERROR: '' @ drvText err | Inr t \<Rightarrow> t))] })"

section \<open>The command that sends a message\<close>

definition extractLeadingRecipient :: "gostring \<Rightarrow> (gostring \<times> gostring) option" where
  "extractLeadingRecipient msg =
     (let trimmed = TrimSpace msg; candidate = takeWhile (\<lambda>c. c \<notin> set ('': '' @ [CHR 0x09, CHR 0x0A])) trimmed;
          rest = TrimSpace (drop (length candidate + 1) trimmed)
      in if \<not> HasPrefix trimmed ''+'' \<and> \<not> HasPrefix trimmed ''8'' \<and> \<not> HasPrefix trimmed ''7'' then None
         else if length candidate = length trimmed then None
         else case NormalizeNumber candidate of
                Inl _ \<Rightarrow> None
              | Inr nn \<Rightarrow> if rest = [] then None else Some (nn, rest))"

definition sendAndReportSMS :: "gw_env \<Rightarrow> provider_reply \<Rightarrow> pdu_sender \<Rightarrow> (nat \<Rightarrow> instant) \<Rightarrow> SendSMSRequest \<Rightarrow> gostring \<Rightarrow> gostring
    \<Rightarrow> ModemRunner \<Rightarrow> ModemRunner \<times> gw_effect list" where
  "sendAndReportSMS env reply sender clk req target msg r = (case (rn_sms r, rn_tariff r) of
     (Some svc, Some tm) \<Rightarrow>
       (let (svc1, effs, res) = Send (ge_lt env) (ge_up env) sender clk (req\<lparr>rq_To := target, rq_Text := msg\<rparr>) svc;
            (r1, out1) = sms_effects env effs (r\<lparr>rn_sms := Some svc1\<rparr>); mid = mc_ID (rn_mCfg r)
        in case res of
             Inl err \<Rightarrow>
               (r1, out1
                @ publishEvent env (NewEvent env mid ''sms_send_failed'' ''sms'' ''error''
                    (''Failed to send SMS to '' @ target @ '': '' @ ge_errText env err) [(''target'', JStr target), (''error'', JStr (ge_errText env err))]) r1
                @ (if ct_AutoCheckOnError (cfg_Tariff (rn_cfg r))
                   then (let (rep, alerts) = RunDiagnostic (ge_fmt env 2) mid True (Some (Some (us_Balance (Status tm), us_Currency (Status tm)))) reply ''sms_send_failure''
                         in map (\<lambda>a. Pub (tp_Alert (rn_topics r)) False (Raw a)) alerts @ [Pub (tp_Diagnostic (rn_topics r)) False (JReport rep)])
                   else [])
                @ (if sec_FallbackCall (cfg_Security (rn_cfg r)) \<and> rn_call r \<noteq> None then [SpawnDial target] else []))
           | Inr refs \<Rightarrow>
               (let (r2, out2) = with_tariff env (RecordSMS (ge_tariff env) (int (length refs))) tm r1
                in (r2, out1 @ out2 @ [Pub (tp_AccountingStatus (rn_topics r)) False (JUsage (Status (the (rn_tariff r2))))])))
   | _ \<Rightarrow> (r, []))"

text \<open>The numbers a message goes to and its text: the number of the request, one that leads the text, or the registered
  recipients; without any, nobody.\<close>

definition sms_targets :: "SendSMSRequest \<Rightarrow> gostring list option \<Rightarrow> gostring list \<times> gostring" where
  "sms_targets req recipients =
     (let msg = GetText req
      in if rq_To req \<noteq> [] then ([rq_To req], msg)
         else case extractLeadingRecipient msg of
                Some (to, rest) \<Rightarrow> ([to], rest)
              | None \<Rightarrow> ((case recipients of Some nums \<Rightarrow> nums | None \<Rightarrow> [[]]), msg))"

fun send_all_sms :: "gw_env \<Rightarrow> (nat \<Rightarrow> provider_reply) \<Rightarrow> (nat \<Rightarrow> pdu_sender) \<Rightarrow> (nat \<Rightarrow> nat \<Rightarrow> instant) \<Rightarrow> SendSMSRequest \<Rightarrow> gostring
    \<Rightarrow> nat \<Rightarrow> gostring list \<Rightarrow> ModemRunner \<Rightarrow> ModemRunner \<times> gw_effect list" where
  "send_all_sms env replies senders clks req msg k [] r = (r, [])"
| "send_all_sms env replies senders clks req msg k (t # ts) r =
     then_do (\<lambda>r. if t \<noteq> [] then sendAndReportSMS env (replies k) (senders k) (clks k) req t msg r else (r, []))
       (send_all_sms env replies senders clks req msg (k + 1) ts) r"

definition smsHandler :: "gw_env \<Rightarrow> (nat \<Rightarrow> provider_reply) \<Rightarrow> (nat \<Rightarrow> pdu_sender) \<Rightarrow> (nat \<Rightarrow> nat \<Rightarrow> instant) \<Rightarrow> gostring
    \<Rightarrow> SendSMSRequest option \<Rightarrow> ModemRunner \<Rightarrow> ModemRunner \<times> gw_effect list" where
  "smsHandler env replies senders clks payload decoded r =
     (let req = (case decoded of Some q \<Rightarrow> q | None \<Rightarrow> \<lparr>rq_To = [], rq_Text = payload, rq_Message = [], rq_DeliveryReport = False\<rparr>);
          (targets, msg) = sms_targets req (map_option rcp_Get (rn_recipients r))
      in if GetText req = [] \<or> targets = [] \<or> targets = [[]] then (r, [])
         else send_all_sms env replies senders clks req msg 0 targets r)"

definition dialHandler :: "gw_env \<Rightarrow> instant \<Rightarrow> gostring option \<Rightarrow> gostring option \<Rightarrow> ModemRunner \<Rightarrow> ModemRunner \<times> gw_effect list" where
  "dialHandler env now2 modemErr decoded r = (case decoded of
     Some number \<Rightarrow> (if number \<noteq> [] then (let (r1, effs, _) = RunnerDial env now2 modemErr number r in (r1, effs)) else (r, []))
   | None \<Rightarrow> (r, []))"

definition hangupHandler :: "gw_env \<Rightarrow> gostring option \<Rightarrow> ModemRunner \<Rightarrow> ModemRunner \<times> gw_effect list" where
  "hangupHandler env modemErr r = (let (r1, effs, _) = RunnerHangup env modemErr r in (r1, effs))"

text \<open>The code of a USSD command: the field of a JSON object or the payload itself, without quotes.\<close>

definition ussd_code :: "gostring \<Rightarrow> gostring option \<Rightarrow> gostring" where
  "ussd_code payload decoded =
     (let code = (case decoded of Some c \<Rightarrow> if c \<noteq> [] then c else TrimSpace payload | None \<Rightarrow> TrimSpace payload)
      in Trim_ascii code [CHR 0x22])"

section \<open>Periodic balance query\<close>

definition balance_interval :: "ModemRunner \<Rightarrow> duration" where
  "balance_interval r = (let i = ct_CheckInterval (cfg_Tariff (rn_cfg r)) in if 3600 * 1000000000 < i then i else 3600 * 1000000000)"

text \<open>The result is the code to send, \<open>None\<close> when the query is throttled.\<close>

definition checkBalance_begin :: "gw_env \<Rightarrow> ModemRunner \<Rightarrow> ModemRunner \<times> gostring option" where
  "checkBalance_begin env r =
     (if rn_lastBalanceCheck r \<noteq> 0 \<and> ge_now env - rn_lastBalanceCheck r < balance_interval r then (r, None)
      else (r\<lparr>rn_lastBalanceCheck := ge_now env\<rparr>,
            Some (let t = cfg_Tariff (rn_cfg r)
                  in if ct_BalanceUSSD t \<noteq> [] then ct_BalanceUSSD t
                     else case GetPreset (ge_lo env) (ct_OperatorPreset t) of Some p \<Rightarrow> pr_USSDCode p | None \<Rightarrow> ''*100#'')))"

definition balanceLoop_active :: "ModemRunner \<Rightarrow> bool" where
  "balanceLoop_active r \<longleftrightarrow> ct_Enabled (cfg_Tariff (rn_cfg r)) \<and> 0 < ct_CheckInterval (cfg_Tariff (rn_cfg r))"

definition balanceLoop_start :: "gw_env \<Rightarrow> ModemRunner \<Rightarrow> ModemRunner \<times> gostring option" where
  "balanceLoop_start env r = (if balanceLoop_active r \<and> rn_lastBalance r = 0 then checkBalance_begin env r else (r, None))"

section \<open>Life cycle\<close>

datatype driver_kind = SiemensDriver | SIMComDriver | HuaweiDriver | NeowayDriver | GenericDriver

definition type_name :: "modem_type \<Rightarrow> gostring" where
  "type_name t = (case t of TypeGeneric \<Rightarrow> ''generic'' | TypeSiemens \<Rightarrow> ''siemens'' | TypeSIMCom \<Rightarrow> ''simcom'' | TypeHuawei \<Rightarrow> ''huawei''
     | TypeQuectel \<Rightarrow> ''quectel'' | TypeNeoway \<Rightarrow> ''neoway'')"

definition createDriver :: "(rune \<Rightarrow> rune) \<Rightarrow> modem_type option \<Rightarrow> ModemRunner \<Rightarrow> driver_kind" where
  "createDriver lo detected r =
     (let t0 = strings_ToLower lo (mc_Type (rn_mCfg r));
          t = (if t0 = [] \<or> t0 = ''auto''
               then (case detected of Some d \<Rightarrow> if d \<noteq> TypeGeneric then type_name d else t0 | None \<Rightarrow> t0) else t0)
      in if t \<in> {''siemens'', ''tc35'', ''tc35i'', ''mc35'', ''mc35i'', ''mc55'', ''tc65'', ''cinterion''} then SiemensDriver
         else if t \<in> {''simcom'', ''sim800'', ''sim800l'', ''sim800c'', ''sim900'', ''sim7000'', ''sim7600''} then SIMComDriver
         else if t = ''huawei'' then HuaweiDriver
         else if t \<in> {''neoway'', ''m590'', ''m590e'', ''m580''} then NeowayDriver
         else GenericDriver)"

definition tariff_config_of :: "CfgTariff \<Rightarrow> TariffConfig" where
  "tariff_config_of t = \<lparr>tc_Enabled = ct_Enabled t, tc_OperatorPreset = ct_OperatorPreset t, tc_BalanceUSSD = ct_BalanceUSSD t,
     tc_BalanceRegex = ct_BalanceRegex t, tc_AutoCheckOnError = ct_AutoCheckOnError t, tc_CheckInterval = ct_CheckInterval t,
     tc_MinBalanceAlert = ct_MinBalanceAlert t, tc_SMSLimit = ct_SMSLimit t, tc_CallMinutesLimit = ct_CallMinutesLimit t,
     tc_DataTrafficLimitMB = ct_DataTrafficLimitMB t, tc_ResetDayOfMonth = ct_ResetDayOfMonth t, tc_StorageDir = ct_StorageDir t\<rparr>"

definition wireServices :: "gw_env \<Rightarrow> disk \<Rightarrow> byte \<Rightarrow> bool \<Rightarrow> ModemRunner \<Rightarrow> ModemRunner \<times> gw_effect list" where
  "wireServices env d refCounter checker r =
     (let c = rn_cfg r; sec = cfg_Security c; rl = sec_RateLimit sec; mid = mc_ID (rn_mCfg r);
          flt = NewFilter (ge_lt env) (ge_up env) (ge_lo env) (sec_IncomingFilter sec) (sec_Whitelist sec) (sec_Blacklist sec);
          limiter = NewRateLimiterWithConfig \<lparr>Enabled = rlc_Enabled rl, MaxPerMinute = rlc_MaxSMSPerMinute rl, MaxPerHour = rlc_MaxSMSPerHour rl,
            MaxPerDay = rlc_MaxSMSPerDay rl, MaxPerNumberPerHour = rlc_MaxSMSPerNumberPerHour rl,
            Cooldown = wrap64 (rlc_CooldownMinutes rl * 60000000000)\<rparr>;
          tm0 = NewManager (ge_tariff env) d mid (tariff_config_of (cfg_Tariff c)) True;
          (r1, out) = (if rn_lastBalance r \<noteq> 0
            then with_tariff env (UpdateBalance (ge_fmt env) (ge_tariff env) (rn_lastBalance r) (rn_lastCurrency r)) tm0 r
            else (let st = Status tm0
                  in ((if us_Balance st \<noteq> 0 then r\<lparr>rn_lastBalance := us_Balance st, rn_lastCurrency := us_Currency st\<rparr> else r)\<lparr>rn_tariff := Some tm0\<rparr>, [])));
          asmTimeout = (if smc_AssemblyTimeout (cfg_SMS c) \<le> 0 then 30 * 1000000000 else smc_AssemblyTimeout (cfg_SMS c));
          sms = SetStorageManager True (NewSMSService refCounter
            \<lparr>sc_ModemID = mid, sc_Transliterate = (smc_Encoding (cfg_SMS c) = ''translit''), sc_DeliveryReport = drc_Enabled (smc_DeliveryReport (cfg_SMS c)),
             sc_DefaultPrefix = []\<rparr>
            (Some flt) (Some limiter) (Some (NewTracker (drc_Timeout (smc_DeliveryReport (cfg_SMS c))) True))
            (Some (NewAssembler (24 * 3600 * 1000000000) [asmTimeout])) True)
      in (r1\<lparr>rn_driver := True, rn_sms := Some sms, rn_ussd := Some (NewUSSDService True), rn_call := Some (NewCallService mid checker True)\<rparr>, out))"

text \<open>The handlers, and the topics a runner subscribes them to, in order.\<close>

datatype handler = HSms | HClearSMS | HDial | HHangup | HClearCalls | HUssd | HRawAT | HTariffSet | HTariffReset

definition slot_topic :: "ModemRunner \<Rightarrow> gostring \<Rightarrow> gostring" where
  "slot_topic r suf = mq_TopicPrefix (cfg_MQTT (rn_cfg r)) @ ''/modem/gsm_modem/'' @ suf"

definition subscriptions :: "ModemRunner \<Rightarrow> (gostring \<times> handler) list" where
  "subscriptions r =
     (let t = rn_topics r; alias = (\<lambda>subs. if rn_slot r = 1 then subs else [])
      in [(tp_SMSSend t, HSms)] @ alias [(slot_topic r ''sms/send'', HSms)]
         @ [(tp_SMSHistoryClear t, HClearSMS)] @ alias [(slot_topic r ''sms/history/clear'', HClearSMS)]
         @ [(tp_CallDial t, HDial), (tp_CallHangup t, HHangup)]
         @ alias [(slot_topic r ''call/dial'', HDial), (slot_topic r ''call/hangup'', HHangup)]
         @ [(tp_CallHistoryClear t, HClearCalls)] @ alias [(slot_topic r ''call/history/clear'', HClearCalls)]
         @ [(tp_USSDSend t, HUssd)] @ alias [(slot_topic r ''ussd/send'', HUssd)]
         @ [(tp_CommandRaw t, HRawAT)] @ alias [(slot_topic r ''command/raw'', HRawAT)]
         @ [(tp_TariffSet t, HTariffSet), (tp_TariffReset t, HTariffReset)]
         @ alias [(slot_topic r ''tariff/set'', HTariffSet), (slot_topic r ''tariff/reset'', HTariffReset),
             (mq_TopicPrefix (cfg_MQTT (rn_cfg r)) @ ''/tariff/set'', HTariffSet), (mq_TopicPrefix (cfg_MQTT (rn_cfg r)) @ ''/tariff/reset'', HTariffReset)])"

text \<open>The pause before the next attempt to open the port: reset after a session of more than five minutes, then
  doubled up to the maximum and shortened by the random value \<open>jitter\<close>, below a fifth of it.\<close>

definition minBackoff :: duration where "minBackoff = 3 * 1000000000"
definition maxBackoff :: duration where "maxBackoff = 60 * 1000000000"

definition session_backoff :: "duration \<Rightarrow> duration \<Rightarrow> duration" where
  "session_backoff session backoff = (if 300 * 1000000000 < session then minBackoff else backoff)"

definition next_backoff :: "int \<Rightarrow> duration \<Rightarrow> duration" where
  "next_backoff jitter backoff =
     (let b1 = (if maxBackoff < backoff * 2 then maxBackoff else backoff * 2); b2 = b1 - jitter
      in if b2 < minBackoff then minBackoff else b2)"

definition jitter_ok :: "int \<Rightarrow> duration \<Rightarrow> bool" where
  "jitter_ok jitter backoff \<longleftrightarrow> 0 \<le> jitter \<and> jitter < (if maxBackoff < backoff * 2 then maxBackoff else backoff * 2) div 5"

fun backoffs :: "duration \<Rightarrow> (duration \<times> int) list \<Rightarrow> duration list" where
  "backoffs backoff [] = []"
| "backoffs backoff ((session, jitter) # rest) =
     (let b = session_backoff session backoff in b # backoffs (next_backoff jitter b) rest)"

text \<open>What a runner publishes once its services are wired, after the discovery messages.\<close>

definition announce :: "gw_env \<Rightarrow> ModemRunner \<Rightarrow> gw_effect list" where
  "announce env r =
     (if ge_conn env
      then [Pub (tp_SMSReceived (rn_topics r)) True (Raw []), Pub (tp_CallIncoming (rn_topics r)) False (Raw ''{\"type\":\"ended\"}'')]
      else [])
     @ (if rn_received r \<noteq> [] \<and> ge_conn env
        then (let l = last (rn_received r) in [Pub (tp_SMSLast (rn_topics r)) True (JLast (rx_Sender l) (rx_Text l) (rx_Timestamp l))]) else [])
     @ publishSMSHistory env r @ publishCallHistory env r"

definition runOnce_start :: "gw_env \<Rightarrow> disk \<Rightarrow> byte \<Rightarrow> bool \<Rightarrow> ModemRunner \<Rightarrow> ModemRunner \<times> gw_effect list" where
  "runOnce_start env d refCounter checker = then_do (wireServices env d refCounter checker) (\<lambda>r. (r, announce env r))"

text \<open>The messages stored on the SIM card and in the modem: read at the start of a session and whenever the check of
  every minute finds the storage in use.\<close>

definition syncStored :: "gw_env \<Rightarrow> storage_env \<Rightarrow> ModemRunner \<Rightarrow> ModemRunner \<times> gw_effect list" where
  "syncStored env senv r = (case rn_sms r of
     Some svc \<Rightarrow> (let (svc1, effs, _, _) = SyncStoredMessages senv [''SM'', ''ME''] svc in sms_effects env effs (r\<lparr>rn_sms := Some svc1\<rparr>))
   | None \<Rightarrow> (r, []))"

definition storageCheck :: "gw_env \<Rightarrow> gostring + StorageStatus \<Rightarrow> storage_env \<Rightarrow> ModemRunner \<Rightarrow> ModemRunner \<times> gw_effect list" where
  "storageCheck env reply senv r = (case rn_sms r of
     Some svc \<Rightarrow> (case CheckStorageCapacity reply svc of
         Inr (Inr st) \<Rightarrow> if 0 < sst_Used st then syncStored env senv r else (r, [])
       | _ \<Rightarrow> (r, []))
   | None \<Rightarrow> (r, []))"

text \<open>The answer to a USSD command of MQTT or of the balance query.\<close>

definition ussd_answer :: "gw_env \<Rightarrow> ussd_error + USSDResponse option \<Rightarrow> ModemRunner \<Rightarrow> ModemRunner \<times> gw_effect list" where
  "ussd_answer env res r = (case res of Inr (Some resp) \<Rightarrow> applyParsedBalance env (ur_Message resp) r | _ \<Rightarrow> (r, []))"

end
