(* ===== verification/Gateway_Facts.thy ===== *)
theory Gateway_Facts
  imports Gateway
begin

text \<open>
  Properties of the gateway of one modem: the histories are windows on what was recorded and survive a restart, what the
  services report is published on the modem's topics, the quota counts what was transmitted, the pauses between
  connection attempts and between balance queries are bounded, and no operation breaks the invariant of the state.
\<close>

section \<open>Histories\<close>

lemma keep_last_drop: "keep_last n xs = drop (length xs - n) xs"
  by (simp add: keep_last_def)

lemma length_keep_last [simp]: "length (keep_last n xs) = min n (length xs)"
  by (simp add: keep_last_drop)

lemma keep_last_id [simp]: "length xs \<le> n \<Longrightarrow> keep_last n xs = xs"
  by (simp add: keep_last_def)

lemma keep_last_append [simp]: "keep_last n (keep_last n xs @ ys) = keep_last n (xs @ ys)"
  by (cases "length xs \<le> n") (auto simp: keep_last_drop add.commute)

lemma set_keep_last: "set (keep_last n xs) \<subseteq> set xs"
  by (simp add: keep_last_drop set_drop_subset)

lemma distinct_keep_last: "distinct (map f xs) \<Longrightarrow> distinct (map f (keep_last n xs))"
  by (simp add: keep_last_drop drop_map [symmetric])

fun add_all :: "(gw_env \<Rightarrow> 'x \<Rightarrow> 's \<Rightarrow> 's) \<Rightarrow> (gw_env \<times> 'x) list \<Rightarrow> 's \<Rightarrow> 's" where
  "add_all add [] s = s"
| "add_all add ((env, x) # xs) s = add_all add xs (add env x s)"

fun entries :: "(gw_env \<Rightarrow> 'x \<Rightarrow> 's \<Rightarrow> 'a list) \<Rightarrow> (gw_env \<Rightarrow> 'x \<Rightarrow> 's \<Rightarrow> 's) \<Rightarrow> (gw_env \<times> 'x) list \<Rightarrow> 's \<Rightarrow> 'a list" where
  "entries stored add [] s = []"
| "entries stored add ((env, x) # xs) s = stored env x s @ entries stored add xs (add env x s)"

text \<open>The contract of a history: an operation appends what it accepts (nothing, or one entry), keeps the most
  recent entries up to the limit and writes the file. Its abstraction is the list of all entries ever accepted.\<close>

locale history =
  fixes hist :: "'s \<Rightarrow> 'a list" and saved :: "'s \<Rightarrow> 'a list option" and limit :: nat
    and stored :: "gw_env \<Rightarrow> 'x \<Rightarrow> 's \<Rightarrow> 'a list" and add :: "gw_env \<Rightarrow> 'x \<Rightarrow> 's \<Rightarrow> 's"
  assumes add_skip: "stored env x s = [] \<Longrightarrow> add env x s = s"
    and add_hist: "stored env x s \<noteq> [] \<Longrightarrow> hist (add env x s) = keep_last limit (hist s @ stored env x s)"
    and add_file: "stored env x s \<noteq> [] \<Longrightarrow> saved (add env x s) = (if ge_writeOK env then Some (hist (add env x s)) else saved s)"
begin

lemma window:
  "hist s = keep_last limit past \<Longrightarrow> hist (add_all add xs s) = keep_last limit (past @ entries stored add xs s)"
proof (induction xs arbitrary: s past)
  case (Cons ex xs)
  obtain env x where ex: "ex = (env, x)" by fastforce
  have "hist (add env x s) = keep_last limit (past @ stored env x s)"
    using Cons.prems add_skip [of env x s] add_hist [of env x s] by (cases "stored env x s = []") simp_all
  from Cons.IH [OF this] show ?case by (simp add: ex)
qed simp

lemma in_file:
  "saved s = Some (hist s) \<Longrightarrow> list_all (\<lambda>(env, x). ge_writeOK env) xs \<Longrightarrow> saved (add_all add xs s) = Some (hist (add_all add xs s))"
proof (induction xs arbitrary: s)
  case (Cons ex xs)
  obtain env x where ex: "ex = (env, x)" by fastforce
  have "saved (add env x s) = Some (hist (add env x s))"
    using Cons.prems ex add_skip [of env x s] add_file [of env x s] by (cases "stored env x s = []") simp_all
  then show ?case using Cons.IH [of "add env x s"] Cons.prems(2) by (simp add: ex)
qed simp

end

definition sms_key :: "ReceivedSMS \<Rightarrow> gostring \<times> gostring \<times> gostring" where
  "sms_key e = (rx_Sender e, rx_Text e, rx_Timestamp e)"

definition sms_entry :: "gw_env \<Rightarrow> AssembledSMS \<Rightarrow> ModemRunner \<Rightarrow> ReceivedSMS list" where
  "sms_entry env msg r =
     (let e = \<lparr>rx_ID = mc_ID (rn_mCfg r) @ ''-'' @ itoa (ge_now env), rx_ModemID = mc_ID (rn_mCfg r), rx_Sender = As_From msg,
            rx_From = As_From msg, rx_Timestamp = ge_format env (As_Timestamp msg), rx_Text = As_Text msg\<rparr>
      in if sms_key e \<in> sms_key ` set (rn_received r) then [] else [e])"

abbreviation record_sms :: "gw_env \<Rightarrow> AssembledSMS \<Rightarrow> ModemRunner \<Rightarrow> ModemRunner" where
  "record_sms env msg r \<equiv> fst (recordIncomingSMS env msg r)"

definition call_entry :: "gw_env \<Rightarrow> CallRecord \<Rightarrow> ModemRunner \<Rightarrow> CallRecord list" where
  "call_entry env c r =
     [c\<lparr>cr_ID := (if cr_ID c = [] then mc_ID (rn_mCfg r) @ ''-call-'' @ itoa (ge_now env) else cr_ID c),
        cr_ModemID := (if cr_ModemID c = [] then mc_ID (rn_mCfg r) else cr_ModemID c),
        cr_Timestamp := (if cr_Timestamp c = [] then ge_local env else cr_Timestamp c)\<rparr>]"

lemma saveInboxLocked_received [simp]: "rn_received (saveInboxLocked env r) = rn_received r"
  by (simp add: saveInboxLocked_def)

lemma recordIncomingSMS_entry:
  "recordIncomingSMS env msg r =
     (if sms_entry env msg r = [] then (r, [])
      else (let r1 = saveInboxLocked env (r\<lparr>rn_received := keep_last maxInboxMessages (rn_received r @ sms_entry env msg r)\<rparr>)
            in (r1, publishSMSHistory env r1)))"
proof -
  have "list_ex (\<lambda>e. rx_Sender e = As_From msg \<and> rx_Text e = As_Text msg \<and> rx_Timestamp e = ge_format env (As_Timestamp msg)) (rn_received r)
    \<longleftrightarrow> sms_entry env msg r = []"
    by (auto simp: sms_entry_def sms_key_def list_ex_iff image_iff)
  then show ?thesis by (simp add: recordIncomingSMS_def Let_def) (simp add: sms_entry_def Let_def)
qed

interpretation inbox: history rn_received rn_inboxFile maxInboxMessages sms_entry record_sms
  by unfold_locales (simp_all add: recordIncomingSMS_entry Let_def saveInboxLocked_def)

interpretation call_log: history rn_calls rn_callsFile maxCallHistory call_entry "\<lambda>env c r. fst (recordCall env c r)"
  by unfold_locales (simp_all add: recordCall_def call_entry_def saveCallHistoryLocked_def Let_def)

lemma record_sms_distinct:
  "distinct (map sms_key (rn_received r)) \<Longrightarrow> distinct (map sms_key (rn_received (record_sms env msg r)))"
proof (cases "sms_entry env msg r = []")
  case False
  assume "distinct (map sms_key (rn_received r))"
  then have "distinct (map sms_key (rn_received r @ sms_entry env msg r))"
    by (auto simp: sms_entry_def Let_def)
  then show ?thesis using inbox.add_hist [OF False] by (simp only: distinct_keep_last)
qed (simp add: recordIncomingSMS_entry)

lemma add_all_distinct:
  "distinct (map sms_key (rn_received r)) \<Longrightarrow> distinct (map sms_key (rn_received (add_all record_sms xs r)))"
proof (induction xs arbitrary: r)
  case (Cons ex xs)
  obtain env m where ex: "ex = (env, m)" by fastforce
  show ?case using Cons.IH [OF record_sms_distinct [OF Cons.prems, of env m]] by (simp add: ex)
qed simp

lemma record_sms_same [simp]:
  "rn_mCfg (record_sms env msg r) = rn_mCfg r" "rn_cfg (record_sms env msg r) = rn_cfg r"
  "rn_callsFile (record_sms env msg r) = rn_callsFile r" "rn_topics (record_sms env msg r) = rn_topics r"
  by (simp_all add: recordIncomingSMS_entry saveInboxLocked_def Let_def)

lemma add_all_same [simp]:
  "rn_mCfg (add_all record_sms xs r) = rn_mCfg r" "rn_cfg (add_all record_sms xs r) = rn_cfg r"
  "rn_callsFile (add_all record_sms xs r) = rn_callsFile r"
  by (induction record_sms xs r rule: add_all.induct) simp_all

lemma restarted:
  "rn_received (NewModemRunner up (Some msgs) calls m c) = msgs" "rn_calls (NewModemRunner up inbox (Some cs) m c) = cs"
  by (simp_all add: NewModemRunner_def loadInbox_def loadCallHistory_def split: option.split)

text \<open>Property C15. The inbox of a modem is a window on the messages it has received: after any number of messages it
  shows the last 100 of those accepted so far, in their order, a message being accepted when no entry shown has its sender, text and
  second. No two entries agree in these three. While the file can be written, a restart of the gateway shows the same inbox.
\<close>

theorem inbox_window:
  assumes "rn_received r = keep_last maxInboxMessages past" "distinct (map sms_key (rn_received r))"
  shows "GetReceivedSMS (add_all record_sms xs r) = keep_last 100 (past @ entries sms_entry record_sms xs r)
    \<and> distinct (map sms_key (GetReceivedSMS (add_all record_sms xs r)))
    \<and> (rn_inboxFile r = Some (rn_received r) \<and> list_all (\<lambda>(env, m). ge_writeOK env) xs \<longrightarrow>
         (let r' = add_all record_sms xs r
          in GetReceivedSMS (NewModemRunner up (rn_inboxFile r') (rn_callsFile r') (rn_mCfg r') (rn_cfg r')) = GetReceivedSMS r'))"
proof -
  let ?r = "add_all record_sms xs r"
  have "GetReceivedSMS ?r = keep_last 100 (past @ entries sms_entry record_sms xs r)"
    using inbox.window [OF assms(1), of xs] by (simp add: GetReceivedSMS_def maxInboxMessages_def)
  moreover have "distinct (map sms_key (GetReceivedSMS ?r))"
    using add_all_distinct [OF assms(2)] by (simp add: GetReceivedSMS_def)
  ultimately show ?thesis
    using inbox.in_file [of r xs] by (auto simp: GetReceivedSMS_def Let_def restarted)
qed

section \<open>The invariant\<close>

definition window_ok :: "ReceivedSMS list \<Rightarrow> bool" where
  "window_ok ms \<longleftrightarrow> length ms \<le> maxInboxMessages \<and> distinct (map sms_key ms)"

definition hist_ok :: "ModemRunner \<Rightarrow> bool" where
  "hist_ok r \<longleftrightarrow> window_ok (rn_received r) \<and> length (rn_calls r) \<le> maxCallHistory
     \<and> (case rn_inboxFile r of Some ms \<Rightarrow> window_ok ms | None \<Rightarrow> True)
     \<and> (case rn_callsFile r of Some cs \<Rightarrow> length cs \<le> maxCallHistory | None \<Rightarrow> True)"

text \<open>What an operation of a session leaves as it is, and where it publishes.\<close>

definition own_topic :: "gostring \<Rightarrow> gostring \<Rightarrow> gostring \<Rightarrow> bool" where
  "own_topic pre mid t \<longleftrightarrow> (\<exists>suf. t = modem_topic (NewTopics pre mid) suf) \<or> t = pre @ ''/gateway/modems''"

definition emitted_types :: "gostring set" where
  "emitted_types = set EventTypes \<union> {''call_limit_warning'', ''call_limit_exceeded''}"

fun own :: "gostring \<Rightarrow> gostring \<Rightarrow> gw_effect \<Rightarrow> bool" where
  "own pre mid (Pub t retained payload) \<longleftrightarrow>
     own_topic pre mid t \<and> (case payload of JEvent ev \<Rightarrow> ep_EventType ev \<in> emitted_types | _ \<Rightarrow> True)"
| "own pre mid _ \<longleftrightarrow> True"

abbreviation own_of :: "ModemRunner \<Rightarrow> gw_effect \<Rightarrow> bool" where
  "own_of r \<equiv> own (mq_TopicPrefix (cfg_MQTT (rn_cfg r))) (mc_ID (rn_mCfg r))"

definition topics_ok :: "ModemRunner \<Rightarrow> bool" where
  "topics_ok r \<longleftrightarrow> rn_topics r = NewTopics (mq_TopicPrefix (cfg_MQTT (rn_cfg r))) (mc_ID (rn_mCfg r))"

definition sound :: "ModemRunner \<Rightarrow> ModemRunner \<times> gw_effect list \<Rightarrow> bool" where
  "sound r res \<longleftrightarrow>
     (case res of (r', effs) \<Rightarrow>
        rn_mCfg r' = rn_mCfg r \<and> rn_cfg r' = rn_cfg r \<and> rn_topics r' = rn_topics r \<and> rn_slot r' = rn_slot r \<and> rn_driver r' = rn_driver r
        \<and> rn_recipients r' = rn_recipients r
        \<and> (rn_sms r' = None \<longleftrightarrow> rn_sms r = None) \<and> (rn_call r' = None \<longleftrightarrow> rn_call r = None)
        \<and> (rn_ussd r' = None \<longleftrightarrow> rn_ussd r = None) \<and> (rn_tariff r' = None \<longleftrightarrow> rn_tariff r = None)
        \<and> (hist_ok r \<longrightarrow> hist_ok r') \<and> (topics_ok r \<longrightarrow> list_all (own_of r) effs))"

named_theorems sound_intro

lemma own_tp [simp]:
  "own_topic p i (modem_topic (NewTopics p i) suf)" "own_topic p i (p @ ''/gateway/modems'')"
  by (auto simp: own_topic_def)

lemmas tp_defs =
  tp_SMSReceived_def tp_SMSLast_def tp_SMSHistory_def tp_SMSStatus_def tp_CallIncoming_def tp_CallHistory_def tp_CallDTMF_def
  tp_SignalStrength_def tp_Health_def tp_Event_def tp_Balance_def tp_AccountingStatus_def tp_AccountingAlert_def tp_Alert_def
  tp_USSDResponse_def tp_Diagnostic_def tp_CommandResponse_def

lemmas sound_simps = sound_def topics_ok_def tp_defs

lemma sound_refl [sound_intro]: "sound r (r, [])"
  by (simp add: sound_def)

lemma sound_topics: "topics_ok r \<Longrightarrow> sound r (r', effs) \<Longrightarrow> topics_ok r'"
  by (simp add: sound_def topics_ok_def)

lemma sound_trans: "sound r (r1, e1) \<Longrightarrow> sound r1 (r2, e2) \<Longrightarrow> sound r (r2, e1 @ e2)"
  by (simp add: sound_def topics_ok_def)

lemma sound_then_do [sound_intro]: "sound r (f r) \<Longrightarrow> (\<And>r. sound r (g r)) \<Longrightarrow> sound r (then_do f g r)"
  by (simp add: then_do_def split_beta) (metis prod.collapse sound_trans)

lemma sound_pubs: "(topics_ok r \<Longrightarrow> list_all (own_of r) effs) \<Longrightarrow> sound r (r, effs)"
  by (simp add: sound_def)

lemma hist_ok_services [simp]:
  "hist_ok (r\<lparr>rn_sms := x1\<rparr>) = hist_ok r" "hist_ok (r\<lparr>rn_call := x2\<rparr>) = hist_ok r" "hist_ok (r\<lparr>rn_ussd := x3\<rparr>) = hist_ok r"
  "hist_ok (r\<lparr>rn_tariff := x4\<rparr>) = hist_ok r" "hist_ok (r\<lparr>rn_lastBalance := x5\<rparr>) = hist_ok r" "hist_ok (r\<lparr>rn_lastCurrency := x6\<rparr>) = hist_ok r"
  "hist_ok (r\<lparr>rn_lastHealth := x7\<rparr>) = hist_ok r" "hist_ok (r\<lparr>rn_lastBalanceCheck := x8\<rparr>) = hist_ok r" "hist_ok (r\<lparr>rn_driver := x9\<rparr>) = hist_ok r"
  by (simp_all add: hist_ok_def)

lemma sound_recordIncomingSMS [sound_intro]: "sound r (recordIncomingSMS env msg r)"
proof -
  have "hist_ok r \<Longrightarrow> hist_ok (record_sms env msg r)"
    using record_sms_distinct [of r env msg]
    by (auto simp: hist_ok_def window_ok_def recordIncomingSMS_entry saveInboxLocked_def Let_def split: option.splits if_splits)
  then show ?thesis
    by (auto simp: sound_simps recordIncomingSMS_entry publishSMSHistory_def saveInboxLocked_def Let_def)
qed

lemma sound_recordCall [sound_intro]: "sound r (recordCall env c r)"
  by (auto simp: sound_simps recordCall_def publishCallHistory_def saveCallHistoryLocked_def hist_ok_def Let_def split: option.splits)

lemma sound_Clear [sound_intro]: "sound r (ClearReceivedSMS env r)" "sound r (ClearCallHistory env r)"
  by (auto simp: sound_simps ClearReceivedSMS_def ClearCallHistory_def publishSMSHistory_def publishCallHistory_def
      saveInboxLocked_def saveCallHistoryLocked_def hist_ok_def window_ok_def Let_def split: option.splits)

lemma emitted [simp]:
  "''low_balance'' \<in> emitted_types" "''sms_limit_warning'' \<in> emitted_types" "''sms_limit_exceeded'' \<in> emitted_types"
  "''call_limit_warning'' \<in> emitted_types" "''call_limit_exceeded'' \<in> emitted_types" "''modem_disconnected'' \<in> emitted_types"
  "''modem_degraded'' \<in> emitted_types" "''modem_ready'' \<in> emitted_types" "''modem_error'' \<in> emitted_types" "''sms_send_failed'' \<in> emitted_types"
  by (simp_all add: emitted_types_def EventTypes_def)

lemma NewEvent_type [simp]: "ep_EventType (NewEvent env mid typ cat level msg dat) = typ"
  by (simp add: NewEvent_def)

lemma own_event: "topics_ok r \<Longrightarrow> ep_EventType ev \<in> emitted_types \<Longrightarrow> list_all (own_of r) (publishEvent env ev r)"
  by (simp add: publishEvent_def topics_ok_def tp_Event_def)

abbreviation typed :: "AlertEvent list \<Rightarrow> bool" where
  "typed alerts \<equiv> list_all (\<lambda>a. al_Type a \<in> emitted_types) alerts"

lemma typed_alerts [simp]:
  "typed (snd (RecordSMS env n tm))" "typed (snd (RecordCallMinutes fmt env x tm))" "typed (snd (UpdateBalance fmt env v c tm))"
  by (simp_all add: RecordSMS_def RecordCallMinutes_def UpdateBalance_def evaluateSMSLimits_def evaluateCallLimits_def evaluateBalanceLimits_def
      alert_def Let_def split_beta)

lemma own_alerts: "topics_ok r \<Longrightarrow> typed alerts \<Longrightarrow> list_all (own_of r) (concat (map (onAlert env r) alerts))"
proof (induction alerts)
  case (Cons a alerts)
  have "list_all (own_of r) (onAlert env r a)"
    using Cons.prems own_event [of r] by (simp add: onAlert_def) (simp add: topics_ok_def tp_defs)
  then show ?case using Cons by simp
qed simp

lemma own_accounting: "topics_ok r \<Longrightarrow> list_all (own_of r) (publishAccountingStatus env tm r)"
  by (simp add: publishAccountingStatus_def topics_ok_def tp_defs)

lemma sound_with_tariff [sound_intro]: "rn_tariff r \<noteq> None \<Longrightarrow> typed (snd (f tm)) \<Longrightarrow> sound r (with_tariff env f tm r)"
  using own_alerts [of r _ env] by (auto simp: sound_def with_tariff_def split: prod.splits)

lemma sound_update:
  "sound (r\<lparr>rn_sms := Some s\<rparr>) res \<Longrightarrow> rn_sms r \<noteq> None \<Longrightarrow> sound r res"
  "sound (r\<lparr>rn_call := Some c\<rparr>) res \<Longrightarrow> rn_call r \<noteq> None \<Longrightarrow> sound r res"
  by (auto simp: sound_def topics_ok_def split: prod.splits)

lemma onAlert_balance [simp]:
  "onAlert env (r\<lparr>rn_lastBalance := v\<rparr>) = onAlert env r" "onAlert env (r\<lparr>rn_lastCurrency := w\<rparr>) = onAlert env r"
  by (simp_all add: fun_eq_iff onAlert_def publishEvent_def)

lemma sound_applyParsedBalance [sound_intro]: "sound r (applyParsedBalance env text r)"
  by (auto simp: applyParsedBalance_def with_tariff_def sound_simps own_alerts [unfolded topics_ok_def] Let_def split_beta
      split: sum.splits option.splits)

lemma sound_onReceived [sound_intro]: "sound r (onReceived env msg r)"
  unfolding onReceived_def by (intro sound_intro sound_pubs) (simp add: topics_ok_def tp_defs)

lemma sound_sms_effects [sound_intro]: "sound r (sms_effects env effs r)"
proof (induction env effs r rule: sms_effects.induct)
  case (3 env e es r)
  show ?case using 3 unfolding sms_effects.simps
    by (intro sound_intro sound_pubs) (simp_all add: topics_ok_def tp_defs)
qed (simp_all, (intro sound_intro sound_pubs; simp)+)

lemma sound_onCallEvent [sound_intro]: "sound r (onCallEvent env e r)"
proof -
  have acc: "sound r (r, publishAccountingStatus env tm r)" for r tm
    by (rule sound_pubs) (rule own_accounting)
  have min: "sound r (then_do (with_tariff env (RecordCallMinutes fmt tenv x) tm) (\<lambda>r. (r, publishAccountingStatus env (the (rn_tariff r)) r)) r)"
    if "rn_tariff r = Some tm" for fmt tenv x tm r
    by (intro sound_then_do sound_with_tariff acc) (simp_all add: that)
  show ?thesis
    unfolding onCallEvent_def
    by (intro sound_then_do)
      (auto split: option.split intro: min sound_recordCall sound_pubs simp: sound_refl topics_ok_def tp_defs)
qed

lemma sound_call_effects [sound_intro]: "sound r (call_effects env effs r)"
  by (induction env effs r rule: call_effects.induct) (simp_all, (intro sound_intro sound_pubs; simp)+)

lemma health_event_type: "health_event mid st = Some (typ, level, msg) \<Longrightarrow> typ \<in> emitted_types"
  by (simp only: health_event_def split: if_split_asm) (use emitted in \<open>blast+\<close>)

lemma sound_onHealth [sound_intro]: "sound r (onHealth env h r)"
  by (auto simp: sound_simps onHealth_def updateHealth_def publishEvent_def Let_def health_event_type split: option.split)

lemma sound_status_effects [sound_intro]: "sound r (status_effects env effs r)"
  by (induction env effs r rule: status_effects.induct)
    (simp_all, (intro sound_intro sound_pubs; simp add: onSignal_def topics_ok_def tp_defs)+)

lemma sound_publishDisconnectedState [sound_intro]: "sound r (publishDisconnectedState env st r)"
  by (auto simp: sound_simps publishDisconnectedState_def updateHealth_def publishEvent_def Let_def)

lemma sound_urcStep [sound_intro]: "sound r (urcStep env gnow now2 line r)"
proof -
  have u: "sound r (r\<lparr>rn_ussd := Some svc\<rparr>, map (onUSSDResponse r) resps)" if "rn_ussd r \<noteq> None" for svc resps r
    using that by (simp add: sound_simps onUSSDResponse_def list_all_iff)
  show ?thesis
    unfolding urcStep_def
    by (intro sound_then_do)
      (auto simp: Let_def sound_refl split: option.splits prod.splits intro: u sound_update(1) [OF sound_sms_effects] sound_update(2) [OF sound_call_effects])
qed

lemma sound_sync [sound_intro]: "sound r (syncStored env senv r)" "sound r (storageCheck env reply senv r)"
proof -
  show s: "sound r (syncStored env senv r)"
    by (auto simp: syncStored_def sound_refl Let_def split: option.splits prod.splits intro: sound_update(1) [OF sound_sms_effects])
  show "sound r (storageCheck env reply senv r)"
    using s by (auto simp: storageCheck_def sound_refl split: option.splits sum.splits)
qed

lemma sound_ussd_answer [sound_intro]: "sound r (ussd_answer env res r)"
  by (auto simp: ussd_answer_def intro: sound_intro split: sum.splits option.splits)

lemma sound_tariff [sound_intro]:
  "sound r (tariffSetHandler env q r)" "sound r (tariffResetHandler env r)"
  using own_accounting [unfolded topics_ok_def]
  by (auto simp: tariffSetHandler_def tariffResetHandler_def sound_simps Let_def split: option.splits)

text \<open>The operations of the API also return an error or a result.\<close>

abbreviation outcome :: "'s \<times> 'e list \<times> 'x \<Rightarrow> 's \<times> 'e list" where
  "outcome t \<equiv> (fst t, fst (snd t))"

lemma sound_tariff_api [sound_intro]:
  "sound r (outcome (UpdateTariffConfig env cfg r))" "sound r (outcome (SetTariffUsage env u r))" "sound r (outcome (ResetTariffQuotas env r))"
  using own_accounting [unfolded topics_ok_def]
  by (auto simp: UpdateTariffConfig_def SetTariffUsage_def ResetTariffQuotas_def sound_simps Let_def split: option.splits)

lemma sound_calls [sound_intro]:
  "sound r (outcome (RunnerDial env now2 modemErr number r))" "sound r (outcome (RunnerHangup env modemErr r))"
  "sound r (dialHandler env now2 modemErr decoded r)" "sound r (hangupHandler env modemErr r)"
proof -
  show d: "sound r (outcome (RunnerDial env now2 modemErr number r))" for number
    by (auto simp: RunnerDial_def sound_refl Let_def split_beta split: option.splits intro: sound_update(2) [OF sound_call_effects])
  show h: "sound r (outcome (RunnerHangup env modemErr r))"
    by (auto simp: RunnerHangup_def sound_refl Let_def split_beta split: option.splits intro: sound_update(2) [OF sound_call_effects])
  show "sound r (dialHandler env now2 modemErr decoded r)" "sound r (hangupHandler env modemErr r)"
    using d h by (auto simp: dialHandler_def hangupHandler_def sound_refl split_beta split: option.splits)
qed

lemma sound_RunnerSendUSSD [sound_intro]: "sound r (outcome (RunnerSendUSSD env res r))"
  by (auto simp: RunnerSendUSSD_def sound_refl Let_def split_beta intro: sound_intro split: option.splits sum.splits)

lemma sound_sms_update: "rn_sms r = Some svc \<Longrightarrow> sound r (sms_effects env effs (r\<lparr>rn_sms := Some svc1\<rparr>))"
  by (rule sound_update(1) [OF sound_sms_effects]) simp

lemma sound_record:
  assumes "sound r (r1, out1)" "rn_tariff r \<noteq> None" "typed (snd (f tm))" "with_tariff env f tm r1 = (r2, out2)"
  shows "sound r (r2, out1 @ out2)"
proof -
  have "rn_tariff r1 \<noteq> None" using assms(1,2) by (auto simp: sound_def)
  from sound_with_tariff [OF this, of f tm env] show ?thesis using sound_trans [OF assms(1)] assms(3,4) by simp
qed

lemma sound_more: "sound r (r1, out) \<Longrightarrow> (topics_ok r1 \<Longrightarrow> list_all (own_of r1) out1) \<Longrightarrow> sound r (r1, out @ out1)"
  by (rule sound_trans) (auto intro: sound_pubs)

lemma sound_RunnerSendSMS [sound_intro]: "sound r (outcome (RunnerSendSMS env sender clk to msg r))"
proof (cases "rn_sms r")
  case (Some svc)
  obtain svc1 effs res where s: "Send (ge_lt env) (ge_up env) sender clk \<lparr>rq_To = to, rq_Text = msg, rq_Message = [], rq_DeliveryReport = False\<rparr> svc = (svc1, effs, res)"
    by (metis prod_cases3)
  obtain r1 out1 where e: "sms_effects env effs (r\<lparr>rn_sms := Some svc1\<rparr>) = (r1, out1)" by fastforce
  have b: "sound r (r1, out1)" using sound_sms_update [OF Some, of env effs svc1] e by simp
  have t: "sound r (let (r2, out2) = then_do (with_tariff env f tm) (\<lambda>r. (r, publishAccountingStatus env (the (rn_tariff r)) r)) r1 in (r2, out1 @ out2))"
    if "rn_tariff r = Some tm" "typed (snd (f tm))" for f tm
  proof -
    obtain r2 out2 where w: "with_tariff env f tm r1 = (r2, out2)" by fastforce
    have "sound r (r2, out1 @ out2)" by (rule sound_record [OF b _ _ w]) (simp_all add: that)
    from sound_more [OF this own_accounting] show ?thesis by (simp add: then_do_def w)
  qed
  show ?thesis
    using b t by (auto simp: RunnerSendSMS_def Some s e Let_def split_beta split: sum.split option.split)
qed (simp add: RunnerSendSMS_def sound_refl)

lemma sound_sendAndReportSMS [sound_intro]: "sound r (sendAndReportSMS env reply sender clk req target msg r)"
proof (cases "rn_sms r"; cases "rn_tariff r")
  fix svc tm assume Some: "rn_sms r = Some svc" and tm: "rn_tariff r = Some tm"
  obtain svc1 effs res where s: "Send (ge_lt env) (ge_up env) sender clk (req\<lparr>rq_To := target, rq_Text := msg\<rparr>) svc = (svc1, effs, res)"
    by (metis prod_cases3)
  obtain r1 out1 where e: "sms_effects env effs (r\<lparr>rn_sms := Some svc1\<rparr>) = (r1, out1)" by fastforce
  have b: "sound r (r1, out1)" using sound_sms_update [OF Some, of env effs svc1] e by simp
  then have topics: "rn_topics r = rn_topics r1" by (simp add: sound_def)
  show ?thesis
  proof (cases res)
    case (Inl err)
    show ?thesis
      unfolding sendAndReportSMS_def Some tm
      by (simp only: s e Inl topics Let_def split_beta prod.case fst_conv snd_conv sum.case option.case)
        (rule sound_more [OF b], auto simp: own_event [unfolded topics_ok_def] topics_ok_def tp_defs list.pred_map o_def list.pred_True)
  next
    case (Inr refs)
    obtain r2 out2 where w: "with_tariff env (RecordSMS (ge_tariff env) (int (length refs))) tm r1 = (r2, out2)" by fastforce
    have r2: "sound r (r2, out1 @ out2)" by (rule sound_record [OF b _ _ w]) (simp_all add: tm)
    then have "rn_topics r1 = rn_topics r2" using topics by (simp add: sound_def)
    with sound_more [OF r2] show ?thesis
      by (simp add: sendAndReportSMS_def Some tm s e Inr w topics topics_ok_def tp_defs)
  qed
qed (simp_all add: sendAndReportSMS_def sound_refl)

lemma sound_smsHandler [sound_intro]: "sound r (smsHandler env replies senders clks payload decoded r)"
proof -
  have "sound r (send_all_sms env replies senders clks req msg k ts r)" for req msg k ts
  proof (induction ts arbitrary: k r)
    case (Cons t ts)
    show ?case unfolding send_all_sms.simps
      by (intro sound_then_do Cons) (auto intro: sound_intro)
  qed (simp add: sound_refl)
  then show ?thesis by (auto simp: smsHandler_def sound_refl Let_def split_beta)
qed

text \<open>Every operation on a runner as an event, with the answers and clock values it depends on.\<close>

datatype gw_event =
    GSession disk byte bool
  | GUrc gotime instant gostring
  | GSync storage_env
  | GStorageCheck "gostring + StorageStatus" storage_env
  | GStatus "status_effect list"
  | GDisconnected gostring
  | GSmsCommand "nat \<Rightarrow> provider_reply" "nat \<Rightarrow> pdu_sender" "nat \<Rightarrow> nat \<Rightarrow> instant" gostring "SendSMSRequest option"
  | GDialCommand instant "gostring option" "gostring option"
  | GHangupCommand "gostring option"
  | GUssdAnswer "ussd_error + USSDResponse option"
  | GBalanceQuery
  | GTariffSet "tariff_request option"
  | GTariffReset
  | GClearSMS
  | GClearCalls
  | GSendSMS pdu_sender "nat \<Rightarrow> instant" gostring gostring
  | GSendUSSD "ussd_error + USSDResponse"
  | GDial instant "gostring option" gostring
  | GUpdateTariff TariffConfig
  | GSetUsage UsageUpdate
  | GRestart

fun gw_step :: "gw_env \<times> gw_event \<Rightarrow> ModemRunner \<Rightarrow> ModemRunner \<times> gw_effect list" where
  "gw_step (env, GSession d c k) r = runOnce_start env d c k r"
| "gw_step (env, GUrc g t line) r = urcStep env g t line r"
| "gw_step (env, GSync senv) r = syncStored env senv r"
| "gw_step (env, GStorageCheck reply senv) r = storageCheck env reply senv r"
| "gw_step (env, GStatus effs) r = status_effects env effs r"
| "gw_step (env, GDisconnected st) r = publishDisconnectedState env st r"
| "gw_step (env, GSmsCommand replies senders clks payload q) r = smsHandler env replies senders clks payload q r"
| "gw_step (env, GDialCommand t e q) r = dialHandler env t e q r"
| "gw_step (env, GHangupCommand e) r = hangupHandler env e r"
| "gw_step (env, GUssdAnswer res) r = ussd_answer env res r"
| "gw_step (env, GBalanceQuery) r = (fst (checkBalance_begin env r), [])"
| "gw_step (env, GTariffSet q) r = tariffSetHandler env q r"
| "gw_step (env, GTariffReset) r = tariffResetHandler env r"
| "gw_step (env, GClearSMS) r = ClearReceivedSMS env r"
| "gw_step (env, GClearCalls) r = ClearCallHistory env r"
| "gw_step (env, GSendSMS sender clk to msg) r = outcome (RunnerSendSMS env sender clk to msg r)"
| "gw_step (env, GSendUSSD res) r = outcome (RunnerSendUSSD env res r)"
| "gw_step (env, GDial t e num) r = outcome (RunnerDial env t e num r)"
| "gw_step (env, GUpdateTariff c) r = outcome (UpdateTariffConfig env c r)"
| "gw_step (env, GSetUsage u) r = outcome (SetTariffUsage env u r)"
| "gw_step (env, GRestart) r =
     (SetRecipientsManager (rn_recipients r) (SetSlotIndex (rn_slot r) (NewModemRunner (ge_up env) (rn_inboxFile r) (rn_callsFile r) (rn_mCfg r) (rn_cfg r))), [])"

definition wired :: "ModemRunner \<Rightarrow> bool" where
  "wired r \<longleftrightarrow> (if rn_driver r then rn_sms r \<noteq> None \<and> rn_call r \<noteq> None \<and> rn_ussd r \<noteq> None \<and> rn_tariff r \<noteq> None
     else rn_sms r = None \<and> rn_call r = None \<and> rn_ussd r = None \<and> rn_tariff r = None)"

definition gw_inv :: "gostring \<Rightarrow> gostring \<Rightarrow> ModemRunner \<Rightarrow> bool" where
  "gw_inv pre mid r \<longleftrightarrow> mq_TopicPrefix (cfg_MQTT (rn_cfg r)) = pre \<and> mc_ID (rn_mCfg r) = mid \<and> topics_ok r \<and> hist_ok r \<and> wired r \<and> 1 \<le> rn_slot r"

lemma sound_inv: "sound r res \<Longrightarrow> gw_inv pre mid r \<Longrightarrow> gw_inv pre mid (fst res) \<and> list_all (own pre mid) (snd res)"
  by (auto simp: sound_def gw_inv_def wired_def topics_ok_def split: prod.splits if_splits)

lemma sound_announce: "sound r (r, announce env r)"
  by (rule sound_pubs) (simp add: announce_def publishSMSHistory_def publishCallHistory_def topics_ok_def tp_defs Let_def)

lemma wireServices_inv:
  assumes "gw_inv pre mid r"
  shows "gw_inv pre mid (fst (wireServices env d c k r)) \<and> list_all (own pre mid) (snd (wireServices env d c k r))"
  using assms own_alerts [of r _ env]
  by (auto simp: wireServices_def gw_inv_def wired_def topics_ok_def with_tariff_def Let_def split_beta)

lemma sound_step:
  assumes "\<And>d c k. e \<noteq> GSession d c k" "e \<noteq> GRestart"
  shows "sound r (gw_step (env, e) r)"
proof -
  have "sound r (fst (checkBalance_begin env r), [])" by (auto simp: checkBalance_begin_def sound_def)
  then show ?thesis using assms by (cases e) (simp_all only: gw_step.simps, (intro sound_intro | blast)+)
qed

lemma gw_step_inv:
  assumes "gw_inv pre mid r"
  shows "gw_inv pre mid (fst (gw_step (env, e) r)) \<and> list_all (own pre mid) (snd (gw_step (env, e) r))"
proof (cases "(\<exists>d c k. e = GSession d c k) \<or> e = GRestart")
  case False
  then show ?thesis by (intro sound_inv [OF sound_step assms]) auto
next
  case True
  then show ?thesis
  proof (elim disjE exE)
    fix d c k assume "e = GSession d c k"
    then show ?thesis
      using wireServices_inv [OF assms, of env d c k] sound_inv [OF sound_announce [of "fst (wireServices env d c k r)" env]]
      by (auto simp: runOnce_start_def then_do_def split_beta)
  next
    assume "e = GRestart"
    then show ?thesis
      using assms by (auto simp: gw_inv_def hist_ok_def window_ok_def topics_ok_def wired_def NewModemRunner_def loadInbox_def
          loadCallHistory_def SetRecipientsManager_def SetSlotIndex_def split: option.splits)
  qed
qed

lemma gw_step_recipients: "rn_recipients (fst (gw_step (env, e) r)) = rn_recipients r"
proof (cases "(\<exists>d c k. e = GSession d c k) \<or> e = GRestart")
  case False
  then have "sound r (gw_step (env, e) r)" by (intro sound_step) auto
  then show ?thesis by (simp add: sound_def split_beta)
next
  case True
  then show ?thesis
    by (auto simp: runOnce_start_def then_do_def wireServices_def with_tariff_def SetRecipientsManager_def Let_def split_beta)
qed

interpretation gateway: event_machine gw_step "gw_inv pre mid" for pre mid
  by unfold_locales (use gw_step_inv in \<open>auto split: prod.splits\<close>)

lemma NewModemRunner_inv:
  "gw_inv (mq_TopicPrefix (cfg_MQTT c)) (mc_ID m) (NewModemRunner up None None m c)"
  by (simp add: NewModemRunner_def loadInbox_def loadCallHistory_def gw_inv_def topics_ok_def hist_ok_def window_ok_def wired_def)


section \<open>Pauses\<close>

fun jitters_ok :: "duration \<Rightarrow> (duration \<times> int) list \<Rightarrow> bool" where
  "jitters_ok backoff [] = True"
| "jitters_ok backoff ((session, jitter) # rest) =
     (let b = session_backoff session backoff in jitter_ok jitter b \<and> jitters_ok (next_backoff jitter b) rest)"

fun backoff_after :: "duration \<Rightarrow> (duration \<times> int) list \<Rightarrow> duration" where
  "backoff_after backoff [] = backoff"
| "backoff_after backoff ((session, jitter) # rest) = backoff_after (next_backoff jitter (session_backoff session backoff)) rest"

lemmas backoff_defs = session_backoff_def next_backoff_def jitter_ok_def minBackoff_def maxBackoff_def

lemma backoffs_append: "backoffs b (xs @ ys) = backoffs b xs @ backoffs (backoff_after b xs) ys"
  by (induction b xs rule: backoffs.induct) (simp_all add: Let_def)

lemma backoff_after_append: "backoff_after b (xs @ ys) = backoff_after (backoff_after b xs) ys"
  by (induction b xs rule: backoff_after.induct) simp_all

lemma jitters_append: "jitters_ok b (xs @ ys) \<longleftrightarrow> jitters_ok b xs \<and> jitters_ok (backoff_after b xs) ys"
  by (induction b xs rule: jitters_ok.induct) (auto simp: Let_def)

definition pause_ok :: "duration \<Rightarrow> bool" where
  "pause_ok b \<longleftrightarrow> 3 * 1000000000 \<le> b \<and> b \<le> 60 * 1000000000"

lemma next_pause_ok: "pause_ok b \<Longrightarrow> jitter_ok j b \<Longrightarrow> pause_ok (next_backoff j b)"
  by (auto simp: pause_ok_def backoff_defs Let_def)

lemma session_pause_ok: "pause_ok b \<Longrightarrow> pause_ok (session_backoff s b)"
  by (simp add: pause_ok_def backoff_defs)

lemma next_pause_grows:
  "pause_ok b \<Longrightarrow> jitter_ok j b \<Longrightarrow> 48 * 1000000000 \<le> next_backoff j b \<or> 8 * b \<le> 5 * next_backoff j b"
  by (auto simp: pause_ok_def backoff_defs Let_def split: if_splits)

lemma backoffs_ok: "pause_ok b \<Longrightarrow> jitters_ok b xs \<Longrightarrow> list_all pause_ok (backoffs b xs) \<and> pause_ok (backoff_after b xs)"
  by (induction b xs rule: backoffs.induct) (auto simp: Let_def intro: next_pause_ok session_pause_ok)

lemma backoffs_long: "i < length xs \<Longrightarrow> 300 * 1000000000 < fst (xs ! i) \<Longrightarrow> backoffs b xs ! i = 3 * 1000000000"
  by (induction b xs arbitrary: i rule: backoffs.induct) (auto simp: Let_def nth_Cons session_backoff_def minBackoff_def split: nat.splits)

lemma scaled:
  fixes p q b c d :: int
  assumes "p * b \<le> q * c" "8 * c \<le> 5 * d" "0 \<le> q"
  shows "8 * (p * b) \<le> 5 * (q * d)"
proof -
  have "8 * (p * b) \<le> q * (8 * c)" using assms(1) by simp
  also have "\<dots> \<le> q * (5 * d)" using assms(2,3) by (rule mult_left_mono)
  finally show ?thesis by simp
qed

text \<open>Quick failures in a row let the pause grow by at least three fifths each, up to 48 seconds.\<close>

lemma backoffs_grow:
  assumes "pause_ok b" "jitters_ok b qs" "list_all (\<lambda>q. fst q \<le> 300 * 1000000000) qs"
  shows "48 * 1000000000 \<le> backoff_after b qs \<or> 8 ^ length qs * b \<le> 5 ^ length qs * backoff_after b qs"
  using assms
proof (induction qs rule: rev_induct)
  case (snoc q qs)
  obtain s j where q: "q = (s, j)" by fastforce
  let ?b = "backoff_after b qs"
  have ok: "pause_ok ?b" "jitter_ok j ?b" and n: "backoff_after b (qs @ [q]) = next_backoff j ?b"
    using snoc.prems backoffs_ok [of b qs] by (auto simp: q jitters_append session_backoff_def backoff_after_append)
  from next_pause_grows [OF ok] have "48 * 1000000000 \<le> next_backoff j ?b \<or> 8 * ?b \<le> 5 * next_backoff j ?b" .
  moreover have "8 ^ length (qs @ [q]) * b \<le> 5 ^ length (qs @ [q]) * next_backoff j ?b"
    if "8 ^ length qs * b \<le> 5 ^ length qs * ?b" "8 * ?b \<le> 5 * next_backoff j ?b"
    using scaled [OF that] by (simp add: mult.assoc)
  ultimately show ?case
    using snoc.IH snoc.prems unfolding n jitters_append by auto
qed simp

text \<open>The pause before a new attempt to open the port of a modem always lies between 3 and 60 seconds, whatever
  the random part; it is 3 seconds after a session of more than five minutes; and from the seventh quick failure in a
  row on it is at least 48 seconds, so a missing modem is not polled more than about once a minute.
\<close>

theorem backoff_bounds:
  assumes "jitters_ok minBackoff xs"
  shows "list_all (\<lambda>p. 3 * 1000000000 \<le> p \<and> p \<le> 60 * 1000000000) (backoffs minBackoff xs)
    \<and> (\<forall>i<length xs. 300 * 1000000000 < fst (xs ! i) \<longrightarrow> backoffs minBackoff xs ! i = 3 * 1000000000)
    \<and> (\<forall>ys qs. xs = ys @ qs \<and> length qs = 7 \<and> list_all (\<lambda>q. fst q \<le> 300 * 1000000000) qs
          \<longrightarrow> 48 * 1000000000 \<le> last (backoffs minBackoff xs))"
proof -
  have m: "pause_ok minBackoff" by (simp add: pause_ok_def minBackoff_def)
  have "48 * 1000000000 \<le> last (backoffs minBackoff xs)"
    if xs: "xs = ys @ qs" "length qs = 7" "list_all (\<lambda>q. fst q \<le> 300 * 1000000000) qs" for ys qs
  proof -
    obtain qs6 q where q: "qs = qs6 @ [q]" "length qs6 = 6" using xs(2) by (cases qs rule: rev_cases) auto
    let ?b = "backoff_after minBackoff ys"
    have j: "jitters_ok ?b qs6" "pause_ok ?b" using assms backoffs_ok [OF m, of ys] by (auto simp: xs(1) q jitters_append)
    have "48 * 1000000000 \<le> backoff_after ?b qs6"
      using backoffs_grow [OF j(2,1)] xs(3) j(2) by (auto simp: q pause_ok_def)
    moreover have "fst q \<le> 300 * 1000000000" using xs(3) by (simp add: q)
    ultimately show ?thesis by (cases q) (simp add: xs(1) q backoffs_append Let_def session_backoff_def)
  qed
  then show ?thesis
    using backoffs_ok [OF m assms] by (auto simp: pause_ok_def [abs_def] backoffs_long)
qed

theorem backoff_bounds_witness:
  "3 * 1000000000 \<le> last (backoffs minBackoff (replicate 7 (0, 500000000)))
    \<and> 48 * 1000000000 \<le> last (backoffs minBackoff (replicate 7 (0, 500000000)))"
proof -
  have j: "jitters_ok minBackoff (replicate 7 (0, 500000000))" by code_simp
  from backoff_bounds [OF j] have "48 * 1000000000 \<le> last (backoffs minBackoff (replicate 7 (0, 500000000)))"
    by (elim conjE allE [of _ "[]"] allE [of _ "replicate 7 (0, 500000000)"]) (simp add: list_all_length)
  then show ?thesis by simp
qed

section \<open>Balance queries\<close>

text \<open>The times of the checks at which a query is sent.\<close>

fun balance_run :: "gw_env \<Rightarrow> instant list \<Rightarrow> ModemRunner \<Rightarrow> instant list" where
  "balance_run env [] r = []"
| "balance_run env (t # ts) r =
     (let (r1, code) = checkBalance_begin (env\<lparr>ge_now := t\<rparr>) r in (if code = None then [] else [t]) @ balance_run env ts r1)"

lemma balance_run_spaced:
  assumes "list_all (\<lambda>t. 0 < t) ts" "0 \<le> rn_lastBalanceCheck r"
  shows "sorted_wrt (\<lambda>a b. a + balance_interval r \<le> b) (balance_run env ts r)
    \<and> (rn_lastBalanceCheck r \<noteq> 0 \<longrightarrow> list_all (\<lambda>b. rn_lastBalanceCheck r + balance_interval r \<le> b) (balance_run env ts r))"
  using assms
proof (induction env ts r rule: balance_run.induct)
  case (2 env t ts r)
  have pos: "0 < balance_interval r" by (simp add: balance_interval_def Let_def)
  show ?case
  proof (cases "rn_lastBalanceCheck r \<noteq> 0 \<and> t - rn_lastBalanceCheck r < balance_interval r")
    case True
    then have "checkBalance_begin (env\<lparr>ge_now := t\<rparr>) r = (r, None)" by (simp add: checkBalance_begin_def)
    with 2 show ?thesis by simp
  next
    case False
    obtain code where c: "checkBalance_begin (env\<lparr>ge_now := t\<rparr>) r = (r\<lparr>rn_lastBalanceCheck := t\<rparr>, Some code)"
      using False by (simp add: checkBalance_begin_def)
    have i: "balance_interval (r\<lparr>rn_lastBalanceCheck := t\<rparr>) = balance_interval r" by (simp add: balance_interval_def)
    have IH: "sorted_wrt (\<lambda>a b. a + balance_interval r \<le> b) (balance_run env ts (r\<lparr>rn_lastBalanceCheck := t\<rparr>))"
      "list_all (\<lambda>b. t + balance_interval r \<le> b) (balance_run env ts (r\<lparr>rn_lastBalanceCheck := t\<rparr>))"
      using "2.IH" [OF c [symmetric] refl] "2.prems"(1) by (simp_all add: i)
    then show ?thesis using False pos c by (auto simp: list_all_iff) (fastforce)?
  qed
qed simp

text \<open>The automatic balance queries of a modem, over all its sessions, are at least an hour and at least the configured
  interval apart, and the first comes no sooner after the last query before.
\<close>

theorem balance_queries_spaced:
  assumes "list_all (\<lambda>t. 0 < t) ts" "0 \<le> rn_lastBalanceCheck r"
  shows "sorted_wrt (\<lambda>a b. a + max (3600 * 1000000000) (ct_CheckInterval (cfg_Tariff (rn_cfg r))) \<le> b) (balance_run env ts r)
    \<and> (rn_lastBalanceCheck r \<noteq> 0 \<longrightarrow> list_all (\<lambda>b. rn_lastBalanceCheck r + 3600 * 1000000000 \<le> b) (balance_run env ts r))"
proof -
  have i: "balance_interval r = max (3600 * 1000000000) (ct_CheckInterval (cfg_Tariff (rn_cfg r)))"
    by (auto simp: balance_interval_def Let_def)
  show ?thesis using balance_run_spaced [OF assms, of env] unfolding i by (auto simp: list_all_iff)
qed

definition demo_gw :: gw_env where
  "demo_gw = \<lparr>ge_conn = True, ge_now = 1000, ge_local = ''2026-01-31 12:00:00'', ge_format = (\<lambda>t. itoa (t_instant t)), ge_writeOK = True,
     ge_tariff = demo_env, ge_fmt = (\<lambda>_ _. ''0.00''), ge_errText = (\<lambda>_. ''failed''), ge_pf = decimal, ge_compile = (\<lambda>_. None),
     ge_lt = (\<lambda>_. False), ge_up = id, ge_lo = id\<rparr>"

definition demo_mcfg :: ModemConfig where
  "demo_mcfg = \<lparr>mc_ID = ''m1'', mc_Name = [], mc_Port = ''/dev/ttyUSB0'', mc_BaudRate = 115200, mc_Type = ''auto'', mc_PIN = [],
     mc_DataBits = 8, mc_StopBits = 1, mc_Parity = ''none'', mc_FlowControl = ''none''\<rparr>"

definition demo_gateway :: ModemRunner where
  "demo_gateway = NewModemRunner id (Some []) (Some []) demo_mcfg Defaults"

theorem balance_queries_spaced_witness:
  "balance_run demo_gw [1, 2, 86400000000000, 86400000000001] demo_gateway = [1, 86400000000001]
    \<and> sorted_wrt (\<lambda>a b. a + 86400 * 1000000000 \<le> b) (balance_run demo_gw [1, 2, 86400000000000, 86400000000001] demo_gateway)"
proof -
  have r: "cfg_Tariff (rn_cfg demo_gateway) = cfg_Tariff Defaults" "rn_lastBalanceCheck demo_gateway = 0"
    by (simp_all add: demo_gateway_def NewModemRunner_def loadInbox_def loadCallHistory_def)
  have "sorted_wrt (\<lambda>a b. a + 86400 * 1000000000 \<le> b) (balance_run demo_gw [1, 2, 86400000000000, 86400000000001] demo_gateway)"
    using balance_queries_spaced [of "[1, 2, 86400000000000, 86400000000001]" demo_gateway demo_gw] by (simp add: r Defaults_def)
  then show ?thesis
    by (simp add: checkBalance_begin_def balance_interval_def r Defaults_def Let_def)
qed

definition demo_msg :: AssembledSMS where
  "demo_msg = \<lparr>As_From = ''+79001234567'', As_Text = ''hi'', As_Timestamp = \<lparr>t_instant = 5, t_offset = 0\<rparr>, As_Segments = 1,
     As_Encoding = ''GSM7'', IsComplete = True, IsUpdate = False\<rparr>"

theorem inbox_window_witness:
  "map rx_Text (GetReceivedSMS (add_all record_sms (replicate 2 (demo_gw, demo_msg)) demo_gateway)) = [''hi'']
    \<and> GetReceivedSMS (add_all record_sms (replicate 2 (demo_gw, demo_msg)) demo_gateway)
        = keep_last 100 (entries sms_entry record_sms (replicate 2 (demo_gw, demo_msg)) demo_gateway)"
proof -
  have r: "rn_received demo_gateway = []" by (simp add: demo_gateway_def restarted)
  have "map rx_Text (rn_received (add_all record_sms (replicate 2 (demo_gw, demo_msg)) demo_gateway)) = [''hi'']"
    by (simp add: numeral_2_eq_2 recordIncomingSMS_entry sms_entry_def sms_key_def r demo_msg_def Let_def maxInboxMessages_def)
  then show ?thesis
    using inbox_window [of demo_gateway "[]" "replicate 2 (demo_gw, demo_msg)"] by (simp add: r GetReceivedSMS_def)
qed

section \<open>Accounting of sent messages\<close>

fun reports_received :: "effect \<Rightarrow> bool" where
  "reports_received (Received m) = True"
| "reports_received _ = False"

lemma trackPart_quiet: "list_all (\<lambda>e. \<not> reports_received e) (snd (trackPart now ref n s))"
  by (auto simp: trackPart_def list_all_iff split: prod.splits option.splits)

lemma dispatchPDUs_quiet: "list_all (\<lambda>e. \<not> reports_received e) (fst (snd (dispatchPDUs sender clk num rr n i ps s)))"
proof (induction ps arbitrary: i s)
  case (Cons p ps)
  show ?case using Cons.IH trackPart_quiet by (auto simp: split_beta split: sum.split)
qed simp

lemma Send_quiet: "list_all (\<lambda>e. \<not> reports_received e) (fst (snd (Send lt up sender clk req s)))"
  using dispatchPDUs_quiet by (auto simp: Send_def Let_def split_beta split: option.split sum.split)

fun forward :: "ModemRunner \<Rightarrow> effect \<Rightarrow> gw_effect" where
  "forward r (StatusEvent e) = Pub (tp_SMSStatus (rn_topics r)) False (JDelivery e)"
| "forward r e = SmsEff e"

lemma sms_effects_quiet: "list_all (\<lambda>e. \<not> reports_received e) effs \<Longrightarrow> sms_effects env effs r = (r, map (forward r) effs)"
  by (induction env effs r rule: sms_effects.induct) (simp_all add: then_do_def)

fun transmission :: "gw_effect \<Rightarrow> (nat \<times> gostring) list" where
  "transmission (SmsEff e) = pdu_tx e"
| "transmission _ = []"

definition transmitted :: "gw_effect list \<Rightarrow> (nat \<times> gostring) list" where
  "transmitted out = concat (map transmission out)"

lemma forward_simps [simp]: "transmission (forward r e) = pdu_tx e" "SpawnDial t \<noteq> forward r e"
  by (cases e; simp)+

lemma transmitted_simps [simp]:
  "transmitted [] = []" "transmitted (e # es) = transmission e @ transmitted es" "transmitted (es @ fs) = transmitted es @ transmitted fs"
  "transmitted (map (forward r) effs) = pdus_of effs" "transmitted (publishEvent env ev r) = []" "transmitted (concat (map (onAlert env r) as)) = []"
  by (simp_all add: transmitted_def pdus_of_def publishEvent_def onAlert_def o_def)

lemma transmitted_pubs: "(\<And>e. e \<in> set es \<Longrightarrow> \<exists>t ret p. e = Pub t ret p) \<Longrightarrow> transmitted es = [] \<and> SpawnDial x \<notin> set es"
  by (induction es) fastforce+

lemma Send_counts: "Send lt up sender clk req s = (s', effs, Inr refs) \<Longrightarrow> length refs = length (pdus_of effs)"
proof -
  assume s: "Send lt up sender clk req s = (s', effs, Inr refs)"
  obtain lim num pdus rc where
    "dispatchPDUs sender clk num (wants_report req s) (length pdus) 0 pdus (s\<lparr>svc_limiter := lim, svc_refCounter := rc\<rparr>) = (s', effs, Inr refs)"
    using Send_dispatch [OF s disjI2 [OF refl]] .
  from dispatchPDUs_exact [OF this] show ?thesis by simp
qed

lemma RecordSMS_month:
  "0 \<le> n \<Longrightarrow> wrap64 (tm_smsMonthCount m) = tm_smsMonthCount m \<Longrightarrow>
     tm_smsMonthCount (fst (RecordSMS env n m)) = wrap64 (tm_smsMonthCount m + n)"
  by (auto simp: RecordSMS_def evaluateSMSLimits_def Let_def split_beta)

text \<open>Property C18. The quota counts what was transmitted. When a command to send a message succeeds, the monthly counter grows by exactly the number of
  PDUs handed to the modem and the new status is published last. When it fails, the failure is published as an event, the
  recipient is called if this is configured, and the counters stay as they are, also when the network has already accepted some parts.
\<close>

theorem sms_accounting:
  assumes "rn_sms r = Some svc" "rn_tariff r = Some tm" "wrap64 (tm_smsMonthCount tm) = tm_smsMonthCount tm"
    "Send (ge_lt env) (ge_up env) sender clk (req\<lparr>rq_To := target, rq_Text := msg\<rparr>) svc = (svc1, effs, res)"
    "sendAndReportSMS env reply sender clk req target msg r = (r', out)"
  shows "transmitted out = pdus_of effs \<and> rn_sms r' = Some svc1
    \<and> (case res of
         Inr refs \<Rightarrow> tm_smsMonthCount (the (rn_tariff r')) = wrap64 (tm_smsMonthCount tm + int (length (transmitted out)))
           \<and> last out = Pub (tp_AccountingStatus (rn_topics r)) False (JUsage (Status (the (rn_tariff r'))))
       | Inl err \<Rightarrow> rn_tariff r' = Some tm
           \<and> (ge_conn env \<longrightarrow> (\<exists>ev. Pub (tp_Event (rn_topics r)) False (JEvent ev) \<in> set out \<and> ep_EventType ev = ''sms_send_failed''))
           \<and> (SpawnDial target \<in> set out \<longleftrightarrow> sec_FallbackCall (cfg_Security (rn_cfg r)) \<and> rn_call r \<noteq> None))"
proof -
  have e: "sms_effects env effs r1 = (r1, map (forward r1) effs)" for r1
    using Send_quiet [of "ge_lt env" "ge_up env" sender clk "req\<lparr>rq_To := target, rq_Text := msg\<rparr>" svc] assms(4)
    by (intro sms_effects_quiet) simp
  show ?thesis
  proof (cases res)
    case (Inl err)
    define diag where "diag = (if ct_AutoCheckOnError (cfg_Tariff (rn_cfg r))
      then (let (rep, alerts) = RunDiagnostic (ge_fmt env 2) (mc_ID (rn_mCfg r)) True (Some (Some (us_Balance (Status tm), us_Currency (Status tm)))) reply ''sms_send_failure''
            in map (\<lambda>a. Pub (tp_Alert (rn_topics r)) False (Raw a)) alerts @ [Pub (tp_Diagnostic (rn_topics r)) False (JReport rep)]) else [])"
    define ev where "ev = NewEvent env (mc_ID (rn_mCfg r)) ''sms_send_failed'' ''sms'' ''error''
      (''Failed to send SMS to '' @ target @ '': '' @ ge_errText env err) [(''target'', JStr target), (''error'', JStr (ge_errText env err))]"
    define r1 where "r1 = r\<lparr>rn_sms := Some svc1\<rparr>"
    have out: "r' = r1" "out = map (forward r1) effs @ publishEvent env ev r1 @ diag
        @ (if sec_FallbackCall (cfg_Security (rn_cfg r)) \<and> rn_call r \<noteq> None then [SpawnDial target] else [])"
      using assms(5) unfolding sendAndReportSMS_def assms(1,2,4) prod.case option.case e Inl sum.case Let_def diag_def ev_def r1_def prod.inject by blast+
    have d: "transmitted diag = [] \<and> SpawnDial target \<notin> set diag"
      by (rule transmitted_pubs) (auto simp: diag_def split_beta split: if_splits)
    have "SpawnDial target \<notin> set (publishEvent env ev r1)" by (simp add: publishEvent_def)
    moreover have "ge_conn env \<Longrightarrow> \<exists>ev'. Pub (tp_Event (rn_topics r)) False (JEvent ev') \<in> set (publishEvent env ev r1) \<and> ep_EventType ev' = ''sms_send_failed''"
      by (simp add: publishEvent_def r1_def ev_def NewEvent_def)
    moreover have "transmitted out = pdus_of effs" using d by (simp add: out(2))
    ultimately show ?thesis using d by (auto simp: out Inl r1_def assms(2))
  next
    case (Inr refs)
    have n: "length refs = length (pdus_of effs)" using Send_counts assms(4) Inr by blast
    show ?thesis
      using assms(5) RecordSMS_month [OF _ assms(3), of "int (length refs)" "ge_tariff env"]
      by (auto simp: sendAndReportSMS_def assms(1,2,4) e Inr n with_tariff_def split_beta)
  qed
qed

section \<open>From the lines of the modem to the topic of received messages\<close>

fun on :: "gostring \<Rightarrow> gw_effect \<Rightarrow> (bool \<times> gw_payload) list" where
  "on t (Pub t' retained payload) = (if t' = t then [(retained, payload)] else [])"
| "on t _ = []"

definition on_topic :: "gostring \<Rightarrow> gw_effect list \<Rightarrow> (bool \<times> gw_payload) list" where
  "on_topic t effs = concat (map (on t) effs)"

lemma on_topic_simps [simp]:
  "on_topic t [] = []" "on_topic t (e # es) = on t e @ on_topic t es" "on_topic t (es @ fs) = on_topic t es @ on_topic t fs"
  by (simp_all add: on_topic_def)

lemma modem_topic_eq [simp]: "modem_topic t s = modem_topic t s' \<longleftrightarrow> s = s'"
  by (simp add: modem_topic_def)

fun received :: "effect \<Rightarrow> AssembledSMS list" where
  "received (Received m) = [m]"
| "received _ = []"

definition received_of :: "effect list \<Rightarrow> AssembledSMS list" where
  "received_of effs = concat (map received effs)"

lemma received_of_simps [simp]: "received_of [] = []" "received_of (e # es) = received e @ received_of es" "received_of (es @ fs) = received_of es @ received_of fs"
  by (simp_all add: received_of_def)

text \<open>An operation that has nothing to do with received messages.\<close>

definition aside :: "ModemRunner \<Rightarrow> ModemRunner \<times> gw_effect list \<Rightarrow> bool" where
  "aside r res \<longleftrightarrow> rn_sms (fst res) = rn_sms r \<and> rn_received (fst res) = rn_received r \<and> rn_mCfg (fst res) = rn_mCfg r
     \<and> rn_topics (fst res) = rn_topics r \<and> on_topic (tp_SMSReceived (rn_topics r)) (snd res) = []"

lemma aside_refl: "aside r (r, [])"
  by (simp add: aside_def)

lemma aside_then_do: "aside r (f r) \<Longrightarrow> (\<And>r. aside r (g r)) \<Longrightarrow> aside r (then_do f g r)"
  unfolding then_do_def aside_def by (simp add: split_beta) metis

lemma aside_event [simp]: "on_topic (tp_SMSReceived (rn_topics r)) (publishEvent env ev r) = []"
  by (simp add: publishEvent_def tp_defs)

lemma aside_alerts [simp]: "on_topic (tp_SMSReceived (rn_topics r)) (concat (map (onAlert env r) as)) = []"
  by (induction as) (simp_all add: onAlert_def publishEvent_def tp_defs)

lemma aside_tariff: "aside r (with_tariff env f tm r)"
  by (simp add: aside_def with_tariff_def split_beta)

lemma aside_balance: "aside r (applyParsedBalance env text r)"
  using aside_alerts [of r env]
  by (auto simp: applyParsedBalance_def aside_def with_tariff_def Let_def split_beta tp_Balance_def tp_AccountingStatus_def tp_SMSReceived_def
      split: sum.split option.split)

lemma aside_call: "aside r (call_effects env effs r)"
proof -
  have acc: "aside r (r, publishAccountingStatus env tm r)" for r tm env
    by (simp add: aside_def publishAccountingStatus_def tp_defs)
  have ev: "aside r (onCallEvent env e r)" for e r env
    unfolding onCallEvent_def
    by (intro aside_then_do)
      (auto split: option.split intro: aside_then_do aside_tariff acc simp: aside_refl,
       auto simp: aside_def recordCall_def saveCallHistoryLocked_def publishCallHistory_def tp_defs Let_def)
  have eff: "aside r (r, [CallEff e])" for r e by (simp add: aside_def)
  show ?thesis
    by (induction env effs r rule: call_effects.induct) (simp_all add: aside_refl aside_then_do ev eff)
qed

lemma aside_ussd: "aside r (r\<lparr>rn_ussd := u\<rparr>, map (onUSSDResponse r) resps)"
proof -
  have "on_topic (tp_SMSReceived (rn_topics r)) (map (onUSSDResponse r) resps) = []"
    by (induction resps) (simp_all add: onUSSDResponse_def tp_defs)
  then show ?thesis by (simp add: aside_def)
qed

lemma record_sms_cong:
  "rn_received r1 = rn_received r2 \<Longrightarrow> rn_mCfg r1 = rn_mCfg r2 \<Longrightarrow> rn_received (record_sms env m r1) = rn_received (record_sms env m r2)"
  by (simp add: recordIncomingSMS_entry sms_entry_def Let_def)

lemma add_all_cong:
  "rn_received r1 = rn_received r2 \<Longrightarrow> rn_mCfg r1 = rn_mCfg r2 \<Longrightarrow> rn_received (add_all record_sms xs r1) = rn_received (add_all record_sms xs r2)"
proof (induction xs arbitrary: r1 r2)
  case (Cons ex xs)
  obtain env m where ex: "ex = (env, m)" by fastforce
  show ?case using Cons.prems by (auto simp: ex intro!: Cons.IH record_sms_cong)
qed simp

lemma onReceived_facts:
  "rn_received (fst (onReceived env m r)) = rn_received (record_sms env m r)" "rn_mCfg (fst (onReceived env m r)) = rn_mCfg r"
  "rn_topics (fst (onReceived env m r)) = rn_topics r" "rn_sms (fst (onReceived env m r)) = rn_sms r"
  "on_topic (tp_SMSReceived (rn_topics r)) (snd (onReceived env m r)) = [(False, JSms m)]"
proof -
  obtain r1 e1 where r1: "recordIncomingSMS env m r = (r1, e1)" by fastforce
  then have f: "rn_mCfg r1 = rn_mCfg r" "rn_topics r1 = rn_topics r" "rn_sms r1 = rn_sms r" "on_topic (tp_SMSReceived (rn_topics r)) e1 = []"
    by (auto simp: recordIncomingSMS_entry saveInboxLocked_def publishSMSHistory_def tp_defs Let_def split: if_splits)
  have b: "aside r1 (applyParsedBalance env (As_Text m) r1)" by (rule aside_balance)
  show "rn_received (fst (onReceived env m r)) = rn_received (record_sms env m r)" "rn_mCfg (fst (onReceived env m r)) = rn_mCfg r"
    "rn_topics (fst (onReceived env m r)) = rn_topics r" "rn_sms (fst (onReceived env m r)) = rn_sms r"
    "on_topic (tp_SMSReceived (rn_topics r)) (snd (onReceived env m r)) = [(False, JSms m)]"
    using b f by (simp_all add: onReceived_def then_do_def r1 split_beta aside_def) (simp add: tp_defs)
qed

lemma sms_effects_received:
  "rn_received (fst (sms_effects env effs r)) = rn_received (add_all record_sms (map (Pair env) (received_of effs)) r)
   \<and> rn_mCfg (fst (sms_effects env effs r)) = rn_mCfg r \<and> rn_topics (fst (sms_effects env effs r)) = rn_topics r
   \<and> rn_sms (fst (sms_effects env effs r)) = rn_sms r
   \<and> on_topic (tp_SMSReceived (rn_topics r)) (snd (sms_effects env effs r)) = map (\<lambda>m. (False, JSms m)) (received_of effs)"
proof (induction effs arbitrary: r)
  case (Cons e effs)
  show ?case
  proof (cases "\<exists>m. e = Received m")
    case True
    then obtain m where m: "e = Received m" by blast
    show ?thesis
      using Cons.IH [of "fst (onReceived env m r)"] onReceived_facts [where env = env and m = m and r = r]
        add_all_cong [of "fst (onReceived env m r)" "record_sms env m r" "map (Pair env) (received_of effs)"]
      by (simp add: m then_do_def split_beta)
  next
    case False
    then have "received e = []" "sms_effects env (e # effs) r = then_do (\<lambda>r. (r, [forward r e])) (sms_effects env effs) r"
      by (cases e; simp)+
    moreover have "on (tp_SMSReceived (rn_topics r)) (forward r e) = []" by (cases e) (simp_all add: tp_defs)
    ultimately show ?thesis using Cons.IH [of r] by (simp add: then_do_def split_beta)
  qed
qed simp

lemma urcStep_received:
  assumes "rn_sms r = Some svc" "HandleURC gnow (ge_now env) line svc = (svc1, effs)"
  shows "rn_sms (fst (urcStep env gnow now2 line r)) = Some svc1 \<and> rn_mCfg (fst (urcStep env gnow now2 line r)) = rn_mCfg r
    \<and> rn_topics (fst (urcStep env gnow now2 line r)) = rn_topics r
    \<and> on_topic (tp_SMSReceived (rn_topics r)) (snd (urcStep env gnow now2 line r)) = map (\<lambda>m. (False, JSms m)) (received_of effs)
    \<and> rn_received (fst (urcStep env gnow now2 line r)) = rn_received (add_all record_sms (map (Pair env) (received_of effs)) r)"
proof -
  define rest where "rest = then_do (\<lambda>r. case rn_call r of
      Some svc \<Rightarrow> (let (svc1, effs) = CallHandleURC (ge_now env) now2 line svc in call_effects env effs (r\<lparr>rn_call := Some svc1\<rparr>)) | None \<Rightarrow> (r, []))
    (\<lambda>r. case rn_ussd r of
      Some svc \<Rightarrow> (let (svc1, resps) = USSDHandleURC line svc in (r\<lparr>rn_ussd := Some svc1\<rparr>, map (onUSSDResponse r) resps)) | None \<Rightarrow> (r, []))"
  have c: "aside r (call_effects env effs (r\<lparr>rn_call := c\<rparr>))" for r c effs
    using aside_call [of "r\<lparr>rn_call := c\<rparr>" env effs] by (simp add: aside_def)
  have a: "aside r (rest r)" for r
    unfolding rest_def by (intro aside_then_do) (auto simp: aside_refl split_beta split: option.split intro: c aside_ussd)
  obtain r1 e1 where s: "sms_effects env effs (r\<lparr>rn_sms := Some svc1\<rparr>) = (r1, e1)" by fastforce
  have u: "urcStep env gnow now2 line r = (fst (rest r1), e1 @ snd (rest r1))"
    unfolding urcStep_def rest_def [symmetric] by (simp add: then_do_def assms s split_beta)
  have "rn_received (add_all record_sms xs (r\<lparr>rn_sms := Some svc1\<rparr>)) = rn_received (add_all record_sms xs r)" for xs
    by (rule add_all_cong) simp_all
  then show ?thesis
    using sms_effects_received [of env effs "r\<lparr>rn_sms := Some svc1\<rparr>"] a [of r1] s by (simp add: u aside_def)
qed

type_synonym urc_line = "gw_env \<times> gotime \<times> instant \<times> gostring"

definition urc_line :: "urc_line \<Rightarrow> ModemRunner \<Rightarrow> ModemRunner \<times> gw_effect list" where
  "urc_line l r = (case l of (env, gnow, now2, line) \<Rightarrow> urcStep env gnow now2 line r)"

definition sms_line :: "urc_line \<Rightarrow> SMSService \<Rightarrow> SMSService \<times> effect list" where
  "sms_line l svc = (case l of (env, gnow, now2, line) \<Rightarrow> HandleURC gnow (ge_now env) line svc)"

lemma line_simps [simp]:
  "urc_line (env, gnow, now2, line) r = urcStep env gnow now2 line r" "sms_line (env, gnow, now2, line) svc = HandleURC gnow (ge_now env) line svc"
  by (simp_all add: urc_line_def sms_line_def)

definition arrivals :: "urc_line list \<Rightarrow> SMSService \<Rightarrow> (gw_env \<times> AssembledSMS) list" where
  "arrivals ls svc = concat (map2 (\<lambda>l effs. map (Pair (fst l)) (received_of effs)) ls (snd (run sms_line ls svc)))"

lemma add_all_append: "add_all add (xs @ ys) s = add_all add ys (add_all add xs s)"
  by (induction add xs s rule: add_all.induct) simp_all

lemma urc_lines_received:
  assumes "rn_sms r = Some svc"
  shows "rn_sms (fst (run urc_line ls r)) = Some (fst (run sms_line ls svc))
    \<and> on_topic (tp_SMSReceived (rn_topics r)) (concat (snd (run urc_line ls r))) = map (\<lambda>m. (False, JSms m)) (map snd (arrivals ls svc))
    \<and> rn_received (fst (run urc_line ls r)) = rn_received (add_all record_sms (arrivals ls svc) r)"
  using assms
proof (induction ls arbitrary: r svc)
  case (Cons l ls)
  obtain env gnow now2 line where l: "l = (env, gnow, now2, line)" by (metis prod_cases4)
  obtain svc1 effs where h: "HandleURC gnow (ge_now env) line svc = (svc1, effs)" by fastforce
  let ?r = "fst (urc_line l r)"
  note f = urcStep_received [OF Cons.prems h, of now2]
  have sms: "rn_sms ?r = Some svc1" using f by (simp add: l)
  have a: "arrivals (l # ls) svc = map (Pair env) (received_of effs) @ arrivals ls svc1"
    by (simp add: arrivals_def l h Let_def split_beta)
  have "rn_received (add_all record_sms (arrivals ls svc1) ?r)
      = rn_received (add_all record_sms (arrivals ls svc1) (add_all record_sms (map (Pair env) (received_of effs)) r))"
    using f by (intro add_all_cong) (simp_all add: l)
  then show ?case
    using Cons.IH [OF sms] f by (simp add: l a [unfolded l] add_all_append Let_def split_beta h o_def)
qed (simp add: arrivals_def)

lemma arrivals_messages: "map snd (arrivals ls svc) = received_of (concat (snd (run sms_line ls svc)))"
proof -
  have "map snd (concat (map2 (\<lambda>l effs. map (Pair (fst l)) (received_of effs)) xs ys)) = received_of (concat ys)"
    if "length xs = length ys" for xs :: "urc_line list" and ys
    using that by (induction xs ys rule: list_induct2) (simp_all add: o_def)
  then show ?thesis by (simp add: arrivals_def)
qed

text \<open>Property C9. The gateway implements its SMS service: over any sequence of lines from the modem its service state is the one of the
  service alone, its topic for received messages carries exactly the messages the service reports, each once, not retained and in their order, and
  its inbox is what recording them one after the other gives, whatever the call and the USSD service do with the same lines.
\<close>

theorem gateway_refines_sms:
  assumes "rn_sms r = Some svc"
  shows "let (svc', outs) = run sms_line ls svc; (r', gouts) = run urc_line ls r
    in rn_sms r' = Some svc'
      \<and> on_topic (tp_SMSReceived (rn_topics r)) (concat gouts) = map (\<lambda>m. (False, JSms m)) (received_of (concat outs))
      \<and> GetReceivedSMS r' = rn_received (add_all record_sms (arrivals ls svc) r)"
  using urc_lines_received [OF assms, of ls] by (simp add: split_beta GetReceivedSMS_def arrivals_messages)

section \<open>From a command to a publication\<close>

lemma run_map: "run step (map f es) s = run (\<lambda>e. step (f e)) es s"
  by (induction es arbitrary: s) (simp_all add: Let_def)

lemma recorded:
  "\<exists>e\<in>set (rn_received (record_sms env m r)). rx_Sender e = As_From m \<and> rx_Text e = As_Text m \<and> rx_Timestamp e = ge_format env (As_Timestamp m)"
proof (cases "sms_entry env m r")
  case Nil
  then show ?thesis by (auto simp: recordIncomingSMS_entry) (auto simp: sms_entry_def sms_key_def Let_def split: if_splits)
next
  case (Cons e es)
  then have e: "es = []" "rx_Sender e = As_From m" "rx_Text e = As_Text m" "rx_Timestamp e = ge_format env (As_Timestamp m)"
    by (auto simp: sms_entry_def Let_def split: if_splits)
  have "rn_received (record_sms env m r) = keep_last maxInboxMessages (rn_received r @ [e])"
    using Cons inbox.add_hist [of env m r] e(1) by simp
  moreover have "e \<in> set (keep_last maxInboxMessages (rn_received r @ [e]))"
    by (simp add: keep_last_drop maxInboxMessages_def)
  ultimately show ?thesis using e by auto
qed

lemma smsHandler_to:
  assumes "rq_To req \<noteq> []" "GetText req \<noteq> []"
  shows "smsHandler env replies senders clks payload (Some req) r
    = sendAndReportSMS env (replies 0) (senders 0) (clks 0) req (rq_To req) (GetText req) r"
  using assms by (simp add: smsHandler_def sms_targets_def then_do_def split_beta)

lemma sendAndReport_ok:
  assumes "rn_sms r = Some svc" "rn_tariff r = Some tm"
    "Send (ge_lt env) (ge_up env) sender clk (req\<lparr>rq_To := target, rq_Text := msg\<rparr>) svc = (svc1, effs, Inr refs)"
  shows "transmitted (snd (sendAndReportSMS env reply sender clk req target msg r)) = pdus_of effs"
proof -
  have "sms_effects env effs r1 = (r1, map (forward r1) effs)" for r1
    using Send_quiet [of "ge_lt env" "ge_up env" sender clk "req\<lparr>rq_To := target, rq_Text := msg\<rparr>" svc] assms(3)
    by (intro sms_effects_quiet) simp
  then show ?thesis by (simp add: sendAndReportSMS_def assms with_tariff_def split_beta)
qed

abbreviation lines_at :: "gw_env \<Rightarrow> gotime \<Rightarrow> (instant \<times> gostring) list \<Rightarrow> urc_line list" where
  "lines_at env gnow \<equiv> map (\<lambda>(t, line). (env\<lparr>ge_now := t\<rparr>, gnow, t, line))"


definition demo_wired :: ModemRunner where
  "demo_wired = demo_gateway\<lparr>rn_driver := True, rn_sms := Some (demo_service None), rn_tariff := Some demo_tm,
     rn_call := Some (NewCallService ''m1'' True True), rn_ussd := Some (NewUSSDService True)\<rparr>"

lemma demo_wired_simps [simp]:
  "rn_sms demo_wired = Some (demo_service None)" "rn_tariff demo_wired = Some demo_tm" "rn_topics demo_wired = NewTopics ''gsm2mqtt'' ''m1''"
  "rn_call demo_wired = Some (NewCallService ''m1'' True True)" "rn_cfg demo_wired = Defaults" "rn_received demo_wired = []"
  by (simp_all add: demo_wired_def demo_gateway_def NewModemRunner_def loadInbox_def loadCallHistory_def demo_mcfg_def Defaults_def)

definition demo_reply :: provider_reply where
  "demo_reply = \<lparr>pr_rssi = 20, pr_rssiErr = False, pr_reg = None, pr_regErr = False, pr_op = [], pr_sim = ''READY'', pr_simErr = False\<rparr>"

lemma demo_long_same: "demo_long\<lparr>rq_To := rq_To demo_long, rq_Text := rq_Text demo_long\<rparr> = demo_long"
  by (simp add: demo_long_def demo_request_def)

text \<open>Two parts, of which the modem accepts the first only: the quota does not see it.\<close>

abbreviation half_sent :: "ModemRunner \<times> gw_effect list" where
  "half_sent \<equiv> sendAndReportSMS demo_gw demo_reply half_sender (\<lambda>i. 0) demo_long (rq_To demo_long) (rq_Text demo_long) demo_wired"

theorem sms_accounting_witness:
  "length (transmitted (snd half_sent)) = 2 \<and> rn_tariff (fst half_sent) = Some demo_tm \<and> SpawnDial (rq_To demo_long) \<in> set (snd half_sent)"
proof -
  let ?send = "Send (ge_lt demo_gw) (ge_up demo_gw) half_sender (\<lambda>i. 0) (demo_long\<lparr>rq_To := rq_To demo_long, rq_Text := rq_Text demo_long\<rparr>) (demo_service None)"
  have "case ?send of (_, effs, res) \<Rightarrow> isl res \<and> length (pdus_of effs) = 2"
    using demo_half_facts by (simp add: demo_long_same demo_gw_def)
  then obtain svc1 effs err where e: "?send = (svc1, effs, Inl err)" "length (pdus_of effs) = 2"
    by (cases ?send) (auto simp: isl_def)
  have w: "wrap64 (tm_smsMonthCount demo_tm) = tm_smsMonthCount demo_tm" by (simp add: demo_tm_simps wrap64_def)
  have "sendAndReportSMS demo_gw demo_reply half_sender (\<lambda>i. 0) demo_long (rq_To demo_long) (rq_Text demo_long) demo_wired = (fst half_sent, snd half_sent)"
    by simp
  from sms_accounting [OF demo_wired_simps(1,2) w e(1) this] show ?thesis using e(2) by (simp add: Defaults_def)
qed

abbreviation demo_command :: "ModemRunner \<times> gw_effect list" where
  "demo_command \<equiv> smsHandler demo_gw (\<lambda>_. demo_reply) (\<lambda>_ i n h. Inr 5) (\<lambda>_ _. 0) [] (Some demo_long) demo_wired"

abbreviation demo_lines :: "urc_line list" where
  "demo_lines \<equiv> lines_at demo_gw \<lparr>t_instant = 0, t_offset = 0\<rparr>
     (cmt_lines ''+CMT: ,24'' (\<lambda>k. 5) (\<lambda>k. the (demo_relay (snd (transmitted (snd demo_command) ! k)))) [1, 0])"


theorem gateway_refines_sms_witness:
  "on_topic (tp_SMSReceived (rn_topics demo_wired)) (concat (snd (run urc_line demo_lines demo_wired)))
     = map (\<lambda>m. (False, JSms m)) (received_of (concat (snd (run sms_line demo_lines (demo_service None)))))
   \<and> rn_sms (fst (run urc_line demo_lines demo_wired)) = Some (fst (run sms_line demo_lines (demo_service None)))"
  using gateway_refines_sms [OF demo_wired_simps(1), of demo_lines] by (simp add: split_beta)

section \<open>Two consequences of the callbacks\<close>

lemma call_minutes_pos: "0 < d \<Longrightarrow> 0 < call_minutes d"
  by (simp add: call_minutes_def)

text \<open>A call that uses up the minutes of the tariff is announced by an event whose type is not among those the gateway has declared
  for its event entity, where the names for call minutes are others: a consumer that knows only the declared types misses it.
\<close>

theorem call_alert_undeclared:
  assumes "rn_tariff r = Some tm" "tm_onAlert tm" "\<not> tm_warnedCallExceeded tm" "0 < tc_CallMinutesLimit (tm_cfg tm)"
    "ge_conn env" "ce_Type e = ''ended''" "3 * 1000000000 < ce_Duration e"
    "tc_CallMinutesLimit (tm_cfg tm) \<le> tm_callMinutesUsed tm + call_minutes (ce_Duration e)"
  shows "\<exists>ev. Pub (tp_Event (rn_topics r)) False (JEvent ev) \<in> set (snd (onCallEvent env e r))
    \<and> ep_EventType ev = ''call_limit_exceeded'' \<and> ep_EventType ev \<notin> set EventTypes"
proof -
  let ?rec = "RecordCallMinutes (ge_fmt env) (ge_tariff env) (call_minutes (ce_Duration e)) tm"
  have "0 < call_minutes (ce_Duration e)" using assms(7) by (intro call_minutes_pos) simp
  then obtain a where a: "a \<in> set (snd ?rec)" "al_Type a = ''call_limit_exceeded''"
    using assms(2-4,8) by (fastforce simp: RecordCallMinutes_def evaluateCallLimits_def alert_def Let_def split_beta)
  define ev where "ev = NewEvent env (mc_ID (rn_mCfg r)) (al_Type a) ''tariff'' ''warning'' (al_Message a)
    [(''value'', JNum (al_Value a)), (''threshold'', JNum (ct_MinBalanceAlert (cfg_Tariff (rn_cfg r))))]"
  have "set (publishEvent env ev r) \<subseteq> set (concat (map (onAlert env r) (snd ?rec)))"
    using a(1) by (auto simp: onAlert_def ev_def)
  also have "\<dots> \<subseteq> set (snd (onCallEvent env e r))"
    using assms(1,6,7) by (auto simp: onCallEvent_def then_do_def with_tariff_def split_beta)
  finally have sub: "set (publishEvent env ev r) \<subseteq> set (snd (onCallEvent env e r))" .
  obtain ev' where "Pub (tp_Event (rn_topics r)) False (JEvent ev') \<in> set (publishEvent env ev r)" "ep_EventType ev' = ''call_limit_exceeded''"
    using assms(5) a(2) by (simp add: publishEvent_def ev_def)
  moreover have "''call_limit_exceeded'' \<notin> set EventTypes" by (simp add: EventTypes_def)
  ultimately show ?thesis using sub by auto
qed

theorem call_alert_undeclared_witness:
  "\<exists>ev. Pub ''gsm2mqtt/modem/m1/event'' False (JEvent ev) \<in>
       set (snd (onCallEvent demo_gw
         \<lparr>ce_Type = ''ended'', ce_From = [], ce_Number = ''+79001234567'', ce_Direction = ''outgoing'', ce_Status = ''completed'', ce_Digit = [],
          ce_ModemID = ''m1'', ce_Duration = 61000000000\<rparr>
         (demo_wired\<lparr>rn_tariff := Some (demo_tm\<lparr>tm_cfg := demo_tariff\<lparr>tc_CallMinutesLimit := 2\<rparr>\<rparr>)\<rparr>)))
     \<and> ep_EventType ev \<notin> set EventTypes"
proof -
  let ?tm = "demo_tm\<lparr>tm_cfg := demo_tariff\<lparr>tc_CallMinutesLimit := 2\<rparr>\<rparr>"
  have tm: "tm_onAlert ?tm" "\<not> tm_warnedCallExceeded ?tm" "tc_CallMinutesLimit (tm_cfg ?tm) = 2" "tm_callMinutesUsed ?tm = 0"
    by (simp_all add: NewManager_def SetStore_def restoreFromStore_def store_Load_def demo_tariff_def Let_def)
  have c: "call_minutes 61000000000 = 2" unfolding call_minutes_def by code_simp
  have t: "tp_Event (rn_topics demo_wired) = ''gsm2mqtt/modem/m1/event''" by (simp add: tp_Event_def modem_topic_def NewTopics_def)
  show ?thesis
    using call_alert_undeclared [of "demo_wired\<lparr>rn_tariff := Some ?tm\<rparr>" ?tm demo_gw
      "\<lparr>ce_Type = ''ended'', ce_From = [], ce_Number = ''+79001234567'', ce_Direction = ''outgoing'', ce_Status = ''completed'', ce_Digit = [],
          ce_ModemID = ''m1'', ce_Duration = 61000000000\<rparr>"] tm c t
    by (auto simp: demo_gw_def)
qed

text \<open>The balance follows the text of any received message: whoever sends a message in which an amount can be read, that
  amount becomes the balance of the modem, is published as such, and replaces the one that the tariff accounting compares with its threshold.
\<close>

theorem sms_sets_balance:
  assumes "ParseBalance (ge_pf env) (ge_compile env) (As_Text m) (ct_BalanceRegex (cfg_Tariff (rn_cfg r))) = Inr bal"
  shows "rn_lastBalance (fst (onReceived env m r)) = bal
    \<and> (ge_conn env \<longrightarrow> Pub (tp_Balance (rn_topics r)) False (Raw (ge_fmt env 2 bal)) \<in> set (snd (onReceived env m r)))
    \<and> (\<forall>tm. rn_tariff r = Some tm \<longrightarrow> us_Balance (Status (the (rn_tariff (fst (onReceived env m r))))) = bal)"
proof -
  obtain r1 e1 where r1: "recordIncomingSMS env m r = (r1, e1)" by fastforce
  then have f: "rn_cfg r1 = rn_cfg r" "rn_topics r1 = rn_topics r" "rn_tariff r1 = rn_tariff r"
    by (auto simp: recordIncomingSMS_entry saveInboxLocked_def Let_def split: if_splits)
  have b: "tm_balance (fst (UpdateBalance fmt tenv bal cur tm)) = bal" for fmt tenv cur tm
    by (simp add: UpdateBalance_def evaluateBalanceLimits_def Let_def split_beta)
  show ?thesis
    using assms by (auto simp: onReceived_def then_do_def r1 f applyParsedBalance_def with_tariff_def Let_def split_beta Status_def b split: option.split)
qed

abbreviation zero_gw :: gw_env where
  "zero_gw \<equiv> demo_gw\<lparr>ge_pf := (\<lambda>s. if s = ''0'' then Some 0 else None)\<rparr>"

theorem sms_sets_balance_witness:
  "rn_lastBalance (fst (onReceived zero_gw (demo_msg\<lparr>As_Text := ''Balance: 0''\<rparr>) demo_wired)) = 0
    \<and> us_Balance (Status (the (rn_tariff (fst (onReceived zero_gw (demo_msg\<lparr>As_Text := ''Balance: 0''\<rparr>) demo_wired))))) = 0"
proof -
  have "ParseBalance (\<lambda>s. if s = ''0'' then Some 0 else None) (\<lambda>_. None) ''Balance: 0'' [] = Inr 0" by code_simp
  then show ?thesis
    using sms_sets_balance [of zero_gw "demo_msg\<lparr>As_Text := ''Balance: 0''\<rparr>" demo_wired 0] by (simp add: demo_gw_def Defaults_def)
qed

end
