(* ===== verification/Gateway_Manager.thy ===== *)
theory Gateway_Manager
  imports Gateway_Facts Modem_Pool
begin

text \<open>
  The manager of all modems (\<^verbatim>\<open>internal/services/manager.go\<close>, \<^verbatim>\<open>manager_recipients.go\<close>) and the start of the
  program (\<^verbatim>\<open>cmd/gsm2mqtt/main.go\<close>, \<^verbatim>\<open>pool.go\<close>). The program has one recipients registry, which the manager and every runner
  point to: an operation on it changes what all of them see (\<open>upd_recipients\<close>). Where the code ranges over a Go map, whose order is
  not specified, the model uses the order of the association list; the states do not depend on it.
\<close>

section \<open>Manager\<close>

record GatewayManager =
  gm_runners :: "(gostring, ModemRunner) gomap"
  gm_order :: "gostring list"
  gm_client :: bool
  gm_mqttCfg :: MQTTConfig
  gm_recipients :: "RecipientsManager option"

datatype mgr_error = MgrNotFound gostring | MgrNoModems | MgrNoRecipients | MgrNumber sec_error

datatype mgr_effect = RunnerEff gostring gw_effect | PubRecipients gostring bool "gostring list"

definition NewGatewayManager :: GatewayManager where
  "NewGatewayManager = \<lparr>gm_runners = [], gm_order = [], gm_client = False,
     gm_mqttCfg = \<lparr>mq_Broker = [], mq_Port = 0, mq_Username = [], mq_Password = [], mq_ClientID = [], mq_TopicPrefix = [], mq_QoS = 1,
       mq_CleanSession = True, mq_KeepAlive = 0, mq_ConnectTimeout = 0, mq_AutoReconnect = False, mq_MaxReconnectInterval = 0,
       mq_Discovery = False, mq_DiscoveryPrefix = [],
       mq_TLS = \<lparr>tls_Enabled = False, tls_CACert = [], tls_ClientCert = [], tls_ClientKey = [], tls_InsecureSkipVerify = False\<rparr>\<rparr>,
     gm_recipients = None\<rparr>"

definition mgr_Register :: "ModemRunner \<Rightarrow> GatewayManager \<Rightarrow> GatewayManager" where
  "mgr_Register r m =
     m\<lparr>gm_runners := AList.update (mc_ID (rn_mCfg r)) r (gm_runners m), gm_order := gm_order m @ [mc_ID (rn_mCfg r)]\<rparr>"

definition in_order :: "(ModemRunner \<Rightarrow> 'a list) \<Rightarrow> GatewayManager \<Rightarrow> 'a list" where
  "in_order f m = concat (map (\<lambda>i. case map_of (gm_runners m) i of Some r \<Rightarrow> f r | None \<Rightarrow> []) (gm_order m))"

definition GetModems :: "GatewayManager \<Rightarrow> ModemSummary list" where
  "GetModems m = in_order (\<lambda>r. [Summary r]) m"

definition findRunner :: "gostring \<Rightarrow> GatewayManager \<Rightarrow> mgr_error + gostring \<times> ModemRunner" where
  "findRunner modemID m =
     (if modemID \<noteq> []
      then (case map_of (gm_runners m) modemID of Some r \<Rightarrow> Inr (modemID, r) | None \<Rightarrow> Inl (MgrNotFound modemID))
      else (case gm_order m of i # _ \<Rightarrow> Inr (i, the (map_of (gm_runners m) i)) | [] \<Rightarrow> Inl MgrNoModems))"

text \<open>A call on the runner that \<^verbatim>\<open>findRunner\<close> gives.\<close>

definition at_runner :: "gostring \<Rightarrow> (ModemRunner \<Rightarrow> ModemRunner \<times> gw_effect list \<times> 'x) \<Rightarrow> GatewayManager
    \<Rightarrow> GatewayManager \<times> mgr_effect list \<times> (mgr_error + 'x)" where
  "at_runner modemID f m = (case findRunner modemID m of
     Inl e \<Rightarrow> (m, [], Inl e)
   | Inr (i, r) \<Rightarrow> (let (r1, effs, x) = f r in (m\<lparr>gm_runners := AList.update i r1 (gm_runners m)\<rparr>, map (RunnerEff i) effs, Inr x)))"

definition mgr_SendSMS :: "gw_env \<Rightarrow> pdu_sender \<Rightarrow> (nat \<Rightarrow> instant) \<Rightarrow> gostring \<Rightarrow> gostring \<Rightarrow> gostring \<Rightarrow> GatewayManager
    \<Rightarrow> GatewayManager \<times> mgr_effect list \<times> (mgr_error + (gw_error + byte list))" where
  "mgr_SendSMS env sender clk modemID to msg = at_runner modemID (RunnerSendSMS env sender clk to msg)"

definition DialCall :: "gw_env \<Rightarrow> instant \<Rightarrow> gostring option \<Rightarrow> gostring \<Rightarrow> gostring \<Rightarrow> GatewayManager
    \<Rightarrow> GatewayManager \<times> mgr_effect list \<times> (mgr_error + gw_error option)" where
  "DialCall env now2 modemErr modemID number = at_runner modemID (RunnerDial env now2 modemErr number)"

definition HangupCall :: "gw_env \<Rightarrow> gostring option \<Rightarrow> gostring \<Rightarrow> GatewayManager
    \<Rightarrow> GatewayManager \<times> mgr_effect list \<times> (mgr_error + gw_error option)" where
  "HangupCall env modemErr modemID = at_runner modemID (RunnerHangup env modemErr)"

definition mgr_GetCallStatus :: "gostring \<Rightarrow> GatewayManager \<Rightarrow> CallStatus" where
  "mgr_GetCallStatus modemID m = (case findRunner modemID m of
     Inl _ \<Rightarrow> emptyStatus\<lparr>cst_Message := ''Modem not found''\<rparr> | Inr (_, r) \<Rightarrow> GetCallStatus r)"

definition mgr_GetReceivedSMS :: "GatewayManager \<Rightarrow> ReceivedSMS list" where
  "mgr_GetReceivedSMS m = in_order GetReceivedSMS m"

text \<open>One modem, or all of them for the empty name and \<^verbatim>\<open>all\<close>.\<close>

definition all_modems :: "gostring \<Rightarrow> bool" where
  "all_modems modemID \<longleftrightarrow> modemID = [] \<or> modemID = ''all''"

definition clear_runners :: "(ModemRunner \<Rightarrow> ModemRunner \<times> gw_effect list) \<Rightarrow> gostring \<Rightarrow> GatewayManager
    \<Rightarrow> GatewayManager \<times> mgr_effect list \<times> mgr_error option" where
  "clear_runners clear modemID m =
     (if \<not> all_modems modemID
      then (case map_of (gm_runners m) modemID of
              None \<Rightarrow> (m, [], Some (MgrNotFound modemID))
            | Some r \<Rightarrow> (m\<lparr>gm_runners := AList.update modemID (fst (clear r)) (gm_runners m)\<rparr>, map (RunnerEff modemID) (snd (clear r)), None))
      else (m\<lparr>gm_runners := map (\<lambda>(i, r). (i, fst (clear r))) (gm_runners m)\<rparr>,
            concat (map (\<lambda>(i, r). map (RunnerEff i) (snd (clear r))) (gm_runners m)), None))"

definition mgr_ClearReceivedSMS :: "gw_env \<Rightarrow> gostring \<Rightarrow> GatewayManager \<Rightarrow> GatewayManager \<times> mgr_effect list \<times> mgr_error option" where
  "mgr_ClearReceivedSMS env = clear_runners (ClearReceivedSMS env)"

definition mgr_GetCallHistory :: "gostring \<Rightarrow> GatewayManager \<Rightarrow> CallRecord list" where
  "mgr_GetCallHistory modemID m =
     (if \<not> all_modems modemID then (case map_of (gm_runners m) modemID of Some r \<Rightarrow> GetCallHistory r | None \<Rightarrow> [])
      else in_order GetCallHistory m)"

definition mgr_ClearCallHistory :: "gw_env \<Rightarrow> gostring \<Rightarrow> GatewayManager \<Rightarrow> GatewayManager \<times> mgr_effect list \<times> mgr_error option" where
  "mgr_ClearCallHistory env = clear_runners (ClearCallHistory env)"

definition mgr_SendUSSD :: "gw_env \<Rightarrow> ussd_error + USSDResponse \<Rightarrow> gostring \<Rightarrow> GatewayManager
    \<Rightarrow> GatewayManager \<times> mgr_effect list \<times> (mgr_error + (gw_error + gostring))" where
  "mgr_SendUSSD env res modemID = at_runner modemID (RunnerSendUSSD env res)"

definition mgr_SendRawAT :: "(rune \<Rightarrow> rune) \<Rightarrow> 'm runner \<Rightarrow> gostring \<Rightarrow> gostring \<Rightarrow> GatewayManager
    \<Rightarrow> ('m, mgr_error + (gw_error + (drv_error + gostring))) state" where
  "mgr_SendRawAT up run1 modemID cmd m = (case findRunner modemID m of
     Inl e \<Rightarrow> State_Monad.return (Inl e)
   | Inr (_, r) \<Rightarrow> do { out \<leftarrow> RunnerSendRawAT up run1 cmd r; State_Monad.return (Inr out) })"

definition mgr_UpdateTariffConfig :: "gw_env \<Rightarrow> gostring \<Rightarrow> TariffConfig \<Rightarrow> GatewayManager
    \<Rightarrow> GatewayManager \<times> mgr_effect list \<times> (mgr_error + gw_error option)" where
  "mgr_UpdateTariffConfig env modemID cfg = at_runner modemID (UpdateTariffConfig env cfg)"

definition mgr_SetTariffUsage :: "gw_env \<Rightarrow> gostring \<Rightarrow> UsageUpdate \<Rightarrow> GatewayManager
    \<Rightarrow> GatewayManager \<times> mgr_effect list \<times> (mgr_error + gw_error option)" where
  "mgr_SetTariffUsage env modemID u = at_runner modemID (SetTariffUsage env u)"

definition mgr_ResetTariffQuotas :: "gw_env \<Rightarrow> gostring \<Rightarrow> GatewayManager
    \<Rightarrow> GatewayManager \<times> mgr_effect list \<times> (mgr_error + gw_error option)" where
  "mgr_ResetTariffQuotas env modemID = at_runner modemID (ResetTariffQuotas env)"

definition mgr_GetTariffStatus :: "gostring \<Rightarrow> GatewayManager \<Rightarrow> mgr_error + (gw_error + UsageStatus)" where
  "mgr_GetTariffStatus modemID m = (case findRunner modemID m of Inl e \<Rightarrow> Inl e | Inr (_, r) \<Rightarrow> Inr (GetTariffStatus r))"

section \<open>Recipients\<close>

definition GetRecipients :: "GatewayManager \<Rightarrow> gostring list" where
  "GetRecipients m = (case gm_recipients m of Some mgr \<Rightarrow> rcp_Get mgr | None \<Rightarrow> [])"

definition publishRecipientsState :: "bool \<Rightarrow> gostring list \<Rightarrow> GatewayManager \<Rightarrow> mgr_effect list" where
  "publishRecipientsState conn nums m =
     (let pre = mq_TopicPrefix (gm_mqttCfg m)
      in if gm_client m \<and> conn \<and> pre \<noteq> [] then [PubRecipients (pre @ ''/config/recipients'') True nums] else [])"

definition upd_recipients :: "RecipientsManager \<Rightarrow> GatewayManager \<Rightarrow> GatewayManager" where
  "upd_recipients mgr m =
     m\<lparr>gm_recipients := Some mgr,
       gm_runners := map (\<lambda>(i, r). (i, if rn_recipients r = None then r else SetRecipientsManager (Some mgr) r)) (gm_runners m)\<rparr>"

definition on_change :: "bool \<Rightarrow> gostring list option \<Rightarrow> GatewayManager \<Rightarrow> mgr_effect list" where
  "on_change conn note m = (case note of Some nums \<Rightarrow> publishRecipientsState conn nums m | None \<Rightarrow> [])"

definition InitRecipients :: "RecipientsManager option \<Rightarrow> GatewayManager \<Rightarrow> GatewayManager" where
  "InitRecipients mgr m = m\<lparr>gm_recipients := map_option (SetOnChange True) mgr\<rparr>"

definition AddRecipient :: "bool \<Rightarrow> bool \<Rightarrow> gostring \<Rightarrow> GatewayManager \<Rightarrow> GatewayManager \<times> mgr_effect list \<times> mgr_error option" where
  "AddRecipient conn ok raw m = (case gm_recipients m of
     None \<Rightarrow> (m, [], Some MgrNoRecipients)
   | Some mgr \<Rightarrow> (let (mgr1, err, note) = rcp_Add ok raw mgr in (upd_recipients mgr1 m, on_change conn note m, map_option MgrNumber err)))"

definition RemoveRecipient :: "bool \<Rightarrow> bool \<Rightarrow> gostring \<Rightarrow> GatewayManager \<Rightarrow> GatewayManager \<times> mgr_effect list \<times> bool" where
  "RemoveRecipient conn ok raw m = (case gm_recipients m of
     None \<Rightarrow> (m, [], False)
   | Some mgr \<Rightarrow> (let (mgr1, removed, note) = rcp_Remove ok raw mgr in (upd_recipients mgr1 m, on_change conn note m, removed)))"

definition SetRecipients :: "bool \<Rightarrow> bool \<Rightarrow> gostring list \<Rightarrow> GatewayManager \<Rightarrow> GatewayManager \<times> mgr_effect list \<times> mgr_error option" where
  "SetRecipients conn ok numbers m = (case gm_recipients m of
     None \<Rightarrow> (m, [], Some MgrNoRecipients)
   | Some mgr \<Rightarrow> (let (mgr1, err, note) = rcp_Set ok numbers mgr in (upd_recipients mgr1 m, on_change conn note m, map_option MgrNumber err)))"

text \<open>The handlers of the MQTT topics; \<open>decoded\<close> is what JSON decoding gives.\<close>

definition recipient_fields :: "gostring \<Rightarrow> gostring list" where
  "recipient_fields raw =
     (let parts = Split (map (\<lambda>c. if c = CHR '','' \<or> c = CHR '';'' then CHR 0x0A else c) raw) (CHR 0x0A)
      in filter (\<lambda>p. p \<noteq> []) (map TrimSpace (filter (\<lambda>p. p \<noteq> []) parts)))"

definition recipientsSetHandler :: "bool \<Rightarrow> bool \<Rightarrow> gostring \<Rightarrow> gostring list option \<Rightarrow> GatewayManager \<Rightarrow> GatewayManager \<times> mgr_effect list" where
  "recipientsSetHandler conn ok payload decoded m =
     outcome (SetRecipients conn ok (case decoded of Some nums \<Rightarrow> nums | None \<Rightarrow> recipient_fields payload) m)"

definition recipient_number :: "gostring \<Rightarrow> gostring option \<Rightarrow> gostring" where
  "recipient_number payload decoded =
     Trim_ascii (case decoded of Some n \<Rightarrow> if n \<noteq> [] then n else TrimSpace payload | None \<Rightarrow> TrimSpace payload) [CHR 0x22]"

definition recipientsAddHandler :: "bool \<Rightarrow> bool \<Rightarrow> gostring \<Rightarrow> gostring option \<Rightarrow> GatewayManager \<Rightarrow> GatewayManager \<times> mgr_effect list" where
  "recipientsAddHandler conn ok payload decoded m =
     (let raw = recipient_number payload decoded in if raw \<noteq> [] then outcome (AddRecipient conn ok raw m) else (m, []))"

definition recipientsRemoveHandler :: "bool \<Rightarrow> bool \<Rightarrow> gostring \<Rightarrow> gostring option \<Rightarrow> GatewayManager \<Rightarrow> GatewayManager \<times> mgr_effect list" where
  "recipientsRemoveHandler conn ok payload decoded m =
     (let raw = recipient_number payload decoded in if raw \<noteq> [] then outcome (RemoveRecipient conn ok raw m) else (m, []))"

datatype rcp_handler = HSetRecipients | HAddRecipient | HRemoveRecipient

definition subscribeRecipientsMQTT :: "gostring \<Rightarrow> (gostring \<times> rcp_handler) list" where
  "subscribeRecipientsMQTT pre = [(pre @ ''/config/recipients/set'', HSetRecipients), (pre @ ''/config/recipients/add'', HAddRecipient),
     (pre @ ''/config/recipients/remove'', HRemoveRecipient)]"

definition SetMQTT :: "bool \<Rightarrow> bool \<Rightarrow> MQTTConfig option \<Rightarrow> GatewayManager
    \<Rightarrow> GatewayManager \<times> (gostring \<times> rcp_handler) list \<times> mgr_effect list" where
  "SetMQTT client conn cfg m =
     (let m1 = m\<lparr>gm_client := client, gm_mqttCfg := (case cfg of Some c \<Rightarrow> c | None \<Rightarrow> gm_mqttCfg m)\<rparr>; pre = mq_TopicPrefix (gm_mqttCfg m1)
      in if client \<and> conn \<and> pre \<noteq> [] then (m1, subscribeRecipientsMQTT pre, publishRecipientsState conn (GetRecipients m1) m1) else (m1, [], []))"

record MQTTStatus =
  ms_Connected :: bool
  ms_Broker :: gostring
  ms_Port :: int
  ms_ClientID :: gostring
  ms_TopicPrefix :: gostring
  ms_Username :: gostring
  ms_QoS :: int
  ms_CleanSession :: bool
  ms_KeepAliveSeconds :: int
  ms_Discovery :: bool
  ms_DiscoveryPrefix :: gostring

definition GetMQTTStatus :: "bool \<Rightarrow> GatewayManager \<Rightarrow> MQTTStatus" where
  "GetMQTTStatus conn m =
     (let c = gm_mqttCfg m
      in \<lparr>ms_Connected = (gm_client m \<and> conn), ms_Broker = mq_Broker c, ms_Port = mq_Port c, ms_ClientID = mq_ClientID c,
          ms_TopicPrefix = mq_TopicPrefix c, ms_Username = mq_Username c, ms_QoS = mq_QoS c, ms_CleanSession = mq_CleanSession c,
          ms_KeepAliveSeconds = (if 0 \<le> mq_KeepAlive c then mq_KeepAlive c div 1000000000 else - (- mq_KeepAlive c div 1000000000)), ms_Discovery = mq_Discovery c, ms_DiscoveryPrefix = mq_DiscoveryPrefix c\<rparr>)"

section \<open>Start of the program\<close>

definition isVersionFlag :: "gostring list \<Rightarrow> bool" where
  "isVersionFlag args = list_ex (\<lambda>a. a = ''--version'' \<or> a = ''-v'') args"

datatype log_level = LevelDebug | LevelInfo | LevelWarn | LevelError

definition parseLogLevel :: "gostring \<Rightarrow> log_level" where
  "parseLogLevel level = (if level = ''debug'' then LevelDebug else if level = ''warn'' then LevelWarn else if level = ''error'' then LevelError else LevelInfo)"

fun config_arg :: "gostring list \<Rightarrow> gostring option" where
  "config_arg [] = None"
| "config_arg (a # rest) =
     (if a = ''--config'' \<and> rest \<noteq> [] then Some (hd rest)
      else if HasPrefix a ''--config='' then Some (drop 9 a) else config_arg rest)"

definition configPath :: "gostring list \<Rightarrow> gostring \<Rightarrow> gostring \<Rightarrow> (gostring \<Rightarrow> bool) \<Rightarrow> gostring" where
  "configPath args env1 env2 isFile = (case config_arg args of
     Some path \<Rightarrow> path
   | None \<Rightarrow>
       if env1 \<noteq> [] then env1 else if env2 \<noteq> [] then env2
       else case filter isFile [''configs/gsm2mqtt.yaml'', ''gsm2mqtt.yaml'', ''/etc/gsm2mqtt/gsm2mqtt.yaml''] of
              c # _ \<Rightarrow> c | [] \<Rightarrow> ''/etc/gsm2mqtt/gsm2mqtt.yaml'')"

definition brokerURI :: "MQTTConfig \<Rightarrow> gostring" where
  "brokerURI c =
     (if 0 < mq_Port c \<and> \<not> Contains (mq_Broker c) '':''
      then (if tls_Enabled (mq_TLS c) then ''ssl'' else ''tcp'') @ ''://'' @ mq_Broker c @ '':'' @ itoa (mq_Port c)
      else mq_Broker c)"

text \<open>The files of the histories are found by the identifier of the modem.\<close>

record history_files =
  hf_inbox :: "gostring \<Rightarrow> ReceivedSMS list option"
  hf_calls :: "gostring \<Rightarrow> CallRecord list option"

definition start_runner :: "(rune \<Rightarrow> rune) \<Rightarrow> history_files \<Rightarrow> Config \<Rightarrow> RecipientsManager \<Rightarrow> nat \<Rightarrow> ModemConfig \<Rightarrow> ModemRunner" where
  "start_runner up fs cfg mgr i c =
     SetRecipientsManager (Some mgr) (SetSlotIndex (int i + 1) (NewModemRunner up (hf_inbox fs (mc_ID c)) (hf_calls fs (mc_ID c)) c cfg))"

fun startModems :: "(rune \<Rightarrow> rune) \<Rightarrow> history_files \<Rightarrow> Config \<Rightarrow> RecipientsManager \<Rightarrow> nat \<Rightarrow> ModemConfig list \<Rightarrow> GatewayManager \<Rightarrow> GatewayManager" where
  "startModems up fs cfg mgr i [] m = m"
| "startModems up fs cfg mgr i (c # cs) m = startModems up fs cfg mgr (i + 1) cs (mgr_Register (start_runner up fs cfg mgr i c) m)"

definition initPool :: "Config \<Rightarrow> Pool option" where
  "initPool cfg =
     (if \<not> poc_Enabled (cfg_Pool cfg) \<and> length (cfg_Modems cfg) \<le> 1 then None
      else case NewPool (if poc_Strategy (cfg_Pool cfg) = [] then ''round-robin'' else poc_Strategy (cfg_Pool cfg)) of
             Inl _ \<Rightarrow> None | Inr p \<Rightarrow> Some p)"

text \<open>What the pool sees of a runner; the results of the calls are arguments, as in the pool.\<close>

definition member_of :: "(gostring \<Rightarrow> gostring \<Rightarrow> gostring + nat list) \<Rightarrow> (gostring \<Rightarrow> gostring + gostring) \<Rightarrow> (gostring \<Rightarrow> gostring option)
    \<Rightarrow> gostring option \<Rightarrow> ModemRunner \<Rightarrow> ModemMember" where
  "member_of sendSMS sendUSSD dial hangup r =
     \<lparr>mm_ID = mc_ID (rn_mCfg r), mm_Status = RunnerStatus r, mm_Signal = RunnerSignal r, mm_Operator = RunnerOperator r,
      mm_SendSMS = sendSMS, mm_SendUSSD = sendUSSD, mm_Dial = dial, mm_Hangup = hangup\<rparr>"

definition poolSMSHandler :: "(rune \<Rightarrow> rune) \<Rightarrow> (gostring \<times> gostring) option \<Rightarrow> Pool \<Rightarrow> Pool" where
  "poolSMSHandler fo decoded p = (case decoded of Some (to, msg) \<Rightarrow> fst (PoolSendSMS fo to msg p) | None \<Rightarrow> p)"

definition poolDialHandler :: "(rune \<Rightarrow> rune) \<Rightarrow> gostring option \<Rightarrow> Pool \<Rightarrow> Pool" where
  "poolDialHandler fo decoded p = (case decoded of Some number \<Rightarrow> if number \<noteq> [] then fst (PoolDial fo number p) else p | None \<Rightarrow> p)"

definition poolUSSDHandler :: "(rune \<Rightarrow> rune) \<Rightarrow> gostring option \<Rightarrow> Pool \<Rightarrow> Pool" where
  "poolUSSDHandler fo decoded p = (case decoded of Some code \<Rightarrow> if code \<noteq> [] then fst (PoolSendUSSD fo code p) else p | None \<Rightarrow> p)"

datatype pool_handler = HPoolSMS | HPoolDial | HPoolHangup | HPoolUSSD

definition bindPoolMQTT :: "Config \<Rightarrow> (gostring \<times> pool_handler) list" where
  "bindPoolMQTT cfg =
     (let t = NewTopics (mq_TopicPrefix (cfg_MQTT cfg)) []
      in [(tp_PoolSMSSend t, HPoolSMS), (tp_PoolCallDial t, HPoolDial), (tp_PoolCallHangup t, HPoolHangup), (tp_PoolUSSDSend t, HPoolUSSD)])"

text \<open>The manager once the modems are started: registry of recipients, client, runners.\<close>

definition startGateway :: "(rune \<Rightarrow> rune) \<Rightarrow> history_files \<Rightarrow> bool \<Rightarrow> gostring list option \<Rightarrow> Config \<Rightarrow> GatewayManager" where
  "startGateway up fs ok disk cfg =
     (let path = (if sec_RecipientsFile (cfg_Security cfg) = [] then ''data/recipients.json'' else sec_RecipientsFile (cfg_Security cfg));
          mgr = SetOnChange True (NewRecipientsManager ok disk path (sec_Whitelist (cfg_Security cfg)));
          m = InitRecipients (Some mgr) NewGatewayManager
      in startModems up fs cfg mgr 0 (cfg_Modems cfg) (fst (SetMQTT True True (Some (cfg_MQTT cfg)) m)))"

section \<open>Which modem answers\<close>

lemma start_runner_simps [simp]:
  "rn_mCfg (start_runner up fs cfg mgr i c) = c" "rn_slot (start_runner up fs cfg mgr i c) = int i + 1"
  "rn_recipients (start_runner up fs cfg mgr i c) = Some mgr" "rn_cfg (start_runner up fs cfg mgr i c) = cfg"
  by (simp_all add: start_runner_def SetRecipientsManager_def SetSlotIndex_def NewModemRunner_def loadInbox_def loadCallHistory_def split: option.split)

fun started :: "(nat \<Rightarrow> ModemConfig \<Rightarrow> ModemRunner) \<Rightarrow> nat \<Rightarrow> ModemConfig list \<Rightarrow> gostring \<Rightarrow> ModemRunner option" where
  "started f i [] x = None"
| "started f i (c # cs) x = (case started f (i + 1) cs x of Some r \<Rightarrow> Some r | None \<Rightarrow> if mc_ID c = x then Some (f i c) else None)"

lemma startModems_runners:
  "map_of (gm_runners (startModems up fs cfg mgr i cs m)) x =
     (case started (start_runner up fs cfg mgr) i cs x of Some r \<Rightarrow> Some r | None \<Rightarrow> map_of (gm_runners m) x)"
  by (induction up fs cfg mgr i cs m rule: startModems.induct) (auto simp: mgr_Register_def update_conv' split: option.split)

lemma startModems_order [simp]: "gm_order (startModems up fs cfg mgr i cs m) = gm_order m @ map mc_ID cs"
  by (induction up fs cfg mgr i cs m rule: startModems.induct) (simp_all add: mgr_Register_def)

lemma started_None: "started f i cs x = None \<longleftrightarrow> x \<notin> mc_ID ` set cs"
  by (induction f i cs x rule: started.induct) (auto split: option.split)

lemma started_id: "started (start_runner up fs cfg mgr) i cs x = Some r \<Longrightarrow> mc_ID (rn_mCfg r) = x"
proof (induction cs arbitrary: i)
  case (Cons c cs)
  then show ?case by (cases "started (start_runner up fs cfg mgr) (i + 1) cs x") (auto split: if_splits)
qed simp

lemma started_last:
  "j < length cs \<Longrightarrow> (\<forall>k. j < k \<and> k < length cs \<longrightarrow> mc_ID (cs ! k) \<noteq> mc_ID (cs ! j)) \<Longrightarrow>
     started f i cs (mc_ID (cs ! j)) = Some (f (i + j) (cs ! j))"
proof (induction cs arbitrary: i j)
  case (Cons c cs)
  show ?case
  proof (cases j)
    case 0
    have "started f (i + 1) cs (mc_ID c) = None"
    proof -
      have "mc_ID (cs ! l) \<noteq> mc_ID c" if "l < length cs" for l using Cons.prems(2) [rule_format, of "Suc l"] that by (simp add: 0)
      then show ?thesis unfolding started_None by (metis imageE in_set_conv_nth)
    qed
    then show ?thesis by (simp add: 0)
  next
    case (Suc k)
    have "\<forall>l. k < l \<and> l < length cs \<longrightarrow> mc_ID (cs ! l) \<noteq> mc_ID (cs ! k)"
      using Cons.prems(2) [rule_format, of "Suc _"] by (simp add: Suc)
    then show ?thesis using Cons.IH [of k "i + 1"] Cons.prems(1) by (simp add: Suc)
  qed
qed simp

lemma Summary_ID [simp]: "su_ID (Summary r) = mc_ID (rn_mCfg r)"
  by (simp add: Summary_def Let_def split: option.split prod.split)

definition start_recipients :: "bool \<Rightarrow> gostring list option \<Rightarrow> Config \<Rightarrow> RecipientsManager" where
  "start_recipients ok disk cfg = SetOnChange True (NewRecipientsManager ok disk
     (if sec_RecipientsFile (cfg_Security cfg) = [] then ''data/recipients.json'' else sec_RecipientsFile (cfg_Security cfg)) (sec_Whitelist (cfg_Security cfg)))"

lemma SetOnChange_twice [simp]: "SetOnChange True (SetOnChange True r) = SetOnChange True r"
  by (simp add: SetOnChange_def)

lemma startGateway_eq:
  "startGateway up fs ok disk cfg =
     startModems up fs cfg (start_recipients ok disk cfg) 0 (cfg_Modems cfg)
       (NewGatewayManager\<lparr>gm_recipients := Some (start_recipients ok disk cfg), gm_client := True, gm_mqttCfg := cfg_MQTT cfg\<rparr>)"
  by (simp add: startGateway_def start_recipients_def InitRecipients_def SetMQTT_def NewGatewayManager_def Let_def)

text \<open>After the start the manager shows one modem for every configured one, in the order of the configuration; a call that names
  a modem reaches the runner of the last configured modem with that name, in its slot, a call that names none the first of the list, and one that names an
  unknown modem fails. So when names are distinct every modem can be reached, and when a name is repeated only the last of its modems can.
\<close>

theorem manager_lookup:
  assumes "j < length (cfg_Modems cfg)" "mc_ID (cfg_Modems cfg ! j) \<noteq> []"
    "\<forall>k. j < k \<and> k < length (cfg_Modems cfg) \<longrightarrow> mc_ID (cfg_Modems cfg ! k) \<noteq> mc_ID (cfg_Modems cfg ! j)"
  shows "map su_ID (GetModems (startGateway up fs ok disk cfg)) = map mc_ID (cfg_Modems cfg)
    \<and> (\<exists>r. findRunner (mc_ID (cfg_Modems cfg ! j)) (startGateway up fs ok disk cfg) = Inr (mc_ID (cfg_Modems cfg ! j), r)
          \<and> rn_mCfg r = cfg_Modems cfg ! j \<and> rn_slot r = int j + 1)
    \<and> (\<exists>r. findRunner [] (startGateway up fs ok disk cfg) = Inr (mc_ID (cfg_Modems cfg ! 0), r) \<and> mc_ID (rn_mCfg r) = mc_ID (cfg_Modems cfg ! 0))
    \<and> (\<forall>x. x \<noteq> [] \<and> x \<notin> mc_ID ` set (cfg_Modems cfg) \<longrightarrow> findRunner x (startGateway up fs ok disk cfg) = Inl (MgrNotFound x))"
proof -
  let ?m = "startGateway up fs ok disk cfg" and ?cs = "cfg_Modems cfg"
  let ?f = "start_runner up fs cfg (start_recipients ok disk cfg)"
  have lk: "map_of (gm_runners ?m) x = started ?f 0 ?cs x" and ord: "gm_order ?m = map mc_ID ?cs" for x
    by (simp_all add: startGateway_eq startModems_runners NewGatewayManager_def split: option.split)
  have one: "map su_ID (case started ?f 0 ?cs x of Some r \<Rightarrow> [Summary r] | None \<Rightarrow> []) = [x]" if "x \<in> mc_ID ` set ?cs" for x
    using that started_None [of ?f 0 ?cs x] started_id [of up fs cfg "start_recipients ok disk cfg" 0 ?cs x] by (cases "started ?f 0 ?cs x") auto
  have "map su_ID (concat (map (\<lambda>i. case started ?f 0 ?cs i of Some r \<Rightarrow> [Summary r] | None \<Rightarrow> []) xs)) = xs"
    if "set xs \<subseteq> mc_ID ` set ?cs" for xs
    using that by (induction xs) (simp_all add: one)
  from this [of "map mc_ID ?cs"] have g: "map su_ID (GetModems ?m) = map mc_ID ?cs" by (simp add: GetModems_def in_order_def lk ord)
  have f: "started ?f 0 ?cs (mc_ID (?cs ! j)) = Some (?f j (?cs ! j))" using started_last [OF assms(1,3), of ?f 0] by simp
  obtain c cs where cs: "?cs = c # cs" using assms(1) by (cases ?cs) auto
  obtain r where r: "started ?f 0 ?cs (mc_ID c) = Some r" using started_None [of ?f 0 ?cs "mc_ID c"] cs by (cases "started ?f 0 ?cs (mc_ID c)") auto
  have "mc_ID (rn_mCfg r) = mc_ID c" by (rule started_id [OF r])
  moreover have "gm_order ?m = mc_ID c # map mc_ID cs" "map_of (gm_runners ?m) (mc_ID c) = Some r" "?cs ! 0 = c"
    using ord lk r cs by simp_all
  ultimately have "findRunner [] ?m = Inr (mc_ID (?cs ! 0), r) \<and> mc_ID (rn_mCfg r) = mc_ID (?cs ! 0)"
    by (simp add: findRunner_def)
  moreover have "findRunner x ?m = Inl (MgrNotFound x)" if "x \<noteq> []" "x \<notin> mc_ID ` set ?cs" for x
    using that started_None [of ?f 0 ?cs x] by (simp add: findRunner_def lk)
  ultimately show ?thesis using g f assms(2) by (auto simp: findRunner_def lk)
qed

text \<open>Two modems with one name: both are listed, the first cannot be reached.\<close>

abbreviation twin_cfg :: Config where
  "twin_cfg \<equiv> Defaults\<lparr>cfg_Modems := [demo_mcfg, demo_mcfg\<lparr>mc_Port := ''/dev/ttyUSB1''\<rparr>]\<rparr>"

abbreviation no_files :: history_files where
  "no_files \<equiv> \<lparr>hf_inbox = (\<lambda>_. None), hf_calls = (\<lambda>_. None)\<rparr>"

theorem manager_lookup_witness:
  "map su_ID (GetModems (startGateway id no_files True None twin_cfg)) = [''m1'', ''m1'']
    \<and> (\<exists>r. findRunner ''m1'' (startGateway id no_files True None twin_cfg) = Inr (''m1'', r) \<and> mc_Port (rn_mCfg r) = ''/dev/ttyUSB1'')"
proof -
  let ?m = "startGateway id no_files True None twin_cfg"
  have i: "mc_ID demo_mcfg = ''m1''" by (simp add: demo_mcfg_def)
  have k: "\<forall>k. 1 < k \<and> k < length (cfg_Modems twin_cfg) \<longrightarrow> mc_ID (cfg_Modems twin_cfg ! k) \<noteq> mc_ID (cfg_Modems twin_cfg ! 1)" by simp
  have "map su_ID (GetModems ?m) = map mc_ID (cfg_Modems twin_cfg)
    \<and> (\<exists>r. findRunner (mc_ID (cfg_Modems twin_cfg ! 1)) ?m = Inr (mc_ID (cfg_Modems twin_cfg ! 1), r) \<and> rn_mCfg r = cfg_Modems twin_cfg ! 1)"
    using manager_lookup [OF _ _ k, of id no_files True None] by (simp add: i) blast
  then obtain r where "map su_ID (GetModems ?m) = [''m1'', ''m1'']" "findRunner ''m1'' ?m = Inr (''m1'', r)" "rn_mCfg r = demo_mcfg\<lparr>mc_Port := ''/dev/ttyUSB1''\<rparr>"
    by (simp add: i) blast
  then show ?thesis by simp
qed

section \<open>All modems together\<close>

definition files_ok :: "history_files \<Rightarrow> bool" where
  "files_ok fs \<longleftrightarrow> (\<forall>i. (case hf_inbox fs i of Some ms \<Rightarrow> window_ok ms | None \<Rightarrow> True)
     \<and> (case hf_calls fs i of Some cs \<Rightarrow> length cs \<le> maxCallHistory | None \<Rightarrow> True))"

definition mgr_inv :: "gostring \<Rightarrow> GatewayManager \<Rightarrow> bool" where
  "mgr_inv pre m \<longleftrightarrow> gomap_ok (gm_runners m) \<and> set (gm_order m) = fst ` set (gm_runners m) \<and> gm_recipients m \<noteq> None
     \<and> mq_TopicPrefix (gm_mqttCfg m) = pre
     \<and> list_all (\<lambda>(i, r). gw_inv pre i r \<and> rn_recipients r = gm_recipients m) (gm_runners m)"

text \<open>The operations on the manager: events of one modem (the API reaches a modem this way), and those on all.\<close>

datatype mgr_event =
    MModem gostring gw_env gw_event
  | MClearSMS gw_env gostring
  | MClearCalls gw_env gostring
  | MSetRecipients bool bool gostring "gostring list option"
  | MAddRecipient bool bool gostring "gostring option"
  | MRemoveRecipient bool bool gostring "gostring option"

definition modem_op :: "gw_env \<Rightarrow> gw_event \<Rightarrow> ModemRunner \<Rightarrow> ModemRunner \<times> gw_effect list \<times> unit" where
  "modem_op env e r = (let (r1, effs) = gw_step (env, e) r in (r1, effs, ()))"

fun mgr_step :: "mgr_event \<Rightarrow> GatewayManager \<Rightarrow> GatewayManager \<times> mgr_effect list" where
  "mgr_step (MModem i env e) m = outcome (at_runner i (modem_op env e) m)"
| "mgr_step (MClearSMS env i) m = outcome (mgr_ClearReceivedSMS env i m)"
| "mgr_step (MClearCalls env i) m = outcome (mgr_ClearCallHistory env i m)"
| "mgr_step (MSetRecipients conn ok payload q) m = recipientsSetHandler conn ok payload q m"
| "mgr_step (MAddRecipient conn ok payload q) m = recipientsAddHandler conn ok payload q m"
| "mgr_step (MRemoveRecipient conn ok payload q) m = recipientsRemoveHandler conn ok payload q m"

lemma api_steps:
  "outcome (mgr_SendSMS env sender clk i to msg m) = mgr_step (MModem i env (GSendSMS sender clk to msg)) m"
  "outcome (mgr_SendUSSD env res i m) = mgr_step (MModem i env (GSendUSSD res)) m"
  "outcome (DialCall env now2 err i number m) = mgr_step (MModem i env (GDial now2 err number)) m"
  "outcome (mgr_UpdateTariffConfig env i cfg m) = mgr_step (MModem i env (GUpdateTariff cfg)) m"
  "outcome (mgr_SetTariffUsage env i u m) = mgr_step (MModem i env (GSetUsage u)) m"
  by (simp_all add: mgr_SendSMS_def mgr_SendUSSD_def DialCall_def mgr_UpdateTariffConfig_def mgr_SetTariffUsage_def at_runner_def modem_op_def
      Let_def split_beta split: sum.split)

fun mgr_own :: "gostring \<Rightarrow> mgr_effect \<Rightarrow> bool" where
  "mgr_own pre (RunnerEff i e) \<longleftrightarrow> own pre i e"
| "mgr_own pre (PubRecipients t retained nums) \<longleftrightarrow> t = pre @ ''/config/recipients'' \<and> retained"

lemma list_all_update:
  "list_all (\<lambda>(i, r). P i r) al \<Longrightarrow> P k v \<Longrightarrow> list_all (\<lambda>(i, r). P i r) (AList.update k v al)"
  by (induction al) auto

lemma map_of_all: "list_all (\<lambda>(i, r). P i r) al \<Longrightarrow> map_of al k = Some v \<Longrightarrow> P k v"
  by (auto simp: list_all_iff dest!: map_of_SomeD)

lemma update_inv:
  assumes "mgr_inv pre m" "map_of (gm_runners m) i \<noteq> None" "gw_inv pre i r" "rn_recipients r = gm_recipients m"
  shows "mgr_inv pre (m\<lparr>gm_runners := AList.update i r (gm_runners m)\<rparr>)"
proof -
  have "fst ` set (AList.update i r (gm_runners m)) = fst ` set (gm_runners m)"
    using assms(2) by (auto simp: dom_update map_of_eq_None_iff image_iff)
  then show ?thesis
    using assms by (auto simp: mgr_inv_def gomap_update intro: list_all_update)
qed

lemma mgr_inv_runner:
  assumes "mgr_inv pre m" "map_of (gm_runners m) i = Some r"
  shows "gw_inv pre i r \<and> rn_recipients r = gm_recipients m \<and> gm_recipients m \<noteq> None"
proof -
  have "list_all (\<lambda>(i, r). gw_inv pre i r \<and> rn_recipients r = gm_recipients m) (gm_runners m)" "gm_recipients m \<noteq> None"
    using assms(1) by (simp_all add: mgr_inv_def)
  from map_of_all [OF this(1) assms(2)] this(2) show ?thesis by simp
qed

lemma findRunner_inv:
  assumes "mgr_inv pre m" "findRunner x m = Inr (i, r)"
  shows "map_of (gm_runners m) i = Some r \<and> gw_inv pre i r \<and> rn_recipients r = gm_recipients m"
proof -
  have "map_of (gm_runners m) i = Some r"
  proof (cases "x = []")
    case True
    then obtain js where o: "gm_order m = i # js" "r = the (map_of (gm_runners m) i)"
      using assms(2) by (auto simp: findRunner_def split: list.splits)
    then have "i \<in> fst ` set (gm_runners m)" using assms(1) by (auto simp: mgr_inv_def)
    then show ?thesis using o(2) by (metis map_of_eq_None_iff not_None_eq option.sel)
  qed (use assms(2) in \<open>auto simp: findRunner_def split: option.splits\<close>)
  then show ?thesis using mgr_inv_runner [OF assms(1)] by blast
qed


lemma clear_inv:
  assumes "mgr_inv pre m" "\<And>r. clear r = gw_step (env, e) r"
  shows "mgr_inv pre (fst (clear_runners clear x m)) \<and> list_all (mgr_own pre) (fst (snd (clear_runners clear x m)))"
proof -
  have r: "gw_inv pre i r \<Longrightarrow> gw_inv pre i (fst (clear r)) \<and> list_all (own pre i) (snd (clear r))" "rn_recipients (fst (clear r)) = rn_recipients r" for i r
    using gw_step_inv [of pre i r env e] gw_step_recipients [of env e r] by (simp_all add: assms(2))
  have l: "list_all (\<lambda>(i, r). gw_inv pre i r \<and> rn_recipients r = gm_recipients m) (gm_runners m)" using assms(1) by (simp add: mgr_inv_def)
  show ?thesis
  proof (cases "all_modems x")
    case True
    have "mgr_inv pre (m\<lparr>gm_runners := map (\<lambda>(i, r). (i, fst (clear r))) (gm_runners m)\<rparr>)"
      using assms(1) r by (auto simp: mgr_inv_def gomap_ok_def list.pred_map o_def split_beta list_all_iff image_image)
    moreover have "list_all (mgr_own pre) (concat (map (\<lambda>(i, r). map (RunnerEff i) (snd (clear r))) (gm_runners m)))"
      using l r by (fastforce simp: list_all_iff)
    ultimately show ?thesis using True by (simp add: clear_runners_def)
  next
    case False
    then show ?thesis
      using assms(1) map_of_all [OF l, of x] r update_inv [OF assms(1), of x]
      by (auto simp: clear_runners_def list.pred_map o_def split: option.split)
  qed
qed

lemma upd_recipients_inv: "mgr_inv pre m \<Longrightarrow> mgr_inv pre (upd_recipients mgr m)"
  by (auto simp: mgr_inv_def upd_recipients_def gomap_ok_def list.pred_map o_def split_beta list_all_iff image_image SetRecipientsManager_def
      gw_inv_def topics_ok_def hist_ok_def wired_def)

lemma on_change_own: "mgr_inv pre m \<Longrightarrow> list_all (mgr_own pre) (on_change conn note m)"
  by (simp add: on_change_def publishRecipientsState_def mgr_inv_def Let_def split: option.split)

lemma recipients_inv:
  assumes "mgr_inv pre m"
  shows "mgr_inv pre (fst (AddRecipient conn ok raw m)) \<and> list_all (mgr_own pre) (fst (snd (AddRecipient conn ok raw m)))"
    "mgr_inv pre (fst (RemoveRecipient conn ok raw m)) \<and> list_all (mgr_own pre) (fst (snd (RemoveRecipient conn ok raw m)))"
    "mgr_inv pre (fst (SetRecipients conn ok nums m)) \<and> list_all (mgr_own pre) (fst (snd (SetRecipients conn ok nums m)))"
  using assms upd_recipients_inv [OF assms] on_change_own [OF assms]
  by (auto simp: AddRecipient_def RemoveRecipient_def SetRecipients_def split_beta split: option.split)

lemma mgr_step_inv:
  assumes "mgr_inv pre m"
  shows "mgr_inv pre (fst (mgr_step e m)) \<and> list_all (mgr_own pre) (snd (mgr_step e m))"
proof (cases e)
  case (MModem x env ev)
  show ?thesis
  proof (cases "findRunner x m")
    case (Inr ir)
    obtain i r where ir: "ir = (i, r)" by fastforce
    note f = findRunner_inv [OF assms Inr [unfolded ir]]
    show ?thesis
      using f gw_step_inv [of pre i r env ev] gw_step_recipients [of env ev r] update_inv [OF assms, of i "fst (gw_step (env, ev) r)"]
      by (simp add: MModem at_runner_def Inr ir modem_op_def split_beta list.pred_map o_def)
  qed (use assms in \<open>simp add: MModem at_runner_def\<close>)
next
  case (MClearSMS env i)
  then show ?thesis using clear_inv [OF assms, of "ClearReceivedSMS env" env GClearSMS i] by (simp add: mgr_ClearReceivedSMS_def)
next
  case (MClearCalls env i)
  then show ?thesis using clear_inv [OF assms, of "ClearCallHistory env" env GClearCalls i] by (simp add: mgr_ClearCallHistory_def)
qed (use assms recipients_inv [OF assms] in \<open>simp_all add: recipientsSetHandler_def recipientsAddHandler_def recipientsRemoveHandler_def Let_def\<close>)

interpretation manager: event_machine mgr_step "mgr_inv pre" for pre
  by unfold_locales (use mgr_step_inv in blast)

lemma startModems_inv:
  assumes "files_ok fs" "mgr_inv (mq_TopicPrefix (cfg_MQTT cfg)) m" "gm_recipients m = Some mgr"
  shows "mgr_inv (mq_TopicPrefix (cfg_MQTT cfg)) (startModems up fs cfg mgr i cs m)"
  using assms(2,3)
proof (induction cs arbitrary: i m)
  case (Cons c cs)
  let ?r = "start_runner up fs cfg mgr i c"
  have "gw_inv (mq_TopicPrefix (cfg_MQTT cfg)) (mc_ID c) ?r"
    using assms(1) by (auto simp: files_ok_def start_runner_def SetRecipientsManager_def SetSlotIndex_def NewModemRunner_def loadInbox_def
        loadCallHistory_def gw_inv_def topics_ok_def hist_ok_def window_ok_def wired_def split: option.split option.splits)
  then have "mgr_inv (mq_TopicPrefix (cfg_MQTT cfg)) (mgr_Register ?r m)"
    using Cons.prems by (simp add: mgr_inv_def mgr_Register_def gomap_update dom_update list_all_update)
  from Cons.IH [OF this] Cons.prems(2) show ?case by (simp add: mgr_Register_def)
qed simp



end
