(* ===== verification/Discovery.thy ===== *)
theory Discovery
  imports Gateway_Manager
begin

text \<open>
  The messages by which the gateway announces itself to Home Assistant (\<^verbatim>\<open>internal/mqtt\<close>: discovery.go,
  discovery_entities.go, discovery_gateway.go, discovery_tariff.go), their publication by a runner and by the manager
  (\<^verbatim>\<open>publishDiscovery\<close>, \<^verbatim>\<open>publishInitialDiscovery\<close>, \<^verbatim>\<open>PublishDiscovery\<close>) and the configuration of the MQTT client
  (\<^verbatim>\<open>initMQTT\<close> and \<^verbatim>\<open>onConnect\<close> of main.go). A payload is the structure that \<^verbatim>\<open>encoding/json\<close> is given; it consists
  of strings, integers and lists of strings, for which the encoding does not fail. An empty string or list stands for a
  field that is omitted. The version of the program is the argument \<open>ver\<close>.
\<close>

section \<open>Payloads\<close>

record DeviceInfo =
  di_Identifiers :: "gostring list"
  di_Name :: gostring
  di_Manufacturer :: gostring
  di_Model :: gostring
  di_SwVersion :: gostring
  di_ViaDevice :: gostring

record SensorDiscoveryPayload =
  sd_Name :: gostring
  sd_UniqueID :: gostring
  sd_ObjectID :: gostring
  sd_StateTopic :: gostring
  sd_UnitOfMeasurement :: gostring
  sd_DeviceClass :: gostring
  sd_StateClass :: gostring
  sd_ValueTemplate :: gostring
  sd_JSONAttributesTopic :: gostring
  sd_Icon :: gostring
  sd_Options :: "gostring list"
  sd_AvailabilityTopic :: gostring
  sd_PayloadAvailable :: gostring
  sd_PayloadNotAvailable :: gostring
  sd_Device :: DeviceInfo

record ButtonDiscoveryPayload =
  bd_Name :: gostring
  bd_UniqueID :: gostring
  bd_ObjectID :: gostring
  bd_CommandTopic :: gostring
  bd_PayloadPress :: gostring
  bd_Icon :: gostring
  bd_AvailabilityTopic :: gostring
  bd_PayloadAvailable :: gostring
  bd_PayloadNotAvailable :: gostring
  bd_Device :: DeviceInfo

record BinarySensorDiscoveryPayload =
  xd_Name :: gostring
  xd_UniqueID :: gostring
  xd_ObjectID :: gostring
  xd_StateTopic :: gostring
  xd_ValueTemplate :: gostring
  xd_PayloadOn :: gostring
  xd_PayloadOff :: gostring
  xd_DeviceClass :: gostring
  xd_OffDelay :: int
  xd_Icon :: gostring
  xd_AvailabilityTopic :: gostring
  xd_PayloadAvailable :: gostring
  xd_PayloadNotAvailable :: gostring
  xd_Device :: DeviceInfo

record EventDiscoveryPayload =
  ed_Name :: gostring
  ed_UniqueID :: gostring
  ed_ObjectID :: gostring
  ed_StateTopic :: gostring
  ed_EventTypes :: "gostring list"
  ed_Icon :: gostring
  ed_AvailabilityTopic :: gostring
  ed_PayloadAvailable :: gostring
  ed_PayloadNotAvailable :: gostring
  ed_Device :: DeviceInfo

record NotifyDiscoveryPayload =
  nd_Name :: gostring
  nd_UniqueID :: gostring
  nd_ObjectID :: gostring
  nd_CommandTopic :: gostring
  nd_CommandTemplate :: gostring
  nd_AvailabilityTopic :: gostring
  nd_PayloadAvailable :: gostring
  nd_PayloadNotAvailable :: gostring
  nd_Device :: DeviceInfo

record TextDiscoveryPayload =
  td_Name :: gostring
  td_UniqueID :: gostring
  td_ObjectID :: gostring
  td_CommandTopic :: gostring
  td_StateTopic :: gostring
  td_CommandTemplate :: gostring
  td_ValueTemplate :: gostring
  td_Icon :: gostring
  td_AvailabilityTopic :: gostring
  td_PayloadAvailable :: gostring
  td_PayloadNotAvailable :: gostring
  td_Device :: DeviceInfo

datatype disc_payload =
    PSensor SensorDiscoveryPayload
  | PButton ButtonDiscoveryPayload
  | PBinary BinarySensorDiscoveryPayload
  | PEvent EventDiscoveryPayload
  | PNotify NotifyDiscoveryPayload
  | PText TextDiscoveryPayload

record DiscoveryMessage =
  dm_Topic :: gostring
  dm_Payload :: disc_payload

record ModemDiscoveryParams =
  dp_DiscoveryPrefix :: gostring
  dp_TopicPrefix :: gostring
  dp_ModemID :: gostring
  dp_Manufacturer :: gostring
  dp_Model :: gostring
  dp_SwVersion :: gostring
  dp_Currency :: gostring
  dp_SlotIndex :: int

section \<open>Names\<close>

definition GatewayIdentifier :: gostring where
  "GatewayIdentifier = ''gsm2mqtt_gateway''"

definition DeviceName :: "ModemDiscoveryParams \<Rightarrow> gostring" where
  "DeviceName p = (if dp_SlotIndex p \<le> 1 then ''GSM Modem'' else ''GSM Modem '' @ itoa (dp_SlotIndex p))"

definition DeviceIdentifier :: "ModemDiscoveryParams \<Rightarrow> gostring" where
  "DeviceIdentifier p = (if dp_SlotIndex p \<le> 1 then ''gsm2mqtt_modem_1'' else ''gsm2mqtt_modem_'' @ itoa (dp_SlotIndex p))"

definition EntityUniqueID :: "ModemDiscoveryParams \<Rightarrow> gostring \<Rightarrow> gostring" where
  "EntityUniqueID p metric =
     (if dp_SlotIndex p \<le> 1 then ''gsm2mqtt_modem_1_'' @ metric else ''gsm2mqtt_modem_'' @ itoa (dp_SlotIndex p) @ ''_'' @ metric)"

definition EntityObjectID :: "ModemDiscoveryParams \<Rightarrow> gostring \<Rightarrow> gostring" where
  "EntityObjectID p metric =
     (if dp_SlotIndex p \<le> 1 then ''gsm_modem_'' @ metric else ''gsm_modem_'' @ itoa (dp_SlotIndex p) @ ''_'' @ metric)"

definition buildAvailability :: "gostring \<Rightarrow> gostring \<times> gostring \<times> gostring" where
  "buildAvailability topicPrefix = (topicPrefix @ ''/status'', ''online'', ''offline'')"

definition gatewayDeviceInfo :: "gostring \<Rightarrow> gostring \<Rightarrow> DeviceInfo" where
  "gatewayDeviceInfo ver v =
     \<lparr>di_Identifiers = [GatewayIdentifier], di_Name = ''GSM2MQTT Gateway'', di_Manufacturer = ''GSM2MQTT'', di_Model = ''Go GSM Gateway'',
      di_SwVersion = (if v = [] then ver else v), di_ViaDevice = []\<rparr>"

text \<open>\<^verbatim>\<open>strings.EqualFold\<close> with \<^verbatim>\<open>undefined\<close>: no letter of this word folds to one outside ASCII.\<close>

definition is_undefined :: "gostring \<Rightarrow> bool" where
  "is_undefined s \<longleftrightarrow> EqualFold id s ''undefined''"

definition buildDeviceInfo :: "ModemDiscoveryParams \<Rightarrow> DeviceInfo" where
  "buildDeviceInfo p =
     (let mfg = TrimSpace (dp_Manufacturer p); model = TrimSpace (dp_Model p)
      in \<lparr>di_Identifiers = [DeviceIdentifier p], di_Name = DeviceName p,
          di_Manufacturer = (if is_undefined mfg \<or> mfg = [] then ''Unknown'' else mfg),
          di_Model = (if model = [] then ''Modem'' else model), di_SwVersion = dp_SwVersion p, di_ViaDevice = GatewayIdentifier\<rparr>)"

definition marshalDiscovery :: "gostring \<Rightarrow> disc_payload \<Rightarrow> DiscoveryMessage" where
  "marshalDiscovery topic payload = \<lparr>dm_Topic = topic, dm_Payload = payload\<rparr>"

section \<open>Entities\<close>

definition BuildSignalDiscovery :: "ModemDiscoveryParams \<Rightarrow> DiscoveryMessage" where
  "BuildSignalDiscovery p =
     (let uniqueID = EntityUniqueID p ''signal'';
          topic = dp_DiscoveryPrefix p @ ''/sensor/'' @ uniqueID @ ''/config'';
          stateTopic = dp_TopicPrefix p @ ''/modem/'' @ dp_ModemID p @ ''/signal'';
          (availTopic, avail, notAvail) = buildAvailability (dp_TopicPrefix p)
      in marshalDiscovery topic (PSensor \<lparr>sd_Name = ''Signal Strength'', sd_UniqueID = uniqueID, sd_ObjectID = EntityObjectID p ''signal'', sd_StateTopic = stateTopic,
          sd_UnitOfMeasurement = ''dBm'', sd_DeviceClass = ''signal_strength'', sd_StateClass = ''measurement'',
          sd_ValueTemplate = ''{{ value_json.dbm }}'', sd_JSONAttributesTopic = [], sd_Icon = ''mdi:signal-cellular-3'', sd_Options = [],
          sd_AvailabilityTopic = availTopic, sd_PayloadAvailable = avail, sd_PayloadNotAvailable = notAvail, sd_Device = buildDeviceInfo p\<rparr>))"

definition BuildBalanceDiscovery :: "ModemDiscoveryParams \<Rightarrow> DiscoveryMessage" where
  "BuildBalanceDiscovery p =
     (let uniqueID = EntityUniqueID p ''balance'';
          topic = dp_DiscoveryPrefix p @ ''/sensor/'' @ uniqueID @ ''/config'';
          stateTopic = dp_TopicPrefix p @ ''/modem/'' @ dp_ModemID p @ ''/balance''; currency = (if dp_Currency p = [] then ''RUB'' else dp_Currency p);
          (availTopic, avail, notAvail) = buildAvailability (dp_TopicPrefix p)
      in marshalDiscovery topic (PSensor \<lparr>sd_Name = ''Balance'', sd_UniqueID = uniqueID, sd_ObjectID = EntityObjectID p ''balance'', sd_StateTopic = stateTopic,
          sd_UnitOfMeasurement = currency, sd_DeviceClass = ''monetary'', sd_StateClass = [], sd_ValueTemplate = [], sd_JSONAttributesTopic = [],
          sd_Icon = ''mdi:cash'', sd_Options = [], sd_AvailabilityTopic = availTopic, sd_PayloadAvailable = avail, sd_PayloadNotAvailable = notAvail,
          sd_Device = buildDeviceInfo p\<rparr>))"

definition BuildStatusDiscovery :: "ModemDiscoveryParams \<Rightarrow> DiscoveryMessage" where
  "BuildStatusDiscovery p =
     (let uniqueID = EntityUniqueID p ''status'';
          topic = dp_DiscoveryPrefix p @ ''/sensor/'' @ uniqueID @ ''/config'';
          stateTopic = dp_TopicPrefix p @ ''/modem/'' @ dp_ModemID p @ ''/health'';
          (availTopic, avail, notAvail) = buildAvailability (dp_TopicPrefix p)
      in marshalDiscovery topic (PSensor \<lparr>sd_Name = ''Status'', sd_UniqueID = uniqueID, sd_ObjectID = EntityObjectID p ''status'', sd_StateTopic = stateTopic, sd_UnitOfMeasurement = [],
          sd_DeviceClass = ''enum'', sd_StateClass = [], sd_ValueTemplate = ''{{ value_json.status }}'', sd_JSONAttributesTopic = stateTopic,
          sd_Icon = ''mdi:chip'', sd_Options = [''ready'', ''degraded'', ''not_ready'', ''error'', ''disconnected''],
          sd_AvailabilityTopic = availTopic, sd_PayloadAvailable = avail, sd_PayloadNotAvailable = notAvail, sd_Device = buildDeviceInfo p\<rparr>))"

definition BuildOperatorDiscovery :: "ModemDiscoveryParams \<Rightarrow> DiscoveryMessage" where
  "BuildOperatorDiscovery p =
     (let uniqueID = EntityUniqueID p ''operator'';
          topic = dp_DiscoveryPrefix p @ ''/sensor/'' @ uniqueID @ ''/config'';
          stateTopic = dp_TopicPrefix p @ ''/modem/'' @ dp_ModemID p @ ''/health'';
          (availTopic, avail, notAvail) = buildAvailability (dp_TopicPrefix p)
      in marshalDiscovery topic (PSensor \<lparr>sd_Name = ''Operator'', sd_UniqueID = uniqueID, sd_ObjectID = EntityObjectID p ''operator'', sd_StateTopic = stateTopic,
          sd_UnitOfMeasurement = [], sd_DeviceClass = [], sd_StateClass = [], sd_ValueTemplate = ''{{ value_json.operator }}'',
          sd_JSONAttributesTopic = [], sd_Icon = ''mdi:cellphone-tower'', sd_Options = [], sd_AvailabilityTopic = availTopic,
          sd_PayloadAvailable = avail, sd_PayloadNotAvailable = notAvail, sd_Device = buildDeviceInfo p\<rparr>))"

definition BuildLastSMSDiscovery :: "ModemDiscoveryParams \<Rightarrow> DiscoveryMessage" where
  "BuildLastSMSDiscovery p =
     (let uniqueID = EntityUniqueID p ''last_sms'';
          topic = dp_DiscoveryPrefix p @ ''/sensor/'' @ uniqueID @ ''/config'';
          stateTopic = dp_TopicPrefix p @ ''/modem/'' @ dp_ModemID p @ ''/sms/last'';
          (availTopic, avail, notAvail) = buildAvailability (dp_TopicPrefix p)
      in marshalDiscovery topic (PSensor \<lparr>sd_Name = ''Last Incoming SMS'', sd_UniqueID = uniqueID, sd_ObjectID = EntityObjectID p ''last_sms'', sd_StateTopic = stateTopic,
          sd_UnitOfMeasurement = [], sd_DeviceClass = [], sd_StateClass = [], sd_ValueTemplate = ''{{ value_json.text }}'',
          sd_JSONAttributesTopic = stateTopic, sd_Icon = ''mdi:message-text'', sd_Options = [], sd_AvailabilityTopic = availTopic,
          sd_PayloadAvailable = avail, sd_PayloadNotAvailable = notAvail, sd_Device = buildDeviceInfo p\<rparr>))"

definition BuildUSSDResponseDiscovery :: "ModemDiscoveryParams \<Rightarrow> DiscoveryMessage" where
  "BuildUSSDResponseDiscovery p =
     (let uniqueID = EntityUniqueID p ''ussd_response'';
          topic = dp_DiscoveryPrefix p @ ''/sensor/'' @ uniqueID @ ''/config'';
          stateTopic = dp_TopicPrefix p @ ''/modem/'' @ dp_ModemID p @ ''/ussd/response'';
          (availTopic, avail, notAvail) = buildAvailability (dp_TopicPrefix p)
      in marshalDiscovery topic (PSensor \<lparr>sd_Name = ''USSD Response'', sd_UniqueID = uniqueID, sd_ObjectID = EntityObjectID p ''ussd_response'', sd_StateTopic = stateTopic,
          sd_UnitOfMeasurement = [], sd_DeviceClass = [], sd_StateClass = [], sd_ValueTemplate = ''{{ value_json.message }}'',
          sd_JSONAttributesTopic = [], sd_Icon = ''mdi:phone-incoming'', sd_Options = [], sd_AvailabilityTopic = availTopic,
          sd_PayloadAvailable = avail, sd_PayloadNotAvailable = notAvail, sd_Device = buildDeviceInfo p\<rparr>))"

definition BuildCheckBalanceButtonDiscovery :: "ModemDiscoveryParams \<Rightarrow> DiscoveryMessage" where
  "BuildCheckBalanceButtonDiscovery p =
     (let uniqueID = EntityUniqueID p ''btn_balance'';
          topic = dp_DiscoveryPrefix p @ ''/button/'' @ uniqueID @ ''/config'';
          cmdTopic = dp_TopicPrefix p @ ''/modem/'' @ dp_ModemID p @ ''/ussd/send'';
          (availTopic, avail, notAvail) = buildAvailability (dp_TopicPrefix p)
      in marshalDiscovery topic (PButton \<lparr>bd_Name = ''Check Balance'', bd_UniqueID = uniqueID, bd_ObjectID = EntityObjectID p ''check_balance'', bd_CommandTopic = cmdTopic,
          bd_PayloadPress = ''*100#'', bd_Icon = ''mdi:cash-sync'', bd_AvailabilityTopic = availTopic, bd_PayloadAvailable = avail,
          bd_PayloadNotAvailable = notAvail, bd_Device = buildDeviceInfo p\<rparr>))"

definition BuildHangupButtonDiscovery :: "ModemDiscoveryParams \<Rightarrow> DiscoveryMessage" where
  "BuildHangupButtonDiscovery p =
     (let uniqueID = EntityUniqueID p ''btn_hangup'';
          topic = dp_DiscoveryPrefix p @ ''/button/'' @ uniqueID @ ''/config'';
          cmdTopic = dp_TopicPrefix p @ ''/modem/'' @ dp_ModemID p @ ''/call/hangup'';
          (availTopic, avail, notAvail) = buildAvailability (dp_TopicPrefix p)
      in marshalDiscovery topic (PButton \<lparr>bd_Name = ''Hangup Call'', bd_UniqueID = uniqueID, bd_ObjectID = EntityObjectID p ''hangup'', bd_CommandTopic = cmdTopic,
          bd_PayloadPress = ''{}'', bd_Icon = ''mdi:phone-hangup'', bd_AvailabilityTopic = availTopic, bd_PayloadAvailable = avail,
          bd_PayloadNotAvailable = notAvail, bd_Device = buildDeviceInfo p\<rparr>))"

definition BuildIncomingCallDiscovery :: "ModemDiscoveryParams \<Rightarrow> DiscoveryMessage" where
  "BuildIncomingCallDiscovery p =
     (let uniqueID = EntityUniqueID p ''incoming_call'';
          topic = dp_DiscoveryPrefix p @ ''/binary_sensor/'' @ uniqueID @ ''/config'';
          stateTopic = dp_TopicPrefix p @ ''/modem/'' @ dp_ModemID p @ ''/call/incoming'';
          (availTopic, avail, notAvail) = buildAvailability (dp_TopicPrefix p)
      in marshalDiscovery topic (PBinary \<lparr>xd_Name = ''Incoming Call'', xd_UniqueID = uniqueID, xd_ObjectID = EntityObjectID p ''incoming_call'', xd_StateTopic = stateTopic,
          xd_ValueTemplate = ''{{ 'ON' if value_json.type == 'incoming' else 'OFF' }}'', xd_PayloadOn = ''ON'', xd_PayloadOff = ''OFF'',
          xd_DeviceClass = [], xd_OffDelay = 30, xd_Icon = ''mdi:phone-ring'', xd_AvailabilityTopic = availTopic, xd_PayloadAvailable = avail,
          xd_PayloadNotAvailable = notAvail, xd_Device = buildDeviceInfo p\<rparr>))"

definition BuildCallerNumberDiscovery :: "ModemDiscoveryParams \<Rightarrow> DiscoveryMessage" where
  "BuildCallerNumberDiscovery p =
     (let uniqueID = EntityUniqueID p ''caller_number'';
          topic = dp_DiscoveryPrefix p @ ''/sensor/'' @ uniqueID @ ''/config'';
          stateTopic = dp_TopicPrefix p @ ''/modem/'' @ dp_ModemID p @ ''/call/incoming'';
          (availTopic, avail, notAvail) = buildAvailability (dp_TopicPrefix p)
      in marshalDiscovery topic (PSensor \<lparr>sd_Name = ''Caller Number'', sd_UniqueID = uniqueID, sd_ObjectID = EntityObjectID p ''caller_number'', sd_StateTopic = stateTopic,
          sd_UnitOfMeasurement = [], sd_DeviceClass = [], sd_StateClass = [],
          sd_ValueTemplate = (''{% if value_json.type == 'incoming' %}{{ value_json.from if value_json.from is defined and value_json.from != '' @ [CHR 0x27, CHR 0x27] @ '' else 'Unknown' }}{% else %}idle{% endif %}''),
          sd_JSONAttributesTopic = [], sd_Icon = ''mdi:phone-incoming'', sd_Options = [], sd_AvailabilityTopic = availTopic,
          sd_PayloadAvailable = avail, sd_PayloadNotAvailable = notAvail, sd_Device = buildDeviceInfo p\<rparr>))"

definition BuildNewSMSBinaryDiscovery :: "ModemDiscoveryParams \<Rightarrow> DiscoveryMessage" where
  "BuildNewSMSBinaryDiscovery p =
     (let uniqueID = EntityUniqueID p ''new_sms'';
          topic = dp_DiscoveryPrefix p @ ''/binary_sensor/'' @ uniqueID @ ''/config'';
          stateTopic = dp_TopicPrefix p @ ''/modem/'' @ dp_ModemID p @ ''/sms/received'';
          (availTopic, avail, notAvail) = buildAvailability (dp_TopicPrefix p)
      in marshalDiscovery topic (PBinary \<lparr>xd_Name = ''New SMS Received'', xd_UniqueID = uniqueID, xd_ObjectID = EntityObjectID p ''new_sms'', xd_StateTopic = stateTopic,
          xd_ValueTemplate = ''{{ 'ON' if value_json.text is defined else 'OFF' }}'', xd_PayloadOn = ''ON'', xd_PayloadOff = [], xd_DeviceClass = [],
          xd_OffDelay = 5, xd_Icon = ''mdi:message-badge'', xd_AvailabilityTopic = availTopic, xd_PayloadAvailable = avail,
          xd_PayloadNotAvailable = notAvail, xd_Device = buildDeviceInfo p\<rparr>))"

definition BuildNotifyDiscovery :: "ModemDiscoveryParams \<Rightarrow> DiscoveryMessage" where
  "BuildNotifyDiscovery p =
     (let uniqueID = EntityUniqueID p ''notify'';
          topic = dp_DiscoveryPrefix p @ ''/notify/'' @ uniqueID @ ''/config'';
          cmdTopic = (if dp_SlotIndex p \<le> 1 then dp_TopicPrefix p @ ''/modem/gsm_modem/sms/send'' else dp_TopicPrefix p @ ''/modem/'' @ dp_ModemID p @ ''/sms/send'');
          (availTopic, avail, notAvail) = buildAvailability (dp_TopicPrefix p)
      in marshalDiscovery topic (PNotify \<lparr>nd_Name = ''GSM SMS'', nd_UniqueID = uniqueID, nd_ObjectID = EntityObjectID p ''notify'', nd_CommandTopic = cmdTopic,
          nd_CommandTemplate = (''{'' @ [CHR 0x22] @ ''text'' @ [CHR 0x22] @ '': {{ value | tojson }}}''), nd_AvailabilityTopic = availTopic,
          nd_PayloadAvailable = avail, nd_PayloadNotAvailable = notAvail, nd_Device = buildDeviceInfo p\<rparr>))"

definition BuildConnectedBinaryDiscovery :: "ModemDiscoveryParams \<Rightarrow> DiscoveryMessage" where
  "BuildConnectedBinaryDiscovery p =
     (let uniqueID = EntityUniqueID p ''connected'';
          topic = dp_DiscoveryPrefix p @ ''/binary_sensor/'' @ uniqueID @ ''/config'';
          stateTopic = dp_TopicPrefix p @ ''/modem/'' @ dp_ModemID p @ ''/health'';
          (availTopic, avail, notAvail) = buildAvailability (dp_TopicPrefix p)
      in marshalDiscovery topic (PBinary \<lparr>xd_Name = ''Modem Connected'', xd_UniqueID = uniqueID, xd_ObjectID = EntityObjectID p ''connected'', xd_StateTopic = stateTopic,
          xd_ValueTemplate = ''{{ 'OFF' if value_json.status == 'disconnected' else 'ON' }}'', xd_PayloadOn = ''ON'', xd_PayloadOff = ''OFF'',
          xd_DeviceClass = ''connectivity'', xd_OffDelay = 0, xd_Icon = ''mdi:connection'', xd_AvailabilityTopic = availTopic,
          xd_PayloadAvailable = avail, xd_PayloadNotAvailable = notAvail, xd_Device = buildDeviceInfo p\<rparr>))"

definition BuildProblemBinaryDiscovery :: "ModemDiscoveryParams \<Rightarrow> DiscoveryMessage" where
  "BuildProblemBinaryDiscovery p =
     (let uniqueID = EntityUniqueID p ''problem'';
          topic = dp_DiscoveryPrefix p @ ''/binary_sensor/'' @ uniqueID @ ''/config'';
          stateTopic = dp_TopicPrefix p @ ''/modem/'' @ dp_ModemID p @ ''/health'';
          (availTopic, avail, notAvail) = buildAvailability (dp_TopicPrefix p)
      in marshalDiscovery topic (PBinary \<lparr>xd_Name = ''Modem Problem'', xd_UniqueID = uniqueID, xd_ObjectID = EntityObjectID p ''problem'', xd_StateTopic = stateTopic,
          xd_ValueTemplate = ''{{ 'ON' if value_json.status in ['error', 'not_ready', 'disconnected'] else 'OFF' }}'', xd_PayloadOn = ''ON'',
          xd_PayloadOff = ''OFF'', xd_DeviceClass = ''problem'', xd_OffDelay = 0, xd_Icon = ''mdi:alert-circle-outline'',
          xd_AvailabilityTopic = availTopic, xd_PayloadAvailable = avail, xd_PayloadNotAvailable = notAvail, xd_Device = buildDeviceInfo p\<rparr>))"

definition BuildEventsDiscovery :: "ModemDiscoveryParams \<Rightarrow> DiscoveryMessage" where
  "BuildEventsDiscovery p =
     (let uniqueID = EntityUniqueID p ''events'';
          topic = dp_DiscoveryPrefix p @ ''/event/'' @ uniqueID @ ''/config'';
          stateTopic = dp_TopicPrefix p @ ''/modem/'' @ dp_ModemID p @ ''/event'';
          (availTopic, avail, notAvail) = buildAvailability (dp_TopicPrefix p)
      in marshalDiscovery topic (PEvent \<lparr>ed_Name = ''Modem Events'', ed_UniqueID = uniqueID, ed_ObjectID = EntityObjectID p ''events'', ed_StateTopic = stateTopic,
          ed_EventTypes = EventTypes, ed_Icon = ''mdi:bell-badge-outline'', ed_AvailabilityTopic = availTopic, ed_PayloadAvailable = avail,
          ed_PayloadNotAvailable = notAvail, ed_Device = buildDeviceInfo p\<rparr>))"

definition BuildSMSHistoryDiscovery :: "ModemDiscoveryParams \<Rightarrow> DiscoveryMessage" where
  "BuildSMSHistoryDiscovery p =
     (let uniqueID = EntityUniqueID p ''sms_history'';
          topic = dp_DiscoveryPrefix p @ ''/sensor/'' @ uniqueID @ ''/config'';
          stateTopic = dp_TopicPrefix p @ ''/modem/'' @ dp_ModemID p @ ''/sms/history'';
          (availTopic, avail, notAvail) = buildAvailability (dp_TopicPrefix p)
      in marshalDiscovery topic (PSensor \<lparr>sd_Name = ''SMS History'', sd_UniqueID = uniqueID, sd_ObjectID = EntityObjectID p ''sms_history'', sd_StateTopic = stateTopic,
          sd_UnitOfMeasurement = ''messages'', sd_DeviceClass = [], sd_StateClass = [], sd_ValueTemplate = ''{{ value_json.count }}'',
          sd_JSONAttributesTopic = stateTopic, sd_Icon = ''mdi:message-text-clock'', sd_Options = [], sd_AvailabilityTopic = availTopic,
          sd_PayloadAvailable = avail, sd_PayloadNotAvailable = notAvail, sd_Device = buildDeviceInfo p\<rparr>))"

definition BuildClearSMSHistoryButtonDiscovery :: "ModemDiscoveryParams \<Rightarrow> DiscoveryMessage" where
  "BuildClearSMSHistoryButtonDiscovery p =
     (let uniqueID = EntityUniqueID p ''btn_clear_sms_history'';
          topic = dp_DiscoveryPrefix p @ ''/button/'' @ uniqueID @ ''/config'';
          cmdTopic = dp_TopicPrefix p @ ''/modem/'' @ dp_ModemID p @ ''/sms/history/clear'';
          (availTopic, avail, notAvail) = buildAvailability (dp_TopicPrefix p)
      in marshalDiscovery topic (PButton \<lparr>bd_Name = ''Clear SMS History'', bd_UniqueID = uniqueID, bd_ObjectID = EntityObjectID p ''clear_sms_history'', bd_CommandTopic = cmdTopic,
          bd_PayloadPress = ''CLEAR'', bd_Icon = ''mdi:message-minus-outline'', bd_AvailabilityTopic = availTopic, bd_PayloadAvailable = avail,
          bd_PayloadNotAvailable = notAvail, bd_Device = buildDeviceInfo p\<rparr>))"

definition BuildCallHistoryDiscovery :: "ModemDiscoveryParams \<Rightarrow> DiscoveryMessage" where
  "BuildCallHistoryDiscovery p =
     (let uniqueID = EntityUniqueID p ''call_history'';
          topic = dp_DiscoveryPrefix p @ ''/sensor/'' @ uniqueID @ ''/config'';
          stateTopic = dp_TopicPrefix p @ ''/modem/'' @ dp_ModemID p @ ''/call/history'';
          (availTopic, avail, notAvail) = buildAvailability (dp_TopicPrefix p)
      in marshalDiscovery topic (PSensor \<lparr>sd_Name = ''Call History'', sd_UniqueID = uniqueID, sd_ObjectID = EntityObjectID p ''call_history'', sd_StateTopic = stateTopic,
          sd_UnitOfMeasurement = ''calls'', sd_DeviceClass = [], sd_StateClass = [], sd_ValueTemplate = ''{{ value_json.count }}'',
          sd_JSONAttributesTopic = stateTopic, sd_Icon = ''mdi:phone-log'', sd_Options = [], sd_AvailabilityTopic = availTopic,
          sd_PayloadAvailable = avail, sd_PayloadNotAvailable = notAvail, sd_Device = buildDeviceInfo p\<rparr>))"

definition BuildClearCallHistoryButtonDiscovery :: "ModemDiscoveryParams \<Rightarrow> DiscoveryMessage" where
  "BuildClearCallHistoryButtonDiscovery p =
     (let uniqueID = EntityUniqueID p ''btn_clear_call_history'';
          topic = dp_DiscoveryPrefix p @ ''/button/'' @ uniqueID @ ''/config'';
          cmdTopic = dp_TopicPrefix p @ ''/modem/'' @ dp_ModemID p @ ''/call/history/clear'';
          (availTopic, avail, notAvail) = buildAvailability (dp_TopicPrefix p)
      in marshalDiscovery topic (PButton \<lparr>bd_Name = ''Clear Call History'', bd_UniqueID = uniqueID, bd_ObjectID = EntityObjectID p ''clear_call_history'', bd_CommandTopic = cmdTopic,
          bd_PayloadPress = ''CLEAR'', bd_Icon = ''mdi:phone-remove-outline'', bd_AvailabilityTopic = availTopic, bd_PayloadAvailable = avail,
          bd_PayloadNotAvailable = notAvail, bd_Device = buildDeviceInfo p\<rparr>))"

definition BuildRecipientsTextDiscovery :: "gostring \<Rightarrow> gostring \<Rightarrow> DiscoveryMessage" where
  "BuildRecipientsTextDiscovery discoveryPrefix topicPrefix =
     (let uniqueID = ''gsm2mqtt_gateway_recipients'';
          topic = discoveryPrefix @ ''/text/'' @ uniqueID @ ''/config'';
          (availTopic, avail, notAvail) = buildAvailability topicPrefix
      in marshalDiscovery topic (PText \<lparr>td_Name = ''Alert Recipients'', td_UniqueID = uniqueID, td_ObjectID = ''gsm2mqtt_gateway_recipients'',
          td_CommandTopic = topicPrefix @ ''/config/recipients/set'', td_StateTopic = topicPrefix @ ''/config/recipients'',
          td_CommandTemplate = ''{{ value }}'',
          td_ValueTemplate = ''{{ value_json | join(', ') if value_json is iterable and value_json is not string else value }}'',
          td_Icon = ''mdi:phone-message'', td_AvailabilityTopic = availTopic, td_PayloadAvailable = avail, td_PayloadNotAvailable = notAvail,
          td_Device = \<lparr>di_Identifiers = [GatewayIdentifier], di_Name = ''GSM2MQTT Gateway'', di_Manufacturer = ''GSM2MQTT'', di_Model = ''Go GSM Gateway'', di_SwVersion = [], di_ViaDevice = []\<rparr>\<rparr>))"

definition BuildGatewayDiscovery :: "gostring \<Rightarrow> gostring \<Rightarrow> gostring \<Rightarrow> gostring \<Rightarrow> DiscoveryMessage" where
  "BuildGatewayDiscovery ver discoveryPrefix topicPrefix version =
     (let uniqueID = ''gsm2mqtt_gateway_status'';
          topic = discoveryPrefix @ ''/sensor/'' @ uniqueID @ ''/config'';
          (availTopic, avail, notAvail) = buildAvailability topicPrefix
      in marshalDiscovery topic (PSensor \<lparr>sd_Name = ''Gateway Status'', sd_UniqueID = uniqueID, sd_ObjectID = ''gsm2mqtt_gateway_status'', sd_StateTopic = availTopic,
          sd_UnitOfMeasurement = [], sd_DeviceClass = [], sd_StateClass = [], sd_ValueTemplate = [], sd_JSONAttributesTopic = [],
          sd_Icon = ''mdi:router-wireless'', sd_Options = [], sd_AvailabilityTopic = availTopic, sd_PayloadAvailable = avail,
          sd_PayloadNotAvailable = notAvail, sd_Device = gatewayDeviceInfo ver version\<rparr>))"

definition BuildGatewayModemCountDiscovery :: "gostring \<Rightarrow> gostring \<Rightarrow> gostring \<Rightarrow> gostring \<Rightarrow> DiscoveryMessage" where
  "BuildGatewayModemCountDiscovery ver discoveryPrefix topicPrefix version =
     (let uniqueID = ''gsm2mqtt_gateway_modem_count'';
          topic = discoveryPrefix @ ''/sensor/'' @ uniqueID @ ''/config'';
          stateTopic = topicPrefix @ ''/gateway/modems'';
          (availTopic, avail, notAvail) = buildAvailability topicPrefix
      in marshalDiscovery topic (PSensor \<lparr>sd_Name = ''Connected Modems'', sd_UniqueID = uniqueID, sd_ObjectID = ''gsm2mqtt_gateway_modem_count'', sd_StateTopic = stateTopic,
          sd_UnitOfMeasurement = ''modems'', sd_DeviceClass = [], sd_StateClass = ''measurement'', sd_ValueTemplate = ''{{ value_json.count }}'',
          sd_JSONAttributesTopic = stateTopic, sd_Icon = ''mdi:devices'', sd_Options = [], sd_AvailabilityTopic = availTopic,
          sd_PayloadAvailable = avail, sd_PayloadNotAvailable = notAvail, sd_Device = gatewayDeviceInfo ver version\<rparr>))"

definition BuildGatewayActiveModemDiscovery :: "gostring \<Rightarrow> gostring \<Rightarrow> gostring \<Rightarrow> gostring \<Rightarrow> DiscoveryMessage" where
  "BuildGatewayActiveModemDiscovery ver discoveryPrefix topicPrefix version =
     (let uniqueID = ''gsm2mqtt_gateway_active_modem'';
          topic = discoveryPrefix @ ''/sensor/'' @ uniqueID @ ''/config'';
          stateTopic = topicPrefix @ ''/gateway/modems'';
          (availTopic, avail, notAvail) = buildAvailability topicPrefix
      in marshalDiscovery topic (PSensor \<lparr>sd_Name = ''Active Modem'', sd_UniqueID = uniqueID, sd_ObjectID = ''gsm2mqtt_gateway_active_modem'', sd_StateTopic = stateTopic,
          sd_UnitOfMeasurement = [], sd_DeviceClass = [], sd_StateClass = [], sd_ValueTemplate = ''{{ value_json.active_modem }}'',
          sd_JSONAttributesTopic = stateTopic, sd_Icon = ''mdi:modem'', sd_Options = [], sd_AvailabilityTopic = availTopic,
          sd_PayloadAvailable = avail, sd_PayloadNotAvailable = notAvail, sd_Device = gatewayDeviceInfo ver version\<rparr>))"

definition BuildTariffSMSDiscovery :: "ModemDiscoveryParams \<Rightarrow> DiscoveryMessage" where
  "BuildTariffSMSDiscovery p =
     (let uniqueID = EntityUniqueID p ''sms_remaining'';
          topic = dp_DiscoveryPrefix p @ ''/sensor/'' @ uniqueID @ ''/config'';
          stateTopic = dp_TopicPrefix p @ ''/modem/'' @ dp_ModemID p @ ''/accounting/status'';
          (availTopic, avail, notAvail) = buildAvailability (dp_TopicPrefix p)
      in marshalDiscovery topic (PSensor \<lparr>sd_Name = ''SMS Remaining'', sd_UniqueID = uniqueID, sd_ObjectID = EntityObjectID p ''sms_remaining'', sd_StateTopic = stateTopic,
          sd_UnitOfMeasurement = ''SMS'', sd_DeviceClass = [], sd_StateClass = ''measurement'', sd_ValueTemplate = ''{{ value_json.sms_remaining }}'',
          sd_JSONAttributesTopic = stateTopic, sd_Icon = ''mdi:message-badge-outline'', sd_Options = [], sd_AvailabilityTopic = availTopic,
          sd_PayloadAvailable = avail, sd_PayloadNotAvailable = notAvail, sd_Device = buildDeviceInfo p\<rparr>))"

definition BuildTariffCallMinutesDiscovery :: "ModemDiscoveryParams \<Rightarrow> DiscoveryMessage" where
  "BuildTariffCallMinutesDiscovery p =
     (let uniqueID = EntityUniqueID p ''call_minutes_remaining'';
          topic = dp_DiscoveryPrefix p @ ''/sensor/'' @ uniqueID @ ''/config'';
          stateTopic = dp_TopicPrefix p @ ''/modem/'' @ dp_ModemID p @ ''/accounting/status'';
          (availTopic, avail, notAvail) = buildAvailability (dp_TopicPrefix p)
      in marshalDiscovery topic (PSensor \<lparr>sd_Name = ''Call Minutes Remaining'', sd_UniqueID = uniqueID, sd_ObjectID = EntityObjectID p ''call_minutes_remaining'',
          sd_StateTopic = stateTopic, sd_UnitOfMeasurement = ''min'', sd_DeviceClass = [], sd_StateClass = ''measurement'',
          sd_ValueTemplate = ''{{ value_json.call_minutes_remaining }}'', sd_JSONAttributesTopic = stateTopic, sd_Icon = ''mdi:phone-clock'',
          sd_Options = [], sd_AvailabilityTopic = availTopic, sd_PayloadAvailable = avail, sd_PayloadNotAvailable = notAvail,
          sd_Device = buildDeviceInfo p\<rparr>))"

definition BuildTariffResetButtonDiscovery :: "ModemDiscoveryParams \<Rightarrow> DiscoveryMessage" where
  "BuildTariffResetButtonDiscovery p =
     (let uniqueID = EntityUniqueID p ''btn_tariff_reset'';
          topic = dp_DiscoveryPrefix p @ ''/button/'' @ uniqueID @ ''/config'';
          cmdTopic = dp_TopicPrefix p @ ''/modem/'' @ dp_ModemID p @ ''/tariff/reset'';
          (availTopic, avail, notAvail) = buildAvailability (dp_TopicPrefix p)
      in marshalDiscovery topic (PButton \<lparr>bd_Name = ''Reset Tariff Quotas'', bd_UniqueID = uniqueID, bd_ObjectID = EntityObjectID p ''tariff_reset'', bd_CommandTopic = cmdTopic,
          bd_PayloadPress = ''{}'', bd_Icon = ''mdi:restore'', bd_AvailabilityTopic = availTopic, bd_PayloadAvailable = avail,
          bd_PayloadNotAvailable = notAvail, bd_Device = buildDeviceInfo p\<rparr>))"

definition BuildTariffDataTrafficDiscovery :: "ModemDiscoveryParams \<Rightarrow> DiscoveryMessage" where
  "BuildTariffDataTrafficDiscovery p =
     (let uniqueID = EntityUniqueID p ''data_traffic_remaining'';
          topic = dp_DiscoveryPrefix p @ ''/sensor/'' @ uniqueID @ ''/config'';
          stateTopic = dp_TopicPrefix p @ ''/modem/'' @ dp_ModemID p @ ''/accounting/status'';
          (availTopic, avail, notAvail) = buildAvailability (dp_TopicPrefix p)
      in marshalDiscovery topic (PSensor \<lparr>sd_Name = ''Data Traffic Remaining'', sd_UniqueID = uniqueID, sd_ObjectID = EntityObjectID p ''data_traffic_remaining'',
          sd_StateTopic = stateTopic, sd_UnitOfMeasurement = ''MB'', sd_DeviceClass = [], sd_StateClass = ''measurement'',
          sd_ValueTemplate = ''{{ (value_json.data_bytes_remaining / 1048576) | round(1) }}'', sd_JSONAttributesTopic = stateTopic,
          sd_Icon = ''mdi:web'', sd_Options = [], sd_AvailabilityTopic = availTopic, sd_PayloadAvailable = avail, sd_PayloadNotAvailable = notAvail,
          sd_Device = buildDeviceInfo p\<rparr>))"

definition BuildTariffLowBalanceBinaryDiscovery :: "ModemDiscoveryParams \<Rightarrow> DiscoveryMessage" where
  "BuildTariffLowBalanceBinaryDiscovery p =
     (let uniqueID = EntityUniqueID p ''low_balance'';
          topic = dp_DiscoveryPrefix p @ ''/binary_sensor/'' @ uniqueID @ ''/config'';
          stateTopic = dp_TopicPrefix p @ ''/modem/'' @ dp_ModemID p @ ''/accounting/status'';
          (availTopic, avail, notAvail) = buildAvailability (dp_TopicPrefix p)
      in marshalDiscovery topic (PBinary \<lparr>xd_Name = ''Low Balance Warning'', xd_UniqueID = uniqueID, xd_ObjectID = EntityObjectID p ''low_balance'', xd_StateTopic = stateTopic,
          xd_ValueTemplate = ''{{ 'ON' if value_json.low_balance else 'OFF' }}'', xd_PayloadOn = ''ON'', xd_PayloadOff = ''OFF'',
          xd_DeviceClass = ''problem'', xd_OffDelay = 0, xd_Icon = ''mdi:cash-alert'', xd_AvailabilityTopic = availTopic, xd_PayloadAvailable = avail,
          xd_PayloadNotAvailable = notAvail, xd_Device = buildDeviceInfo p\<rparr>))"

definition BuildModemDiscoveries :: "ModemDiscoveryParams \<Rightarrow> DiscoveryMessage list" where
  "BuildModemDiscoveries p =
     [BuildSignalDiscovery p, BuildBalanceDiscovery p, BuildStatusDiscovery p, BuildConnectedBinaryDiscovery p, BuildProblemBinaryDiscovery p,
        BuildEventsDiscovery p, BuildOperatorDiscovery p, BuildLastSMSDiscovery p, BuildUSSDResponseDiscovery p,
        BuildCheckBalanceButtonDiscovery p, BuildHangupButtonDiscovery p, BuildIncomingCallDiscovery p, BuildCallerNumberDiscovery p,
        BuildNewSMSBinaryDiscovery p, BuildNotifyDiscovery p, BuildTariffSMSDiscovery p, BuildTariffCallMinutesDiscovery p,
        BuildTariffResetButtonDiscovery p, BuildTariffDataTrafficDiscovery p, BuildTariffLowBalanceBinaryDiscovery p,
        BuildSMSHistoryDiscovery p, BuildClearSMSHistoryButtonDiscovery p, BuildCallHistoryDiscovery p, BuildClearCallHistoryButtonDiscovery p]"

section \<open>Publication\<close>

text \<open>What is published apart from the effects of the gateway: discovery messages, the list of modems with a modem that is
  ready, the recipients, and the status of the program. The connection state of the client is the one at the moment of the operation.\<close>

datatype disc_effect =
    PubDiscovery DiscoveryMessage
  | PubReady gostring gostring gostring ModemConfig
  | PubNumbers gostring "gostring list"
  | PubOnline gostring gostring
  | GwEff gw_effect
  | MgrEff mgr_effect

abbreviation gateway_messages :: "gostring \<Rightarrow> MQTTConfig \<Rightarrow> DiscoveryMessage list" where
  "gateway_messages ver c \<equiv>
     [BuildGatewayDiscovery ver (mq_DiscoveryPrefix c) (mq_TopicPrefix c) ver,
      BuildGatewayModemCountDiscovery ver (mq_DiscoveryPrefix c) (mq_TopicPrefix c) ver,
      BuildGatewayActiveModemDiscovery ver (mq_DiscoveryPrefix c) (mq_TopicPrefix c) ver]"

definition modem_params :: "gostring \<Rightarrow> gostring \<Rightarrow> gostring \<Rightarrow> ModemRunner \<Rightarrow> ModemDiscoveryParams" where
  "modem_params mfg model sw r =
     \<lparr>dp_DiscoveryPrefix = mq_DiscoveryPrefix (cfg_MQTT (rn_cfg r)), dp_TopicPrefix = mq_TopicPrefix (cfg_MQTT (rn_cfg r)),
      dp_ModemID = mc_ID (rn_mCfg r), dp_Manufacturer = mfg, dp_Model = model, dp_SwVersion = sw, dp_Currency = rn_lastCurrency r,
      dp_SlotIndex = rn_slot r\<rparr>"

definition publishDiscovery :: "gostring \<Rightarrow> bool \<Rightarrow> Info option \<Rightarrow> ModemRunner \<Rightarrow> disc_effect list" where
  "publishDiscovery ver conn info r =
     (let c = cfg_MQTT (rn_cfg r); pre = mq_TopicPrefix c;
          (mfg0, model0, sw) = (case info of Some i \<Rightarrow> (inf_Manufacturer i, inf_Model i, inf_Revision i) | None \<Rightarrow> ([], [], []));
          mfg = (if mfg0 = [] \<or> is_undefined mfg0 then ''Unknown'' else mfg0);
          model = (if model0 = [] then mc_Type (rn_mCfg r) else model0);
          when = (\<lambda>effs. if conn then effs else [])
      in if \<not> mq_Discovery c then []
         else when (map PubDiscovery (gateway_messages ver c)) @ [PubReady (pre @ ''/gateway/modems'') model mfg (rn_mCfg r)]
              @ when [PubDiscovery (BuildRecipientsTextDiscovery (mq_DiscoveryPrefix c) pre)]
              @ when (case rn_recipients r of Some mgr \<Rightarrow> [PubNumbers (pre @ ''/config/recipients'') (rcp_Get mgr)] | None \<Rightarrow> [])
              @ when (map PubDiscovery (BuildModemDiscoveries (modem_params mfg model sw r)))
              @ when (case rn_tariff r of Some tm \<Rightarrow> [GwEff (Pub (tp_AccountingStatus (rn_topics r)) True (JUsage (Status tm)))] | None \<Rightarrow> []))"

definition publishInitialDiscovery :: "gostring \<Rightarrow> bool \<Rightarrow> ModemRunner \<Rightarrow> disc_effect list" where
  "publishInitialDiscovery ver conn r =
     (let c = cfg_MQTT (rn_cfg r); model = (if mc_Type (rn_mCfg r) = [] then ''modem'' else mc_Type (rn_mCfg r))
      in if \<not> mq_Discovery c \<or> \<not> conn then []
         else map PubDiscovery (gateway_messages ver c @ BuildModemDiscoveries (modem_params ''Unknown'' model [] r)))"

text \<open>The identification of the modem (\<open>infos\<close>, by the name of the modem) is read from the driver, which a runner has from its first session on.\<close>

definition PublishDiscovery :: "gostring \<Rightarrow> bool \<Rightarrow> (gostring \<Rightarrow> Info option) \<Rightarrow> ModemRunner \<Rightarrow> disc_effect list" where
  "PublishDiscovery ver conn infos r = (if rn_driver r then publishDiscovery ver conn (infos (mc_ID (rn_mCfg r))) r else [])"

definition mgr_PublishDiscovery :: "gostring \<Rightarrow> bool \<Rightarrow> (gostring \<Rightarrow> Info option) \<Rightarrow> GatewayManager \<Rightarrow> disc_effect list" where
  "mgr_PublishDiscovery ver conn infos m = concat (map (\<lambda>(i, r). PublishDiscovery ver conn infos r) (gm_runners m))"

definition Run_start :: "gw_env \<Rightarrow> gostring \<Rightarrow> ModemRunner \<Rightarrow> ModemRunner \<times> disc_effect list" where
  "Run_start env ver r =
     (let (r1, effs) = publishDisconnectedState env ''disconnected'' r in (r1, publishInitialDiscovery ver (ge_conn env) r @ map GwEff effs))"

definition onConnect :: "gostring \<Rightarrow> bool \<Rightarrow> (gostring \<Rightarrow> Info option) \<Rightarrow> Config \<Rightarrow> GatewayManager \<Rightarrow> disc_effect list" where
  "onConnect ver conn infos cfg m =
     PubOnline (mq_TopicPrefix (cfg_MQTT cfg) @ ''/status'') ''online'' # mgr_PublishDiscovery ver conn infos m
     @ map MgrEff (publishRecipientsState conn (GetRecipients m) m)"

definition initMQTT :: "Config \<Rightarrow> ClientConfig" where
  "initMQTT cfg =
     (let c = cfg_MQTT cfg
      in \<lparr>cc_Broker = brokerURI c, cc_Port = mq_Port c, cc_Username = mq_Username c, cc_Password = mq_Password c, cc_ClientID = mq_ClientID c,
          cc_QoS = word_of_int (mq_QoS c), cc_CleanSession = mq_CleanSession c, cc_KeepAlive = mq_KeepAlive c, cc_ConnectTimeout = mq_ConnectTimeout c,
          cc_AutoReconnect = mq_AutoReconnect c,
          cc_MaxReconnectInterval = mq_MaxReconnectInterval c, cc_LWTTopic = mq_TopicPrefix c @ ''/status'', cc_LWTPayload = ''offline'',
          cc_LWTQoS = word_of_int (mq_QoS c), cc_LWTRetained = True, cc_TLSEnabled = tls_Enabled (mq_TLS c),
          cc_InsecureTLS = tls_InsecureSkipVerify (mq_TLS c)\<rparr>)"

section \<open>No two entities share a name\<close>

lemmas builder_defs =
  BuildSignalDiscovery_def BuildBalanceDiscovery_def BuildStatusDiscovery_def BuildConnectedBinaryDiscovery_def BuildProblemBinaryDiscovery_def
  BuildEventsDiscovery_def BuildOperatorDiscovery_def BuildLastSMSDiscovery_def BuildUSSDResponseDiscovery_def
  BuildCheckBalanceButtonDiscovery_def BuildHangupButtonDiscovery_def BuildIncomingCallDiscovery_def BuildCallerNumberDiscovery_def
  BuildNewSMSBinaryDiscovery_def BuildNotifyDiscovery_def BuildTariffSMSDiscovery_def BuildTariffCallMinutesDiscovery_def
  BuildTariffResetButtonDiscovery_def BuildTariffDataTrafficDiscovery_def BuildTariffLowBalanceBinaryDiscovery_def BuildSMSHistoryDiscovery_def
  BuildClearSMSHistoryButtonDiscovery_def BuildCallHistoryDiscovery_def BuildClearCallHistoryButtonDiscovery_def
  BuildGatewayDiscovery_def BuildGatewayModemCountDiscovery_def BuildGatewayActiveModemDiscovery_def BuildRecipientsTextDiscovery_def

fun payload_uid :: "disc_payload \<Rightarrow> gostring" where
  "payload_uid (PSensor x) = sd_UniqueID x"
| "payload_uid (PButton x) = bd_UniqueID x"
| "payload_uid (PBinary x) = xd_UniqueID x"
| "payload_uid (PEvent x) = ed_UniqueID x"
| "payload_uid (PNotify x) = nd_UniqueID x"
| "payload_uid (PText x) = td_UniqueID x"

text \<open>The kind of every entity of a modem and the last part of its name.\<close>

definition entities :: "(gostring \<times> gostring) list" where
  "entities =
     [(''sensor'', ''signal''), (''sensor'', ''balance''), (''sensor'', ''status''), (''binary_sensor'', ''connected''),
      (''binary_sensor'', ''problem''), (''event'', ''events''), (''sensor'', ''operator''), (''sensor'', ''last_sms''),
      (''sensor'', ''ussd_response''), (''button'', ''btn_balance''), (''button'', ''btn_hangup''), (''binary_sensor'', ''incoming_call''),
      (''sensor'', ''caller_number''), (''binary_sensor'', ''new_sms''), (''notify'', ''notify''), (''sensor'', ''sms_remaining''),
      (''sensor'', ''call_minutes_remaining''), (''button'', ''btn_tariff_reset''), (''sensor'', ''data_traffic_remaining''),
      (''binary_sensor'', ''low_balance''), (''sensor'', ''sms_history''), (''button'', ''btn_clear_sms_history''),
      (''sensor'', ''call_history''), (''button'', ''btn_clear_call_history'')]"

definition gateway_entities :: "(gostring \<times> gostring) list" where
  "gateway_entities = [(''sensor'', ''status''), (''sensor'', ''modem_count''), (''sensor'', ''active_modem''), (''text'', ''recipients'')]"

definition disc_topic :: "gostring \<Rightarrow> gostring \<Rightarrow> gostring \<Rightarrow> gostring" where
  "disc_topic dp kind uid = dp @ ''/'' @ kind @ ''/'' @ uid @ ''/config''"

lemma modem_names:
  "map (\<lambda>m. (dm_Topic m, payload_uid (dm_Payload m))) (BuildModemDiscoveries p) =
     map (\<lambda>(k, n). (disc_topic (dp_DiscoveryPrefix p) k (EntityUniqueID p n), EntityUniqueID p n)) entities"
  by (simp add: BuildModemDiscoveries_def builder_defs marshalDiscovery_def buildAvailability_def entities_def disc_topic_def Let_def)

lemma gateway_names:
  "map (\<lambda>m. (dm_Topic m, payload_uid (dm_Payload m)))
       (gateway_messages ver c @ [BuildRecipientsTextDiscovery (mq_DiscoveryPrefix c) (mq_TopicPrefix c)]) =
     map (\<lambda>(k, n). (disc_topic (mq_DiscoveryPrefix c) k (''gsm2mqtt_gateway_'' @ n), ''gsm2mqtt_gateway_'' @ n)) gateway_entities"
  by (simp add: builder_defs marshalDiscovery_def buildAvailability_def gateway_entities_def disc_topic_def Let_def)

lemma split_at_char:
  assumes "c \<notin> set a" "c \<notin> set b"
  shows "a @ c # x = b @ c # y \<longleftrightarrow> a = b \<and> x = y"
proof -
  have "takeWhile (\<lambda>d. d \<noteq> c) (s @ c # z) = s \<and> dropWhile (\<lambda>d. d \<noteq> c) (s @ c # z) = c # z" if "c \<notin> set s" for s z
    using that by (induction s) auto
  then show ?thesis using assms by (metis list.inject)
qed

lemma disc_topic_inj:
  "CHR ''/'' \<notin> set k \<Longrightarrow> CHR ''/'' \<notin> set k' \<Longrightarrow> disc_topic dp k u = disc_topic dp k' u' \<longleftrightarrow> k = k' \<and> u = u'"
  using split_at_char [of "CHR ''/''" k k' "u @ ''/config''" "u' @ ''/config''"] by (simp add: disc_topic_def)

text \<open>The entities of the whole program: slot 0 stands for the gateway.\<close>

fun uid_of :: "nat \<times> gostring \<times> gostring \<Rightarrow> gostring" where
  "uid_of (0, k, n) = ''gsm2mqtt_gateway_'' @ n"
| "uid_of (Suc i, k, n) = ''gsm2mqtt_modem_'' @ itoa (int i + 1) @ ''_'' @ n"

lemma itoa_one: "itoa 1 = ''1''"
  by code_simp

lemma EntityUniqueID_slot: "dp_SlotIndex p = int i + 1 \<Longrightarrow> EntityUniqueID p n = uid_of (Suc i, k, n)"
  by (cases i) (simp_all add: EntityUniqueID_def itoa_one)

lemma itoa_no_underscore: "0 \<le> i \<Longrightarrow> CHR ''_'' \<notin> set (itoa i)"
proof -
  assume "0 \<le> i"
  moreover have "\<not> is_digit_char (CHR ''_'')" by code_simp
  ultimately show ?thesis by (auto simp: itoa_def dest: nat_dec_digits)
qed

lemma itoa_inj: "0 \<le> i \<Longrightarrow> 0 \<le> j \<Longrightarrow> itoa i = itoa j \<longleftrightarrow> i = j"
  by (auto simp: itoa_def nat_dec_inj)

lemma uid_inj: "uid_of (i, k, n) = uid_of (i', k', n') \<longleftrightarrow> i = i' \<and> n = n'"
proof (cases i; cases i')
  fix j j' assume "i = Suc j" "i' = Suc j'"
  then show ?thesis
    using split_at_char [OF itoa_no_underscore itoa_no_underscore, of "int j + 1" "int j' + 1" n n'] itoa_inj [of "int j + 1" "int j' + 1"]
    by simp
qed simp_all

declare uid_of.simps [simp del]

definition slots :: "nat \<Rightarrow> (nat \<times> gostring \<times> gostring) list" where
  "slots n = map (Pair 0) gateway_entities @ List.product (map Suc [0..<n]) entities"

lemma slots_facts: "distinct (map (\<lambda>(i, k, m). (i, m)) (slots n))" "\<forall>(i, k, m)\<in>set (slots n). CHR ''/'' \<notin> set k"
proof -
  have d: "distinct (map snd gateway_entities)" "distinct (map snd entities)" by code_simp+
  have p: "map (\<lambda>(i, k, m). (i, m)) (List.product is es) = List.product is (map snd es)" for "is" :: "nat list" and es :: "(gostring \<times> gostring) list"
    by (induction "is") (auto simp: split_beta)
  have "inj_on Suc A" for A by simp
  then have "distinct (List.product (map Suc [0..<n]) (map snd entities))" using d(2) by (intro distinct_product) (simp_all add: distinct_map)
  moreover have g: "map (\<lambda>(i, k, m). (i, m)) (map (Pair (0::nat)) gateway_entities) = map (Pair 0) (map snd gateway_entities)"
    by (simp add: split_beta o_def)
  moreover have "distinct (map (Pair (0::nat)) (map snd gateway_entities))" using d(1) unfolding distinct_map by (simp add: inj_on_def)
  moreover have "set (map (Pair (0::nat)) (map snd gateway_entities)) \<inter> set (List.product (map Suc [0..<n]) (map snd entities)) = {}" by auto
  ultimately show "distinct (map (\<lambda>(i, k, m). (i, m)) (slots n))" unfolding slots_def map_append p g distinct_append by blast
  have "list_all (\<lambda>(k, m). CHR ''/'' \<notin> set k) (gateway_entities @ entities)" by code_simp
  then show "\<forall>(i, k, m)\<in>set (slots n). CHR ''/'' \<notin> set k" by (auto simp: slots_def list_all_iff)
qed

lemma slots_uids: "distinct (map uid_of (slots n))" "distinct (map (\<lambda>(i, k, m). disc_topic dp k (uid_of (i, k, m))) (slots n))"
proof -
  have s: "x = y \<or> (\<lambda>(i, k, m). (i, m)) x \<noteq> (\<lambda>(i, k, m). (i, m)) y" if "x \<in> set (slots n)" "y \<in> set (slots n)" for x y
    using slots_facts(1) [of n] that by (auto simp: distinct_map dest: inj_onD)
  have i: "x = y" if "x \<in> set (slots n)" "y \<in> set (slots n)" "uid_of x = uid_of y" for x y
    using s [OF that(1,2)] that(3) uid_inj [of "fst x" "fst (snd x)" "snd (snd x)" "fst y" "fst (snd y)" "snd (snd y)"] by (auto simp: split_beta)
  have d: "distinct (slots n)" using slots_facts(1) by (simp add: distinct_map)
  show "distinct (map uid_of (slots n))" using d i by (simp add: distinct_map inj_on_def)
  show "distinct (map (\<lambda>(i, k, m). disc_topic dp k (uid_of (i, k, m))) (slots n))"
    unfolding distinct_map
  proof (intro conjI d inj_onI)
    fix x y assume x: "x \<in> set (slots n)" and y: "y \<in> set (slots n)"
      and e: "(\<lambda>(i, k, m). disc_topic dp k (uid_of (i, k, m))) x = (\<lambda>(i, k, m). disc_topic dp k (uid_of (i, k, m))) y"
    have "CHR ''/'' \<notin> set (fst (snd x))" "CHR ''/'' \<notin> set (fst (snd y))" using slots_facts(2) [of n] x y by auto
    with e have "uid_of x = uid_of y" by (simp add: split_beta disc_topic_inj)
    with x y show "x = y" by (rule i)
  qed
qed

lemma all_names:
  assumes "length infos = n" "\<And>i. i < n \<Longrightarrow> dp_DiscoveryPrefix (infos ! i) = mq_DiscoveryPrefix c \<and> dp_SlotIndex (infos ! i) = int i + 1"
  shows "map (\<lambda>m. (dm_Topic m, payload_uid (dm_Payload m))) (gateway_messages ver c
      @ [BuildRecipientsTextDiscovery (mq_DiscoveryPrefix c) (mq_TopicPrefix c)] @ concat (map BuildModemDiscoveries infos)) =
    map (\<lambda>(i, k, m). (disc_topic (mq_DiscoveryPrefix c) k (uid_of (i, k, m)), uid_of (i, k, m))) (slots n)"
proof -
  let ?f = "\<lambda>m. (dm_Topic m, payload_uid (dm_Payload m))" and ?g = "\<lambda>(i, k, m). (disc_topic (mq_DiscoveryPrefix c) k (uid_of (i, k, m)), uid_of (i, k, m))"
  have "map ?f (BuildModemDiscoveries (infos ! i)) = map ?g (map (Pair (Suc i)) entities)" if "i < n" for i
    using assms(2) [OF that] EntityUniqueID_slot [of "infos ! i" i] by (simp add: modem_names split_beta)
  then have e: "map (\<lambda>i. map ?f (BuildModemDiscoveries (infos ! i))) [0..<n] = map (\<lambda>i. map ?g (map (Pair (Suc i)) entities)) [0..<n]"
    by (intro map_cong) simp_all
  have m: "map BuildModemDiscoveries infos = map (\<lambda>i. BuildModemDiscoveries (infos ! i)) [0..<n]"
    using assms(1) by (intro nth_equalityI) simp_all
  have p: "map h (List.product (map Suc ns) es) = concat (map (\<lambda>i. map h (map (Pair (Suc i)) es)) ns)"
    for h :: "nat \<times> gostring \<times> gostring \<Rightarrow> gostring \<times> gostring" and ns es
    by (induction ns) simp_all
  have q: "map ?f (concat (map BuildModemDiscoveries infos)) = concat (map (\<lambda>i. map ?f (BuildModemDiscoveries (infos ! i))) [0..<n])"
    by (simp only: m map_concat map_map o_def)
  have h: "map ?f (concat (map BuildModemDiscoveries infos)) = map ?g (List.product (map Suc [0..<n]) entities)"
    by (simp only: q p e)
  have "map ?f (gateway_messages ver c @ [BuildRecipientsTextDiscovery (mq_DiscoveryPrefix c) (mq_TopicPrefix c)]) = map ?g (map (Pair 0) gateway_entities)"
    unfolding gateway_names by (simp add: split_beta uid_of.simps)
  then show ?thesis unfolding slots_def map_append [of ?g] h [symmetric] append_assoc [symmetric] map_append [of ?f] by (simp only:)
qed

text \<open>Property C14. The announcements never collide: over the gateway and any number of configured modems, whatever the modems report of themselves, all
  discovery topics are different and so are all unique identifiers, so no entity replaces another in Home Assistant.
\<close>

theorem discovery_unique:
  "let msgs = gateway_messages ver (cfg_MQTT cfg)
         @ [BuildRecipientsTextDiscovery (mq_DiscoveryPrefix (cfg_MQTT cfg)) (mq_TopicPrefix (cfg_MQTT cfg))]
         @ concat (map (\<lambda>(i, c). BuildModemDiscoveries (modem_params (mfg i) (model i) (sw i) (start_runner up fs cfg mgr i c))) (enumerate 0 (cfg_Modems cfg)))
   in length msgs = 4 + 24 * length (cfg_Modems cfg) \<and> distinct (map dm_Topic msgs) \<and> distinct (map (payload_uid \<circ> dm_Payload) msgs)"
proof -
  let ?infos = "map (\<lambda>(i, c). modem_params (mfg i) (model i) (sw i) (start_runner up fs cfg mgr i c)) (enumerate 0 (cfg_Modems cfg))"
  let ?n = "length (cfg_Modems cfg)"
  define msgs where "msgs = gateway_messages ver (cfg_MQTT cfg)
    @ [BuildRecipientsTextDiscovery (mq_DiscoveryPrefix (cfg_MQTT cfg)) (mq_TopicPrefix (cfg_MQTT cfg))] @ concat (map BuildModemDiscoveries ?infos)"
  have names: "map (\<lambda>m. (dm_Topic m, payload_uid (dm_Payload m))) msgs =
      map (\<lambda>(i, k, m). (disc_topic (mq_DiscoveryPrefix (cfg_MQTT cfg)) k (uid_of (i, k, m)), uid_of (i, k, m))) (slots ?n)"
    unfolding msgs_def by (rule all_names) (simp_all add: nth_enumerate_eq modem_params_def)
  from arg_cong [OF names, of "map fst"] arg_cong [OF names, of "map snd"] arg_cong [OF names, of length]
  have "map dm_Topic msgs = map (\<lambda>(i, k, m). disc_topic (mq_DiscoveryPrefix (cfg_MQTT cfg)) k (uid_of (i, k, m))) (slots ?n)"
    "map (payload_uid \<circ> dm_Payload) msgs = map uid_of (slots ?n)" "length msgs = length (slots ?n)"
    by (simp_all add: o_def split_beta)
  moreover have "length (slots ?n) = 4 + 24 * ?n" by (simp add: slots_def gateway_entities_def entities_def)
  ultimately have main: "length msgs = 4 + 24 * ?n \<and> distinct (map dm_Topic msgs) \<and> distinct (map (payload_uid \<circ> dm_Payload) msgs)"
    using slots_uids(1) [of ?n] slots_uids(2) [of _ ?n] by simp
  have inf: "map BuildModemDiscoveries ?infos =
      map (\<lambda>(i, c). BuildModemDiscoveries (modem_params (mfg i) (model i) (sw i) (start_runner up fs cfg mgr i c))) (enumerate 0 (cfg_Modems cfg))"
    by (simp add: o_def split_beta)
  show ?thesis using main unfolding Let_def msgs_def inf .
qed

section \<open>What is announced is there\<close>

fun state_topics :: "disc_payload \<Rightarrow> gostring list" where
  "state_topics (PSensor x) = sd_StateTopic x # (if sd_JSONAttributesTopic x = [] then [] else [sd_JSONAttributesTopic x])"
| "state_topics (PBinary x) = [xd_StateTopic x]"
| "state_topics (PEvent x) = [ed_StateTopic x]"
| "state_topics (PText x) = [td_StateTopic x]"
| "state_topics _ = []"

fun command_topics :: "disc_payload \<Rightarrow> (gostring \<times> gostring) list" where
  "command_topics (PButton x) = [(bd_Name x, bd_CommandTopic x)]"
| "command_topics (PNotify x) = [(nd_Name x, nd_CommandTopic x)]"
| "command_topics (PText x) = [(td_Name x, td_CommandTopic x)]"
| "command_topics _ = []"

fun availability :: "disc_payload \<Rightarrow> gostring \<times> gostring \<times> gostring" where
  "availability (PSensor x) = (sd_AvailabilityTopic x, sd_PayloadAvailable x, sd_PayloadNotAvailable x)"
| "availability (PButton x) = (bd_AvailabilityTopic x, bd_PayloadAvailable x, bd_PayloadNotAvailable x)"
| "availability (PBinary x) = (xd_AvailabilityTopic x, xd_PayloadAvailable x, xd_PayloadNotAvailable x)"
| "availability (PEvent x) = (ed_AvailabilityTopic x, ed_PayloadAvailable x, ed_PayloadNotAvailable x)"
| "availability (PNotify x) = (nd_AvailabilityTopic x, nd_PayloadAvailable x, nd_PayloadNotAvailable x)"
| "availability (PText x) = (td_AvailabilityTopic x, td_PayloadAvailable x, td_PayloadNotAvailable x)"

text \<open>What the control with a name is meant to do.\<close>

definition controls :: "(gostring \<times> handler) list" where
  "controls = [(''Check Balance'', HUssd), (''Hangup Call'', HHangup), (''GSM SMS'', HSms), (''Reset Tariff Quotas'', HTariffReset),
     (''Clear SMS History'', HClearSMS), (''Clear Call History'', HClearCalls)]"

text \<open>The topics on which the callbacks and reports of a runner publish: loss of the modem, a signal reading, a received message \<open>m\<close>,
  a USSD response \<open>u\<close> and a text with a balance, the start of a session, the accounting.\<close>

definition reports :: "gw_env \<Rightarrow> AssembledSMS \<Rightarrow> USSDResponse \<Rightarrow> gostring \<Rightarrow> Manager \<Rightarrow> ModemRunner \<Rightarrow> gw_effect list" where
  "reports env m u msg tm r =
     snd (publishDisconnectedState env ''disconnected'' r) @ onSignal 20 (calculateDBm 20) r # onUSSDResponse r u # snd (onReceived env m r)
     @ snd (applyParsedBalance env msg r) @ announce env r @ publishAccountingStatus env tm r"

definition pub_topics :: "gw_effect list \<Rightarrow> gostring set" where
  "pub_topics effs = {t. \<exists>retained p. Pub t retained p \<in> set effs}"

lemma pub_topics_simps [simp]:
  "pub_topics [] = {}" "pub_topics (xs @ ys) = pub_topics xs \<union> pub_topics ys" "pub_topics (Pub t q p # xs) = insert t (pub_topics xs)"
  by (auto simp: pub_topics_def)

lemma balance_topic:
  assumes "ParseBalance (ge_pf env) (ge_compile env) msg (ct_BalanceRegex (cfg_Tariff (rn_cfg r))) = Inr bal" "ge_conn env"
  shows "tp_Balance (rn_topics r) \<in> pub_topics (snd (applyParsedBalance env msg r))"
  using assms by (auto simp: applyParsedBalance_def Let_def split_beta pub_topics_def with_tariff_def split: option.split)

lemma received_topics: "{tp_SMSReceived (rn_topics r), tp_SMSLast (rn_topics r)} \<subseteq> pub_topics (snd (onReceived env m r))"
  by (auto simp: onReceived_def then_do_def split_beta pub_topics_def recordIncomingSMS_def saveInboxLocked_def Let_def)

lemma reports_topics:
  assumes "ParseBalance (ge_pf env) (ge_compile env) msg (ct_BalanceRegex (cfg_Tariff (rn_cfg r))) = Inr bal" "ge_conn env"
  shows "{tp_Health (rn_topics r), tp_Event (rn_topics r), tp_SignalStrength (rn_topics r), tp_USSDResponse (rn_topics r), tp_SMSReceived (rn_topics r),
      tp_SMSLast (rn_topics r), tp_Balance (rn_topics r), tp_CallIncoming (rn_topics r), tp_SMSHistory (rn_topics r), tp_CallHistory (rn_topics r),
      tp_AccountingStatus (rn_topics r)} \<subseteq> pub_topics (reports env m u msg tm r)"
proof -
  have "tp_Health (rn_topics r) \<in> pub_topics (snd (publishDisconnectedState env ''disconnected'' r))"
    "tp_Event (rn_topics r) \<in> pub_topics (snd (publishDisconnectedState env ''disconnected'' r))"
    using assms(2) by (simp_all add: publishDisconnectedState_def publishEvent_def updateHealth_def Let_def)
  moreover have "{tp_CallIncoming (rn_topics r), tp_SMSHistory (rn_topics r), tp_CallHistory (rn_topics r)} \<subseteq> pub_topics (announce env r)"
    using assms(2) by (auto simp: announce_def publishSMSHistory_def publishCallHistory_def Let_def)
  moreover have "tp_AccountingStatus (rn_topics r) \<in> pub_topics (publishAccountingStatus env tm r)"
    using assms(2) by (simp add: publishAccountingStatus_def)
  ultimately show ?thesis
    using balance_topic [OF assms] received_topics [of r env m] by (auto simp: reports_def onSignal_def onUSSDResponse_def)
qed

lemma modem_states:
  assumes "topics_ok r"
  shows "concat (map (state_topics \<circ> dm_Payload) (BuildModemDiscoveries (modem_params mfg model sw r))) =
    (let t = rn_topics r
     in [tp_SignalStrength t, tp_Balance t, tp_Health t, tp_Health t, tp_Health t, tp_Health t, tp_Event t, tp_Health t, tp_SMSLast t, tp_SMSLast t,
         tp_USSDResponse t, tp_CallIncoming t, tp_CallIncoming t, tp_SMSReceived t, tp_AccountingStatus t, tp_AccountingStatus t, tp_AccountingStatus t,
         tp_AccountingStatus t, tp_AccountingStatus t, tp_AccountingStatus t, tp_AccountingStatus t, tp_SMSHistory t, tp_SMSHistory t, tp_CallHistory t,
         tp_CallHistory t])"
  using assms
  by (simp add: BuildModemDiscoveries_def builder_defs marshalDiscovery_def buildAvailability_def Let_def modem_params_def topics_ok_def tp_defs
      modem_topic_def NewTopics_def)

lemma modem_commands:
  "concat (map (command_topics \<circ> dm_Payload) (BuildModemDiscoveries (modem_params mfg model sw r))) =
    (let t = NewTopics (mq_TopicPrefix (cfg_MQTT (rn_cfg r))) (mc_ID (rn_mCfg r))
     in [(''Check Balance'', tp_USSDSend t), (''Hangup Call'', tp_CallHangup t),
         (''GSM SMS'', if rn_slot r \<le> 1 then slot_topic r ''sms/send'' else tp_SMSSend t), (''Reset Tariff Quotas'', tp_TariffReset t),
         (''Clear SMS History'', tp_SMSHistoryClear t), (''Clear Call History'', tp_CallHistoryClear t)])"
  by (simp add: BuildModemDiscoveries_def builder_defs marshalDiscovery_def buildAvailability_def Let_def modem_params_def
      tp_USSDSend_def tp_CallHangup_def tp_SMSSend_def tp_TariffReset_def tp_SMSHistoryClear_def tp_CallHistoryClear_def slot_topic_def
      modem_topic_def NewTopics_def)

lemma modem_availability:
  "msg \<in> set (BuildModemDiscoveries p) \<Longrightarrow> availability (dm_Payload msg) = (dp_TopicPrefix p @ ''/status'', ''online'', ''offline'')"
  by (auto simp: BuildModemDiscoveries_def builder_defs marshalDiscovery_def buildAvailability_def Let_def)

lemma poll_status: "OnHealth h \<in> set (snd (Poll reply s)) \<Longrightarrow> mh_Status h \<in> {''ready'', ''degraded'', ''not_ready''}"
  by (auto simp: Poll_def updateFailCount_def determineStatus_def Let_def split_beta split: if_splits)

text \<open>Property C6. What is announced to Home Assistant is there. For every entity of a modem: its state topics are topics on which the
  gateway of the modem publishes (loss of the modem, signal, received message, USSD answer, balance, start of a session, accounting);
  its command topic is one the gateway subscribes to, with the handler that does what the control is named for; its availability
  topic and payloads are those of the last will and of the message sent on connection. And every status that polling or the loss of the modem
  publishes is among the declared options of the status sensor.
\<close>

theorem discovery_wired:
  assumes "gw_inv pre mid r" "ge_conn env"
    "ParseBalance (ge_pf env) (ge_compile env) text (ct_BalanceRegex (cfg_Tariff (rn_cfg r))) = Inr bal"
  shows "(\<forall>msg\<in>set (BuildModemDiscoveries (modem_params mfg model sw r)).
        set (state_topics (dm_Payload msg)) \<subseteq> pub_topics (reports env m u text tm r)
      \<and> (\<forall>(n, t)\<in>set (command_topics (dm_Payload msg)). \<exists>h. map_of controls n = Some h \<and> (t, h) \<in> set (subscriptions r))
      \<and> (case availability (dm_Payload msg) of (t, avail, notAvail) \<Rightarrow>
           t = cc_LWTTopic (initMQTT (rn_cfg r)) \<and> notAvail = cc_LWTPayload (initMQTT (rn_cfg r)) \<and> PubOnline t avail \<in> set (onConnect ver conn infos (rn_cfg r) mg)))
    \<and> (\<forall>reply s h. OnHealth h \<in> set (snd (Poll reply s)) \<or> mh_Status h = ''disconnected'' \<longrightarrow>
         (case dm_Payload (BuildStatusDiscovery (modem_params mfg model sw r)) of PSensor x \<Rightarrow> mh_Status h \<in> set (sd_Options x) | _ \<Rightarrow> False))"
proof -
  let ?msgs = "BuildModemDiscoveries (modem_params mfg model sw r)"
  have ok: "topics_ok r" "1 \<le> rn_slot r" using assms(1) by (simp_all add: gw_inv_def)
  have "set (state_topics (dm_Payload msg)) \<subseteq> pub_topics (reports env m u text tm r)" if "msg \<in> set ?msgs" for msg
  proof -
    have "set (state_topics (dm_Payload msg)) \<subseteq> set (concat (map (state_topics \<circ> dm_Payload) ?msgs))" using that by auto
    then show ?thesis unfolding modem_states [OF ok(1)] using reports_topics [OF assms(3,2), of m u tm] by (auto simp: Let_def)
  qed
  moreover have "\<exists>h. map_of controls n = Some h \<and> (t, h) \<in> set (subscriptions r)"
    if "msg \<in> set ?msgs" "(n, t) \<in> set (command_topics (dm_Payload msg))" for msg n t
  proof -
    have "(n, t) \<in> set (concat (map (command_topics \<circ> dm_Payload) ?msgs))" using that by auto
    then show ?thesis
      unfolding modem_commands using ok by (auto simp: Let_def controls_def subscriptions_def topics_ok_def split: if_splits)
  qed
  moreover have "case availability (dm_Payload msg) of (t, avail, notAvail) \<Rightarrow> t = cc_LWTTopic (initMQTT (rn_cfg r)) \<and> notAvail = cc_LWTPayload (initMQTT (rn_cfg r))
      \<and> PubOnline t avail \<in> set (onConnect ver conn infos (rn_cfg r) mg)" if "msg \<in> set ?msgs" for msg
    using modem_availability [OF that] by (simp add: initMQTT_def onConnect_def modem_params_def Let_def)
  moreover have "case dm_Payload (BuildStatusDiscovery (modem_params mfg model sw r)) of PSensor x \<Rightarrow> mh_Status h \<in> set (sd_Options x) | _ \<Rightarrow> False"
    if "OnHealth h \<in> set (snd (Poll reply s)) \<or> mh_Status h = ''disconnected''" for reply s h
    using that poll_status [of h reply s] by (auto simp: BuildStatusDiscovery_def marshalDiscovery_def buildAvailability_def Let_def)
  ultimately show ?thesis by auto
qed

theorem discovery_wired_witness:
  "let r = NewModemRunner id None None demo_mcfg Defaults
   in (\<forall>msg\<in>set (BuildModemDiscoveries (modem_params ''SIMCOM'' ''SIM800'' ''R14'' r)).
        \<forall>(n, t)\<in>set (command_topics (dm_Payload msg)). \<exists>h. map_of controls n = Some h \<and> (t, h) \<in> set (subscriptions r))"
proof -
  let ?r = "NewModemRunner id None None demo_mcfg Defaults"
  have "ct_BalanceRegex (cfg_Tariff (rn_cfg ?r)) = []" by (simp add: NewModemRunner_def loadInbox_def loadCallHistory_def Defaults_def)
  moreover have "ParseBalance (\<lambda>s. if s = ''0'' then Some 0 else None) (\<lambda>_. None) ''Balance: 0'' [] = Inr 0" by code_simp
  ultimately have p: "ParseBalance (ge_pf zero_gw) (ge_compile zero_gw) ''Balance: 0'' (ct_BalanceRegex (cfg_Tariff (rn_cfg ?r))) = Inr 0"
    by (simp add: demo_gw_def)
  have c: "ge_conn zero_gw" by (simp add: demo_gw_def)
  show ?thesis unfolding Let_def using discovery_wired [OF NewModemRunner_inv c p, of "''SIMCOM''" "''SIM800''" "''R14''"] by blast
qed

end
