(* ===== verification/HTTP_API.thy ===== *)
theory HTTP_API
  imports Gateway_Manager
begin

text \<open>
  The HTTP API (\<^verbatim>\<open>internal/api\<close>: server.go, tariff.go, types.go) over the manager of all modems. \<^verbatim>\<open>net/http\<close> is
  represented by its documented behaviour: the router matches the method and the path of the request, already cleaned
  (\<^verbatim>\<open>GET\<close> also admits \<^verbatim>\<open>HEAD\<close>, and the pattern of the root every path), and a handler reads at most 64 KiB of
  the body. What \<^verbatim>\<open>encoding/json\<close> makes of the bytes it may read is an argument (\<open>api_json\<close>; \<open>None\<close> when
  decoding fails). A response body is the value that is encoded. The outcomes of the modem and of the clock during the request are \<open>api_env\<close>;
  the state is the manager together with the modem that raw commands run on. Logs, time limits and metrics are left out.
\<close>

section \<open>Requests and responses\<close>

record ServerConfig =
  srv_Host :: gostring
  srv_Port :: int
  srv_Token :: gostring

record http_request =
  hq_Method :: gostring
  hq_Path :: gostring
  hq_Authorization :: gostring
  hq_ModemQuery :: gostring
  hq_Body :: gostring

text \<open>The body of \<^verbatim>\<open>POST /api/tariff/config\<close>: the fields that are present.\<close>

record tariff_body =
  tb_ModemID :: gostring
  tb_request :: tariff_request

record api_json =
  js_sms :: "gostring \<Rightarrow> (gostring \<times> gostring \<times> gostring) option"
  js_ussd :: "gostring \<Rightarrow> (gostring \<times> gostring) option"
  js_dial :: "gostring \<Rightarrow> (gostring \<times> gostring) option"
  js_hangup :: "gostring \<Rightarrow> gostring option"
  js_at :: "gostring \<Rightarrow> (gostring \<times> gostring) option"
  js_tariff :: "gostring \<Rightarrow> tariff_body option"
  js_modem :: "gostring \<Rightarrow> gostring"

text \<open>\<open>js_modem\<close> is the field \<^verbatim>\<open>modem_id\<close> that a decoding leaves whose error is ignored: empty when it fails before it.\<close>

datatype api_error = EMgr mgr_error | EGw gw_error | EDrv drv_error

datatype api_body =
    BHealth
  | BMetrics
  | BModems "ModemSummary list"
  | BRefs "byte list"
  | BMessage gostring
  | BReply gostring
  | BSuccess
  | BCallStatus CallStatus
  | BMQTTStatus MQTTStatus
  | BInbox "ReceivedSMS list"
  | BCalls "CallRecord list"
  | BUsage UsageStatus
  | BFailure gostring
  | BText gostring
  | BFavicon
  | BDashboard

record http_response =
  hr_Status :: int
  hr_Type :: gostring
  hr_Secure :: bool
  hr_Body :: api_body

record 'm api_env =
  ae_gw :: gw_env
  ae_sender :: pdu_sender
  ae_clk :: "nat \<Rightarrow> instant"
  ae_ussd :: "ussd_error + USSDResponse"
  ae_now2 :: instant
  ae_callErr :: "gostring option"
  ae_run :: "'m runner"
  ae_conn :: bool
  ae_errText :: "api_error \<Rightarrow> gostring"
  ae_printable :: "rune \<Rightarrow> bool"
  ae_json :: api_json

definition maxRequestBodyBytes :: nat where
  "maxRequestBodyBytes = 64 * 1024"

definition limitBody :: "http_request \<Rightarrow> gostring" where
  "limitBody q = take maxRequestBodyBytes (hq_Body q)"

definition json_response :: "int \<Rightarrow> api_body \<Rightarrow> http_response" where
  "json_response code body = \<lparr>hr_Status = code, hr_Type = ''application/json'', hr_Secure = False, hr_Body = body\<rparr>"

definition http_Error :: "gostring \<Rightarrow> int \<Rightarrow> http_response" where
  "http_Error msg code = \<lparr>hr_Status = code, hr_Type = ''text/plain; charset=utf-8'', hr_Secure = False, hr_Body = BText msg\<rparr>"

definition writeJSONError :: "int \<Rightarrow> gostring \<Rightarrow> http_response" where
  "writeJSONError code msg = json_response code (BFailure msg)"

definition secureHeaders :: "http_response \<Rightarrow> http_response" where
  "secureHeaders resp = resp\<lparr>hr_Secure := True\<rparr>"

definition invalid_json :: gostring where
  "invalid_json = ''{\"error\":\"invalid request json\"}''"

section \<open>Handlers\<close>

type_synonym 'm world = "GatewayManager \<times> 'm"
type_synonym 'm handled = "'m world \<times> mgr_effect list \<times> http_response"

text \<open>A handler that only reads, and one that runs an operation of the manager.\<close>

definition reads :: "http_response \<Rightarrow> 'm world \<Rightarrow> 'm handled" where
  "reads resp w = (w, [], resp)"

definition operates :: "(GatewayManager \<Rightarrow> GatewayManager \<times> mgr_effect list \<times> 'x) \<Rightarrow> ('x \<Rightarrow> http_response) \<Rightarrow> 'm world \<Rightarrow> 'm handled" where
  "operates f answer w = (let (m1, effs, x) = f (fst w) in ((m1, snd w), effs, answer x))"

definition handleHealth :: "'m world \<Rightarrow> 'm handled" where
  "handleHealth = reads (secureHeaders (json_response 200 BHealth))"

definition handleGetModems :: "'m world \<Rightarrow> 'm handled" where
  "handleGetModems w = reads (json_response 200 (BModems (GetModems (fst w)))) w"

definition fail :: "('e \<Rightarrow> gostring) \<Rightarrow> 'e \<Rightarrow> http_response" where
  "fail txt err = writeJSONError 400 (txt err)"

definition handleSendSMS :: "'m api_env \<Rightarrow> http_request \<Rightarrow> 'm world \<Rightarrow> 'm handled" where
  "handleSendSMS env q = (case js_sms (ae_json env) (limitBody q) of
     None \<Rightarrow> reads (http_Error invalid_json 400)
   | Some (i, to, msg) \<Rightarrow> operates (mgr_SendSMS (ae_gw env) (ae_sender env) (ae_clk env) i to msg)
       (\<lambda>res. case res of Inl e \<Rightarrow> fail (ae_errText env) (EMgr e) | Inr (Inl e) \<Rightarrow> fail (ae_errText env) (EGw e)
          | Inr (Inr refs) \<Rightarrow> json_response 200 (BRefs refs)))"

definition handleSendUSSD :: "'m api_env \<Rightarrow> http_request \<Rightarrow> 'm world \<Rightarrow> 'm handled" where
  "handleSendUSSD env q = (case js_ussd (ae_json env) (limitBody q) of
     None \<Rightarrow> reads (writeJSONError 400 ''invalid request json'')
   | Some (i, code) \<Rightarrow> operates (mgr_SendUSSD (ae_gw env) (ae_ussd env) i)
       (\<lambda>res. case res of Inl e \<Rightarrow> fail (ae_errText env) (EMgr e) | Inr (Inl e) \<Rightarrow> fail (ae_errText env) (EGw e)
          | Inr (Inr reply) \<Rightarrow> json_response 200 (BMessage reply)))"

definition op_answer :: "(api_error \<Rightarrow> http_response) \<Rightarrow> mgr_error + gw_error option \<Rightarrow> http_response" where
  "op_answer failure res = (case res of Inl e \<Rightarrow> failure (EMgr e) | Inr (Some e) \<Rightarrow> failure (EGw e) | Inr None \<Rightarrow> json_response 200 BSuccess)"

definition handleCallDial :: "'m api_env \<Rightarrow> http_request \<Rightarrow> 'm world \<Rightarrow> 'm handled" where
  "handleCallDial env q = (case js_dial (ae_json env) (limitBody q) of
     None \<Rightarrow> reads (writeJSONError 400 ''invalid request json'')
   | Some (i, number) \<Rightarrow> operates (DialCall (ae_gw env) (ae_now2 env) (ae_callErr env) i number) (op_answer (fail (ae_errText env))))"

definition handleCallHangup :: "'m api_env \<Rightarrow> http_request \<Rightarrow> 'm world \<Rightarrow> 'm handled" where
  "handleCallHangup env q = (case js_hangup (ae_json env) (limitBody q) of
     None \<Rightarrow> reads (http_Error invalid_json 400)
   | Some i \<Rightarrow> operates (HangupCall (ae_gw env) (ae_callErr env) i) (op_answer (\<lambda>e. http_Error (''{\"error\":'' @ Quote (ae_printable env) (ae_errText env e) @ ''}'') 500)))"

definition handleCallStatus :: "http_request \<Rightarrow> 'm world \<Rightarrow> 'm handled" where
  "handleCallStatus q w = reads (json_response 200 (BCallStatus (mgr_GetCallStatus (hq_ModemQuery q) (fst w)))) w"

definition handleMQTTStatus :: "'m api_env \<Rightarrow> 'm world \<Rightarrow> 'm handled" where
  "handleMQTTStatus env w = reads (json_response 200 (BMQTTStatus (GetMQTTStatus (ae_conn env) (fst w)))) w"

definition handleSendAT :: "'m api_env \<Rightarrow> http_request \<Rightarrow> 'm world \<Rightarrow> 'm handled" where
  "handleSendAT env q w = (case js_at (ae_json env) (limitBody q) of
     None \<Rightarrow> reads (http_Error invalid_json 400) w
   | Some (i, cmd) \<Rightarrow>
       (let (res, s1) = run_state (mgr_SendRawAT (ge_up (ae_gw env)) (ae_run env) i cmd (fst w)) (snd w)
        in ((fst w, s1), [],
            case res of Inl e \<Rightarrow> fail (ae_errText env) (EMgr e) | Inr (Inl e) \<Rightarrow> fail (ae_errText env) (EGw e)
            | Inr (Inr (Inl e)) \<Rightarrow> fail (ae_errText env) (EDrv e) | Inr (Inr (Inr reply)) \<Rightarrow> json_response 200 (BReply reply))))"

definition handleGetInbox :: "'m world \<Rightarrow> 'm handled" where
  "handleGetInbox w = reads (json_response 200 (BInbox (mgr_GetReceivedSMS (fst w)))) w"

text \<open>The modem whose history is cleared: the one of the body, else the one of the query.\<close>

definition clear_target :: "'m api_env \<Rightarrow> http_request \<Rightarrow> gostring" where
  "clear_target env q = (let i = js_modem (ae_json env) (limitBody q) in if i = [] then hq_ModemQuery q else i)"

definition clear_answer :: "'m api_env \<Rightarrow> mgr_error option \<Rightarrow> http_response" where
  "clear_answer env res = (case res of Some e \<Rightarrow> writeJSONError 400 (ae_errText env (EMgr e)) | None \<Rightarrow> json_response 200 BSuccess)"

definition handleClearInbox :: "'m api_env \<Rightarrow> http_request \<Rightarrow> 'm world \<Rightarrow> 'm handled" where
  "handleClearInbox env q = operates (mgr_ClearReceivedSMS (ae_gw env) (clear_target env q)) (clear_answer env)"

definition handleGetCallHistory :: "http_request \<Rightarrow> 'm world \<Rightarrow> 'm handled" where
  "handleGetCallHistory q w = reads (json_response 200 (BCalls (mgr_GetCallHistory (hq_ModemQuery q) (fst w)))) w"

definition handleClearCallHistory :: "'m api_env \<Rightarrow> http_request \<Rightarrow> 'm world \<Rightarrow> 'm handled" where
  "handleClearCallHistory env q = operates (mgr_ClearCallHistory (ae_gw env) (clear_target env q)) (clear_answer env)"

definition handleTariffStatus :: "'m api_env \<Rightarrow> http_request \<Rightarrow> 'm world \<Rightarrow> 'm handled" where
  "handleTariffStatus env q w = reads (case mgr_GetTariffStatus (hq_ModemQuery q) (fst w) of
     Inl e \<Rightarrow> fail (ae_errText env) (EMgr e) | Inr (Inl e) \<Rightarrow> fail (ae_errText env) (EGw e) | Inr (Inr st) \<Rightarrow> json_response 200 (BUsage st)) w"

text \<open>The configuration starts from zero values, not from the current one; the error of the second operation is ignored.\<close>

definition zero_tariff :: TariffConfig where
  "zero_tariff = \<lparr>tc_Enabled = False, tc_OperatorPreset = [], tc_BalanceUSSD = [], tc_BalanceRegex = [], tc_AutoCheckOnError = False,
     tc_CheckInterval = 0, tc_MinBalanceAlert = 0, tc_SMSLimit = 0, tc_CallMinutesLimit = 0, tc_DataTrafficLimitMB = 0, tc_ResetDayOfMonth = 0,
     tc_StorageDir = []\<rparr>"

definition config_of :: "tariff_request \<Rightarrow> TariffConfig" where
  "config_of q = zero_tariff\<lparr>tc_SMSLimit := given (tq_SMSLimit q) 0, tc_CallMinutesLimit := given (tq_CallMinutesLimit q) 0,
     tc_DataTrafficLimitMB := given (tq_DataTrafficLimitMB q) 0, tc_ResetDayOfMonth := given (tq_ResetDayOfMonth q) 0,
     tc_MinBalanceAlert := given (tq_MinBalanceAlert q) 0, tc_BalanceUSSD := given (tq_BalanceUSSD q) [],
     tc_OperatorPreset := given (tq_OperatorPreset q) []\<rparr>"

definition has_usage :: "UsageUpdate \<Rightarrow> bool" where
  "has_usage u \<longleftrightarrow> uu_SMSMonthCount u \<noteq> None \<or> uu_SMSDayCount u \<noteq> None \<or> uu_CallMinutesUsed u \<noteq> None \<or> uu_DataBytesUsed u \<noteq> None"

definition tariff_config_op :: "'m api_env \<Rightarrow> tariff_body \<Rightarrow> GatewayManager \<Rightarrow> GatewayManager \<times> mgr_effect list \<times> (mgr_error + gw_error option)" where
  "tariff_config_op env b m =
     (let (m1, effs, res) = mgr_UpdateTariffConfig (ae_gw env) (tb_ModemID b) (config_of (tb_request b)) m
      in case res of
           Inr None \<Rightarrow>
             if has_usage (tq_usage (tb_request b))
             then (let (m2, effs2, _) = mgr_SetTariffUsage (ae_gw env) (tb_ModemID b) (tq_usage (tb_request b)) m1 in (m2, effs @ effs2, res))
             else (m1, effs, res)
         | _ \<Rightarrow> (m1, effs, res))"

definition handleTariffConfig :: "'m api_env \<Rightarrow> http_request \<Rightarrow> 'm world \<Rightarrow> 'm handled" where
  "handleTariffConfig env q = (case js_tariff (ae_json env) (limitBody q) of
     None \<Rightarrow> reads (writeJSONError 400 ''invalid request json'')
   | Some b \<Rightarrow> operates (tariff_config_op env b) (op_answer (fail (ae_errText env))))"

definition handleTariffReset :: "'m api_env \<Rightarrow> http_request \<Rightarrow> 'm world \<Rightarrow> 'm handled" where
  "handleTariffReset env q = operates (mgr_ResetTariffQuotas (ae_gw env) (js_modem (ae_json env) (limitBody q))) (op_answer (fail (ae_errText env)))"

definition handleFavicon :: "'m world \<Rightarrow> 'm handled" where
  "handleFavicon = reads (secureHeaders \<lparr>hr_Status = 200, hr_Type = ''image/svg+xml'', hr_Secure = False, hr_Body = BFavicon\<rparr>)"

definition handleRootUI :: "http_request \<Rightarrow> 'm world \<Rightarrow> 'm handled" where
  "handleRootUI q =
     (if hq_Path q \<noteq> ''/'' then reads (http_Error ''404 page not found'' 404)
      else reads (secureHeaders \<lparr>hr_Status = 200, hr_Type = ''text/html; charset=utf-8'', hr_Secure = False, hr_Body = BDashboard\<rparr>))"

definition handleMetrics :: "'m world \<Rightarrow> 'm handled" where
  "handleMetrics = reads \<lparr>hr_Status = 200, hr_Type = ''text/plain; version=0.0.4; charset=utf-8'', hr_Secure = False, hr_Body = BMetrics\<rparr>"

section \<open>Routing\<close>

definition auth :: "ServerConfig \<Rightarrow> http_request \<Rightarrow> ('m world \<Rightarrow> 'm handled) \<Rightarrow> 'm world \<Rightarrow> 'm handled" where
  "auth cfg q next w =
     (if srv_Token cfg = []
      then reads (secureHeaders (http_Error ''{\"error\":\"forbidden\",\"message\":\"API token is required for this endpoint\"}'' 403)) w
      else if hq_Authorization q \<noteq> ''Bearer '' @ srv_Token cfg
      then reads (secureHeaders (http_Error ''{\"error\":\"unauthorized\"}'' 401)) w
      else (let (w1, effs, resp) = next w in (w1, effs, secureHeaders resp)))"

datatype route =
    RHealth | RMetrics | RModems | RSendSMS | RSendUSSD | RDial | RHangup | RCallStatus | RMQTTStatus | RSendAT | RInbox | RClearInbox
  | RCallHistory | RClearCallHistory | RTariffStatus | RTariffConfig | RTariffReset | RFavicon | RRoot

definition registerRoutes :: "(gostring \<times> gostring \<times> route) list" where
  "registerRoutes =
     [(''GET'', ''/health'', RHealth), (''GET'', ''/metrics'', RMetrics), (''GET'', ''/api/modems'', RModems), (''POST'', ''/api/sms/send'', RSendSMS),
      (''POST'', ''/api/ussd/send'', RSendUSSD), (''POST'', ''/api/call/dial'', RDial), (''POST'', ''/api/call/hangup'', RHangup),
      (''GET'', ''/api/call/status'', RCallStatus), (''GET'', ''/api/mqtt/status'', RMQTTStatus), (''POST'', ''/api/at/send'', RSendAT),
      (''GET'', ''/api/sms/inbox'', RInbox), (''POST'', ''/api/sms/inbox/clear'', RClearInbox), (''GET'', ''/api/call/history'', RCallHistory),
      (''POST'', ''/api/call/history/clear'', RClearCallHistory), (''GET'', ''/api/tariff/status'', RTariffStatus),
      (''POST'', ''/api/tariff/config'', RTariffConfig), (''POST'', ''/api/tariff/reset'', RTariffReset), (''GET'', ''/favicon.ico'', RFavicon)]"

definition admits :: "gostring \<Rightarrow> gostring \<Rightarrow> bool" where
  "admits pattern_method method \<longleftrightarrow> method = pattern_method \<or> pattern_method = ''GET'' \<and> method = ''HEAD''"

definition route_of :: "http_request \<Rightarrow> route option" where
  "route_of q = (case filter (\<lambda>(me, path, _). admits me (hq_Method q) \<and> path = hq_Path q) registerRoutes of
     (_, _, r) # _ \<Rightarrow> Some r
   | [] \<Rightarrow> if admits ''GET'' (hq_Method q) then Some RRoot else None)"

fun handler_of :: "ServerConfig \<Rightarrow> 'm api_env \<Rightarrow> http_request \<Rightarrow> route \<Rightarrow> 'm world \<Rightarrow> 'm handled" where
  "handler_of cfg env q RHealth = handleHealth"
| "handler_of cfg env q RMetrics = handleMetrics"
| "handler_of cfg env q RModems = auth cfg q handleGetModems"
| "handler_of cfg env q RSendSMS = auth cfg q (handleSendSMS env q)"
| "handler_of cfg env q RSendUSSD = auth cfg q (handleSendUSSD env q)"
| "handler_of cfg env q RDial = auth cfg q (handleCallDial env q)"
| "handler_of cfg env q RHangup = auth cfg q (handleCallHangup env q)"
| "handler_of cfg env q RCallStatus = auth cfg q (handleCallStatus q)"
| "handler_of cfg env q RMQTTStatus = auth cfg q (handleMQTTStatus env)"
| "handler_of cfg env q RSendAT = auth cfg q (handleSendAT env q)"
| "handler_of cfg env q RInbox = auth cfg q handleGetInbox"
| "handler_of cfg env q RClearInbox = auth cfg q (handleClearInbox env q)"
| "handler_of cfg env q RCallHistory = auth cfg q (handleGetCallHistory q)"
| "handler_of cfg env q RClearCallHistory = auth cfg q (handleClearCallHistory env q)"
| "handler_of cfg env q RTariffStatus = auth cfg q (handleTariffStatus env q)"
| "handler_of cfg env q RTariffConfig = auth cfg q (handleTariffConfig env q)"
| "handler_of cfg env q RTariffReset = auth cfg q (handleTariffReset env q)"
| "handler_of cfg env q RFavicon = handleFavicon"
| "handler_of cfg env q RRoot = handleRootUI q"

definition ServeHTTP :: "ServerConfig \<Rightarrow> 'm api_env \<Rightarrow> http_request \<Rightarrow> 'm world \<Rightarrow> 'm handled" where
  "ServeHTTP cfg env q = (case route_of q of Some r \<Rightarrow> handler_of cfg env q r | None \<Rightarrow> reads (http_Error ''Method Not Allowed'' 405))"

text \<open>The preview of a raw command that is logged.\<close>

definition previewAT :: "gostring \<Rightarrow> gostring" where
  "previewAT cmd =
     (let verb = takeWhile (\<lambda>c. c \<notin> {CHR ''='', CHR ''?'', CHR '' '', CHR '';''}) cmd
      in if verb \<noteq> cmd then verb else if 16 < length cmd then take 16 cmd else cmd)"

section \<open>Authorisation\<close>

definition authorised :: "ServerConfig \<Rightarrow> http_request \<Rightarrow> bool" where
  "authorised cfg q \<longleftrightarrow> srv_Token cfg \<noteq> [] \<and> hq_Authorization q = ''Bearer '' @ srv_Token cfg"

fun open_route :: "route \<Rightarrow> bool" where
  "open_route r \<longleftrightarrow> r = RHealth \<or> r = RMetrics \<or> r = RFavicon \<or> r = RRoot"

text \<open>The operation behind a route.\<close>

fun operation :: "'m api_env \<Rightarrow> http_request \<Rightarrow> route \<Rightarrow> 'm world \<Rightarrow> 'm handled" where
  "operation env q RModems = handleGetModems"
| "operation env q RSendSMS = handleSendSMS env q"
| "operation env q RSendUSSD = handleSendUSSD env q"
| "operation env q RDial = handleCallDial env q"
| "operation env q RHangup = handleCallHangup env q"
| "operation env q RCallStatus = handleCallStatus q"
| "operation env q RMQTTStatus = handleMQTTStatus env"
| "operation env q RSendAT = handleSendAT env q"
| "operation env q RInbox = handleGetInbox"
| "operation env q RClearInbox = handleClearInbox env q"
| "operation env q RCallHistory = handleGetCallHistory q"
| "operation env q RClearCallHistory = handleClearCallHistory env q"
| "operation env q RTariffStatus = handleTariffStatus env q"
| "operation env q RTariffConfig = handleTariffConfig env q"
| "operation env q RTariffReset = handleTariffReset env q"
| "operation env q _ = handleHealth"

lemmas response_defs = reads_def json_response_def http_Error_def writeJSONError_def secureHeaders_def fail_def

lemma handler_protected: "\<not> open_route r \<Longrightarrow> handler_of cfg env q r = auth cfg q (operation env q r)"
  by (cases r) simp_all

lemma handler_open: "open_route r \<Longrightarrow> \<exists>resp. handler_of cfg env q r = reads resp \<and> hr_Status resp \<in> {200, 404}"
  by (cases r) (auto simp: handleHealth_def handleMetrics_def handleFavicon_def handleRootUI_def response_defs)

lemma auth_ok: "authorised cfg q \<Longrightarrow> auth cfg q next w = (let (w1, effs, resp) = next w in (w1, effs, secureHeaders resp))"
  by (simp add: authorised_def auth_def)

lemma auth_fails:
  "\<not> authorised cfg q \<Longrightarrow> \<exists>resp. auth cfg q next = reads resp \<and> hr_Secure resp \<and> hr_Status resp = (if srv_Token cfg = [] then 403 else 401)"
  by (auto simp: authorised_def auth_def response_defs fun_eq_iff)

lemma operation_status: "hr_Status (snd (snd (operation env q r w))) \<in> {200, 400, 500}"
  by (cases r)
    (simp_all add: op_answer_def clear_answer_def handleGetModems_def handleSendSMS_def handleSendUSSD_def handleCallDial_def handleCallHangup_def handleCallStatus_def handleMQTTStatus_def
      handleSendAT_def handleGetInbox_def handleClearInbox_def handleGetCallHistory_def handleClearCallHistory_def handleTariffStatus_def
      handleTariffConfig_def handleTariffReset_def handleHealth_def operates_def response_defs Let_def split_beta split: option.split sum.split)

lemma registered:
  "route_of q = Some r \<Longrightarrow> r \<noteq> RRoot \<Longrightarrow> \<exists>me. (me, hq_Path q, r) \<in> set registerRoutes"
proof -
  assume "route_of q = Some r" "r \<noteq> RRoot"
  then obtain me path rest where "filter (\<lambda>(me, path, _). admits me (hq_Method q) \<and> path = hq_Path q) registerRoutes = (me, path, r) # rest"
    by (auto simp: route_of_def split: list.splits if_splits)
  then have "(me, path, r) \<in> set (filter (\<lambda>(me, path, _). admits me (hq_Method q) \<and> path = hq_Path q) registerRoutes)" by simp
  then show ?thesis by auto
qed

lemma api_routes: "(me, path, r) \<in> set registerRoutes \<Longrightarrow> HasPrefix path ''/api'' \<longleftrightarrow> \<not> open_route r"
proof -
  have "list_all (\<lambda>(me, path, r). HasPrefix path ''/api'' \<longleftrightarrow> \<not> open_route r) registerRoutes" by code_simp
  then show "(me, path, r) \<in> set registerRoutes \<Longrightarrow> HasPrefix path ''/api'' \<longleftrightarrow> \<not> open_route r" by (auto simp: list_all_iff)
qed


section \<open>What a request does to the gateway\<close>

text \<open>The abstract specification: the operations of the manager that a request stands for.\<close>

fun route_events :: "'m api_env \<Rightarrow> http_request \<Rightarrow> route \<Rightarrow> mgr_event list" where
  "route_events env q RSendSMS = (case js_sms (ae_json env) (limitBody q) of
     Some (i, to, msg) \<Rightarrow> [MModem i (ae_gw env) (GSendSMS (ae_sender env) (ae_clk env) to msg)] | None \<Rightarrow> [])"
| "route_events env q RSendUSSD = (case js_ussd (ae_json env) (limitBody q) of
     Some (i, code) \<Rightarrow> [MModem i (ae_gw env) (GSendUSSD (ae_ussd env))] | None \<Rightarrow> [])"
| "route_events env q RDial = (case js_dial (ae_json env) (limitBody q) of
     Some (i, number) \<Rightarrow> [MModem i (ae_gw env) (GDial (ae_now2 env) (ae_callErr env) number)] | None \<Rightarrow> [])"
| "route_events env q RHangup = (case js_hangup (ae_json env) (limitBody q) of
     Some i \<Rightarrow> [MModem i (ae_gw env) (GHangupCommand (ae_callErr env))] | None \<Rightarrow> [])"
| "route_events env q RClearInbox = [MClearSMS (ae_gw env) (clear_target env q)]"
| "route_events env q RClearCallHistory = [MClearCalls (ae_gw env) (clear_target env q)]"
| "route_events env q RTariffConfig = (case js_tariff (ae_json env) (limitBody q) of
     Some b \<Rightarrow> MModem (tb_ModemID b) (ae_gw env) (GUpdateTariff (config_of (tb_request b)))
       # (if has_usage (tq_usage (tb_request b)) then [MModem (tb_ModemID b) (ae_gw env) (GSetUsage (tq_usage (tb_request b)))] else [])
   | None \<Rightarrow> [])"
| "route_events env q RTariffReset = [MModem (js_modem (ae_json env) (limitBody q)) (ae_gw env) GTariffReset]"
| "route_events env q _ = []"

definition api_events :: "ServerConfig \<Rightarrow> 'm api_env \<times> http_request \<Rightarrow> mgr_event list" where
  "api_events cfg eq = (case eq of (env, q) \<Rightarrow>
     case route_of q of Some r \<Rightarrow> if authorised cfg q then route_events env q r else [] | None \<Rightarrow> [])"

definition api_step :: "ServerConfig \<Rightarrow> 'm api_env \<times> http_request \<Rightarrow> 'm world \<Rightarrow> 'm world \<times> mgr_effect list \<times> http_response" where
  "api_step cfg eq w = (case eq of (env, q) \<Rightarrow> ServeHTTP cfg env q w)"

abbreviation events_result :: "mgr_event list \<Rightarrow> GatewayManager \<Rightarrow> GatewayManager \<times> mgr_effect list" where
  "events_result es m \<equiv> (fst (run mgr_step es m), concat (snd (run mgr_step es m)))"

lemma hangup_event: "outcome (HangupCall env err i m) = mgr_step (MModem i env (GHangupCommand err)) m"
  by (simp add: HangupCall_def hangupHandler_def at_runner_def modem_op_def Let_def split_beta split: sum.split)

lemma reset_event: "outcome (mgr_ResetTariffQuotas env i m) = mgr_step (MModem i env GTariffReset) m"
  by (simp add: mgr_ResetTariffQuotas_def ResetTariffQuotas_def tariffResetHandler_def at_runner_def modem_op_def Let_def split_beta
      split: sum.split option.split)

lemma operates_eq [simp]: "operates f answer w = ((fst (f (fst w)), snd w), fst (snd (f (fst w))), answer (snd (snd (f (fst w)))))"
  by (simp add: operates_def split_beta Let_def)

text \<open>Setting the counters changes nothing when the configuration could not be set.\<close>

lemma findRunner_again:
  assumes "findRunner i m = Inr (j, r)"
  shows "findRunner i (m\<lparr>gm_runners := AList.update j r1 (gm_runners m)\<rparr>) = Inr (j, r1)"
  using assms by (auto simp: findRunner_def update_conv' split: option.splits list.splits if_splits)

lemma set_usage_failed:
  assumes "mgr_UpdateTariffConfig env i c m = (m1, effs, res)" "res \<noteq> Inr None"
  shows "effs = [] \<and> outcome (mgr_SetTariffUsage env i u m1) = (m1, [])"
proof (cases "findRunner i m")
  case (Inl e)
  then show ?thesis using assms by (auto simp: mgr_UpdateTariffConfig_def mgr_SetTariffUsage_def at_runner_def)
next
  case (Inr jr)
  obtain j r where jr: "jr = (j, r)" by fastforce
  have t: "rn_tariff r = None"
    using assms by (auto simp: mgr_UpdateTariffConfig_def at_runner_def Inr jr UpdateTariffConfig_def Let_def split: option.splits)
  then have m1: "m1 = m\<lparr>gm_runners := AList.update j r (gm_runners m)\<rparr>" "effs = []"
    using assms(1) by (auto simp: mgr_UpdateTariffConfig_def at_runner_def Inr jr UpdateTariffConfig_def)
  show ?thesis
    using findRunner_again [OF Inr [unfolded jr], of r] t by (simp add: m1 mgr_SetTariffUsage_def at_runner_def SetTariffUsage_def)
qed

lemma tariff_config_events:
  "outcome (tariff_config_op env b m) =
     events_result (MModem (tb_ModemID b) (ae_gw env) (GUpdateTariff (config_of (tb_request b)))
       # (if has_usage (tq_usage (tb_request b)) then [MModem (tb_ModemID b) (ae_gw env) (GSetUsage (tq_usage (tb_request b)))] else [])) m"
proof -
  obtain m1 effs res where u: "mgr_UpdateTariffConfig (ae_gw env) (tb_ModemID b) (config_of (tb_request b)) m = (m1, effs, res)" by (rule prod_cases3)
  have first: "mgr_step (MModem (tb_ModemID b) (ae_gw env) (GUpdateTariff (config_of (tb_request b)))) m = (m1, effs)"
    using u by (simp only: api_steps [symmetric] prod.sel)
  show ?thesis
    using set_usage_failed [OF u, of "tq_usage (tb_request b)"]
    by (auto simp: tariff_config_op_def u first api_steps [symmetric] Let_def split_beta simp del: mgr_step.simps split: sum.split option.split)
qed

lemma operation_events:
  assumes "\<not> open_route r"
  shows "(fst (fst (operation env q r w)), fst (snd (operation env q r w))) = events_result (route_events env q r) (fst w)"
proof -
  note ev = api_steps [symmetric] hangup_event [symmetric] reset_event [symmetric]
  show ?thesis
  proof (cases "r = RTariffConfig")
    case True
    then show ?thesis
    proof (cases "js_tariff (ae_json env) (limitBody q)")
      case (Some b)
      show ?thesis
        unfolding True operation.simps route_events.simps handleTariffConfig_def Some option.case operates_eq prod.sel by (rule tariff_config_events)
    qed (simp add: handleTariffConfig_def reads_def)
  next
    case False
    with assms show ?thesis
      by (cases r)
        (auto simp: handleGetModems_def handleSendSMS_def handleSendUSSD_def handleCallDial_def handleCallHangup_def handleCallStatus_def
          handleMQTTStatus_def handleSendAT_def handleGetInbox_def handleClearInbox_def handleGetCallHistory_def handleClearCallHistory_def
          handleTariffStatus_def handleTariffReset_def reads_def Let_def split_beta ev
          simp del: mgr_step.simps(1) split: option.split)
  qed
qed


section \<open>Bodies that are not understood, and fields that are left out\<close>

lemma cleared: "rn_received (fst (ClearReceivedSMS env r)) = []"
  by (simp add: ClearReceivedSMS_def saveInboxLocked_def Let_def)


text \<open>Property C38. A request to the API that gives only a new SMS limit also sets the limits of call minutes and data and the balance threshold
  to zero, that is, to unlimited and off, because the configuration is built from zero values; the same fields sent to the MQTT topic leave the other
  limits as they are.
\<close>

theorem api_limits_erased:
  assumes "authorised cfg q" "hq_Method q = ''POST''" "hq_Path q = ''/api/tariff/config''"
    "js_tariff (ae_json env) (limitBody q) = Some \<lparr>tb_ModemID = i, tb_request = req\<rparr>"
    "req = \<lparr>tq_SMSLimit = Some n, tq_CallMinutesLimit = None, tq_DataTrafficLimitMB = None, tq_ResetDayOfMonth = None, tq_MinBalanceAlert = None,
      tq_BalanceUSSD = None, tq_OperatorPreset = None,
      tq_usage = \<lparr>uu_SMSDayCount = None, uu_SMSMonthCount = None, uu_CallMinutesUsed = None, uu_DataBytesUsed = None\<rparr>\<rparr>"
    "0 \<le> n" "findRunner i (fst w) = Inr (j, r)" "rn_tariff r = Some tm"
    "0 \<le> tc_CallMinutesLimit (GetConfig tm)" "0 \<le> tc_DataTrafficLimitMB (GetConfig tm)" "0 \<le> tc_MinBalanceAlert (GetConfig tm)"
  shows "(case ServeHTTP cfg env q w of (w', effs, resp) \<Rightarrow> hr_Status resp = 200
      \<and> (\<exists>r' tm'. map_of (gm_runners (fst w')) j = Some r' \<and> rn_tariff r' = Some tm'
            \<and> GetConfig tm' = (GetConfig tm)\<lparr>tc_SMSLimit := n, tc_CallMinutesLimit := 0, tc_DataTrafficLimitMB := 0, tc_MinBalanceAlert := 0\<rparr>))
    \<and> GetConfig (the (rn_tariff (fst (tariffSetHandler (ae_gw env) (Some req) r)))) = (GetConfig tm)\<lparr>tc_SMSLimit := n\<rparr>"
proof -
  have route: "route_of q = Some RTariffConfig" using assms(2,3) by (simp add: route_of_def registerRoutes_def admits_def)
  have "case ServeHTTP cfg env q w of (w', effs, resp) \<Rightarrow> hr_Status resp = 200
      \<and> (\<exists>r' tm'. map_of (gm_runners (fst w')) j = Some r' \<and> rn_tariff r' = Some tm'
            \<and> GetConfig tm' = (GetConfig tm)\<lparr>tc_SMSLimit := n, tc_CallMinutesLimit := 0, tc_DataTrafficLimitMB := 0, tc_MinBalanceAlert := 0\<rparr>)"
    using route assms(4-8)
    by (simp add: ServeHTTP_def auth_ok [OF assms(1)] handleTariffConfig_def tariff_config_op_def has_usage_def mgr_UpdateTariffConfig_def at_runner_def
        UpdateTariffConfig_def op_answer_def response_defs config_of_def zero_tariff_def given_def GetConfig_def UpdateConfig_def
        update_conv' Let_def split_beta)
  moreover have "GetConfig (the (rn_tariff (fst (tariffSetHandler (ae_gw env) (Some req) r)))) = (GetConfig tm)\<lparr>tc_SMSLimit := n\<rparr>"
    using assms(5,6,8-11) by (auto simp: tariffSetHandler_def given_def GetConfig_def UpdateConfig_def Let_def)
  ultimately show ?thesis ..
qed

text \<open>A gateway with one modem, and a request with the token.\<close>

abbreviation demo_server :: ServerConfig where
  "demo_server \<equiv> \<lparr>srv_Host = ''0.0.0.0'', srv_Port = 8088, srv_Token = ''secret''\<rparr>"

abbreviation post_request :: "gostring \<Rightarrow> gostring \<Rightarrow> http_request" where
  "post_request path body \<equiv> \<lparr>hq_Method = ''POST'', hq_Path = path, hq_Authorization = ''Bearer secret'', hq_ModemQuery = [], hq_Body = body\<rparr>"

abbreviation demo_limit :: tariff_request where
  "demo_limit \<equiv> \<lparr>tq_SMSLimit = Some 200, tq_CallMinutesLimit = None, tq_DataTrafficLimitMB = None, tq_ResetDayOfMonth = None, tq_MinBalanceAlert = None,
     tq_BalanceUSSD = None, tq_OperatorPreset = None,
     tq_usage = \<lparr>uu_SMSDayCount = None, uu_SMSMonthCount = None, uu_CallMinutesUsed = None, uu_DataBytesUsed = None\<rparr>\<rparr>"

definition demo_json :: api_json where
  "demo_json = \<lparr>js_sms = (\<lambda>_. None), js_ussd = (\<lambda>_. None), js_dial = (\<lambda>_. None), js_hangup = (\<lambda>_. None), js_at = (\<lambda>_. None),
     js_tariff = (\<lambda>b. if b = ''{}'' then Some \<lparr>tb_ModemID = ''m1'', tb_request = demo_limit\<rparr> else None), js_modem = (\<lambda>_. [])\<rparr>"

definition demo_api :: "unit api_env" where
  "demo_api = \<lparr>ae_gw = demo_gw, ae_sender = (\<lambda>_ _ _. Inr 1), ae_clk = (\<lambda>_. 0), ae_ussd = Inl ErrUSSDTimeout, ae_now2 = 0, ae_callErr = None,
     ae_run = (\<lambda>_. State (\<lambda>m. (Inr \<lparr>Lines = [], RespOK = True, RespError = False\<rparr>, m))), ae_conn = True, ae_errText = (\<lambda>_. ''failed''), ae_printable = (\<lambda>_. True),
     ae_json = demo_json\<rparr>"

abbreviation demo_world :: "unit world" where
  "demo_world \<equiv> (NewGatewayManager\<lparr>gm_runners := [(''m1'', demo_wired)], gm_order := [''m1'']\<rparr>, ())"



theorem api_limits_erased_witness:
  "\<exists>r' tm'. map_of (gm_runners (fst (fst (ServeHTTP demo_server demo_api (post_request ''/api/tariff/config'' ''{}'') demo_world)))) ''m1'' = Some r'
     \<and> rn_tariff r' = Some tm' \<and> GetConfig tm' = (GetConfig demo_tm)\<lparr>tc_SMSLimit := 200, tc_CallMinutesLimit := 0, tc_DataTrafficLimitMB := 0, tc_MinBalanceAlert := 0\<rparr>"
proof -
  let ?q = "post_request ''/api/tariff/config'' ''{}''"
  have "authorised demo_server ?q" by (simp add: authorised_def)
  moreover have "js_tariff (ae_json demo_api) (limitBody ?q) = Some \<lparr>tb_ModemID = ''m1'', tb_request = demo_limit\<rparr>"
    by (simp add: demo_api_def demo_json_def limitBody_def maxRequestBodyBytes_def)
  moreover have "findRunner ''m1'' (fst demo_world) = Inr (''m1'', demo_wired)" by (simp add: findRunner_def)
  moreover have "0 \<le> tc_CallMinutesLimit (GetConfig demo_tm)" "0 \<le> tc_DataTrafficLimitMB (GetConfig demo_tm)" "0 \<le> tc_MinBalanceAlert (GetConfig demo_tm)"
    unfolding GetConfig_def demo_tm_simps(1) by (simp_all add: demo_tariff_def)
  ultimately show ?thesis
    using api_limits_erased [where cfg = demo_server and env = demo_api and q = ?q and w = demo_world and i = "''m1''" and req = demo_limit and n = 200
        and j = "''m1''" and r = demo_wired and tm = demo_tm] by (simp add: split_beta)
qed

end
