(* ===== verification/Program.thy ===== *)
theory Program
  imports Discovery HTTP_API Timezone MQTT_Variants
begin

text \<open>
  The program from its start to its end (\<^verbatim>\<open>cmd/gsm2mqtt/main.go\<close>): arguments, time zone, configuration, connection to the
  broker, the gateway, the HTTP API, and the order in which it shuts down. The world of files and variables is the one of the configuration;
  the database of time zones, the files that name the zone, and what becomes of the connection to the broker are arguments. A step is what the
  program does that can be seen from outside; logging, and the signal that ends it, are left out.
\<close>

section \<open>From start to end\<close>

datatype program_step =
    PrintVersion
  | SetLocal location
  | SetLogLevel log_level
  | Connecting PahoClient
  | Managing GatewayManager "Pool option"
  | Serving ServerConfig
  | PublishStatus gostring byte gostring
  | Disconnecting nat

record program_env =
  pe_args :: "gostring list"
  pe_configEnv :: "gostring \<times> gostring"
  pe_isFile :: "gostring \<Rightarrow> bool"
  pe_world :: Config.world
  pe_lo :: "rune \<Rightarrow> rune"
  pe_up :: "rune \<Rightarrow> rune"
  pe_duration :: "gostring \<Rightarrow> duration option"
  pe_float :: "gostring \<Rightarrow> rat option"
  pe_zones :: "gostring \<Rightarrow> location option"
  pe_zoneFiles :: "gostring option \<times> gostring option"
  pe_recipients :: "bool \<times> gostring list option"
  pe_histories :: history_files
  pe_token :: token

definition program_location :: "program_env \<Rightarrow> gostring \<Rightarrow> gostring + location" where
  "program_location env = ResolveLocation (pe_zones env) (w_env (pe_world env) ''TZ'') (fst (pe_zoneFiles env)) (snd (pe_zoneFiles env))"

text \<open>The zone of the configuration, else the one found without it.\<close>

definition local_steps :: "program_env \<Rightarrow> gostring \<Rightarrow> program_step list" where
  "local_steps env tz = (case program_location env [] of
     Inl _ \<Rightarrow> (case program_location env tz of Inr loc \<Rightarrow> [SetLocal loc] | Inl _ \<Rightarrow> [])
   | Inr loc0 \<Rightarrow> [SetLocal loc0, SetLocal (case program_location env tz of Inr loc \<Rightarrow> loc | Inl _ \<Rightarrow> loc0)])"

definition initial_steps :: "program_env \<Rightarrow> program_step list" where
  "initial_steps env = (case program_location env [] of Inr loc \<Rightarrow> [SetLocal loc] | Inl _ \<Rightarrow> [])"

definition startAPIServer :: "Config \<Rightarrow> ServerConfig" where
  "startAPIServer cfg = \<lparr>srv_Host = api_Host (cfg_API cfg), srv_Port = api_Port (cfg_API cfg), srv_Token = api_Token (cfg_API cfg)\<rparr>"

text \<open>The gateway runs until it is told to stop; then it announces the program as offline and takes its leave of the broker.\<close>

definition run_gateway :: "program_env \<Rightarrow> Config \<Rightarrow> int \<times> program_step list" where
  "run_gateway env cfg = (case NewPahoClient (initMQTT cfg) of
     Inl _ \<Rightarrow> (1, [])
   | Inr client \<Rightarrow>
       (case snd (PahoConnect (pe_token env) client) of
          Some _ \<Rightarrow> (1, [Connecting client])
        | None \<Rightarrow>
            (0, [Connecting client,
                 Managing (startGateway (pe_up env) (pe_histories env) (fst (pe_recipients env)) (snd (pe_recipients env)) cfg) (initPool cfg)]
              @ (if api_Enabled (cfg_API cfg) then [Serving (startAPIServer cfg)] else [])
              @ [PublishStatus (mq_TopicPrefix (cfg_MQTT cfg) @ ''/status'') (word_of_int (mq_QoS (cfg_MQTT cfg))) ''offline'', Disconnecting 250])))"

definition load_config :: "program_env \<Rightarrow> config_error + Config" where
  "load_config env = Load (pe_lo env) (pe_duration env) (pe_float env) (pe_world env)
     (configPath (pe_args env) (fst (pe_configEnv env)) (snd (pe_configEnv env)) (pe_isFile env))"

definition main_run :: "program_env \<Rightarrow> int \<times> program_step list" where
  "main_run env =
     (if isVersionFlag (drop 1 (pe_args env)) then (0, [PrintVersion])
      else case load_config env of
        Inl _ \<Rightarrow> (1, initial_steps env)
      | Inr cfg \<Rightarrow>
          (let (code, steps) = run_gateway env cfg
           in (code, local_steps env (cfg_Timezone cfg) @ [SetLogLevel (parseLogLevel (cfg_LogLevel cfg))] @ steps)))"

section \<open>A configuration that loads can be connected\<close>

lemma Load_valid: "Load lo pd pf w path = Inr cfg \<Longrightarrow> config_ok cfg"
  unfolding validate_iff [symmetric] Load_def Let_def bind_res_eq_Inr by (auto split: option.splits)

lemma colon_visible:
  assumes "CHR '':'' \<in> set s"
  shows "TrimSpace s \<noteq> []"
proof -
  obtain a b where "s = a @ CHR '':'' # b" using assms by (meson split_list)
  then have "segs (bytes_of s) = segs (bytes_of a) @ (58, [58]) # segs (bytes_of b)"
    by (simp add: bytes_of_def segs_stop segs_small)
  then have "58 \<in> set (runes s)" by (simp add: runes_def)
  moreover have "\<not> IsSpace 58" by code_simp
  ultimately show ?thesis by (auto simp: TrimSpace_eq_Nil list_all_iff)
qed

lemma Contains_colon: "Contains s '':'' \<Longrightarrow> CHR '':'' \<in> set s"
  unfolding Contains_def by (induction s) (auto simp: HasPrefix_def split: if_splits)

lemma brokerURI_visible: "0 < mq_Port c \<Longrightarrow> TrimSpace (brokerURI c) \<noteq> []"
  by (rule colon_visible) (auto simp: brokerURI_def dest: Contains_colon)

text \<open>The topic and the quality of service of the messages about the program itself.\<close>

abbreviation status_topic :: "Config \<Rightarrow> gostring" where
  "status_topic cfg \<equiv> mq_TopicPrefix (cfg_MQTT cfg) @ ''/status''"

abbreviation status_qos :: "Config \<Rightarrow> byte" where
  "status_qos cfg \<equiv> word_of_int (mq_QoS (cfg_MQTT cfg))"

lemma loaded_client:
  assumes "config_ok cfg"
  shows "\<exists>client. NewPahoClient (initMQTT cfg) = Inr client
    \<and> po_Will (ph_opts client) = Some \<lparr>wl_Topic = status_topic cfg, wl_Message = ''offline'', wl_Qos = status_qos cfg, wl_Retain = True\<rparr>"
proof -
  have q: "mq_QoS (cfg_MQTT cfg) \<in> {0, 1, 2}" using assms by (auto simp: config_ok_def)
  have "TrimSpace (brokerURI (cfg_MQTT cfg)) \<noteq> []" using assms brokerURI_visible by (auto simp: config_ok_def)
  moreover have "\<not> (2 :: byte) < word_of_int (mq_QoS (cfg_MQTT cfg))" using q by auto
  ultimately have "ValidateConfig (initMQTT cfg) = None" by (simp add: ValidateConfig_def initMQTT_def Let_def)
  then show ?thesis by (simp add: NewPahoClient_def will_of_def initMQTT_def Let_def)
qed

lemma run_gateway_steps:
  assumes "NewPahoClient (initMQTT cfg) = Inr client"
  shows "\<exists>pre. run_gateway env cfg = (if pe_token env = TokenOK
    then (0, Connecting client # pre @ [PublishStatus (status_topic cfg) (status_qos cfg) ''offline'', Disconnecting 250])
    else (1, [Connecting client]))"
  using assms by (cases "pe_token env") (auto simp: run_gateway_def PahoConnect_def token_result_def)

text \<open>Property C11. A configuration that loads can be started. Unless it only prints its version, the program ends with code 1 before it does anything
  else when the configuration does not load; when it loads, the broker address and the quality of service are always such that the client can be made, and
  what happens next depends on the connection alone: without it the program ends with code 1, with it the program runs and at its end, with code 0, it
  publishes \<^verbatim>\<open>offline\<close> and disconnects. That message is the will of its session, and goes to the topic on which it
  announces itself as online at every connection.
\<close>

theorem program_start:
  "case main_run env of (code, steps) \<Rightarrow>
     if isVersionFlag (drop 1 (pe_args env)) then code = 0 \<and> steps = [PrintVersion]
     else case load_config env of
       Inl _ \<Rightarrow> code = 1 \<and> steps = initial_steps env
     | Inr cfg \<Rightarrow> \<exists>client pre topic qos. NewPahoClient (initMQTT cfg) = Inr client
         \<and> po_Will (ph_opts client) = Some \<lparr>wl_Topic = topic, wl_Message = ''offline'', wl_Qos = qos, wl_Retain = True\<rparr>
         \<and> hd (onConnect ver conn infos cfg m) = PubOnline topic ''online''
         \<and> (if pe_token env = TokenOK
             then code = 0 \<and> Connecting client \<in> set pre \<and> steps = pre @ [PublishStatus topic qos ''offline'', Disconnecting 250]
             else code = 1 \<and> steps = pre @ [Connecting client])"
proof (cases "isVersionFlag (drop 1 (pe_args env))")
  case False
  show ?thesis
  proof (cases "load_config env")
    case (Inr cfg)
    then have "config_ok cfg" unfolding load_config_def by (rule Load_valid)
    then obtain client where client: "NewPahoClient (initMQTT cfg) = Inr client" "po_Will (ph_opts client) = Some \<lparr>wl_Topic = status_topic cfg,
      wl_Message = ''offline'', wl_Qos = status_qos cfg, wl_Retain = True\<rparr>" using loaded_client by blast
    have online: "hd (onConnect ver conn infos cfg m) = PubOnline (status_topic cfg) ''online''" by (simp add: onConnect_def)
    obtain pre where "run_gateway env cfg = (if pe_token env = TokenOK
        then (0, Connecting client # pre @ [PublishStatus (status_topic cfg) (status_qos cfg) ''offline'', Disconnecting 250])
        else (1, [Connecting client]))"
      using run_gateway_steps [OF client(1)] by blast
    then have main: "main_run env = (if pe_token env = TokenOK then 0 else 1, local_steps env (cfg_Timezone cfg) @ [SetLogLevel (parseLogLevel (cfg_LogLevel cfg))]
        @ (if pe_token env = TokenOK then (Connecting client # pre) @ [PublishStatus (status_topic cfg) (status_qos cfg) ''offline'', Disconnecting 250]
           else [Connecting client]))"
      using False Inr by (simp add: main_run_def)
    let ?pre = "local_steps env (cfg_Timezone cfg) @ [SetLogLevel (parseLogLevel (cfg_LogLevel cfg))] @ (if pe_token env = TokenOK then Connecting client # pre else [])"
    show ?thesis
      unfolding main Inr prod.case sum.case if_not_P [OF False]
      using client online by (intro exI [of _ client] exI [of _ ?pre] exI [of _ "status_topic cfg"] exI [of _ "status_qos cfg"] conjI) simp_all
  qed (use False in \<open>simp add: main_run_def\<close>)
qed (simp add: main_run_def)

end
